(* ===== verification/Prelude.thy ===== *)
theory Prelude
  imports Main "HOL-Library.List_Lexorder" "HOL-Library.Char_ord"
begin

text \<open>
  Shared vocabulary of the development: the type names of the model, the collections of
  rewrite rules its components feed, and the generic facts on lists, options and maps that
  more than one component needs.

  Conventions. A Python \<open>str\<close> is a \<^typ>\<open>string\<close>, read as a sequence of code points below 256
  (Latin-1); a Python \<open>int\<close> is an \<^typ>\<open>int\<close>; a \<open>datetime\<close> is the number of microseconds since
  an epoch; an optional value is an \<open>option\<close>; an exception is the left injection of a sum.
\<close>

section \<open>Types of the model\<close>

type_synonym py_str = string
type_synonym datetime = int
type_synonym ('e, 'a) result = "'e + 'a"

section \<open>Rule collections\<close>

named_theorems vocabulary \<open>closed vocabularies: membership of frozen sets, enum values\<close>
named_theorems lifecycle_simps \<open>one-step behaviour of lifecycle operations\<close>
named_theorems ledger_simps \<open>frame rules of the provider ledger\<close>
named_theorems cas_simps \<open>compare-and-swap behaviour of the durable store\<close>

section \<open>Options and results\<close>

definition option_or :: "'a option \<Rightarrow> 'a \<Rightarrow> 'a" where
  "option_or x d = (case x of None \<Rightarrow> d | Some y \<Rightarrow> y)"

lemma option_or_simps [simp]:
  "option_or None d = d"
  "option_or (Some y) d = y"
  by (simp_all add: option_or_def)

definition bind_result :: "('e, 'a) result \<Rightarrow> ('a \<Rightarrow> ('e, 'b) result) \<Rightarrow> ('e, 'b) result" where
  "bind_result r f = (case r of Inl e \<Rightarrow> Inl e | Inr x \<Rightarrow> f x)"

lemma bind_result_simps [simp]:
  "bind_result (Inl e) f = Inl e"
  "bind_result (Inr x) f = f x"
  by (simp_all add: bind_result_def)

lemma bind_result_Inr_iff:
  "bind_result r f = Inr y \<longleftrightarrow> (\<exists>x. r = Inr x \<and> f x = Inr y)"
  by (cases r) simp_all

text \<open>A write-once field: it may be set, and then never changes.\<close>

definition sticky :: "'a option \<Rightarrow> 'a option \<Rightarrow> bool" where
  "sticky x y \<longleftrightarrow> x = None \<or> y = x"

lemma sticky_refl [simp]: "sticky x x"
  by (simp add: sticky_def)

lemma sticky_trans: "sticky x y \<Longrightarrow> sticky y z \<Longrightarrow> sticky x z"
  by (auto simp: sticky_def)

lemma sticky_simps [simp]:
  "sticky None y"
  "sticky (Some a) y \<longleftrightarrow> y = Some a"
  by (simp_all add: sticky_def)

section \<open>Lists\<close>

lemma takeWhile_append_sep:
  assumes "\<forall>x \<in> set xs. P x" and "\<not> P y"
  shows "takeWhile P (xs @ y # ys) = xs" and "dropWhile P (xs @ y # ys) = y # ys"
  using assms by (simp_all add: takeWhile_append2 dropWhile_append2 takeWhile_tail)

text \<open>
  Two separated words are equal only when their first parts and their rests are: the
  argument behind every colon-separated identity of the program.
\<close>

lemma append_sep_eq:
  assumes "\<forall>x \<in> set xs. x \<noteq> c" and "\<forall>x \<in> set ys. x \<noteq> c"
  shows "xs @ c # us = ys @ c # vs \<longleftrightarrow> xs = ys \<and> us = vs"
proof
  assume eq: "xs @ c # us = ys @ c # vs"
  have "xs = takeWhile (\<lambda>x. x \<noteq> c) (xs @ c # us)"
    using assms(1) by (simp add: takeWhile_append_sep)
  also have "\<dots> = ys"
    using assms(2) by (simp add: eq takeWhile_append_sep)
  finally have "xs = ys" .
  with eq show "xs = ys \<and> us = vs" by simp
qed simp

lemma distinct_map_filter_snoc:
  "distinct (map f xs) \<Longrightarrow> f x \<notin> f ` set xs \<Longrightarrow> distinct (map f (xs @ [x]))"
  by simp

lemma length_filter_le_one:
  "distinct (map f xs) \<Longrightarrow> length (filter (\<lambda>x. f x = k) xs) \<le> 1"
proof (induction xs)
  case (Cons x xs)
  then have "f x = k \<Longrightarrow> filter (\<lambda>y. f y = k) xs = []"
    by (auto simp: filter_empty_conv image_iff)
  with Cons show ?case by (cases "f x = k") simp_all
qed simp

lemma filter_values_single:
  assumes "distinct (map fst kvs)" and "(k, v) \<in> set kvs" and "P v"
    and "\<And>j w. (j, w) \<in> set kvs \<Longrightarrow> P w \<Longrightarrow> j = k"
  shows "filter P (map snd kvs) = [v]"
  using assms
proof (induction kvs)
  case (Cons x kvs)
  obtain j w where x: "x = (j, w)" by (cases x)
  show ?case
  proof (cases "P w")
    case True
    then have "j = k" using Cons.prems(4) [of j w] x by simp
    then have "w = v" using Cons.prems(1,2) x by (auto simp: image_iff)
    moreover have "\<not> P y" if "y \<in> snd ` set kvs" for y
      using that Cons.prems(1,4) x \<open>j = k\<close> by (fastforce simp: image_iff)
    ultimately show ?thesis using True x by (auto simp: filter_empty_conv)
  next
    case False
    then have "(k, v) \<in> set kvs" using Cons.prems(2,3) x by auto
    moreover have "distinct (map fst kvs)" using Cons.prems(1) by simp
    moreover have "i = k" if "(i, u) \<in> set kvs" "P u" for i u
      using Cons.prems(4) [of i u] that by simp
    ultimately have "filter P (map snd kvs) = [v]" using Cons.IH Cons.prems(3) by blast
    then show ?thesis using False x by simp
  qed
qed simp

lemma distinct_count_list_le: "distinct xs \<Longrightarrow> count_list xs x \<le> 1"
  by (induction xs) (auto simp: count_list_0_iff)

lemma count_list_map_filter:
  "sum_list (map (\<lambda>r. 1) (filter (\<lambda>r. f r = k) rs)) = count_list (map f rs) k"
  by (induction rs) auto

section \<open>Dictionaries and tables\<close>

text \<open>Setting a key of an insertion-ordered dictionary.\<close>

fun dict_set :: "'k \<Rightarrow> 'v \<Rightarrow> ('k \<times> 'v) list \<Rightarrow> ('k \<times> 'v) list" where
  "dict_set k v [] = [(k, v)]"
| "dict_set k v ((j, w) # kvs) = (if j = k then (k, v) # kvs else (j, w) # dict_set k v kvs)"

lemma dict_set_lookup [simp]: "map_of (dict_set k v kvs) = (map_of kvs)(k \<mapsto> v)"
  by (induction k v kvs rule: dict_set.induct) (auto simp: fun_eq_iff)

lemma dict_set_fresh: "k \<notin> fst ` set kvs \<Longrightarrow> dict_set k v kvs = kvs @ [(k, v)]"
  by (induction k v kvs rule: dict_set.induct) auto

lemma dict_set_keys: "fst ` set (dict_set k v kvs) = insert k (fst ` set kvs)"
  by (induction k v kvs rule: dict_set.induct) auto

lemma dict_set_distinct: "distinct (map fst kvs) \<Longrightarrow> distinct (map fst (dict_set k v kvs))"
  by (induction k v kvs rule: dict_set.induct) (auto simp: dict_set_keys)

lemma dict_set_self: "map_of kvs k = Some v \<Longrightarrow> distinct (map fst kvs) \<Longrightarrow> dict_set k v kvs = kvs"
  by (induction k v kvs rule: dict_set.induct) auto

lemma dict_set_mem:
  "distinct (map fst kvs) \<Longrightarrow>
     (j, w) \<in> set (dict_set k v kvs) \<longleftrightarrow> (if j = k then w = v else (j, w) \<in> set kvs)"
  by (induction k v kvs rule: dict_set.induct) (auto simp: image_iff)

lemma dict_set_filter:
  "\<not> P v \<Longrightarrow> (\<And>w. map_of kvs k = Some w \<Longrightarrow> \<not> P w) \<Longrightarrow>
     filter P (map snd (dict_set k v kvs)) = filter P (map snd kvs)"
  by (induction k v kvs rule: dict_set.induct) (auto split: if_splits)

text \<open>
  A table of well-formed rows under their primary key, with one more unique key: what inserting a
  row with fresh keys and replacing a row under the same keys keep, and that a row is found by
  its key.
\<close>

definition keyed_table :: "('r \<Rightarrow> 'k) \<Rightarrow> ('r \<Rightarrow> 'u) \<Rightarrow> ('r \<Rightarrow> bool) \<Rightarrow> ('k \<times> 'r) list \<Rightarrow> bool" where
  "keyed_table pk uk ok kvs \<longleftrightarrow> distinct (map fst kvs) \<and> (\<forall>(k, r) \<in> set kvs. pk r = k \<and> ok r)
     \<and> (\<forall>(k, r) \<in> set kvs. \<forall>(k', r') \<in> set kvs. uk r = uk r' \<longrightarrow> k = k')"

lemma keyed_table_empty [simp]: "keyed_table pk uk ok []"
  by (simp add: keyed_table_def)

lemma keyed_table_row:
  "keyed_table pk uk ok kvs \<Longrightarrow> map_of kvs k = Some r \<Longrightarrow> pk r = k \<and> ok r"
  by (auto simp: keyed_table_def dest!: map_of_SomeD)

lemma keyed_table_mono:
  "keyed_table pk uk ok kvs \<Longrightarrow> (\<And>r. ok r \<Longrightarrow> ok' r) \<Longrightarrow> keyed_table pk uk ok' kvs"
  by (auto simp: keyed_table_def)

lemma keyed_table_put:
  assumes "keyed_table pk uk ok kvs" and "ok row"
    and fresh: "\<And>k r. (k, r) \<in> set kvs \<Longrightarrow> k \<noteq> pk row \<Longrightarrow> uk r \<noteq> uk row"
  shows "keyed_table pk uk ok (dict_set (pk row) row kvs)"
proof -
  have dist: "distinct (map fst kvs)" using assms(1) by (simp add: keyed_table_def)
  note mem = dict_set_mem [OF dist, of _ _ "pk row" row]
  have "k = k'" if "(k, r) \<in> set (dict_set (pk row) row kvs)"
    "(k', r') \<in> set (dict_set (pk row) row kvs)" "uk r = uk r'" for k r k' r'
    using that assms(1) fresh [of k r] fresh [of k' r']
    by (fastforce simp: mem keyed_table_def split: if_splits)
  moreover have "pk r = k \<and> ok r" if "(k, r) \<in> set (dict_set (pk row) row kvs)" for k r
    using that assms(1,2) by (auto simp: mem keyed_table_def split: if_splits)
  moreover have "distinct (map fst (dict_set (pk row) row kvs))" by (rule dict_set_distinct [OF dist])
  ultimately show ?thesis unfolding keyed_table_def by fast
qed

lemma keyed_table_replace:
  assumes "keyed_table pk uk ok kvs" and "ok row'" and "map_of kvs (pk row') = Some row"
    and "uk row' = uk row"
  shows "keyed_table pk uk ok (dict_set (pk row') row' kvs)"
proof (rule keyed_table_put [where ok = ok, OF assms(1,2)])
  fix k r assume "(k, r) \<in> set kvs" "k \<noteq> pk row'"
  then show "uk r \<noteq> uk row'"
    using assms(1,4) map_of_SomeD [OF assms(3)] unfolding keyed_table_def by fastforce
qed

lemma keyed_table_insert:
  assumes "keyed_table pk uk ok kvs" and "ok row" and "\<forall>(_, r) \<in> set kvs. uk r \<noteq> uk row"
  shows "keyed_table pk uk ok (dict_set (pk row) row kvs)"
  using assms(3) by (intro keyed_table_put [where ok = ok, OF assms(1,2)]) auto

lemma keyed_table_set:
  assumes "keyed_table pk pk ok kvs" and "ok row"
  shows "keyed_table pk pk ok (dict_set (pk row) row kvs)"
  by (rule keyed_table_put [where ok = ok, OF assms]) (use assms(1) in \<open>auto simp: keyed_table_def\<close>)

lemma keyed_table_find:
  assumes "keyed_table pk uk ok kvs" and "map_of kvs k = Some row"
  shows "filter (\<lambda>r. uk r = uk row) (map snd kvs) = [row]"
  by (rule filter_values_single [where P = "\<lambda>r. uk r = uk row", OF _ map_of_SomeD [OF assms(2)]])
    (use assms(1) map_of_SomeD [OF assms(2)] in \<open>auto simp: keyed_table_def\<close>)

lemma map_of_fresh: "map_of kvs k = Some r \<Longrightarrow> j \<notin> fst ` set kvs \<Longrightarrow> k \<noteq> j"
  by (force dest: map_of_SomeD)

end
