(* ===== verification/Py_Runtime.thy ===== *)
theory Py_Runtime
  imports Prelude "HOL-Library.Word"
begin

unbundle bit_operations_syntax

text \<open>
  The part of Python's standard library the modelled code calls: \<open>str.strip\<close>, \<open>str.lower\<close>,
  \<open>str.replace\<close>, \<open>in\<close> on strings, the decimal text of an \<open>int\<close>, \<open>json.dumps\<close> with sorted
  keys and compact separators, UTF-8 encoding and \<open>hashlib.sha256\<close>. All of it computes, and the facts the
  components need are that the decimal and the JSON text determine the value.
\<close>

section \<open>Strings\<close>

definition py_isspace :: "char \<Rightarrow> bool" where
  "py_isspace c = (let n = (of_char c :: nat) in
     (9 \<le> n \<and> n \<le> 13) \<or> (28 \<le> n \<and> n \<le> 32) \<or> n = 133 \<or> n = 160)"

definition py_strip :: "py_str \<Rightarrow> py_str" where
  "py_strip s = rev (dropWhile py_isspace (rev (dropWhile py_isspace s)))"

definition py_lower_char :: "char \<Rightarrow> char" where
  "py_lower_char c = (let n = (of_char c :: nat) in
     if (65 \<le> n \<and> n \<le> 90) \<or> (192 \<le> n \<and> n \<le> 214) \<or> (216 \<le> n \<and> n \<le> 222)
     then char_of (n + 32) else c)"

definition py_lower :: "py_str \<Rightarrow> py_str" where
  "py_lower s = map py_lower_char s"

definition py_normalize :: "py_str \<Rightarrow> py_str" where
  "py_normalize s = py_lower (py_strip s)"

text \<open>\<open>needle in haystack\<close> on strings: a contiguous occurrence.\<close>

fun py_starts_with :: "py_str \<Rightarrow> py_str \<Rightarrow> bool" where
  "py_starts_with [] s = True"
| "py_starts_with (c # cs) [] = False"
| "py_starts_with (c # cs) (d # ds) = (c = d \<and> py_starts_with cs ds)"

fun py_in :: "py_str \<Rightarrow> py_str \<Rightarrow> bool" where
  "py_in s [] = (s = [])"
| "py_in s (d # ds) = (py_starts_with s (d # ds) \<or> py_in s ds)"

lemma py_starts_with_append [simp]: "py_starts_with xs (xs @ ys)"
  by (induction xs) simp_all

section \<open>Decimal text of integers\<close>

definition digit_char :: "nat \<Rightarrow> char" where
  "digit_char d = char_of (48 + d)"

fun py_str_nat :: "nat \<Rightarrow> py_str" where
  "py_str_nat n = (if n < 10 then [digit_char n]
                   else py_str_nat (n div 10) @ [digit_char (n mod 10)])"

declare py_str_nat.simps [simp del]

definition py_str_int :: "int \<Rightarrow> py_str" where
  "py_str_int i = (if i < 0 then CHR ''-'' # py_str_nat (nat (- i)) else py_str_nat (nat i))"

definition is_decimal :: "char \<Rightarrow> bool" where
  "is_decimal c = (let n = (of_char c :: nat) in 48 \<le> n \<and> n \<le> 57)"

definition decimal_value :: "py_str \<Rightarrow> nat" where
  "decimal_value s = foldl (\<lambda>acc c. 10 * acc + (of_char c - 48)) 0 s"

lemma of_char_digit [simp]: "d < 10 \<Longrightarrow> of_char (digit_char d) = (48 + d :: nat)"
  by (simp add: digit_char_def of_char_of)

lemma py_str_nat_decimal: "\<forall>c \<in> set (py_str_nat n). is_decimal c"
proof (induction n rule: py_str_nat.induct)
  case (1 n)
  show ?case
  proof (cases "n < 10")
    case True
    then show ?thesis by (subst py_str_nat.simps) (simp add: is_decimal_def)
  next
    case False
    have "is_decimal (digit_char (n mod 10))" by (simp add: is_decimal_def)
    with 1 False show ?thesis by (subst py_str_nat.simps) auto
  qed
qed

lemma decimal_value_str_nat [simp]: "decimal_value (py_str_nat n) = n"
proof (induction n rule: py_str_nat.induct)
  case (1 n)
  then show ?case
    by (subst py_str_nat.simps) (auto simp: decimal_value_def)
qed

lemma py_str_nat_nonempty [simp]: "py_str_nat n \<noteq> []"
  by (subst py_str_nat.simps) simp

lemma py_str_nat_inject: "py_str_nat m = py_str_nat n \<longleftrightarrow> m = n"
  by (metis decimal_value_str_nat)

lemma minus_not_decimal [simp]: "\<not> is_decimal CHR ''-''"
  by (simp add: is_decimal_def)

lemma py_str_nat_not_minus: "CHR ''-'' # s \<noteq> py_str_nat n"
  by (metis list.set_intros(1) minus_not_decimal py_str_nat_decimal)

lemma py_str_int_inject: "py_str_int i = py_str_int j \<longleftrightarrow> i = j"
  using py_str_nat_not_minus
  by (auto simp: py_str_int_def py_str_nat_inject dest: sym)

text \<open>The decimal text holds no colon, so it can be cut out of a colon-separated identity.\<close>

lemma py_str_int_no_colon: "\<forall>c \<in> set (py_str_int i). c \<noteq> CHR '':''"
proof -
  have "CHR '':'' \<notin> set (py_str_nat n)" for n
    using py_str_nat_decimal [of n] by (auto simp: is_decimal_def)
  then show ?thesis by (auto simp: py_str_int_def)
qed

section \<open>Canonical JSON\<close>

text \<open>
  \<open>json.dumps(value, sort_keys=True, separators=(",", ":"))\<close> with the default
  \<open>ensure_ascii=True\<close>: every character outside space to tilde is escaped.
\<close>

datatype json =
    JNull
  | JBool bool
  | JInt int
  | JStr py_str
  | JArr "json list"
  | JObj "(py_str \<times> json) list"

definition hex_char :: "nat \<Rightarrow> char" where
  "hex_char d = (if d < 10 then char_of (48 + d) else char_of (87 + d))"

definition json_escape_char :: "char \<Rightarrow> py_str" where
  "json_escape_char c = (let n = (of_char c :: nat) in
     if n = 34 then [CHR 0x5C, CHR 0x22]
     else if n = 92 then [CHR 0x5C, CHR 0x5C]
     else if n = 10 then [CHR 0x5C, CHR ''n'']
     else if n = 13 then [CHR 0x5C, CHR ''r'']
     else if n = 9 then [CHR 0x5C, CHR ''t'']
     else if n = 12 then [CHR 0x5C, CHR ''f'']
     else if n = 8 then [CHR 0x5C, CHR ''b'']
     else if 32 \<le> n \<and> n \<le> 126 then [c]
     else [CHR 0x5C, CHR ''u'', CHR ''0'', CHR ''0'', hex_char (n div 16), hex_char (n mod 16)])"

definition json_string :: "py_str \<Rightarrow> py_str" where
  "json_string s = CHR 0x22 # concat (map json_escape_char s) @ [CHR 0x22]"

fun join_comma :: "py_str list \<Rightarrow> py_str" where
  "join_comma [] = []"
| "join_comma [x] = x"
| "join_comma (x # y # ys) = x @ CHR '','' # join_comma (y # ys)"

fun json_dumps :: "json \<Rightarrow> py_str" where
  "json_dumps JNull = ''null''"
| "json_dumps (JBool b) = (if b then ''true'' else ''false'')"
| "json_dumps (JInt i) = py_str_int i"
| "json_dumps (JStr s) = json_string s"
| "json_dumps (JArr xs) = CHR ''['' # join_comma (map json_dumps xs) @ [CHR '']'']"
| "json_dumps (JObj kvs) = CHR ''{'' #
     join_comma (map snd (sort_key fst
       (map (\<lambda>(k, v). (k, json_string k @ CHR '':'' # json_dumps v)) kvs))) @ [CHR ''}'']"

text \<open>
  Python's equality on JSON values: a \<open>bool\<close> is an \<open>int\<close> and the order of the keys of an object
  is irrelevant, so two values are equal when their canonical forms are. Then truth values, and
  \<open>int\<close> of a value: None stands for the exception of a value that is no integer.
\<close>

fun json_canon :: "json \<Rightarrow> json" where
  "json_canon JNull = JNull"
| "json_canon (JBool b) = JInt (of_bool b)"
| "json_canon (JInt i) = JInt i"
| "json_canon (JStr s) = JStr s"
| "json_canon (JArr xs) = JArr (map json_canon xs)"
| "json_canon (JObj kvs) = JObj (sort_key fst (map (\<lambda>(k, v). (k, json_canon v)) kvs))"

definition json_eq :: "json \<Rightarrow> json \<Rightarrow> bool" where
  "json_eq x y \<longleftrightarrow> json_canon x = json_canon y"

definition json_truthy :: "json \<Rightarrow> bool" where
  "json_truthy x = (case x of JNull \<Rightarrow> False | JBool b \<Rightarrow> b | JInt i \<Rightarrow> i \<noteq> 0 | JStr s \<Rightarrow> s \<noteq> []
     | JArr xs \<Rightarrow> xs \<noteq> [] | JObj kvs \<Rightarrow> kvs \<noteq> [])"

text \<open>Digits, with single underscores between them.\<close>

fun underscored_digits :: "py_str \<Rightarrow> py_str option" where
  "underscored_digits [] = None"
| "underscored_digits [c] = (if is_decimal c then Some [c] else None)"
| "underscored_digits (c # d # cs) =
     (if \<not> is_decimal c then None
      else map_option ((#) c) (underscored_digits (if d = CHR ''_'' then cs else d # cs)))"

definition py_int_str :: "py_str \<Rightarrow> int option" where
  "py_int_str s =
     (case py_strip s of
        [] \<Rightarrow> None
      | c # cs \<Rightarrow>
          if c = CHR ''-'' then map_option (\<lambda>ds. - int (decimal_value ds)) (underscored_digits cs)
          else if c = CHR ''+'' then map_option (\<lambda>ds. int (decimal_value ds)) (underscored_digits cs)
          else map_option (\<lambda>ds. int (decimal_value ds)) (underscored_digits (c # cs)))"

definition py_int :: "json \<Rightarrow> int option" where
  "py_int x = (case x of JBool b \<Rightarrow> Some (of_bool b) | JInt i \<Rightarrow> Some i | JStr s \<Rightarrow> py_int_str s
     | _ \<Rightarrow> None)"

lemma json_eq_refl [simp]: "json_eq x x"
  by (simp add: json_eq_def)

section \<open>UTF-8 and SHA-256\<close>

text \<open>UTF-8 bytes of a string of code points below 256.\<close>

definition utf8_char :: "char \<Rightarrow> int list" where
  "utf8_char c = (let n = (of_char c :: int) in
     if n < 128 then [n] else [192 + n div 64, 128 + n mod 64])"

definition utf8 :: "py_str \<Rightarrow> int list" where
  "utf8 s = concat (map utf8_char s)"

text \<open>
  The constants of the hash are not tabulated but computed by the rule that defines them: the
  first 32 bits of the fractional parts of the cube roots (for the rounds) and of the square
  roots (for the initial state) of the first primes. \<open>int_root\<close> finds a root bit by bit.
\<close>

definition int_root :: "nat \<Rightarrow> int \<Rightarrow> int" where
  "int_root k n = foldl (\<lambda>r i. if (r + 2 ^ i) ^ k \<le> n then r + 2 ^ i else r) 0 (rev [0..<36])"

definition primes_below :: "nat \<Rightarrow> nat list" where
  "primes_below n = filter (\<lambda>p. list_all (\<lambda>d. p mod d \<noteq> 0) [2..<p]) [2..<n]"

definition root_fraction :: "nat \<Rightarrow> nat \<Rightarrow> 32 word" where
  "root_fraction k p = of_int (int_root k (int p * 2 ^ (32 * k)))"

definition sha_k :: "32 word list" where
  "sha_k = map (root_fraction 3) (primes_below 312)"

definition sha_h0 :: "32 word list" where
  "sha_h0 = map (root_fraction 2) (primes_below 20)"

lemma length_sha_h0: "length sha_h0 = 8"
  by (simp add: sha_h0_def primes_below_def upt_rec)

definition sha_rotr :: "nat \<Rightarrow> 32 word \<Rightarrow> 32 word" where
  "sha_rotr n w = drop_bit n w OR push_bit (32 - n) w"

definition sha_schedule_step :: "32 word list \<Rightarrow> 32 word list" where
  "sha_schedule_step ws =
     (let t = length ws; a = ws ! (t - 15); b = ws ! (t - 2);
          s0 = sha_rotr 7 a XOR sha_rotr 18 a XOR drop_bit 3 a;
          s1 = sha_rotr 17 b XOR sha_rotr 19 b XOR drop_bit 10 b
      in ws @ [ws ! (t - 16) + s0 + ws ! (t - 7) + s1])"

fun sha_round :: "32 word list \<Rightarrow> 32 word \<times> 32 word \<Rightarrow> 32 word list" where
  "sha_round [a, b, c, d, e, f, g, h] (k, w) =
     (let s1 = sha_rotr 6 e XOR sha_rotr 11 e XOR sha_rotr 25 e;
          ch = (e AND f) XOR (NOT e AND g);
          t1 = h + s1 + ch + k + w;
          s0 = sha_rotr 2 a XOR sha_rotr 13 a XOR sha_rotr 22 a;
          mj = (a AND b) XOR (a AND c) XOR (b AND c)
      in [t1 + s0 + mj, a, b, c, d + t1, e, f, g])"
| "sha_round hs _ = hs"

definition sha_compress :: "32 word list \<Rightarrow> 32 word list \<Rightarrow> 32 word list" where
  "sha_compress hs block =
     (let ws = (sha_schedule_step ^^ 48) block
      in map2 (+) hs (foldl sha_round hs (zip sha_k ws)))"

definition sha_be_word :: "int list \<Rightarrow> 32 word" where
  "sha_be_word bs = of_int (foldl (\<lambda>acc b. 256 * acc + b) 0 bs)"

fun chunks :: "nat \<Rightarrow> nat \<Rightarrow> 'a list \<Rightarrow> 'a list list" where
  "chunks 0 k xs = []"
| "chunks (Suc fuel) k xs = (if xs = [] then [] else take k xs # chunks fuel k (drop k xs))"

definition sha_pad :: "int list \<Rightarrow> int list" where
  "sha_pad bs =
     (let n = length bs; z = (119 - n mod 64) mod 64; bits = 8 * int n
      in bs @ 128 # replicate z 0 @ map (\<lambda>i. bits div 256 ^ (7 - i) mod 256) [0..<8])"

definition hex_word :: "32 word \<Rightarrow> py_str" where
  "hex_word w = map (\<lambda>i. hex_char (nat (uint w div 16 ^ (7 - i) mod 16))) [0..<8]"

definition sha256_hex :: "int list \<Rightarrow> py_str" where
  "sha256_hex bs =
     (let p = sha_pad bs;
          blocks = map (\<lambda>b. map sha_be_word (chunks 16 4 b)) (chunks (length p) 64 p)
      in concat (map hex_word (foldl sha_compress sha_h0 blocks)))"

text \<open>A digest is always 64 characters of lower-case hexadecimal text.\<close>

lemma sha_round_length: "length hs = 8 \<Longrightarrow> length (sha_round hs p) = 8"
  by (cases "(hs, p)" rule: sha_round.cases) (auto simp: Let_def)

lemma sha_rounds_length: "length hs = 8 \<Longrightarrow> length (foldl sha_round hs ps) = 8"
  by (induction ps arbitrary: hs) (simp_all add: sha_round_length)

lemma sha_compress_length: "length hs = 8 \<Longrightarrow> length (sha_compress hs b) = 8"
  by (simp add: sha_compress_def Let_def sha_rounds_length)

lemma sha_fold_length: "length hs = 8 \<Longrightarrow> length (foldl sha_compress hs bs) = 8"
  by (induction bs arbitrary: hs) (simp_all add: sha_compress_length)

lemma length_sha256_hex: "length (sha256_hex bs) = 64"
proof -
  have "length (concat (map hex_word ws)) = 8 * length ws" for ws
    by (induction ws) (simp_all add: hex_word_def)
  then show ?thesis
    by (simp add: sha256_hex_def Let_def sha_fold_length length_sha_h0)
qed

end
