(* ===== verification/Reconciler_Contracts.thy ===== *)
theory Reconciler_Contracts
  imports Py_Runtime
begin

text \<open>
  The typed inputs and outputs of the lifecycle reconciler,
  \<^verbatim>\<open>moonmind/omnigent/reconciler/contracts.py\<close>: its closed vocabularies as datatypes (with the
  wire value of a member where the code uses it) and its frozen models as records. A record's
  fields carry a short prefix of their own because two models share field names.
\<close>

section \<open>Closed vocabularies\<close>

definition RECONCILER_CONTRACT_VERSION :: py_str where
  "RECONCILER_CONTRACT_VERSION = ''v1''"

definition KNOWN_COMPATIBILITY_VERSIONS :: "py_str set" where
  "KNOWN_COMPATIBILITY_VERSIONS = {''v1''}"

datatype desired_lifecycle = RUN | CANCEL

datatype submission_state = NOT_SUBMITTED | IN_FLIGHT | SUB_ACCEPTED

datatype lease_state = LEASE_NONE | HELD | RELEASED

datatype terminal_outcome = SUCCESS | FAILURE | CANCELLED

datatype provider_status_class =
    CLS_ACTIVE | CLS_IDLE | CLS_INTERVENTION
  | CLS_TERMINAL_SUCCESS | CLS_TERMINAL_FAILURE | CLS_TERMINAL_CANCELLED | CLS_UNKNOWN

datatype session_lifecycle_phase =
    PH_INITIALIZING | PH_PROFILE_LEASE_HELD | PH_HOST_READY | PH_PROVIDER_SESSION_READY
  | PH_TURN_IN_FLIGHT | PH_TERMINAL_RECORDED | PH_EVIDENCE_HARVESTED | PH_CLEANUP_STARTED
  | PH_LEASES_RELEASED | PH_CLOSED | PH_FAILED | PH_QUARANTINED

text \<open>The forward order of the healthy phases; the divergent ones have no index.\<close>

fun LINEAR_PHASE_ORDER :: "session_lifecycle_phase \<Rightarrow> int option" where
  "LINEAR_PHASE_ORDER PH_INITIALIZING = Some 0"
| "LINEAR_PHASE_ORDER PH_PROFILE_LEASE_HELD = Some 1"
| "LINEAR_PHASE_ORDER PH_HOST_READY = Some 2"
| "LINEAR_PHASE_ORDER PH_PROVIDER_SESSION_READY = Some 3"
| "LINEAR_PHASE_ORDER PH_TURN_IN_FLIGHT = Some 4"
| "LINEAR_PHASE_ORDER PH_TERMINAL_RECORDED = Some 5"
| "LINEAR_PHASE_ORDER PH_EVIDENCE_HARVESTED = Some 6"
| "LINEAR_PHASE_ORDER PH_CLEANUP_STARTED = Some 7"
| "LINEAR_PHASE_ORDER PH_LEASES_RELEASED = Some 8"
| "LINEAR_PHASE_ORDER PH_CLOSED = Some 9"
| "LINEAR_PHASE_ORDER PH_FAILED = None"
| "LINEAR_PHASE_ORDER PH_QUARANTINED = None"

datatype decision_kind =
    NO_OP | AWAIT_OBSERVATION | ENSURE_PROFILE_LEASE | ENSURE_HOST | ENSURE_PROVIDER_SESSION
  | SUBMIT_TURN | RECORD_PROVIDER_TERMINAL | SYNTHESIZE_TERMINAL_FROM_SNAPSHOT
  | HARVEST_EVIDENCE | BEGIN_CLEANUP | RELEASE_LEASES | RETRY_TRANSIENT_OBSERVATION
  | QUARANTINE_AMBIGUOUS_STATE | FAIL_NONRETRYABLE

fun decision_kind_value :: "decision_kind \<Rightarrow> py_str" where
  "decision_kind_value NO_OP = ''no_op''"
| "decision_kind_value AWAIT_OBSERVATION = ''await_observation''"
| "decision_kind_value ENSURE_PROFILE_LEASE = ''ensure_profile_lease''"
| "decision_kind_value ENSURE_HOST = ''ensure_host''"
| "decision_kind_value ENSURE_PROVIDER_SESSION = ''ensure_provider_session''"
| "decision_kind_value SUBMIT_TURN = ''submit_turn''"
| "decision_kind_value RECORD_PROVIDER_TERMINAL = ''record_provider_terminal''"
| "decision_kind_value SYNTHESIZE_TERMINAL_FROM_SNAPSHOT = ''synthesize_terminal_from_snapshot''"
| "decision_kind_value HARVEST_EVIDENCE = ''harvest_evidence''"
| "decision_kind_value BEGIN_CLEANUP = ''begin_cleanup''"
| "decision_kind_value RELEASE_LEASES = ''release_leases''"
| "decision_kind_value RETRY_TRANSIENT_OBSERVATION = ''retry_transient_observation''"
| "decision_kind_value QUARANTINE_AMBIGUOUS_STATE = ''quarantine_ambiguous_state''"
| "decision_kind_value FAIL_NONRETRYABLE = ''fail_nonretryable''"

definition COMMAND_DECISION_KINDS :: "decision_kind set" where
  "COMMAND_DECISION_KINDS =
     {ENSURE_PROFILE_LEASE, ENSURE_HOST, ENSURE_PROVIDER_SESSION, SUBMIT_TURN,
      RECORD_PROVIDER_TERMINAL, SYNTHESIZE_TERMINAL_FROM_SNAPSHOT, HARVEST_EVIDENCE,
      BEGIN_CLEANUP, RELEASE_LEASES}"

definition SETTLED_DECISION_KINDS :: "decision_kind set" where
  "SETTLED_DECISION_KINDS = {NO_OP, QUARANTINE_AMBIGUOUS_STATE, FAIL_NONRETRYABLE}"

declare RECONCILER_CONTRACT_VERSION_def [vocabulary] KNOWN_COMPATIBILITY_VERSIONS_def [vocabulary]
  COMMAND_DECISION_KINDS_def [vocabulary] SETTLED_DECISION_KINDS_def [vocabulary]

datatype reason_code =
    UNKNOWN_INPUT_VERSION | UNKNOWN_COMPATIBILITY_VERSION | RUNTIME_NOT_READY
  | SESSION_IDENTITY_MISMATCH | MISSING_ATTEMPT_IDENTITY
  | SESSION_FAILED | SESSION_QUARANTINED
  | DESIRED_CANCELLATION | PROFILE_LEASE_REQUIRED | HOST_REQUIRED | PROVIDER_SESSION_REQUIRED
  | TURN_SUBMISSION_REQUIRED | SUBMISSION_DELIVERY_AMBIGUOUS | MAX_TURN_ATTEMPTS_EXHAUSTED
  | AWAITING_PROVIDER_SNAPSHOT | PROVIDER_SESSION_MISSING | UNKNOWN_PROVIDER_STATUS
  | PROVIDER_RUNNING | PROVIDER_INTERVENTION_REQUIRED | IDLE_WITH_OPEN_TOOL_CALL
  | IDLE_PENDING_TURN_EVIDENCE | AWAITING_CORRELATED_TERMINAL_EVIDENCE
  | TERMINAL_EVENT_OBSERVED | TERMINAL_SNAPSHOT_SYNTHESIS | TERMINAL_IDLE_SYNTHESIS
  | CONTRADICTORY_TERMINAL_OUTCOME | IGNORED_STALE_RUNNING_AFTER_TERMINAL
  | EVIDENCE_HARVEST_REQUIRED | AWAITING_EVIDENCE | EVIDENCE_NOT_YET_AVAILABLE
  | CLEANUP_REQUIRED | LEASE_RELEASE_REQUIRED | LEASE_CONSUMERS_ACTIVE
  | AWAITING_LEASE_CONSUMER_CONFIRMATION | CLEANUP_INCOMPLETE_BEFORE_RELEASE
  | CLEANUP_INCOMPLETE_BEFORE_CLOSE | SESSION_CLOSED

datatype evidence_requirement =
    PROVIDER_TERMINAL_SNAPSHOT | PROVIDER_TURN_TRANSCRIPT | TERMINAL_EVIDENCE_ARTIFACT
  | CLEANUP_EVIDENCE | LEASE_RELEASE_CONFIRMATION

section \<open>Intent and durable state\<close>

record compiled_session_intent =
  ci_schema_version :: py_str
  ci_session_id :: py_str
  ci_provider :: py_str
  ci_requires_profile_lease :: bool
  ci_requires_host :: bool
  ci_requires_cleanup :: bool
  ci_max_turn_attempts :: int
  ci_reconcile_interval_seconds :: int
  ci_turn_prompt_digest :: py_str

text \<open>
  The two \<open>Field(gt=0)\<close> constraints and the \<open>Literal\<close> version: what pydantic accepts. A
  caller that bypasses validation can still present another version, which the reducer checks.
\<close>

definition intent_valid :: "compiled_session_intent \<Rightarrow> bool" where
  "intent_valid i \<longleftrightarrow> ci_schema_version i = RECONCILER_CONTRACT_VERSION
     \<and> 0 < ci_max_turn_attempts i \<and> 0 < ci_reconcile_interval_seconds i"

record prior_decision_summary =
  pd_schema_version :: py_str
  pd_kind :: decision_kind
  pd_reason_code :: reason_code
  pd_at_revision :: int

record durable_session_state =
  ds_schema_version :: py_str
  ds_session_id :: py_str
  ds_revision :: int
  ds_owner_token :: py_str
  ds_fencing_generation :: int
  ds_runtime_binding_ref :: "py_str option"
  ds_runtime_binding_revision :: "int option"
  ds_runtime_binding_fencing_generation :: "int option"
  ds_desired :: desired_lifecycle
  ds_provider_session_attached :: bool
  ds_provider_session_id :: "py_str option"
  ds_attempt_id :: "py_str option"
  ds_submission :: submission_state
  ds_turn_attempts :: int
  ds_profile_lease :: lease_state
  ds_host_lease :: lease_state
  ds_last_cursor :: "py_str option"
  ds_last_snapshot_digest :: "py_str option"
  ds_terminal_outcome :: "terminal_outcome option"
  ds_terminal_evidence_ref :: "py_str option"
  ds_evidence_harvested :: bool
  ds_cleanup_started :: bool
  ds_cleanup_complete :: bool
  ds_failed :: bool
  ds_quarantined :: bool
  ds_next_deadline :: "datetime option"
  ds_prior_decision :: "prior_decision_summary option"

section \<open>Observations\<close>

record provider_session_observation =
  ps_observed_at :: datetime
  ps_present :: bool
  ps_provider_session_id :: "py_str option"
  ps_raw_status :: py_str
  ps_open_tool_call :: bool
  ps_cursor :: "py_str option"
  ps_snapshot_digest :: "py_str option"

record provider_turn_observation =
  pt_observed_at :: datetime
  pt_attempt_id :: "py_str option"
  pt_turn_complete :: bool
  pt_raw_status :: "py_str option"
  pt_outcome :: "terminal_outcome option"

record event_frontier_observation =
  ef_observed_at :: datetime
  ef_last_cursor :: "py_str option"
  ef_terminal_event_seen :: bool
  ef_running_event_after_cursor :: bool

record host_observation =
  ho_observed_at :: datetime
  ho_registered :: bool
  ho_runner_ready :: bool

record lease_observation =
  lo_observed_at :: datetime
  lo_held :: bool
  lo_consumer_active :: bool

record workspace_observation =
  wo_observed_at :: datetime
  wo_workspace_available :: bool
  wo_checkpoint_available :: bool

record evidence_observation =
  ev_observed_at :: datetime
  ev_terminal_evidence_available :: bool
  ev_artifacts_available :: bool

record compatibility_observation =
  co_observed_at :: datetime
  co_compatibility_version :: py_str
  co_runtime_ready :: bool

record observation_set =
  os_schema_version :: py_str
  os_provider_session :: "provider_session_observation option"
  os_provider_turn :: "provider_turn_observation option"
  os_event_frontier :: "event_frontier_observation option"
  os_host :: "host_observation option"
  os_profile_lease :: "lease_observation option"
  os_host_lease :: "lease_observation option"
  os_workspace :: "workspace_observation option"
  os_evidence :: "evidence_observation option"
  os_compatibility :: "compatibility_observation option"

definition empty_observations :: observation_set where
  "empty_observations = \<lparr> os_schema_version = RECONCILER_CONTRACT_VERSION,
     os_provider_session = None, os_provider_turn = None, os_event_frontier = None,
     os_host = None, os_profile_lease = None, os_host_lease = None, os_workspace = None,
     os_evidence = None, os_compatibility = None \<rparr>"

definition present_observation_kinds :: "observation_set \<Rightarrow> py_str list" where
  "present_observation_kinds os = map fst (filter snd
     [(''provider_session'', os_provider_session os \<noteq> None),
      (''provider_turn'', os_provider_turn os \<noteq> None),
      (''event_frontier'', os_event_frontier os \<noteq> None),
      (''host'', os_host os \<noteq> None),
      (''profile_lease'', os_profile_lease os \<noteq> None),
      (''host_lease'', os_host_lease os \<noteq> None),
      (''workspace'', os_workspace os \<noteq> None),
      (''evidence'', os_evidence os \<noteq> None),
      (''compatibility'', os_compatibility os \<noteq> None)])"

section \<open>Decisions\<close>

record command_spec =
  cs_schema_version :: py_str
  cs_command_kind :: decision_kind
  cs_command_id :: py_str
  cs_attempt_id :: "py_str option"
  cs_provider_session_id :: "py_str option"
  cs_terminal_outcome :: "terminal_outcome option"

record decision_diagnostics =
  dd_schema_version :: py_str
  dd_present_observations :: "py_str list"
  dd_provider_status_class :: "provider_status_class option"

record reconciliation_decision =
  rd_schema_version :: py_str
  rd_kind :: decision_kind
  rd_reason_code :: reason_code
  rd_expected_revision :: int
  rd_expected_fencing_generation :: int
  rd_command :: "command_spec option"
  rd_next_deadline :: "datetime option"
  rd_evidence_requirements :: "evidence_requirement list"
  rd_changes_product_visible_state :: bool
  rd_diagnostics :: decision_diagnostics

record shadow_comparison =
  sc_schema_version :: py_str
  sc_legacy_action :: py_str
  sc_decision_kind :: decision_kind
  sc_agreement :: bool
  sc_divergence_reason :: "py_str option"

section \<open>Facts on the vocabularies\<close>

lemma command_kind_not_settled: "k \<in> COMMAND_DECISION_KINDS \<Longrightarrow> k \<notin> SETTLED_DECISION_KINDS"
  by (cases k) (simp_all add: vocabulary)

lemma present_observation_kinds_distinct: "distinct (present_observation_kinds os)"
  unfolding present_observation_kinds_def by (rule distinct_map_filter) simp

end
