(* ===== verification/Reconciler.thy ===== *)
theory Reconciler
  imports Reconciler_Contracts
begin

text \<open>
  The pure lifecycle reducer, \<^verbatim>\<open>moonmind/omnigent/reconciler/reducer.py\<close>. Every function of
  the module is one definition here, with the guards in the order of the source; the closure
  \<open>decide\<close> the source passes to its helpers is an argument of the same name. The lemmas say
  exactly when each side effect is authorised.
\<close>

section \<open>Provider status vocabulary\<close>

definition ACTIVE_STATUSES :: "py_str set" where
  "ACTIVE_STATUSES = {''created'', ''launching'', ''provisioning'', ''running'', ''waiting'',
     ''queued'', ''in_progress''}"

definition IDLE_STATUSES :: "py_str set" where
  "IDLE_STATUSES = {''idle''}"

definition INTERVENTION_STATUSES :: "py_str set" where
  "INTERVENTION_STATUSES = {''awaiting_approval'', ''intervention_requested''}"

definition TERMINAL_SUCCESS_STATUSES :: "py_str set" where
  "TERMINAL_SUCCESS_STATUSES = {''completed''}"

definition TERMINAL_FAILURE_STATUSES :: "py_str set" where
  "TERMINAL_FAILURE_STATUSES = {''failed'', ''timed_out'', ''timeout''}"

definition TERMINAL_CANCELLED_STATUSES :: "py_str set" where
  "TERMINAL_CANCELLED_STATUSES = {''canceled'', ''cancelled''}"

definition classify_provider_status :: "py_str \<Rightarrow> provider_status_class" where
  "classify_provider_status raw_status =
     (let normalized = py_lower (py_strip raw_status) in
      if normalized \<in> ACTIVE_STATUSES then CLS_ACTIVE
      else if normalized \<in> IDLE_STATUSES then CLS_IDLE
      else if normalized \<in> INTERVENTION_STATUSES then CLS_INTERVENTION
      else if normalized \<in> TERMINAL_SUCCESS_STATUSES then CLS_TERMINAL_SUCCESS
      else if normalized \<in> TERMINAL_FAILURE_STATUSES then CLS_TERMINAL_FAILURE
      else if normalized \<in> TERMINAL_CANCELLED_STATUSES then CLS_TERMINAL_CANCELLED
      else CLS_UNKNOWN)"

fun CLASS_TO_OUTCOME :: "provider_status_class \<Rightarrow> terminal_outcome option" where
  "CLASS_TO_OUTCOME CLS_TERMINAL_SUCCESS = Some SUCCESS"
| "CLASS_TO_OUTCOME CLS_TERMINAL_FAILURE = Some FAILURE"
| "CLASS_TO_OUTCOME CLS_TERMINAL_CANCELLED = Some CANCELLED"
| "CLASS_TO_OUTCOME _ = None"

section \<open>Derived lifecycle phase\<close>

definition current_phase :: "durable_session_state \<Rightarrow> session_lifecycle_phase" where
  "current_phase durable =
     (if ds_failed durable then PH_FAILED
      else if ds_quarantined durable then PH_QUARANTINED
      else if ds_terminal_outcome durable = None then
        (if ds_submission durable = SUB_ACCEPTED then PH_TURN_IN_FLIGHT
         else if ds_provider_session_attached durable then PH_PROVIDER_SESSION_READY
         else if ds_host_lease durable = HELD then PH_HOST_READY
         else if ds_profile_lease durable = HELD then PH_PROFILE_LEASE_HELD
         else PH_INITIALIZING)
      else
        (let leases_settled = (ds_profile_lease durable \<noteq> HELD \<and> ds_host_lease durable \<noteq> HELD);
             any_released = (ds_profile_lease durable = RELEASED \<or> ds_host_lease durable = RELEASED)
         in if leases_settled \<and> ds_cleanup_complete durable then PH_CLOSED
            else if leases_settled \<and> any_released then PH_LEASES_RELEASED
            else if ds_cleanup_started durable then PH_CLEANUP_STARTED
            else if ds_evidence_harvested durable then PH_EVIDENCE_HARVESTED
            else PH_TERMINAL_RECORDED))"

section \<open>Decision construction\<close>

definition command_id :: "durable_session_state \<Rightarrow> decision_kind \<Rightarrow> py_str" where
  "command_id durable kind =
     (let token = (if kind = SUBMIT_TURN
                   then (case ds_attempt_id durable of
                           None \<Rightarrow> ''unknown_attempt''
                         | Some a \<Rightarrow> if a = [] then ''unknown_attempt'' else a)
                   else decision_kind_value kind)
      in ds_session_id durable @ '':g'' @ py_str_int (ds_fencing_generation durable) @ '':r''
           @ py_str_int (ds_revision durable) @ '':'' @ token)"

definition timedelta_seconds :: "int \<Rightarrow> int" where
  "timedelta_seconds s = s * 1000000"

definition mk_decision ::
  "decision_kind \<Rightarrow> reason_code \<Rightarrow> compiled_session_intent \<Rightarrow> durable_session_state \<Rightarrow>
   observation_set \<Rightarrow> datetime \<Rightarrow> bool \<Rightarrow> evidence_requirement list \<Rightarrow> terminal_outcome option \<Rightarrow>
   reconciliation_decision" where
  "mk_decision kind reason intent durable observations now product_visible evidence outcome =
     (let command = (if kind \<in> COMMAND_DECISION_KINDS then
            Some \<lparr> cs_schema_version = RECONCILER_CONTRACT_VERSION,
                   cs_command_kind = kind,
                   cs_command_id = command_id durable kind,
                   cs_attempt_id = (if kind = SUBMIT_TURN then ds_attempt_id durable else None),
                   cs_provider_session_id = ds_provider_session_id durable,
                   cs_terminal_outcome = outcome \<rparr>
          else None);
          next_deadline = (if kind \<in> SETTLED_DECISION_KINDS then None
            else Some (now + timedelta_seconds (ci_reconcile_interval_seconds intent)));
          status_class = (case os_provider_session observations of
              None \<Rightarrow> None
            | Some ps \<Rightarrow> Some (classify_provider_status (ps_raw_status ps)))
      in \<lparr> rd_schema_version = RECONCILER_CONTRACT_VERSION,
           rd_kind = kind,
           rd_reason_code = reason,
           rd_expected_revision = ds_revision durable,
           rd_expected_fencing_generation = ds_fencing_generation durable,
           rd_command = command,
           rd_next_deadline = next_deadline,
           rd_evidence_requirements = evidence,
           rd_changes_product_visible_state = product_visible,
           rd_diagnostics =
             \<lparr> dd_schema_version = RECONCILER_CONTRACT_VERSION,
               dd_present_observations = present_observation_kinds observations,
               dd_provider_status_class = status_class \<rparr> \<rparr>)"

type_synonym decide =
  "decision_kind \<Rightarrow> reason_code \<Rightarrow> bool \<Rightarrow> evidence_requirement list \<Rightarrow> terminal_outcome option \<Rightarrow>
   reconciliation_decision"

section \<open>Correlation of observations\<close>

definition observation_matches_session ::
  "durable_session_state \<Rightarrow> provider_session_observation \<Rightarrow> bool" where
  "observation_matches_session durable ps \<longleftrightarrow>
     \<not> (ps_provider_session_id ps \<noteq> None \<and> ds_provider_session_id durable \<noteq> None
        \<and> ps_provider_session_id ps \<noteq> ds_provider_session_id durable)"

definition turn_matches_attempt ::
  "durable_session_state \<Rightarrow> provider_turn_observation \<Rightarrow> bool" where
  "turn_matches_attempt durable pt \<longleftrightarrow>
     \<not> (pt_attempt_id pt \<noteq> None \<and> ds_attempt_id durable \<noteq> None
        \<and> pt_attempt_id pt \<noteq> ds_attempt_id durable)"

section \<open>Terminal detection\<close>

definition detect_terminal ::
  "compiled_session_intent \<Rightarrow> durable_session_state \<Rightarrow> observation_set \<Rightarrow> decide \<Rightarrow>
   reconciliation_decision" where
  "detect_terminal intent durable observations decide =
     (case os_provider_session observations of
        None \<Rightarrow> decide AWAIT_OBSERVATION AWAITING_PROVIDER_SNAPSHOT False
                  [PROVIDER_TERMINAL_SNAPSHOT] None
      | Some ps \<Rightarrow>
        if \<not> ps_present ps then
          decide QUARANTINE_AMBIGUOUS_STATE PROVIDER_SESSION_MISSING False [] None
        else if \<not> observation_matches_session durable ps then
          decide AWAIT_OBSERVATION AWAITING_CORRELATED_TERMINAL_EVIDENCE False
            [PROVIDER_TERMINAL_SNAPSHOT] None
        else case classify_provider_status (ps_raw_status ps) of
            CLS_UNKNOWN \<Rightarrow> decide AWAIT_OBSERVATION UNKNOWN_PROVIDER_STATUS False [] None
          | CLS_ACTIVE \<Rightarrow> decide AWAIT_OBSERVATION PROVIDER_RUNNING False [] None
          | CLS_INTERVENTION \<Rightarrow>
              decide AWAIT_OBSERVATION PROVIDER_INTERVENTION_REQUIRED True [] None
          | CLS_IDLE \<Rightarrow>
              if ps_open_tool_call ps then
                decide AWAIT_OBSERVATION IDLE_WITH_OPEN_TOOL_CALL False [] None
              else (case os_provider_turn observations of
                  Some pt \<Rightarrow>
                    if pt_turn_complete pt \<and> turn_matches_attempt durable pt then
                      decide SYNTHESIZE_TERMINAL_FROM_SNAPSHOT TERMINAL_IDLE_SYNTHESIS True
                        [PROVIDER_TURN_TRANSCRIPT] (pt_outcome pt)
                    else decide AWAIT_OBSERVATION IDLE_PENDING_TURN_EVIDENCE False
                           [PROVIDER_TURN_TRANSCRIPT] None
                | None \<Rightarrow> decide AWAIT_OBSERVATION IDLE_PENDING_TURN_EVIDENCE False
                            [PROVIDER_TURN_TRANSCRIPT] None)
          | terminal_class \<Rightarrow>
              (let observed_outcome = CLASS_TO_OUTCOME terminal_class in
               case os_event_frontier observations of
                 Some frontier \<Rightarrow>
                   if ef_terminal_event_seen frontier then
                     decide RECORD_PROVIDER_TERMINAL TERMINAL_EVENT_OBSERVED True
                       [PROVIDER_TERMINAL_SNAPSHOT] observed_outcome
                   else decide SYNTHESIZE_TERMINAL_FROM_SNAPSHOT TERMINAL_SNAPSHOT_SYNTHESIS True
                          [PROVIDER_TERMINAL_SNAPSHOT] observed_outcome
               | None \<Rightarrow> decide SYNTHESIZE_TERMINAL_FROM_SNAPSHOT TERMINAL_SNAPSHOT_SYNTHESIS True
                           [PROVIDER_TERMINAL_SNAPSHOT] observed_outcome))"

section \<open>Post-terminal chain\<close>

definition consumers_active :: "observation_set \<Rightarrow> bool" where
  "consumers_active observations \<longleftrightarrow>
     (\<exists>l \<in> set_option (os_profile_lease observations). lo_consumer_active l)
     \<or> (\<exists>l \<in> set_option (os_host_lease observations). lo_consumer_active l)
     \<or> (\<exists>h \<in> set_option (os_host observations). ho_runner_ready h)"

definition consumers_confirmed_absent ::
  "durable_session_state \<Rightarrow> observation_set \<Rightarrow> bool" where
  "consumers_confirmed_absent durable observations =
     (if ds_profile_lease durable = HELD \<and>
         (case os_profile_lease observations of None \<Rightarrow> True | Some l \<Rightarrow> lo_consumer_active l)
      then False
      else if ds_host_lease durable = HELD \<and>
         (case os_host_lease observations of None \<Rightarrow> True | Some l \<Rightarrow> lo_consumer_active l)
      then False
      else True)"

definition post_terminal_chain ::
  "compiled_session_intent \<Rightarrow> durable_session_state \<Rightarrow> observation_set \<Rightarrow> decide \<Rightarrow>
   reason_code option \<Rightarrow> reconciliation_decision" where
  "post_terminal_chain intent durable observations decide stale_reason =
     (if \<not> ds_evidence_harvested durable \<or> ds_terminal_evidence_ref durable = None then
        (case os_evidence observations of
           None \<Rightarrow> decide AWAIT_OBSERVATION (option_or stale_reason AWAITING_EVIDENCE) False
                     [TERMINAL_EVIDENCE_ARTIFACT] None
         | Some ev \<Rightarrow>
             if \<not> ev_terminal_evidence_available ev then
               decide RETRY_TRANSIENT_OBSERVATION EVIDENCE_NOT_YET_AVAILABLE False
                 [TERMINAL_EVIDENCE_ARTIFACT] None
             else decide HARVEST_EVIDENCE (option_or stale_reason EVIDENCE_HARVEST_REQUIRED) False
                    [TERMINAL_EVIDENCE_ARTIFACT] None)
      else if ci_requires_cleanup intent \<and> \<not> ds_cleanup_started durable then
        decide BEGIN_CLEANUP (option_or stale_reason CLEANUP_REQUIRED) False [CLEANUP_EVIDENCE] None
      else if ds_profile_lease durable = HELD \<or> ds_host_lease durable = HELD then
        (if consumers_active observations then
           decide AWAIT_OBSERVATION LEASE_CONSUMERS_ACTIVE False [] None
         else if ci_requires_cleanup intent \<and> \<not> ds_cleanup_complete durable then
           decide AWAIT_OBSERVATION CLEANUP_INCOMPLETE_BEFORE_RELEASE False [] None
         else if \<not> consumers_confirmed_absent durable observations then
           decide AWAIT_OBSERVATION AWAITING_LEASE_CONSUMER_CONFIRMATION False
             [LEASE_RELEASE_CONFIRMATION] None
         else decide RELEASE_LEASES (option_or stale_reason LEASE_RELEASE_REQUIRED) False
                [LEASE_RELEASE_CONFIRMATION] None)
      else if ci_requires_cleanup intent \<and> \<not> ds_cleanup_complete durable then
        decide AWAIT_OBSERVATION CLEANUP_INCOMPLETE_BEFORE_CLOSE False [] None
      else decide NO_OP (option_or stale_reason SESSION_CLOSED) False [] None)"

definition post_terminal ::
  "compiled_session_intent \<Rightarrow> durable_session_state \<Rightarrow> observation_set \<Rightarrow> decide \<Rightarrow>
   reconciliation_decision" where
  "post_terminal intent durable observations decide =
     (case os_provider_session observations of
        Some ps \<Rightarrow>
          if ps_present ps then
            (let status_class = classify_provider_status (ps_raw_status ps) in
             if status_class = CLS_ACTIVE then
               post_terminal_chain intent durable observations decide
                 (Some IGNORED_STALE_RUNNING_AFTER_TERMINAL)
             else case CLASS_TO_OUTCOME status_class of
                 Some observed_outcome \<Rightarrow>
                   if Some observed_outcome \<noteq> ds_terminal_outcome durable then
                     decide QUARANTINE_AMBIGUOUS_STATE CONTRADICTORY_TERMINAL_OUTCOME False [] None
                   else post_terminal_chain intent durable observations decide None
               | None \<Rightarrow> post_terminal_chain intent durable observations decide None)
          else post_terminal_chain intent durable observations decide None
      | None \<Rightarrow> post_terminal_chain intent durable observations decide None)"

section \<open>The reducer\<close>

definition reconcile ::
  "compiled_session_intent \<Rightarrow> durable_session_state \<Rightarrow> observation_set \<Rightarrow> datetime \<Rightarrow>
   reconciliation_decision" where
  "reconcile intent durable observations now =
     (let decide = (\<lambda>kind reason product_visible evidence outcome.
            mk_decision kind reason intent durable observations now product_visible evidence outcome)
      in
      if ci_schema_version intent \<noteq> RECONCILER_CONTRACT_VERSION
         \<or> ds_schema_version durable \<noteq> RECONCILER_CONTRACT_VERSION
         \<or> os_schema_version observations \<noteq> RECONCILER_CONTRACT_VERSION then
        decide QUARANTINE_AMBIGUOUS_STATE UNKNOWN_INPUT_VERSION False [] None
      else if ci_session_id intent \<noteq> ds_session_id durable then
        decide QUARANTINE_AMBIGUOUS_STATE SESSION_IDENTITY_MISMATCH False [] None
      else if ds_failed durable then decide FAIL_NONRETRYABLE SESSION_FAILED False [] None
      else if ds_quarantined durable then
        decide QUARANTINE_AMBIGUOUS_STATE SESSION_QUARANTINED False [] None
      else if (case os_compatibility observations of None \<Rightarrow> False
               | Some c \<Rightarrow> co_compatibility_version c \<notin> KNOWN_COMPATIBILITY_VERSIONS) then
        decide QUARANTINE_AMBIGUOUS_STATE UNKNOWN_COMPATIBILITY_VERSION False [] None
      else if (case os_compatibility observations of None \<Rightarrow> False
               | Some c \<Rightarrow> \<not> co_runtime_ready c) then
        decide AWAIT_OBSERVATION RUNTIME_NOT_READY False [] None
      else if ds_terminal_outcome durable \<noteq> None then
        post_terminal intent durable observations decide
      else if ds_desired durable = CANCEL then
        decide RECORD_PROVIDER_TERMINAL DESIRED_CANCELLATION True [] (Some CANCELLED)
      else if ci_requires_profile_lease intent \<and> ds_profile_lease durable \<noteq> HELD then
        decide ENSURE_PROFILE_LEASE PROFILE_LEASE_REQUIRED False [] None
      else if ci_requires_host intent \<and> ds_host_lease durable \<noteq> HELD then
        decide ENSURE_HOST HOST_REQUIRED False [] None
      else if \<not> ds_provider_session_attached durable then
        decide ENSURE_PROVIDER_SESSION PROVIDER_SESSION_REQUIRED False [] None
      else if ds_submission durable = NOT_SUBMITTED then
        (if ci_max_turn_attempts intent \<le> ds_turn_attempts durable then
           decide RECORD_PROVIDER_TERMINAL MAX_TURN_ATTEMPTS_EXHAUSTED True [] (Some FAILURE)
         else if ds_attempt_id durable = None then
           decide QUARANTINE_AMBIGUOUS_STATE MISSING_ATTEMPT_IDENTITY False [] None
         else decide SUBMIT_TURN TURN_SUBMISSION_REQUIRED True [] None)
      else if ds_submission durable = IN_FLIGHT then
        (case os_provider_session observations of
           Some ps \<Rightarrow>
             if ps_present ps \<and> observation_matches_session durable ps
                \<and> classify_provider_status (ps_raw_status ps) \<noteq> CLS_UNKNOWN
             then detect_terminal intent durable observations decide
             else decide AWAIT_OBSERVATION SUBMISSION_DELIVERY_AMBIGUOUS False [] None
         | None \<Rightarrow> decide AWAIT_OBSERVATION SUBMISSION_DELIVERY_AMBIGUOUS False [] None)
      else detect_terminal intent durable observations decide)"

section \<open>Shadow-mode comparison\<close>

definition LEGACY_ACTION_TO_DECISION_KIND :: "py_str \<rightharpoonup> decision_kind" where
  "LEGACY_ACTION_TO_DECISION_KIND = map_of
     [(''noop'', NO_OP), (''await'', AWAIT_OBSERVATION),
      (''ensure_profile_lease'', ENSURE_PROFILE_LEASE), (''ensure_host'', ENSURE_HOST),
      (''ensure_session'', ENSURE_PROVIDER_SESSION), (''submit_turn'', SUBMIT_TURN),
      (''record_terminal'', RECORD_PROVIDER_TERMINAL),
      (''synthesize_terminal'', SYNTHESIZE_TERMINAL_FROM_SNAPSHOT),
      (''harvest_evidence'', HARVEST_EVIDENCE), (''begin_cleanup'', BEGIN_CLEANUP),
      (''release_leases'', RELEASE_LEASES), (''retry'', RETRY_TRANSIENT_OBSERVATION),
      (''quarantine'', QUARANTINE_AMBIGUOUS_STATE), (''fail'', FAIL_NONRETRYABLE)]"

definition shadow_compare :: "py_str \<Rightarrow> reconciliation_decision \<Rightarrow> shadow_comparison" where
  "shadow_compare legacy_action decision =
     (let normalized = py_lower (py_strip legacy_action) in
      case LEGACY_ACTION_TO_DECISION_KIND normalized of
        None \<Rightarrow> \<lparr> sc_schema_version = RECONCILER_CONTRACT_VERSION,
                   sc_legacy_action = ''unknown'', sc_decision_kind = rd_kind decision,
                   sc_agreement = False,
                   sc_divergence_reason = Some ''unknown_legacy_action'' \<rparr>
      | Some mapped \<Rightarrow>
          if mapped = rd_kind decision then
            \<lparr> sc_schema_version = RECONCILER_CONTRACT_VERSION,
              sc_legacy_action = normalized, sc_decision_kind = rd_kind decision,
              sc_agreement = True, sc_divergence_reason = None \<rparr>
          else
            \<lparr> sc_schema_version = RECONCILER_CONTRACT_VERSION,
              sc_legacy_action = normalized, sc_decision_kind = rd_kind decision,
              sc_agreement = False,
              sc_divergence_reason = Some (''legacy_maps_to:'' @ decision_kind_value mapped) \<rparr>)"

section \<open>Shape of a decision\<close>

lemma mk_decision_simps [simp, lifecycle_simps]:
  "rd_kind (mk_decision k r i d os n pv ev out) = k"
  "rd_reason_code (mk_decision k r i d os n pv ev out) = r"
  "rd_expected_revision (mk_decision k r i d os n pv ev out) = ds_revision d"
  "rd_expected_fencing_generation (mk_decision k r i d os n pv ev out) = ds_fencing_generation d"
  "rd_changes_product_visible_state (mk_decision k r i d os n pv ev out) = pv"
  "rd_evidence_requirements (mk_decision k r i d os n pv ev out) = ev"
  by (simp_all add: mk_decision_def Let_def)

lemma mk_decision_command:
  "rd_command (mk_decision k r i d os n pv ev out) =
     (if k \<in> COMMAND_DECISION_KINDS then
        Some \<lparr> cs_schema_version = RECONCILER_CONTRACT_VERSION, cs_command_kind = k,
               cs_command_id = command_id d k,
               cs_attempt_id = (if k = SUBMIT_TURN then ds_attempt_id d else None),
               cs_provider_session_id = ds_provider_session_id d,
               cs_terminal_outcome = out \<rparr>
      else None)"
  by (simp add: mk_decision_def Let_def)

lemma mk_decision_deadline:
  "rd_next_deadline (mk_decision k r i d os n pv ev out) =
     (if k \<in> SETTLED_DECISION_KINDS then None
      else Some (n + timedelta_seconds (ci_reconcile_interval_seconds i)))"
  by (simp add: mk_decision_def Let_def)

text \<open>
  Every helper answers with one call of \<open>decide\<close>: what holds of each such call holds of the
  answer.
\<close>

lemma detect_terminal_rule:
  assumes "\<And>k r pv ev out. P (decide k r pv ev out)"
  shows "P (detect_terminal i d os decide)"
  unfolding detect_terminal_def Let_def
  by (simp add: assms split: option.split provider_status_class.split)

lemma post_terminal_chain_rule:
  assumes "\<And>k r pv ev out. P (decide k r pv ev out)"
  shows "P (post_terminal_chain i d os decide sr)"
  unfolding post_terminal_chain_def by (simp add: assms split: option.split)

lemma post_terminal_rule:
  assumes "\<And>k r pv ev out. P (decide k r pv ev out)"
  shows "P (post_terminal i d os decide)"
  unfolding post_terminal_def Let_def
  by (simp add: assms post_terminal_chain_rule split: option.split)

lemma reconcile_rule:
  assumes "\<And>k r pv ev out. P (mk_decision k r i d os n pv ev out)"
  shows "P (reconcile i d os n)"
  unfolding reconcile_def Let_def
  by (simp add: assms post_terminal_rule detect_terminal_rule split: option.split)

lemma reconcile_cases:
  obtains k r pv ev out where "reconcile i d os n = mk_decision k r i d os n pv ev out"
  using reconcile_rule [where P = "\<lambda>x. \<exists>k r pv ev out. x = mk_decision k r i d os n pv ev out"]
  by blast

lemma reconcile_command_kind:
  "rd_command (reconcile i d os n) = Some c \<Longrightarrow> cs_command_kind c = rd_kind (reconcile i d os n)"
  by (rule reconcile_cases [of i d os n]) (auto simp: mk_decision_command split: if_splits)

section \<open>When each side effect is authorised\<close>

definition reconcilable ::
  "compiled_session_intent \<Rightarrow> durable_session_state \<Rightarrow> observation_set \<Rightarrow> bool" where
  "reconcilable i d os \<longleftrightarrow>
     ci_schema_version i = RECONCILER_CONTRACT_VERSION
     \<and> ds_schema_version d = RECONCILER_CONTRACT_VERSION
     \<and> os_schema_version os = RECONCILER_CONTRACT_VERSION
     \<and> ci_session_id i = ds_session_id d \<and> \<not> ds_failed d \<and> \<not> ds_quarantined d
     \<and> (\<forall>c \<in> set_option (os_compatibility os).
          co_compatibility_version c \<in> KNOWN_COMPATIBILITY_VERSIONS \<and> co_runtime_ready c)"

definition provisioned :: "compiled_session_intent \<Rightarrow> durable_session_state \<Rightarrow> bool" where
  "provisioned i d \<longleftrightarrow>
     (ci_requires_profile_lease i \<longrightarrow> ds_profile_lease d = HELD)
     \<and> (ci_requires_host i \<longrightarrow> ds_host_lease d = HELD)
     \<and> ds_provider_session_attached d"

definition terminal_decision_kinds :: "decision_kind set" where
  "terminal_decision_kinds = {RECORD_PROVIDER_TERMINAL, SYNTHESIZE_TERMINAL_FROM_SNAPSHOT}"

declare terminal_decision_kinds_def [vocabulary]

definition records_terminal :: "reconciliation_decision \<Rightarrow> terminal_outcome option \<Rightarrow> bool" where
  "records_terminal dec out \<longleftrightarrow>
     (\<exists>c. rd_command dec = Some c \<and> cs_command_kind c \<in> terminal_decision_kinds
          \<and> cs_terminal_outcome c = out)"

lemma records_terminal_mk:
  "records_terminal (mk_decision k r i d os n pv ev out') out \<longleftrightarrow>
     k \<in> terminal_decision_kinds \<and> out' = out"
  by (auto simp: records_terminal_def mk_decision_command vocabulary)

text \<open>
  The evidence on which a provider terminal may be recorded: a present snapshot of the same
  provider session whose status is an explicit terminal, or an idle one without an open tool
  call that a complete transcript of the current attempt corroborates.
\<close>

definition terminal_evidence ::
  "durable_session_state \<Rightarrow> observation_set \<Rightarrow> terminal_outcome option \<Rightarrow> bool" where
  "terminal_evidence d os out \<longleftrightarrow>
     (\<exists>ps \<in> set_option (os_provider_session os).
        ps_present ps \<and> observation_matches_session d ps \<and>
        (let c = classify_provider_status (ps_raw_status ps) in
         (out \<noteq> None \<and> CLASS_TO_OUTCOME c = out) \<or>
         (c = CLS_IDLE \<and> \<not> ps_open_tool_call ps \<and>
          (\<exists>pt \<in> set_option (os_provider_turn os).
             pt_turn_complete pt \<and> turn_matches_attempt d pt \<and> out = pt_outcome pt))))"

lemma detect_terminal_kind:
  "rd_kind (detect_terminal i d os (\<lambda>k r. mk_decision k r i d os n)) \<in>
     insert AWAIT_OBSERVATION (insert QUARANTINE_AMBIGUOUS_STATE terminal_decision_kinds)"
  unfolding detect_terminal_def Let_def
  by (simp add: vocabulary split: option.split provider_status_class.split)

lemma detect_terminal_iff:
  "records_terminal (detect_terminal i d os (\<lambda>k r. mk_decision k r i d os n)) out
     \<longleftrightarrow> terminal_evidence d os out"
  unfolding detect_terminal_def terminal_evidence_def Let_def
  by (auto simp add: records_terminal_mk vocabulary
      split: option.split provider_status_class.split)

lemma post_terminal_chain_kind:
  "rd_kind (post_terminal_chain i d os (\<lambda>k r. mk_decision k r i d os n) sr) \<in>
     {AWAIT_OBSERVATION, RETRY_TRANSIENT_OBSERVATION, HARVEST_EVIDENCE, BEGIN_CLEANUP,
      RELEASE_LEASES, NO_OP}"
  unfolding post_terminal_chain_def by (simp split: option.split)

lemma post_terminal_kind:
  "rd_kind (post_terminal i d os (\<lambda>k r. mk_decision k r i d os n)) \<in>
     {AWAIT_OBSERVATION, RETRY_TRANSIENT_OBSERVATION, HARVEST_EVIDENCE, BEGIN_CLEANUP,
      RELEASE_LEASES, NO_OP, QUARANTINE_AMBIGUOUS_STATE}"
  using post_terminal_chain_kind [of i d os n] unfolding post_terminal_def Let_def
  by (simp split: option.split) blast

lemma post_terminal_chain_release:
  "rd_kind (post_terminal_chain i d os (\<lambda>k r. mk_decision k r i d os n) sr) = RELEASE_LEASES \<longleftrightarrow>
     ds_evidence_harvested d \<and> ds_terminal_evidence_ref d \<noteq> None
     \<and> (ci_requires_cleanup i \<longrightarrow> ds_cleanup_started d \<and> ds_cleanup_complete d)
     \<and> (ds_profile_lease d = HELD \<or> ds_host_lease d = HELD)
     \<and> \<not> consumers_active os \<and> consumers_confirmed_absent d os"
  unfolding post_terminal_chain_def by (simp split: option.split)

text \<open>A present snapshot that claims another terminal than the recorded one.\<close>

definition contradicts_terminal :: "durable_session_state \<Rightarrow> observation_set \<Rightarrow> bool" where
  "contradicts_terminal d os \<longleftrightarrow>
     (\<exists>ps \<in> set_option (os_provider_session os). ps_present ps \<and>
        CLASS_TO_OUTCOME (classify_provider_status (ps_raw_status ps))
          \<notin> {None, ds_terminal_outcome d})"

lemma post_terminal_release:
  "rd_kind (post_terminal i d os (\<lambda>k r. mk_decision k r i d os n)) = RELEASE_LEASES \<longleftrightarrow>
     \<not> contradicts_terminal d os
     \<and> ds_evidence_harvested d \<and> ds_terminal_evidence_ref d \<noteq> None
     \<and> (ci_requires_cleanup i \<longrightarrow> ds_cleanup_started d \<and> ds_cleanup_complete d)
     \<and> (ds_profile_lease d = HELD \<or> ds_host_lease d = HELD)
     \<and> \<not> consumers_active os \<and> consumers_confirmed_absent d os"
  unfolding post_terminal_def contradicts_terminal_def Let_def
  by (simp add: post_terminal_chain_release split: option.split)

lemma reconcile_blocked:
  assumes "\<not> reconcilable i d os"
  shows "rd_kind (reconcile i d os n) \<in>
           {QUARANTINE_AMBIGUOUS_STATE, FAIL_NONRETRYABLE, AWAIT_OBSERVATION}"
proof -
  consider
      "ci_schema_version i \<noteq> RECONCILER_CONTRACT_VERSION
        \<or> ds_schema_version d \<noteq> RECONCILER_CONTRACT_VERSION
        \<or> os_schema_version os \<noteq> RECONCILER_CONTRACT_VERSION"
    | "ci_session_id i \<noteq> ds_session_id d" | "ds_failed d" | "ds_quarantined d"
    | c where "os_compatibility os = Some c"
        "co_compatibility_version c \<notin> KNOWN_COMPATIBILITY_VERSIONS \<or> \<not> co_runtime_ready c"
    using assms unfolding reconcilable_def by (cases "os_compatibility os") auto
  then show ?thesis
    by cases (simp_all add: reconcile_def Let_def)
qed

lemma reconcile_live:
  assumes "reconcilable i d os"
  shows "reconcile i d os n =
     (let decide = (\<lambda>k r. mk_decision k r i d os n) in
      if ds_terminal_outcome d \<noteq> None then post_terminal i d os decide
      else if ds_desired d = CANCEL then
        decide RECORD_PROVIDER_TERMINAL DESIRED_CANCELLATION True [] (Some CANCELLED)
      else if ci_requires_profile_lease i \<and> ds_profile_lease d \<noteq> HELD then
        decide ENSURE_PROFILE_LEASE PROFILE_LEASE_REQUIRED False [] None
      else if ci_requires_host i \<and> ds_host_lease d \<noteq> HELD then
        decide ENSURE_HOST HOST_REQUIRED False [] None
      else if \<not> ds_provider_session_attached d then
        decide ENSURE_PROVIDER_SESSION PROVIDER_SESSION_REQUIRED False [] None
      else if ds_submission d = NOT_SUBMITTED then
        (if ci_max_turn_attempts i \<le> ds_turn_attempts d then
           decide RECORD_PROVIDER_TERMINAL MAX_TURN_ATTEMPTS_EXHAUSTED True [] (Some FAILURE)
         else if ds_attempt_id d = None then
           decide QUARANTINE_AMBIGUOUS_STATE MISSING_ATTEMPT_IDENTITY False [] None
         else decide SUBMIT_TURN TURN_SUBMISSION_REQUIRED True [] None)
      else if ds_submission d = IN_FLIGHT
         \<and> \<not> (\<exists>ps \<in> set_option (os_provider_session os). ps_present ps
               \<and> observation_matches_session d ps
               \<and> classify_provider_status (ps_raw_status ps) \<noteq> CLS_UNKNOWN)
      then decide AWAIT_OBSERVATION SUBMISSION_DELIVERY_AMBIGUOUS False [] None
      else detect_terminal i d os decide)"
proof -
  have gate: "ci_schema_version i = RECONCILER_CONTRACT_VERSION"
    "ds_schema_version d = RECONCILER_CONTRACT_VERSION"
    "os_schema_version os = RECONCILER_CONTRACT_VERSION"
    "ci_session_id i = ds_session_id d" "\<not> ds_failed d" "\<not> ds_quarantined d"
    "\<not> (case os_compatibility os of None \<Rightarrow> False
        | Some c \<Rightarrow> co_compatibility_version c \<notin> KNOWN_COMPATIBILITY_VERSIONS)"
    "\<not> (case os_compatibility os of None \<Rightarrow> False | Some c \<Rightarrow> \<not> co_runtime_ready c)"
    using assms by (auto simp: reconcilable_def split: option.splits)
  show ?thesis
    by (cases "os_provider_session os") (simp_all add: reconcile_def gate Let_def)
qed

lemma reconcile_submit_iff:
  "rd_kind (reconcile i d os n) = SUBMIT_TURN \<longleftrightarrow>
     reconcilable i d os \<and> ds_terminal_outcome d = None \<and> ds_desired d \<noteq> CANCEL
     \<and> provisioned i d \<and> ds_submission d = NOT_SUBMITTED
     \<and> ds_turn_attempts d < ci_max_turn_attempts i \<and> ds_attempt_id d \<noteq> None"
proof (cases "reconcilable i d os")
  case True
  have "rd_kind (post_terminal i d os (\<lambda>k r. mk_decision k r i d os n)) \<noteq> SUBMIT_TURN"
    using post_terminal_kind [of i d os n] by auto
  moreover have "rd_kind (detect_terminal i d os (\<lambda>k r. mk_decision k r i d os n)) \<noteq> SUBMIT_TURN"
    using detect_terminal_kind [of i d os n] by (auto simp: vocabulary)
  ultimately show ?thesis
    using True by (simp add: reconcile_live provisioned_def Let_def)
next
  case False
  then show ?thesis using reconcile_blocked [of i d os n] by auto
qed

lemma reconcile_release_iff:
  "rd_kind (reconcile i d os n) = RELEASE_LEASES \<longleftrightarrow>
     reconcilable i d os \<and> ds_terminal_outcome d \<noteq> None \<and> \<not> contradicts_terminal d os
     \<and> ds_evidence_harvested d \<and> ds_terminal_evidence_ref d \<noteq> None
     \<and> (ci_requires_cleanup i \<longrightarrow> ds_cleanup_started d \<and> ds_cleanup_complete d)
     \<and> (ds_profile_lease d = HELD \<or> ds_host_lease d = HELD)
     \<and> \<not> consumers_active os \<and> consumers_confirmed_absent d os"
proof (cases "reconcilable i d os")
  case True
  have "rd_kind (detect_terminal i d os (\<lambda>k r. mk_decision k r i d os n)) \<noteq> RELEASE_LEASES"
    using detect_terminal_kind [of i d os n] by (auto simp: vocabulary)
  with True show ?thesis
    by (simp add: reconcile_live post_terminal_release Let_def)
next
  case False
  then show ?thesis using reconcile_blocked [of i d os n] by auto
qed

lemma reconcile_post_terminal_kind:
  assumes "ds_terminal_outcome d \<noteq> None"
  shows "rd_kind (reconcile i d os n) \<in>
     {AWAIT_OBSERVATION, RETRY_TRANSIENT_OBSERVATION, HARVEST_EVIDENCE, BEGIN_CLEANUP,
      RELEASE_LEASES, NO_OP, QUARANTINE_AMBIGUOUS_STATE, FAIL_NONRETRYABLE}"
proof (cases "reconcilable i d os")
  case True
  with assms show ?thesis
    using post_terminal_kind [of i d os n] by (auto simp: reconcile_live)
next
  case False
  then show ?thesis using reconcile_blocked [of i d os n] by auto
qed

text \<open>
  Why a terminal may be recorded: a requested cancellation, an exhausted attempt budget on a
  provisioned session, or provider evidence for a submitted turn.
\<close>

definition terminal_justified ::
  "compiled_session_intent \<Rightarrow> durable_session_state \<Rightarrow> observation_set \<Rightarrow>
   terminal_outcome option \<Rightarrow> bool" where
  "terminal_justified i d os out \<longleftrightarrow> ds_terminal_outcome d = None \<and>
     (if ds_desired d = CANCEL then out = Some CANCELLED
      else provisioned i d \<and>
        (if ds_submission d = NOT_SUBMITTED
         then ci_max_turn_attempts i \<le> ds_turn_attempts d \<and> out = Some FAILURE
         else terminal_evidence d os out))"

lemma reconcile_terminal_iff:
  "records_terminal (reconcile i d os n) out \<longleftrightarrow>
     reconcilable i d os \<and> terminal_justified i d os out"
proof (cases "reconcilable i d os \<and> ds_terminal_outcome d = None")
  case True
  have "terminal_evidence d os out \<Longrightarrow>
      \<exists>ps \<in> set_option (os_provider_session os). ps_present ps
               \<and> observation_matches_session d ps
               \<and> classify_provider_status (ps_raw_status ps) \<noteq> CLS_UNKNOWN"
    by (auto simp: terminal_evidence_def Let_def)
  with True show ?thesis
    by (auto simp: reconcile_live Let_def records_terminal_mk detect_terminal_iff
        terminal_justified_def provisioned_def terminal_decision_kinds_def)
next
  case False
  have "rd_kind (reconcile i d os n) \<notin> terminal_decision_kinds"
    using False reconcile_blocked [of i d os n] reconcile_post_terminal_kind [of d i os n]
    by (cases "reconcilable i d os") (auto simp: vocabulary)
  then have "\<not> records_terminal (reconcile i d os n) out"
    using reconcile_command_kind by (fastforce simp: records_terminal_def)
  with False show ?thesis by (auto simp: terminal_justified_def)
qed

lemma command_id_inject:
  assumes "ds_session_id d = ds_session_id d'" and "command_id d k = command_id d' k'"
  shows "ds_fencing_generation d = ds_fencing_generation d'" and "ds_revision d = ds_revision d'"
proof -
  obtain t t' where
    "py_str_int (ds_fencing_generation d) @ CHR '':'' # CHR ''r'' #
       (py_str_int (ds_revision d) @ CHR '':'' # t) =
     py_str_int (ds_fencing_generation d') @ CHR '':'' # CHR ''r'' #
       (py_str_int (ds_revision d') @ CHR '':'' # t')"
    using assms by (auto simp: command_id_def Let_def)
  then have "py_str_int (ds_fencing_generation d) = py_str_int (ds_fencing_generation d')"
    and "py_str_int (ds_revision d) = py_str_int (ds_revision d')"
    by (simp_all add: append_sep_eq py_str_int_no_colon)
  then show "ds_fencing_generation d = ds_fencing_generation d'" and "ds_revision d = ds_revision d'"
    by (simp_all add: py_str_int_inject)
qed

lemma detect_terminal_rule2:
  assumes "\<And>k r pv ev out. P (f k r pv ev out) (g k r pv ev out)"
  shows "P (detect_terminal i d os f) (detect_terminal i d os g)"
proof (cases "os_provider_session os")
  case (Some ps)
  then show ?thesis
    by (cases "classify_provider_status (ps_raw_status ps)"; cases "os_provider_turn os";
        cases "os_event_frontier os") (simp_all add: assms detect_terminal_def Let_def)
qed (simp add: assms detect_terminal_def)

lemma post_terminal_chain_rule2:
  assumes "\<And>k r pv ev out. P (f k r pv ev out) (g k r pv ev out)"
  shows "P (post_terminal_chain i d os f sr) (post_terminal_chain i d os g sr)"
  by (cases "os_evidence os") (simp_all add: assms post_terminal_chain_def)

lemma post_terminal_rule2:
  assumes "\<And>k r pv ev out. P (f k r pv ev out) (g k r pv ev out)"
  shows "P (post_terminal i d os f) (post_terminal i d os g)"
proof (cases "os_provider_session os")
  case (Some ps)
  then show ?thesis
    by (cases "CLASS_TO_OUTCOME (classify_provider_status (ps_raw_status ps))")
      (simp_all add: assms post_terminal_chain_rule2 post_terminal_def Let_def)
qed (simp add: assms post_terminal_chain_rule2 post_terminal_def)

lemma reconcile_rule2:
  assumes "\<And>k r pv ev out.
             P (mk_decision k r i d os n pv ev out) (mk_decision k r i d os n' pv ev out)"
  shows "P (reconcile i d os n) (reconcile i d os n')"
  by (cases "os_provider_session os"; cases "os_compatibility os")
    (simp_all add: assms post_terminal_rule2 detect_terminal_rule2 reconcile_def Let_def)

definition cleanup_settled :: "compiled_session_intent \<Rightarrow> durable_session_state \<Rightarrow> bool" where
  "cleanup_settled i d \<longleftrightarrow>
     (ci_requires_cleanup i \<longrightarrow> ds_cleanup_started d \<and> ds_cleanup_complete d)"

section \<open>Concrete instances\<close>

text \<open>A session in the middle of its life, on which the witnesses evaluate the reducer.\<close>

definition example_intent :: compiled_session_intent where
  "example_intent = \<lparr> ci_schema_version = ''v1'', ci_session_id = ''session-1'',
     ci_provider = ''omnigent'', ci_requires_profile_lease = True, ci_requires_host = True,
     ci_requires_cleanup = True, ci_max_turn_attempts = 1, ci_reconcile_interval_seconds = 30,
     ci_turn_prompt_digest = ''sha256:prompt'' \<rparr>"

definition example_durable :: durable_session_state where
  "example_durable = \<lparr>
     ds_schema_version = ''v1'', ds_session_id = ''session-1'', ds_revision = 5,
     ds_owner_token = ''owner'', ds_fencing_generation = 2, ds_runtime_binding_ref = None,
     ds_runtime_binding_revision = None, ds_runtime_binding_fencing_generation = None,
     ds_desired = RUN, ds_provider_session_attached = True,
     ds_provider_session_id = Some ''ps-1'', ds_attempt_id = Some ''attempt-1'',
     ds_submission = SUB_ACCEPTED, ds_turn_attempts = 1, ds_profile_lease = HELD,
     ds_host_lease = HELD, ds_last_cursor = None, ds_last_snapshot_digest = None,
     ds_terminal_outcome = Some SUCCESS, ds_terminal_evidence_ref = None,
     ds_evidence_harvested = False, ds_cleanup_started = False, ds_cleanup_complete = False,
     ds_failed = False, ds_quarantined = False, ds_next_deadline = None,
     ds_prior_decision = None \<rparr>"

definition example_harvest :: observation_set where
  "example_harvest = empty_observations\<lparr> os_evidence := Some \<lparr> ev_observed_at = 0,
     ev_terminal_evidence_available = True, ev_artifacts_available = True \<rparr> \<rparr>"

lemmas example_defs = example_intent_def example_durable_def example_harvest_def
  empty_observations_def

lemma example_harvest_decision:
  "rd_command (reconcile example_intent example_durable example_harvest 0) =
     Some \<lparr> cs_schema_version = ''v1'', cs_command_kind = HARVEST_EVIDENCE,
       cs_command_id = command_id example_durable HARVEST_EVIDENCE, cs_attempt_id = None,
       cs_provider_session_id = Some ''ps-1'', cs_terminal_outcome = None \<rparr>"
  by (simp add: example_defs reconcile_def post_terminal_def post_terminal_chain_def
      mk_decision_command vocabulary Let_def)

section \<open>Properties of the reducer\<close>

text \<open>
  The authority of a decision: it expects exactly the revision and the fencing generation
  it was computed from, it carries a command if and only if its kind is a command kind, and
  the command names the kind, the deterministic identity of that state, the attempt (for a
  submission only) and the provider session of the durable state.
\<close>

theorem reconcile_authority:
  "rd_expected_revision (reconcile i d os n) = ds_revision d
   \<and> rd_expected_fencing_generation (reconcile i d os n) = ds_fencing_generation d
   \<and> (\<exists>outcome. rd_command (reconcile i d os n) =
        (if rd_kind (reconcile i d os n) \<in> COMMAND_DECISION_KINDS
         then Some \<lparr> cs_schema_version = RECONCILER_CONTRACT_VERSION,
                cs_command_kind = rd_kind (reconcile i d os n),
                cs_command_id = command_id d (rd_kind (reconcile i d os n)),
                cs_attempt_id = (if rd_kind (reconcile i d os n) = SUBMIT_TURN
                                 then ds_attempt_id d else None),
                cs_provider_session_id = ds_provider_session_id d,
                cs_terminal_outcome = outcome \<rparr>
         else None))"
proof (rule reconcile_cases [of i d os n])
  fix k r pv ev out
  assume "reconcile i d os n = mk_decision k r i d os n pv ev out"
  then show ?thesis by (simp add: mk_decision_command)
qed

text \<open>
  Every decision is bounded in time: with a validated intent, a settled decision has no
  deadline and every other one is due strictly later than now, after one interval.
\<close>

theorem reconcile_bounded_deadline:
  assumes "intent_valid i"
  shows "case rd_next_deadline (reconcile i d os n) of
           None \<Rightarrow> rd_kind (reconcile i d os n) \<in> SETTLED_DECISION_KINDS
         | Some t \<Rightarrow> rd_kind (reconcile i d os n) \<notin> SETTLED_DECISION_KINDS \<and> n < t
             \<and> t = n + 1000000 * ci_reconcile_interval_seconds i"
  using assms
  by (rule_tac reconcile_cases [of i d os n])
    (simp add: mk_decision_deadline intent_valid_def timedelta_seconds_def)

lemma reconcile_bounded_deadline_witness:
  "intent_valid example_intent
   \<and> (case rd_next_deadline (reconcile example_intent example_durable empty_observations 7) of
           None \<Rightarrow> rd_kind (reconcile example_intent example_durable empty_observations 7)
                    \<in> SETTLED_DECISION_KINDS
         | Some t \<Rightarrow> rd_kind (reconcile example_intent example_durable empty_observations 7)
                    \<notin> SETTLED_DECISION_KINDS \<and> 7 < t
             \<and> t = 7 + 1000000 * ci_reconcile_interval_seconds example_intent)"
proof -
  have "intent_valid example_intent" by (simp add: intent_valid_def example_intent_def vocabulary)
  then show ?thesis using reconcile_bounded_deadline [of example_intent] by blast
qed

text \<open>
  The reducer reads the clock only to compute the deadline: the same state and the same
  observations at another instant give the same kind, reason, command and diagnostics.
\<close>

theorem reconcile_time_invariant:
  "reconcile i d os n' = (reconcile i d os n)
     \<lparr> rd_next_deadline := map_option (\<lambda>t. t + (n' - n)) (rd_next_deadline (reconcile i d os n)) \<rparr>"
  by (rule reconcile_rule2) (simp add: mk_decision_def Let_def)

text \<open>
  C34. The gate fails closed: an unknown contract or compatibility version, another session's
  intent, a failed or quarantined session, or an unready runtime never yields a command.
\<close>

theorem reconcile_fails_closed:
  assumes "\<not> reconcilable i d os"
  shows "rd_command (reconcile i d os n) = None
    \<and> rd_kind (reconcile i d os n) \<in>
        {QUARANTINE_AMBIGUOUS_STATE, FAIL_NONRETRYABLE, AWAIT_OBSERVATION}"
  using reconcile_blocked [OF assms, of n]
  by (rule_tac reconcile_cases [of i d os n]) (auto simp: mk_decision_command vocabulary)

lemma reconcile_fails_closed_witness:
  "\<not> reconcilable example_intent (example_durable\<lparr> ds_quarantined := True \<rparr>) example_harvest
   \<and> rd_command (reconcile example_intent (example_durable\<lparr> ds_quarantined := True \<rparr>)
       example_harvest 0) = None"
proof -
  have "\<not> reconcilable example_intent (example_durable\<lparr> ds_quarantined := True \<rparr>) example_harvest"
    by (simp add: reconcilable_def example_defs)
  then show ?thesis using reconcile_fails_closed by blast
qed

text \<open>
  A turn is submitted exactly when the gate is open, no terminal is recorded, no
  cancellation is wanted, every required lease and the provider session are in place, nothing
  was submitted yet, the attempt budget has room and the attempt has an identity.
\<close>

theorem submit_turn_iff:
  "rd_kind (reconcile i d os n) = SUBMIT_TURN \<longleftrightarrow>
     reconcilable i d os \<and> ds_terminal_outcome d = None \<and> ds_desired d = RUN
     \<and> provisioned i d \<and> ds_submission d = NOT_SUBMITTED
     \<and> ds_turn_attempts d < ci_max_turn_attempts i \<and> ds_attempt_id d \<noteq> None"
  by (cases "ds_desired d") (simp_all add: reconcile_submit_iff)

text \<open>
  C18. A terminal outcome is recorded exactly when the gate is open, none is recorded yet,
  and it is justified: the cancellation the user asked for, the failure of an exhausted attempt
  budget, or the outcome the correlated provider evidence shows.
\<close>

theorem record_terminal_iff:
  "(\<exists>c. rd_command (reconcile i d os n) = Some c
        \<and> cs_command_kind c \<in> {RECORD_PROVIDER_TERMINAL, SYNTHESIZE_TERMINAL_FROM_SNAPSHOT}
        \<and> cs_terminal_outcome c = out)
   \<longleftrightarrow> reconcilable i d os \<and> terminal_justified i d os out"
  using reconcile_terminal_iff [of i d os n out]
  by (simp add: records_terminal_def terminal_decision_kinds_def)

text \<open>
  C19. Leases are released exactly when the session may be reconciled at all (contracts of known
  versions for one session that is neither failed nor quarantined, on a ready runtime), a terminal is
  recorded and not contradicted, the evidence is harvested, the required cleanup has started and
  completed, some lease is held, and no consumer is there: a lease that is held has an observation
  and it reports the consumer inactive, an observed lease that is not held reports none either, and
  no observed host has its runner ready. A lease that is held but not observed is never released.
\<close>

theorem release_leases_iff:
  "rd_kind (reconcile i d os n) = RELEASE_LEASES \<longleftrightarrow>
     reconcilable i d os \<and> ds_terminal_outcome d \<noteq> None \<and> \<not> contradicts_terminal d os
     \<and> ds_evidence_harvested d \<and> ds_terminal_evidence_ref d \<noteq> None \<and> cleanup_settled i d
     \<and> (ds_profile_lease d = HELD \<or> ds_host_lease d = HELD)
     \<and> (case os_profile_lease os of None \<Rightarrow> ds_profile_lease d \<noteq> HELD | Some l \<Rightarrow> \<not> lo_consumer_active l)
     \<and> (case os_host_lease os of None \<Rightarrow> ds_host_lease d \<noteq> HELD | Some l \<Rightarrow> \<not> lo_consumer_active l)
     \<and> (case os_host os of None \<Rightarrow> True | Some h \<Rightarrow> \<not> ho_runner_ready h)"
  by (auto simp: reconcile_release_iff cleanup_settled_def consumers_active_def consumers_confirmed_absent_def
      split: option.splits)

text \<open>
  A recorded terminal is final: whatever is observed afterwards, the reducer neither
  provisions, nor submits, nor records another terminal.
\<close>

theorem terminal_is_final:
  assumes "ds_terminal_outcome d \<noteq> None"
  shows "rd_kind (reconcile i d os n) \<notin>
     {ENSURE_PROFILE_LEASE, ENSURE_HOST, ENSURE_PROVIDER_SESSION, SUBMIT_TURN,
      RECORD_PROVIDER_TERMINAL, SYNTHESIZE_TERMINAL_FROM_SNAPSHOT}"
  using reconcile_post_terminal_kind [OF assms, of i os n] by auto

lemma terminal_is_final_witness:
  "ds_terminal_outcome example_durable \<noteq> None
   \<and> rd_kind (reconcile example_intent example_durable example_harvest 0) \<notin>
     {ENSURE_PROFILE_LEASE, ENSURE_HOST, ENSURE_PROVIDER_SESSION, SUBMIT_TURN,
      RECORD_PROVIDER_TERMINAL, SYNTHESIZE_TERMINAL_FROM_SNAPSHOT}"
proof -
  have "ds_terminal_outcome example_durable \<noteq> None" by (simp add: example_durable_def)
  then show ?thesis using terminal_is_final by blast
qed

text \<open>
  The identity of a command is scoped: two commands the reducer ever issues for one
  session share an identity only when they were computed at the same fencing generation and the
  same revision, so a retry after a takeover or a committed transition gets a fresh key.
\<close>

theorem command_identity_scoped:
  assumes "rd_command (reconcile i d os n) = Some c"
    and "rd_command (reconcile i' d' os' n') = Some c'"
    and "ds_session_id d = ds_session_id d'"
    and "cs_command_id c = cs_command_id c'"
  shows "ds_fencing_generation d = ds_fencing_generation d' \<and> ds_revision d = ds_revision d'"
proof -
  have "cs_command_id c = command_id d (rd_kind (reconcile i d os n))"
    using assms(1) by (rule_tac reconcile_cases [of i d os n]) (auto simp: mk_decision_command split: if_splits)
  moreover have "cs_command_id c' = command_id d' (rd_kind (reconcile i' d' os' n'))"
    using assms(2) by (rule_tac reconcile_cases [of i' d' os' n']) (auto simp: mk_decision_command split: if_splits)
  ultimately show ?thesis using assms(3,4) command_id_inject by metis
qed

lemma command_identity_scoped_witness:
  "\<exists>c c'. rd_command (reconcile example_intent example_durable example_harvest 0) = Some c
     \<and> rd_command (reconcile example_intent (example_durable\<lparr> ds_owner_token := ''other'' \<rparr>)
          example_harvest 90) = Some c'
     \<and> cs_command_id c = cs_command_id c'
     \<and> ds_fencing_generation example_durable =
         ds_fencing_generation (example_durable\<lparr> ds_owner_token := ''other'' \<rparr>)
     \<and> ds_revision example_durable = ds_revision (example_durable\<lparr> ds_owner_token := ''other'' \<rparr>)"
proof -
  let ?d' = "example_durable\<lparr> ds_owner_token := ''other'' \<rparr>"
  obtain c where c: "rd_command (reconcile example_intent example_durable example_harvest 0) = Some c"
    "cs_command_id c = command_id example_durable HARVEST_EVIDENCE"
    using example_harvest_decision by simp
  obtain c' where c': "rd_command (reconcile example_intent ?d' example_harvest 90) = Some c'"
    "cs_command_id c' = command_id example_durable HARVEST_EVIDENCE"
    by (simp add: example_defs reconcile_def post_terminal_def post_terminal_chain_def
        mk_decision_command vocabulary command_id_def Let_def)
  have "ds_session_id example_durable = ds_session_id ?d'" by (simp add: example_durable_def)
  from command_identity_scoped [OF c(1) c'(1) this] c c' show ?thesis by (metis (no_types))
qed

text \<open>
  Shadow comparison: the retained legacy token is one of the closed vocabulary or
  the word unknown, agreement holds exactly when the normalised action maps to the decided kind, and a
  divergence always carries a reason.
\<close>

theorem shadow_compare_correct:
  "(let sc = shadow_compare legacy dec in
    sc_decision_kind sc = rd_kind dec
    \<and> sc_legacy_action sc \<in> insert ''unknown'' (dom LEGACY_ACTION_TO_DECISION_KIND)
    \<and> sc_agreement sc = (LEGACY_ACTION_TO_DECISION_KIND (py_lower (py_strip legacy)) = Some (rd_kind dec))
    \<and> sc_agreement sc = (sc_divergence_reason sc = None))"
  by (cases "LEGACY_ACTION_TO_DECISION_KIND (py_lower (py_strip legacy))")
    (auto simp: shadow_compare_def Let_def dom_def)

end
