(* ===== verification/Fault_Scenario.thy ===== *)
theory Fault_Scenario
  imports Prelude
begin

text \<open>
  The vocabulary of declarative fault scenarios, \<^verbatim>\<open>moonmind/omnigent/faultlab/scenario.py\<close>:
  logical operations, transport responses, side effects, crash windows, and the versioned
  scenario document they are assembled into.
\<close>

definition FAULT_SCENARIO_SCHEMA_VERSION :: py_str where
  "FAULT_SCENARIO_SCHEMA_VERSION = ''moonmind.omnigent-fault-scenario/v1''"

definition KNOWN_SCENARIO_SCHEMA_VERSIONS :: "py_str set" where
  "KNOWN_SCENARIO_SCHEMA_VERSIONS = {FAULT_SCENARIO_SCHEMA_VERSION}"

datatype logical_operation =
    OP_ENSURE_PROFILE_LEASE | OP_ENSURE_HOST | OP_ENSURE_SESSION | OP_SUBMIT_TURN
  | OP_READ_EVENTS | OP_OBSERVE_SNAPSHOT | OP_HARVEST_EVIDENCE | OP_BEGIN_CLEANUP
  | OP_RELEASE_LEASES

definition LOGICAL_OPERATION_ORDER :: "logical_operation list" where
  "LOGICAL_OPERATION_ORDER =
     [OP_ENSURE_PROFILE_LEASE, OP_ENSURE_HOST, OP_ENSURE_SESSION, OP_SUBMIT_TURN,
      OP_READ_EVENTS, OP_OBSERVE_SNAPSHOT, OP_HARVEST_EVIDENCE, OP_BEGIN_CLEANUP,
      OP_RELEASE_LEASES]"

datatype response_behavior =
    RESP_SUCCESS | RESP_DROP | RESP_LATENCY | RESP_TIMEOUT | RESP_MALFORMED
  | RESP_UNKNOWN_SCHEMA | RESP_AUTH_FAILURE

fun response_behavior_value :: "response_behavior \<Rightarrow> py_str" where
  "response_behavior_value RESP_SUCCESS = ''success''"
| "response_behavior_value RESP_DROP = ''drop''"
| "response_behavior_value RESP_LATENCY = ''latency''"
| "response_behavior_value RESP_TIMEOUT = ''timeout''"
| "response_behavior_value RESP_MALFORMED = ''malformed''"
| "response_behavior_value RESP_UNKNOWN_SCHEMA = ''unknown_schema''"
| "response_behavior_value RESP_AUTH_FAILURE = ''auth_failure''"

datatype side_effect = SE_NONE | SE_CREATED | SE_ACCEPTED | SE_RECORDED | SE_RELEASED | SE_REMOVED

datatype command_window =
    BEFORE_CLAIM | AFTER_CLAIM_BEFORE_SIDE_EFFECT | AFTER_SIDE_EFFECT_BEFORE_RECEIPT
  | AFTER_RECEIPT_BEFORE_STATE_TRANSITION | AFTER_TRANSITION_BEFORE_ACTIVITY_RESPONSE

fun command_window_value :: "command_window \<Rightarrow> py_str" where
  "command_window_value BEFORE_CLAIM = ''before_claim''"
| "command_window_value AFTER_CLAIM_BEFORE_SIDE_EFFECT = ''after_claim_before_side_effect''"
| "command_window_value AFTER_SIDE_EFFECT_BEFORE_RECEIPT = ''after_side_effect_before_receipt''"
| "command_window_value AFTER_RECEIPT_BEFORE_STATE_TRANSITION =
     ''after_receipt_before_state_transition''"
| "command_window_value AFTER_TRANSITION_BEFORE_ACTIVITY_RESPONSE =
     ''after_transition_before_activity_response''"

definition COMMAND_WINDOW_ORDER :: "command_window list" where
  "COMMAND_WINDOW_ORDER =
     [BEFORE_CLAIM, AFTER_CLAIM_BEFORE_SIDE_EFFECT, AFTER_SIDE_EFFECT_BEFORE_RECEIPT,
      AFTER_RECEIPT_BEFORE_STATE_TRANSITION, AFTER_TRANSITION_BEFORE_ACTIVITY_RESPONSE]"

record emitted_event =
  ee_type :: py_str
  ee_cursor :: "py_str option"

record snapshot_return =
  sr_session_state :: "py_str option"
  sr_turn_state :: "py_str option"
  sr_unfinished_tool_calls :: int
  sr_provider_session_id :: "py_str option"

record scenario_step =
  ss_on :: logical_operation
  ss_side_effect :: side_effect
  ss_response :: response_behavior
  ss_emit :: "emitted_event list"
  ss_ret :: "snapshot_return option"
  ss_disconnect :: bool
  ss_duplicate :: bool
  ss_reorder :: bool
  ss_crash_at :: "command_window option"

definition scenario_step_default :: "logical_operation \<Rightarrow> scenario_step" where
  "scenario_step_default op = \<lparr> ss_on = op, ss_side_effect = SE_NONE, ss_response = RESP_SUCCESS,
     ss_emit = [], ss_ret = None, ss_disconnect = False, ss_duplicate = False,
     ss_reorder = False, ss_crash_at = None \<rparr>"

definition snapshot_return_default :: snapshot_return where
  "snapshot_return_default = \<lparr> sr_session_state = None, sr_turn_state = None,
     sr_unfinished_tool_calls = 0, sr_provider_session_id = None \<rparr>"

record fault_scenario =
  fs_schema_version :: py_str
  fs_seed :: int
  fs_scenario_id :: "py_str option"
  fs_source_ref :: "py_str option"
  fs_steps :: "scenario_step list"
  fs_ground_truth_terminal :: py_str
  fs_requires_profile_lease :: bool
  fs_requires_host :: bool
  fs_requires_cleanup :: bool
  fs_desired_cancel :: bool
  fs_max_turn_attempts :: int
  fs_recovery_round :: int
  fs_invariant :: "py_str option"

text \<open>What pydantic accepts: the version and terminal literals and the two positive bounds.\<close>

definition scenario_valid :: "fault_scenario \<Rightarrow> bool" where
  "scenario_valid s \<longleftrightarrow> fs_schema_version s = FAULT_SCENARIO_SCHEMA_VERSION
     \<and> fs_ground_truth_terminal s \<in> {''success'', ''failure'', ''cancelled''}
     \<and> 0 < fs_max_turn_attempts s \<and> 0 < fs_recovery_round s"

lemma logical_operation_order_complete: "set LOGICAL_OPERATION_ORDER = UNIV"
proof -
  have "op \<in> set LOGICAL_OPERATION_ORDER" for op
    by (cases op) (simp_all add: LOGICAL_OPERATION_ORDER_def)
  then show ?thesis by blast
qed

lemma logical_operation_order_distinct: "distinct LOGICAL_OPERATION_ORDER"
  by (simp add: LOGICAL_OPERATION_ORDER_def)

lemma command_window_order_complete: "set COMMAND_WINDOW_ORDER = UNIV"
proof -
  have "w \<in> set COMMAND_WINDOW_ORDER" for w
    by (cases w) (simp_all add: COMMAND_WINDOW_ORDER_def)
  then show ?thesis by blast
qed

end
