(* ===== verification/Fault_Provider.thy ===== *)
theory Fault_Provider
  imports Py_Runtime Fault_Scenario
begin

text \<open>
  The programmable fake provider and its side-effect ledger,
  \<^verbatim>\<open>moonmind/omnigent/faultlab/provider.py\<close>. The ledger is an append-only record that is
  independent of MoonMind's durable state: the locale \<open>idempotent_executor\<close> states what its
  clients rely on, and the interpretation discharges it for the model.
\<close>

section \<open>Records\<close>

definition payload_digest :: "json \<Rightarrow> py_str" where
  "payload_digest payload = ''sha256:'' @ sha256_hex (utf8 (json_dumps payload))"

record request_record =
  rq_operation :: logical_operation
  rq_idempotency_key :: py_str
  rq_payload_digest :: py_str
  rq_response :: response_behavior

record side_effect_record =
  se_operation :: logical_operation
  se_idempotency_key :: py_str
  se_payload_digest :: py_str
  se_side_effect :: side_effect

record observation_record =
  ob_operation :: logical_operation
  ob_raw_status :: "py_str option"
  ob_delivered :: bool

record provider_response =
  pr_accepted :: bool
  pr_delivered :: bool
  pr_duplicate :: bool
  pr_side_effect :: side_effect
  pr_conflict :: bool

record side_effect_ledger =
  le_requests :: "request_record list"
  le_side_effects :: "side_effect_record list"
  le_observations :: "observation_record list"
  le_first_digest_by_key :: "py_str \<rightharpoonup> py_str"
  le_accepted_keys :: "py_str set"

section \<open>Ledger operations\<close>

definition empty_ledger :: side_effect_ledger where
  "empty_ledger = \<lparr> le_requests = [], le_side_effects = [], le_observations = [],
     le_first_digest_by_key = Map.empty, le_accepted_keys = {} \<rparr>"

definition record_request :: "request_record \<Rightarrow> side_effect_ledger \<Rightarrow> side_effect_ledger" where
  "record_request r l = l\<lparr> le_requests := le_requests l @ [r] \<rparr>"

definition record_observation ::
  "observation_record \<Rightarrow> side_effect_ledger \<Rightarrow> side_effect_ledger" where
  "record_observation r l = l\<lparr> le_observations := le_observations l @ [r] \<rparr>"

definition apply_side_effect ::
  "logical_operation \<Rightarrow> py_str \<Rightarrow> py_str \<Rightarrow> side_effect \<Rightarrow> side_effect_ledger \<Rightarrow>
   (bool \<times> bool) \<times> side_effect_ledger" where
  "apply_side_effect operation key digest effect l =
     (let conflict = (case le_first_digest_by_key l key of
                        None \<Rightarrow> False | Some first \<Rightarrow> first \<noteq> digest);
          l1 = (if le_first_digest_by_key l key = None
                then l\<lparr> le_first_digest_by_key := (le_first_digest_by_key l)(key \<mapsto> digest) \<rparr>
                else l)
      in if key \<in> le_accepted_keys l1 then ((False, conflict), l1)
         else ((True, conflict),
               l1\<lparr> le_accepted_keys := insert key (le_accepted_keys l1),
                   le_side_effects := le_side_effects l1 @
                     [\<lparr> se_operation = operation, se_idempotency_key = key,
                        se_payload_digest = digest, se_side_effect = effect \<rparr>] \<rparr>))"

definition accepted_side_effect_count :: "side_effect_ledger \<Rightarrow> py_str \<Rightarrow> nat" where
  "accepted_side_effect_count l key =
     sum_list (map (\<lambda>r. 1) (filter (\<lambda>r. se_idempotency_key r = key) (le_side_effects l)))"

text \<open>The counting dictionary of \<open>keys_with_multiple_side_effects\<close>, in insertion order.\<close>

fun bump_count :: "py_str \<Rightarrow> (py_str \<times> nat) list \<Rightarrow> (py_str \<times> nat) list" where
  "bump_count k [] = [(k, 1)]"
| "bump_count k ((j, c) # cs) = (if j = k then (j, c + 1) # cs else (j, c) # bump_count k cs)"

definition keys_with_multiple_side_effects :: "side_effect_ledger \<Rightarrow> py_str list" where
  "keys_with_multiple_side_effects l =
     (let counts = foldl (\<lambda>cs r. bump_count (se_idempotency_key r) cs) [] (le_side_effects l)
      in sort (map fst (filter (\<lambda>(k, c). 1 < c) counts)))"

section \<open>The provider\<close>

definition provider_call ::
  "logical_operation \<Rightarrow> py_str \<Rightarrow> json \<Rightarrow> side_effect \<Rightarrow> response_behavior \<Rightarrow>
   side_effect_ledger \<Rightarrow> provider_response \<times> side_effect_ledger" where
  "provider_call operation key payload effect response l =
     (let digest = payload_digest payload;
          l1 = record_request \<lparr> rq_operation = operation, rq_idempotency_key = key,
                 rq_payload_digest = digest, rq_response = response \<rparr> l;
          ((performed, conflict), l2) =
            (if effect \<noteq> SE_NONE then apply_side_effect operation key digest effect l1
             else ((False, False), l1));
          delivered = (response = RESP_SUCCESS);
          accepted = (effect \<noteq> SE_NONE)
      in (\<lparr> pr_accepted = accepted, pr_delivered = delivered,
            pr_duplicate = (accepted \<and> \<not> performed), pr_side_effect = effect,
            pr_conflict = conflict \<rparr>, l2))"

definition provider_observe ::
  "logical_operation \<Rightarrow> py_str option \<Rightarrow> bool \<Rightarrow> side_effect_ledger \<Rightarrow> side_effect_ledger" where
  "provider_observe operation raw_status delivered l =
     record_observation \<lparr> ob_operation = operation, ob_raw_status = raw_status,
       ob_delivered = delivered \<rparr> l"

section \<open>Interface: an idempotent executor\<close>

text \<open>
  What a client that retries commands relies on: a key is performed at most once, and every
  later presentation of it leaves the performed work as it is.
\<close>

locale idempotent_executor =
  fixes perform :: "'k \<Rightarrow> 'p \<Rightarrow> 's \<Rightarrow> 's"
    and effectful :: "'p \<Rightarrow> bool"
    and performed :: "'s \<Rightarrow> 'k list"
    and wf :: "'s \<Rightarrow> bool"
  assumes wf_perform: "wf s \<Longrightarrow> wf (perform k p s)"
    and perform_new: "wf s \<Longrightarrow> effectful p \<Longrightarrow> k \<notin> set (performed s) \<Longrightarrow>
          performed (perform k p s) = performed s @ [k]"
    and perform_again: "wf s \<Longrightarrow> \<not> effectful p \<or> k \<in> set (performed s) \<Longrightarrow>
          performed (perform k p s) = performed s"
begin

fun perform_all :: "('k \<times> 'p) list \<Rightarrow> 's \<Rightarrow> 's" where
  "perform_all [] s = s"
| "perform_all ((k, p) # reqs) s = perform_all reqs (perform k p s)"

lemma perform_all_wf: "wf s \<Longrightarrow> wf (perform_all reqs s)"
  by (induction reqs s rule: perform_all.induct) (auto intro: wf_perform)

lemma perform_distinct: "wf s \<Longrightarrow> distinct (performed s) \<Longrightarrow> distinct (performed (perform k p s))"
  by (cases "\<not> effectful p \<or> k \<in> set (performed s)") (simp_all add: perform_new perform_again)

lemma perform_all_distinct:
  "wf s \<Longrightarrow> distinct (performed s) \<Longrightarrow> distinct (performed (perform_all reqs s))"
  by (induction reqs s rule: perform_all.induct) (auto intro: wf_perform perform_distinct)

lemma perform_set:
  "wf s \<Longrightarrow> set (performed (perform k p s)) = set (performed s) \<union> (if effectful p then {k} else {})"
  by (cases "\<not> effectful p \<or> k \<in> set (performed s)") (auto simp: perform_new perform_again)

lemma perform_all_set:
  "wf s \<Longrightarrow> set (performed (perform_all reqs s)) =
     set (performed s) \<union> fst ` {r \<in> set reqs. effectful (snd r)}"
proof (induction reqs s rule: perform_all.induct)
  case (2 k p reqs s)
  have "fst ` {r \<in> set ((k, p) # reqs). effectful (snd r)} =
      (if effectful p then {k} else {}) \<union> fst ` {r \<in> set reqs. effectful (snd r)}"
    by (auto simp: image_iff)
  with 2 show ?case by (simp add: perform_set wf_perform Un_assoc)
qed simp

lemma at_most_once:
  "wf s \<Longrightarrow> distinct (performed s) \<Longrightarrow> count_list (performed (perform_all reqs s)) k \<le> 1"
  by (intro distinct_count_list_le perform_all_distinct)

text \<open>Presenting a command again, whatever its payload, changes nothing that was performed.\<close>

lemma retry_idempotent:
  "wf s \<Longrightarrow> effectful p \<Longrightarrow> performed (perform k q (perform k p s)) = performed (perform k p s)"
  by (rule perform_again) (simp_all add: wf_perform perform_set)

end

section \<open>The ledger is one\<close>

definition performed_keys :: "side_effect_ledger \<Rightarrow> py_str list" where
  "performed_keys l = map se_idempotency_key (le_side_effects l)"

text \<open>The accepted keys are the keys of the performed side effects.\<close>

definition ledger_wf :: "side_effect_ledger \<Rightarrow> bool" where
  "ledger_wf l \<longleftrightarrow> le_accepted_keys l = set (performed_keys l)"

definition ledger_perform ::
  "py_str \<Rightarrow> logical_operation \<times> json \<times> side_effect \<times> response_behavior \<Rightarrow>
   side_effect_ledger \<Rightarrow> side_effect_ledger" where
  "ledger_perform k req l = (case req of (op, payload, effect, response) \<Rightarrow>
     snd (provider_call op k payload effect response l))"

lemma provider_call_ledger [ledger_simps]:
  "le_observations (snd (provider_call op k p e r l)) = le_observations l"
  "le_requests (snd (provider_call op k p e r l)) = le_requests l @
     [\<lparr> rq_operation = op, rq_idempotency_key = k, rq_payload_digest = payload_digest p,
        rq_response = r \<rparr>]"
  by (auto simp: provider_call_def record_request_def apply_side_effect_def Let_def split: prod.split)

lemma provider_call_side_effects [ledger_simps]:
  assumes "ledger_wf l"
  shows "le_side_effects (snd (provider_call op k p e r l)) =
     (if e = SE_NONE \<or> k \<in> set (performed_keys l) then le_side_effects l
      else le_side_effects l @
        [\<lparr> se_operation = op, se_idempotency_key = k, se_payload_digest = payload_digest p,
           se_side_effect = e \<rparr>])"
  using assms
  by (auto simp: ledger_wf_def provider_call_def record_request_def apply_side_effect_def Let_def
      split: prod.split)

lemma provider_call_wf [ledger_simps]:
  assumes "ledger_wf l"
  shows "ledger_wf (snd (provider_call op k p e r l))"
  using assms
  by (auto simp: ledger_wf_def performed_keys_def provider_call_def record_request_def
      apply_side_effect_def Let_def split: prod.split)

lemma provider_call_result [ledger_simps]:
  "pr_delivered (fst (provider_call op k p e r l)) = (r = RESP_SUCCESS)"
  by (auto simp: provider_call_def Let_def split: prod.split)

interpretation ledger: idempotent_executor ledger_perform "\<lambda>(_, _, effect, _). effect \<noteq> SE_NONE"
  performed_keys ledger_wf
  by unfold_locales
    (auto simp: ledger_perform_def performed_keys_def ledger_simps split: prod.splits)

lemma empty_ledger_simps [simp]:
  "performed_keys empty_ledger = []" "ledger_wf empty_ledger"
  by (simp_all add: ledger_wf_def empty_ledger_def performed_keys_def)

lemma ledger_perform_simp [simp]:
  "ledger_perform k (op, payload, effect, response) l =
     snd (provider_call op k payload effect response l)"
  by (simp add: ledger_perform_def)

lemma ledger_perform_all_fold:
  "ledger.perform_all reqs l = fold (\<lambda>(k, op, payload, effect, response) l.
     snd (provider_call op k payload effect response l)) reqs l"
  by (induction reqs l rule: ledger.perform_all.induct)
    (simp_all split: prod.split)

lemma bump_count_keys: "fst ` set (bump_count k cs) = insert k (fst ` set cs)"
  by (induction k cs rule: bump_count.induct) auto

lemma bump_count_distinct: "distinct (map fst cs) \<Longrightarrow> distinct (map fst (bump_count k cs))"
  by (induction k cs rule: bump_count.induct) (auto simp: bump_count_keys)

lemma bump_count_lookup:
  "map_of (bump_count k cs) = (map_of cs)(k \<mapsto> Suc (option_or (map_of cs k) 0))"
  by (induction k cs rule: bump_count.induct) (auto simp: fun_eq_iff)

lemma counts_spec:
  assumes "distinct (map fst cs)"
    and "\<And>k. option_or (map_of cs k) 0 = m k"
  shows "distinct (map fst (foldl (\<lambda>cs r. bump_count (f r) cs) cs rs))
    \<and> option_or (map_of (foldl (\<lambda>cs r. bump_count (f r) cs) cs rs) k) 0 =
        m k + count_list (map f rs) k"
  using assms
proof (induction rs arbitrary: cs m)
  case (Cons r rs)
  have "option_or (map_of (bump_count (f r) cs) j) 0 = (if j = f r then Suc (m j) else m j)" for j
    using Cons.prems(2) by (simp add: bump_count_lookup)
  from Cons.IH [OF bump_count_distinct [OF Cons.prems(1)] this] show ?case by simp
qed simp

lemma set_keys_with_multiple:
  "set (keys_with_multiple_side_effects l) = {k. 1 < count_list (performed_keys l) k}"
proof -
  define cs where "cs = foldl (\<lambda>cs r. bump_count (se_idempotency_key r) cs) [] (le_side_effects l)"
  have d: "distinct (map fst cs)" and c: "option_or (map_of cs k) 0 = count_list (performed_keys l) k" for k
    using counts_spec [of "[]" "\<lambda>_. 0" se_idempotency_key "le_side_effects l"]
    by (simp_all add: cs_def performed_keys_def)
  have "k \<in> fst ` {x \<in> set cs. 1 < snd x} \<longleftrightarrow> 1 < option_or (map_of cs k) 0" for k
  proof (cases "map_of cs k")
    case None
    then have "k \<notin> fst ` set cs" by (simp add: map_of_eq_None_iff)
    with None show ?thesis by auto
  next
    case (Some c)
    then have "(k, c') \<in> set cs \<longleftrightarrow> c' = c" for c'
      by (auto simp: map_of_eq_Some_iff [OF d, symmetric])
    then have "k \<in> fst ` {x \<in> set cs. 1 < snd x} \<longleftrightarrow> 1 < c" by force
    with Some show ?thesis by simp
  qed
  then show ?thesis
    by (auto simp: keys_with_multiple_side_effects_def Let_def cs_def [symmetric] c case_prod_beta)
qed

lemma keys_with_multiple_empty_iff:
  "keys_with_multiple_side_effects l = [] \<longleftrightarrow> (\<forall>k. count_list (performed_keys l) k \<le> 1)"
  by (metis (mono_tags, lifting) empty_Collect_eq leD leI set_empty set_keys_with_multiple)

lemma accepted_count: "accepted_side_effect_count l k = count_list (performed_keys l) k"
  unfolding accepted_side_effect_count_def performed_keys_def by (rule count_list_map_filter)

section \<open>At most once\<close>

text \<open>
  C33. Whatever sequence of requests reaches the provider (retries, reused keys with other
  payloads, undelivered responses), no key has two side effects, and a key has one exactly
  when a request for it asked for a side effect.
\<close>

theorem ledger_at_most_once:
  fixes reqs :: "(py_str \<times> logical_operation \<times> json \<times> side_effect \<times> response_behavior) list"
  defines "l \<equiv> fold (\<lambda>(k, op, payload, effect, response) l.
              snd (provider_call op k payload effect response l)) reqs empty_ledger"
  shows "keys_with_multiple_side_effects l = []
    \<and> accepted_side_effect_count l key =
        (if \<exists>(k, op, payload, effect, response) \<in> set reqs. k = key \<and> effect \<noteq> SE_NONE
         then 1 else 0)"
proof -
  have l: "l = ledger.perform_all reqs empty_ledger"
    unfolding l_def ledger_perform_all_fold [symmetric] ..
  have once: "count_list (performed_keys l) k \<le> 1" for k
    unfolding l by (rule ledger.at_most_once) simp_all
  have "key \<in> set (performed_keys l) \<longleftrightarrow>
      (\<exists>(k, op, payload, effect, response) \<in> set reqs. k = key \<and> effect \<noteq> SE_NONE)"
    unfolding l by (subst ledger.perform_all_set) (force simp: empty_ledger_simps)+
  then show ?thesis
    using once [of key] once count_list_0_iff [of "performed_keys l" key]
    by (simp add: keys_with_multiple_empty_iff accepted_count)
      (metis One_nat_def le_Suc_eq le_zero_eq)
qed

end
