(* ===== verification/Reference_Model.thy ===== *)
theory Reference_Model
  imports Prelude
begin

text \<open>
  The hand-written lifecycle oracle, \<^verbatim>\<open>moonmind/omnigent/faultlab/reference_model.py\<close>: the
  legal order of the durable commands, written independently of the reducer. A rejected
  command is the left injection of the message the source raises with.
\<close>

section \<open>State and transitions\<close>

datatype reference_command =
    REF_ENSURE_PROFILE_LEASE | REF_ENSURE_HOST | REF_ENSURE_SESSION | REF_SUBMIT_TURN
  | REF_RECORD_TERMINAL | REF_HARVEST_EVIDENCE | REF_BEGIN_CLEANUP | REF_RELEASE_LEASES

datatype reference_phase =
    RP_INITIALIZING | RP_PROFILE_LEASE_HELD | RP_HOST_READY | RP_SESSION_READY
  | RP_TURN_IN_FLIGHT | RP_TERMINAL_RECORDED | RP_EVIDENCE_HARVESTED | RP_CLEANUP_DONE
  | RP_CLOSED

record reference_model =
  rm_requires_profile_lease :: bool
  rm_requires_host :: bool
  rm_requires_cleanup :: bool
  rm_desired_cancel :: bool
  rm_ground_truth_terminal :: py_str
  rm_profile_lease_held :: bool
  rm_host_lease_held :: bool
  rm_session_attached :: bool
  rm_submitted :: bool
  rm_submit_count :: int
  rm_terminal_outcome :: "py_str option"
  rm_evidence_harvested :: bool
  rm_cleanup_complete :: bool
  rm_leases_released :: bool

definition new_reference_model :: "bool \<Rightarrow> bool \<Rightarrow> bool \<Rightarrow> bool \<Rightarrow> py_str \<Rightarrow> reference_model" where
  "new_reference_model rp rh rc cancel truth =
     \<lparr> rm_requires_profile_lease = rp, rm_requires_host = rh, rm_requires_cleanup = rc,
       rm_desired_cancel = cancel, rm_ground_truth_terminal = truth,
       rm_profile_lease_held = False, rm_host_lease_held = False, rm_session_attached = False,
       rm_submitted = False, rm_submit_count = 0, rm_terminal_outcome = None,
       rm_evidence_harvested = False, rm_cleanup_complete = False, rm_leases_released = False \<rparr>"

definition leases_acquirable :: "reference_model \<Rightarrow> bool" where
  "leases_acquirable m =
     (if rm_desired_cancel m then False
      else rm_requires_profile_lease m \<or> rm_requires_host m)"

definition expected_command_sequence :: "reference_model \<Rightarrow> reference_command list" where
  "expected_command_sequence m =
     (if rm_desired_cancel m then [REF_RECORD_TERMINAL]
      else (if rm_requires_profile_lease m then [REF_ENSURE_PROFILE_LEASE] else [])
           @ (if rm_requires_host m then [REF_ENSURE_HOST] else [])
           @ [REF_ENSURE_SESSION] @ [REF_SUBMIT_TURN] @ [REF_RECORD_TERMINAL])
     @ [REF_HARVEST_EVIDENCE]
     @ (if rm_requires_cleanup m then [REF_BEGIN_CLEANUP] else [])
     @ (if leases_acquirable m then [REF_RELEASE_LEASES] else [])"

type_synonym ref_result = "(py_str, reference_model) result"

definition ref_ensure_profile_lease :: "reference_model \<Rightarrow> ref_result" where
  "ref_ensure_profile_lease m =
     (if \<not> rm_requires_profile_lease m then Inl ''profile lease not required''
      else if rm_terminal_outcome m \<noteq> None then Inl ''lease acquisition after terminal''
      else if rm_profile_lease_held m then Inl ''profile lease already held''
      else Inr (m\<lparr> rm_profile_lease_held := True \<rparr>))"

definition ref_ensure_host :: "reference_model \<Rightarrow> ref_result" where
  "ref_ensure_host m =
     (if \<not> rm_requires_host m then Inl ''host not required''
      else if rm_terminal_outcome m \<noteq> None then Inl ''host acquisition after terminal''
      else if rm_requires_profile_lease m \<and> \<not> rm_profile_lease_held m
        then Inl ''host before profile lease''
      else if rm_host_lease_held m then Inl ''host already held''
      else Inr (m\<lparr> rm_host_lease_held := True \<rparr>))"

definition ref_ensure_session :: "reference_model \<Rightarrow> ref_result" where
  "ref_ensure_session m =
     (if rm_terminal_outcome m \<noteq> None then Inl ''session attach after terminal''
      else if rm_requires_profile_lease m \<and> \<not> rm_profile_lease_held m
        then Inl ''session before profile lease''
      else if rm_requires_host m \<and> \<not> rm_host_lease_held m then Inl ''session before host''
      else if rm_session_attached m then Inl ''session already attached''
      else Inr (m\<lparr> rm_session_attached := True \<rparr>))"

definition ref_submit_turn :: "reference_model \<Rightarrow> ref_result" where
  "ref_submit_turn m =
     (if \<not> rm_session_attached m then Inl ''submit before session attach''
      else if rm_terminal_outcome m \<noteq> None then Inl ''submit after terminal''
      else if rm_submitted m then Inl ''duplicate turn submission''
      else Inr (m\<lparr> rm_submitted := True, rm_submit_count := rm_submit_count m + 1 \<rparr>))"

definition ref_record_terminal :: "reference_model \<Rightarrow> ref_result" where
  "ref_record_terminal m =
     (if rm_terminal_outcome m \<noteq> None then Inl ''terminal already recorded''
      else if rm_desired_cancel m then Inr (m\<lparr> rm_terminal_outcome := Some ''cancelled'' \<rparr>)
      else if \<not> rm_submitted m then Inl ''terminal before submission''
      else Inr (m\<lparr> rm_terminal_outcome := Some (rm_ground_truth_terminal m) \<rparr>))"

definition ref_harvest_evidence :: "reference_model \<Rightarrow> ref_result" where
  "ref_harvest_evidence m =
     (if rm_terminal_outcome m = None then Inl ''harvest before terminal''
      else if rm_evidence_harvested m then Inl ''evidence already harvested''
      else Inr (m\<lparr> rm_evidence_harvested := True \<rparr>))"

definition ref_begin_cleanup :: "reference_model \<Rightarrow> ref_result" where
  "ref_begin_cleanup m =
     (if \<not> rm_requires_cleanup m then Inl ''cleanup not required''
      else if rm_terminal_outcome m = None then Inl ''cleanup before terminal''
      else if \<not> rm_evidence_harvested m then Inl ''cleanup before evidence harvest''
      else if rm_cleanup_complete m then Inl ''cleanup already complete''
      else Inr (m\<lparr> rm_cleanup_complete := True \<rparr>))"

definition ref_release_leases :: "reference_model \<Rightarrow> ref_result" where
  "ref_release_leases m =
     (if rm_terminal_outcome m = None then Inl ''release before terminal''
      else if rm_requires_cleanup m \<and> \<not> rm_cleanup_complete m
        then Inl ''release before cleanup complete''
      else if rm_leases_released m then Inl ''leases already released''
      else if \<not> (rm_profile_lease_held m \<or> rm_host_lease_held m)
        then Inl ''release with no held lease''
      else Inr (m\<lparr> rm_leases_released := True \<rparr>))"

fun ref_apply :: "reference_command \<Rightarrow> reference_model \<Rightarrow> ref_result" where
  "ref_apply REF_ENSURE_PROFILE_LEASE m = ref_ensure_profile_lease m"
| "ref_apply REF_ENSURE_HOST m = ref_ensure_host m"
| "ref_apply REF_ENSURE_SESSION m = ref_ensure_session m"
| "ref_apply REF_SUBMIT_TURN m = ref_submit_turn m"
| "ref_apply REF_RECORD_TERMINAL m = ref_record_terminal m"
| "ref_apply REF_HARVEST_EVIDENCE m = ref_harvest_evidence m"
| "ref_apply REF_BEGIN_CLEANUP m = ref_begin_cleanup m"
| "ref_apply REF_RELEASE_LEASES m = ref_release_leases m"

lemmas ref_defs = ref_ensure_profile_lease_def ref_ensure_host_def ref_ensure_session_def
  ref_submit_turn_def ref_record_terminal_def ref_harvest_evidence_def ref_begin_cleanup_def
  ref_release_leases_def

definition is_closed :: "reference_model \<Rightarrow> bool" where
  "is_closed m =
     (if rm_terminal_outcome m = None then False
      else if \<not> rm_evidence_harvested m then False
      else if rm_requires_cleanup m \<and> \<not> rm_cleanup_complete m then False
      else if leases_acquirable m \<and> \<not> rm_leases_released m then False
      else True)"

definition final_phase :: "reference_model \<Rightarrow> reference_phase" where
  "final_phase m =
     (if is_closed m then RP_CLOSED
      else if rm_leases_released m \<or> rm_cleanup_complete m then RP_CLEANUP_DONE
      else if rm_evidence_harvested m then RP_EVIDENCE_HARVESTED
      else if rm_terminal_outcome m \<noteq> None then RP_TERMINAL_RECORDED
      else if rm_submitted m then RP_TURN_IN_FLIGHT
      else if rm_session_attached m then RP_SESSION_READY
      else if rm_host_lease_held m then RP_HOST_READY
      else if rm_profile_lease_held m then RP_PROFILE_LEASE_HELD
      else RP_INITIALIZING)"

section \<open>Interface: a scripted oracle\<close>

text \<open>
  An oracle that knows the commands still to come accepts the next of them and is left with
  the rest; so it accepts the whole script.
\<close>

locale scripted_oracle =
  fixes apply_cmd :: "'c \<Rightarrow> 'm \<Rightarrow> ('e, 'm) result"
    and wf :: "'m \<Rightarrow> bool"
    and remaining :: "'m \<Rightarrow> 'c list"
  assumes accepts_next:
    "wf m \<Longrightarrow> remaining m = c # cs \<Longrightarrow> \<exists>m'. apply_cmd c m = Inr m' \<and> wf m' \<and> remaining m' = cs"
begin

fun apply_all :: "'c list \<Rightarrow> 'm \<Rightarrow> ('e, 'm) result" where
  "apply_all [] m = Inr m"
| "apply_all (c # cs) m = bind_result (apply_cmd c m) (apply_all cs)"

lemma accepts_script:
  "wf m \<Longrightarrow> \<exists>m'. apply_all (remaining m) m = Inr m' \<and> wf m' \<and> remaining m' = []"
proof (induction "remaining m" arbitrary: m)
  case (Cons c cs)
  then obtain m' where m': "apply_cmd c m = Inr m'" "wf m'" "remaining m' = cs"
    using accepts_next [of m c cs] by auto
  with Cons.hyps(1) [of m'] have "\<exists>m''. apply_all cs m' = Inr m'' \<and> wf m'' \<and> remaining m'' = []"
    by simp
  then show ?case using m'(1) by (simp flip: Cons.hyps(2))
qed auto

lemma apply_all_Inl: "foldl (\<lambda>r c. bind_result r (apply_cmd c)) (Inl e) cs = Inl e"
  by (induction cs) simp_all

lemma apply_all_foldl: "foldl (\<lambda>r c. bind_result r (apply_cmd c)) (Inr m) cs = apply_all cs m"
proof (induction cs arbitrary: m)
  case (Cons c cs)
  then show ?case by (cases "apply_cmd c m") (simp_all add: apply_all_Inl)
qed simp

lemma accepts_prefix:
  "wf m \<Longrightarrow> remaining m = cs @ ds \<Longrightarrow> \<exists>m'. apply_all cs m = Inr m' \<and> wf m' \<and> remaining m' = ds"
proof (induction cs arbitrary: m)
  case (Cons c cs)
  then obtain m' where "apply_cmd c m = Inr m'" "wf m'" "remaining m' = cs @ ds"
    using accepts_next [of m c "cs @ ds"] by auto
  with Cons.IH [of m'] show ?case by auto
qed simp

end

section \<open>The reference model follows its script\<close>

fun ref_done :: "reference_model \<Rightarrow> reference_command \<Rightarrow> bool" where
  "ref_done m REF_ENSURE_PROFILE_LEASE = rm_profile_lease_held m"
| "ref_done m REF_ENSURE_HOST = rm_host_lease_held m"
| "ref_done m REF_ENSURE_SESSION = rm_session_attached m"
| "ref_done m REF_SUBMIT_TURN = rm_submitted m"
| "ref_done m REF_RECORD_TERMINAL = (rm_terminal_outcome m \<noteq> None)"
| "ref_done m REF_HARVEST_EVIDENCE = rm_evidence_harvested m"
| "ref_done m REF_BEGIN_CLEANUP = rm_cleanup_complete m"
| "ref_done m REF_RELEASE_LEASES = rm_leases_released m"

text \<open>The commands of the script that are still to come.\<close>

definition ref_remaining :: "reference_model \<Rightarrow> reference_command list" where
  "ref_remaining m = filter (\<lambda>c. \<not> ref_done m c) (expected_command_sequence m)"

text \<open>What was done is an initial part of the script, with the outcome the plan dictates.\<close>

definition wf_ref :: "reference_model \<Rightarrow> bool" where
  "wf_ref m \<longleftrightarrow>
     (rm_profile_lease_held m \<longrightarrow> rm_requires_profile_lease m \<and> \<not> rm_desired_cancel m)
     \<and> (rm_host_lease_held m \<longrightarrow> rm_requires_host m \<and> \<not> rm_desired_cancel m
          \<and> (rm_requires_profile_lease m \<longrightarrow> rm_profile_lease_held m))
     \<and> (rm_session_attached m \<longrightarrow> \<not> rm_desired_cancel m
          \<and> (rm_requires_profile_lease m \<longrightarrow> rm_profile_lease_held m)
          \<and> (rm_requires_host m \<longrightarrow> rm_host_lease_held m))
     \<and> (rm_submitted m \<longrightarrow> rm_session_attached m)
     \<and> (case rm_terminal_outcome m of None \<Rightarrow> True
        | Some out \<Rightarrow> (if rm_desired_cancel m then out = ''cancelled''
                       else rm_submitted m \<and> out = rm_ground_truth_terminal m))
     \<and> (rm_evidence_harvested m \<longrightarrow> rm_terminal_outcome m \<noteq> None)
     \<and> (rm_cleanup_complete m \<longrightarrow> rm_requires_cleanup m \<and> rm_evidence_harvested m)
     \<and> (rm_leases_released m \<longrightarrow> leases_acquirable m \<and> rm_evidence_harvested m
          \<and> (rm_requires_cleanup m \<longrightarrow> rm_cleanup_complete m))"

lemma expected_distinct: "distinct (expected_command_sequence m)"
  by (auto simp: expected_command_sequence_def)

lemma expected_command_sequence_frame [simp]:
  "expected_command_sequence (m\<lparr> rm_profile_lease_held := b \<rparr>) = expected_command_sequence m"
  "expected_command_sequence (m\<lparr> rm_host_lease_held := b \<rparr>) = expected_command_sequence m"
  "expected_command_sequence (m\<lparr> rm_session_attached := b \<rparr>) = expected_command_sequence m"
  "expected_command_sequence (m\<lparr> rm_submitted := b, rm_submit_count := k \<rparr>) =
     expected_command_sequence m"
  "expected_command_sequence (m\<lparr> rm_terminal_outcome := t \<rparr>) = expected_command_sequence m"
  "expected_command_sequence (m\<lparr> rm_evidence_harvested := b \<rparr>) = expected_command_sequence m"
  "expected_command_sequence (m\<lparr> rm_cleanup_complete := b \<rparr>) = expected_command_sequence m"
  "expected_command_sequence (m\<lparr> rm_leases_released := b \<rparr>) = expected_command_sequence m"
  by (simp_all add: expected_command_sequence_def leases_acquirable_def)

lemma ref_apply_frame:
  assumes "ref_apply c m = Inr m'"
  shows "expected_command_sequence m' = expected_command_sequence m"
    and "ref_done m' x \<longleftrightarrow> ref_done m x \<or> x = c"
proof -
  show "expected_command_sequence m' = expected_command_sequence m"
    using assms by (cases c) (auto simp: ref_defs split: if_splits)
  show "ref_done m' x \<longleftrightarrow> ref_done m x \<or> x = c"
    using assms by (cases c; cases x) (auto simp: ref_defs split: if_splits)
qed

lemma ref_remaining_Cons:
  assumes "ref_remaining m = c # cs"
  shows "c \<in> set (expected_command_sequence m)" and "\<not> ref_done m c"
    and "\<And>u. u \<in> set (takeWhile (\<lambda>x. x \<noteq> c) (expected_command_sequence m)) \<Longrightarrow> ref_done m u"
    and "cs = filter (\<lambda>x. \<not> (ref_done m x \<or> x = c)) (expected_command_sequence m)"
proof -
  obtain us vs where e: "expected_command_sequence m = us @ c # vs" "\<forall>u \<in> set us. ref_done m u"
    "\<not> ref_done m c" "cs = filter (\<lambda>x. \<not> ref_done m x) vs"
    using assms by (auto simp: ref_remaining_def filter_eq_Cons_iff)
  moreover have n: "c \<notin> set us" "c \<notin> set vs"
    using expected_distinct [of m] e(1) by auto
  moreover have "takeWhile (\<lambda>x. x \<noteq> c) (us @ c # vs) = us"
    using n(1) by (intro takeWhile_append_sep) auto
  ultimately show "c \<in> set (expected_command_sequence m)" and "\<not> ref_done m c"
    and "\<And>u. u \<in> set (takeWhile (\<lambda>x. x \<noteq> c) (expected_command_sequence m)) \<Longrightarrow> ref_done m u"
    and "cs = filter (\<lambda>x. \<not> (ref_done m x \<or> x = c)) (expected_command_sequence m)"
    by (auto simp: filter_empty_conv intro!: filter_cong)
qed

lemma ref_accepts:
  assumes "wf_ref m" and "c \<in> set (expected_command_sequence m)" and "\<not> ref_done m c"
    and "\<And>u. u \<in> set (takeWhile (\<lambda>x. x \<noteq> c) (expected_command_sequence m)) \<Longrightarrow> ref_done m u"
  shows "\<exists>m'. ref_apply c m = Inr m' \<and> wf_ref m'"
proof -
  have pre: "list_all (ref_done m) (takeWhile (\<lambda>x. x \<noteq> c) (expected_command_sequence m))"
    using assms(4) by (simp add: list_all_iff)
  show ?thesis
    using assms(1-3) pre
    by (cases c; cases "rm_requires_profile_lease m"; cases "rm_requires_host m";
        cases "rm_requires_cleanup m"; cases "rm_desired_cancel m";
        cases "rm_terminal_outcome m")
      (simp_all add: expected_command_sequence_def leases_acquirable_def ref_defs wf_ref_def)
qed

lemma ref_accepts_next:
  assumes "wf_ref m" and "ref_remaining m = c # cs"
  shows "\<exists>m'. ref_apply c m = Inr m' \<and> wf_ref m' \<and> ref_remaining m' = cs"
proof -
  note rem = ref_remaining_Cons [OF assms(2)]
  obtain m' where "ref_apply c m = Inr m'" "wf_ref m'"
    using ref_accepts [OF assms(1) rem(1-3)] by blast
  with rem(4) show ?thesis
    by (auto simp: ref_remaining_def ref_apply_frame)
qed

interpretation script: scripted_oracle ref_apply wf_ref ref_remaining
  by unfold_locales (rule ref_accepts_next)

lemma ref_remaining_closed: "wf_ref m \<Longrightarrow> ref_remaining m = [] \<longleftrightarrow> is_closed m"
  by (cases "rm_requires_profile_lease m"; cases "rm_requires_host m"; cases "rm_requires_cleanup m";
      cases "rm_desired_cancel m"; cases "rm_terminal_outcome m")
    (simp_all add: ref_remaining_def expected_command_sequence_def is_closed_def wf_ref_def
      leases_acquirable_def)

lemma wf_new_reference_model [simp]: "wf_ref (new_reference_model rp rh rc cancel truth)"
  by (simp add: wf_ref_def new_reference_model_def)

lemma remaining_new_reference_model:
  "ref_remaining (new_reference_model rp rh rc cancel truth) =
     expected_command_sequence (new_reference_model rp rh rc cancel truth)"
  by (auto simp: ref_remaining_def expected_command_sequence_def new_reference_model_def
      leases_acquirable_def)

text \<open>The head of the remaining script, read off the oracle state.\<close>

definition next_command :: "reference_model \<Rightarrow> reference_command option" where
  "next_command m =
     (if rm_terminal_outcome m = None then
        (if rm_desired_cancel m then Some REF_RECORD_TERMINAL
         else if rm_requires_profile_lease m \<and> \<not> rm_profile_lease_held m
           then Some REF_ENSURE_PROFILE_LEASE
         else if rm_requires_host m \<and> \<not> rm_host_lease_held m then Some REF_ENSURE_HOST
         else if \<not> rm_session_attached m then Some REF_ENSURE_SESSION
         else if \<not> rm_submitted m then Some REF_SUBMIT_TURN
         else Some REF_RECORD_TERMINAL)
      else if \<not> rm_evidence_harvested m then Some REF_HARVEST_EVIDENCE
      else if rm_requires_cleanup m \<and> \<not> rm_cleanup_complete m then Some REF_BEGIN_CLEANUP
      else if leases_acquirable m \<and> \<not> rm_leases_released m then Some REF_RELEASE_LEASES
      else None)"

lemma next_command_remaining:
  assumes "wf_ref m"
  shows "next_command m = (case ref_remaining m of [] \<Rightarrow> None | c # cs \<Rightarrow> Some c)"
  using assms
  by (cases "rm_requires_profile_lease m"; cases "rm_requires_host m"; cases "rm_requires_cleanup m";
      cases "rm_desired_cancel m"; cases "rm_terminal_outcome m")
    (simp_all add: ref_remaining_def expected_command_sequence_def wf_ref_def next_command_def
      leases_acquirable_def)

lemma ref_apply_config:
  assumes "ref_apply c m = Inr m'"
  shows "rm_requires_profile_lease m' = rm_requires_profile_lease m"
    and "rm_requires_host m' = rm_requires_host m"
    and "rm_requires_cleanup m' = rm_requires_cleanup m"
    and "rm_desired_cancel m' = rm_desired_cancel m"
    and "rm_ground_truth_terminal m' = rm_ground_truth_terminal m"
  using assms by (cases c; auto simp: ref_defs split: if_splits)+

lemma wf_ref_before_terminal:
  assumes "wf_ref m" and "rm_terminal_outcome m = None"
  shows "\<not> rm_evidence_harvested m" and "\<not> rm_cleanup_complete m" and "\<not> rm_leases_released m"
  using assms by (auto simp: wf_ref_def)

lemma wf_ref_terminal:
  assumes "wf_ref m" and "rm_terminal_outcome m = Some out"
  shows "out = (if rm_desired_cancel m then ''cancelled'' else rm_ground_truth_terminal m)"
proof -
  have "case rm_terminal_outcome m of None \<Rightarrow> True
        | Some out \<Rightarrow> (if rm_desired_cancel m then out = ''cancelled''
                       else rm_submitted m \<and> out = rm_ground_truth_terminal m)"
    using assms(1) unfolding wf_ref_def by blast
  with assms(2) show ?thesis by simp
qed

lemma wf_ref_submitted:
  assumes "wf_ref m" and "rm_submitted m"
  shows "rm_session_attached m" and "\<not> rm_desired_cancel m"
    and "rm_requires_profile_lease m \<Longrightarrow> rm_profile_lease_held m"
    and "rm_requires_host m \<Longrightarrow> rm_host_lease_held m"
  using assms by (auto simp: wf_ref_def)

text \<open>
  The oracle is consistent with itself: for every configuration, the command sequence it
  expects is accepted from the initial state, command by command, and ends in the closed phase
  with no command left.
\<close>

theorem reference_accepts_expected:
  fixes rp rh rc cancel :: bool and truth :: py_str
  defines "m0 \<equiv> new_reference_model rp rh rc cancel truth"
  shows "\<exists>m. foldl (\<lambda>r c. bind_result r (ref_apply c)) (Inr m0) (expected_command_sequence m0) = Inr m
     \<and> is_closed m \<and> final_phase m = RP_CLOSED"
proof -
  have "wf_ref m0" and r: "expected_command_sequence m0 = ref_remaining m0"
    by (simp_all add: m0_def remaining_new_reference_model)
  with script.accepts_script [of m0] obtain m where
    m: "script.apply_all (ref_remaining m0) m0 = Inr m" "wf_ref m" "ref_remaining m = []" by blast
  then have "is_closed m" using ref_remaining_closed by blast
  with m show ?thesis by (auto simp: r script.apply_all_foldl final_phase_def)
qed

end
