(* ===== verification/Fault_Harness.thy ===== *)
theory Fault_Harness
  imports Reconciler Fault_Provider Reference_Model
begin

text \<open>
  The execution harness, \<^verbatim>\<open>moonmind/omnigent/faultlab/harness.py\<close>: it plays a fault plan
  against the reducer, applies each decision like a deterministic, fencing-aware executor,
  injects observation and crash faults, and feeds the oracle. The loop state is a record, the
  loop a recursion over the round numbers; the two exceptions a malformed plan raises are
  values of \<open>harness_error\<close>. The dictionary of command crashes is an association list in
  insertion order, because the minimizer iterates it.
\<close>

section \<open>Plans and traces\<close>

datatype harness_error = ValidationError | KeyError

definition EPOCH :: datetime where
  "EPOCH = 1787054400000000"

definition TERMINAL_STATUS :: "py_str \<rightharpoonup> py_str" where
  "TERMINAL_STATUS = map_of
     [(''success'', ''completed''), (''failure'', ''failed''), (''cancelled'', ''cancelled'')]"

datatype observation_fault =
    HONEST | DROP_SNAPSHOT | STALE_SESSION | UNKNOWN_VOCAB | RUNNING | MISSED_EDGE
  | EVIDENCE_DELAY | CONSUMER_ACTIVE

fun DECISION_TO_REFERENCE :: "decision_kind \<Rightarrow> reference_command option" where
  "DECISION_TO_REFERENCE ENSURE_PROFILE_LEASE = Some REF_ENSURE_PROFILE_LEASE"
| "DECISION_TO_REFERENCE ENSURE_HOST = Some REF_ENSURE_HOST"
| "DECISION_TO_REFERENCE ENSURE_PROVIDER_SESSION = Some REF_ENSURE_SESSION"
| "DECISION_TO_REFERENCE SUBMIT_TURN = Some REF_SUBMIT_TURN"
| "DECISION_TO_REFERENCE RECORD_PROVIDER_TERMINAL = Some REF_RECORD_TERMINAL"
| "DECISION_TO_REFERENCE SYNTHESIZE_TERMINAL_FROM_SNAPSHOT = Some REF_RECORD_TERMINAL"
| "DECISION_TO_REFERENCE HARVEST_EVIDENCE = Some REF_HARVEST_EVIDENCE"
| "DECISION_TO_REFERENCE BEGIN_CLEANUP = Some REF_BEGIN_CLEANUP"
| "DECISION_TO_REFERENCE RELEASE_LEASES = Some REF_RELEASE_LEASES"
| "DECISION_TO_REFERENCE _ = None"

fun DECISION_TO_OPERATION :: "decision_kind \<Rightarrow> logical_operation option" where
  "DECISION_TO_OPERATION ENSURE_PROFILE_LEASE = Some OP_ENSURE_PROFILE_LEASE"
| "DECISION_TO_OPERATION ENSURE_HOST = Some OP_ENSURE_HOST"
| "DECISION_TO_OPERATION ENSURE_PROVIDER_SESSION = Some OP_ENSURE_SESSION"
| "DECISION_TO_OPERATION SUBMIT_TURN = Some OP_SUBMIT_TURN"
| "DECISION_TO_OPERATION HARVEST_EVIDENCE = Some OP_HARVEST_EVIDENCE"
| "DECISION_TO_OPERATION BEGIN_CLEANUP = Some OP_BEGIN_CLEANUP"
| "DECISION_TO_OPERATION RELEASE_LEASES = Some OP_RELEASE_LEASES"
| "DECISION_TO_OPERATION _ = None"

definition NO_TRANSITION_WINDOWS :: "command_window option set" where
  "NO_TRANSITION_WINDOWS = {Some BEFORE_CLAIM, Some AFTER_CLAIM_BEFORE_SIDE_EFFECT}"

definition SIDE_EFFECT_ONLY_WINDOWS :: "command_window option set" where
  "SIDE_EFFECT_ONLY_WINDOWS =
     {Some AFTER_SIDE_EFFECT_BEFORE_RECEIPT, Some AFTER_RECEIPT_BEFORE_STATE_TRANSITION}"

declare NO_TRANSITION_WINDOWS_def [vocabulary] SIDE_EFFECT_ONLY_WINDOWS_def [vocabulary]

record fault_plan =
  fp_seed :: int
  fp_requires_profile_lease :: bool
  fp_requires_host :: bool
  fp_requires_cleanup :: bool
  fp_desired_cancel :: bool
  fp_ground_truth_terminal :: py_str
  fp_max_turn_attempts :: int
  fp_recovery_round :: int
  fp_submit_response :: response_behavior
  fp_observation_faults :: "observation_fault list"
  fp_command_crashes :: "(logical_operation \<times> command_window) list"

record journal_entry =
  je_round_index :: int
  je_decision_kind :: decision_kind
  je_reason_code :: reason_code
  je_command_id :: "py_str option"
  je_fenced :: bool
  je_crash_window :: "command_window option"
  je_observation_fault :: observation_fault

record execution_trace =
  tr_plan :: fault_plan
  tr_journal :: "journal_entry list"
  tr_phases :: "session_lifecycle_phase list"
  tr_final :: durable_session_state
  tr_ledger :: side_effect_ledger
  tr_reference :: reference_model
  tr_distinct_commands :: "(py_str \<times> decision_kind) list"
  tr_converged :: bool
  tr_settled_kind :: "decision_kind option"
  tr_reference_violation :: "py_str option"
  tr_crashes_fired :: "(py_str \<times> command_window) list"
  tr_cleanup_effects :: "(py_str \<times> int) list"

section \<open>The world a plan describes\<close>

definition initial_durable :: "fault_plan \<Rightarrow> durable_session_state" where
  "initial_durable plan = \<lparr>
     ds_schema_version = RECONCILER_CONTRACT_VERSION, ds_session_id = ''session-1'',
     ds_revision = 0, ds_owner_token = ''owner-token'', ds_fencing_generation = 1,
     ds_runtime_binding_ref = None, ds_runtime_binding_revision = None,
     ds_runtime_binding_fencing_generation = None,
     ds_desired = (if fp_desired_cancel plan then CANCEL else RUN),
     ds_provider_session_attached = False, ds_provider_session_id = None,
     ds_attempt_id = None, ds_submission = NOT_SUBMITTED, ds_turn_attempts = 0,
     ds_profile_lease = LEASE_NONE, ds_host_lease = LEASE_NONE,
     ds_last_cursor = None, ds_last_snapshot_digest = None,
     ds_terminal_outcome = None, ds_terminal_evidence_ref = None,
     ds_evidence_harvested = False, ds_cleanup_started = False, ds_cleanup_complete = False,
     ds_failed = False, ds_quarantined = False, ds_next_deadline = None,
     ds_prior_decision = None \<rparr>"

text \<open>Constructing the intent validates its bounds, so a nonpositive budget raises.\<close>

definition plan_intent :: "fault_plan \<Rightarrow> (harness_error, compiled_session_intent) result" where
  "plan_intent plan =
     (let intent = \<lparr>
        ci_schema_version = RECONCILER_CONTRACT_VERSION, ci_session_id = ''session-1'',
        ci_provider = ''omnigent'',
        ci_requires_profile_lease = fp_requires_profile_lease plan,
        ci_requires_host = fp_requires_host plan,
        ci_requires_cleanup = fp_requires_cleanup plan,
        ci_max_turn_attempts = fp_max_turn_attempts plan,
        ci_reconcile_interval_seconds = 30,
        ci_turn_prompt_digest = ''sha256:prompt'' \<rparr>
      in if intent_valid intent then Inr intent else Inl ValidationError)"

definition fault_for_round :: "fault_plan \<Rightarrow> nat \<Rightarrow> observation_fault" where
  "fault_for_round plan round_index =
     (if fp_recovery_round plan \<le> int round_index \<or> fp_observation_faults plan = [] then HONEST
      else fp_observation_faults plan ! (round_index mod length (fp_observation_faults plan)))"

definition session_snapshot ::
  "datetime \<Rightarrow> py_str \<Rightarrow> py_str option \<Rightarrow> provider_session_observation" where
  "session_snapshot now raw_status sid =
     \<lparr> ps_observed_at = now, ps_present = True, ps_provider_session_id = sid,
       ps_raw_status = raw_status, ps_open_tool_call = False, ps_cursor = None,
       ps_snapshot_digest = None \<rparr>"

definition frontier_snapshot :: "datetime \<Rightarrow> bool \<Rightarrow> event_frontier_observation" where
  "frontier_snapshot now seen =
     \<lparr> ef_observed_at = now, ef_last_cursor = None, ef_terminal_event_seen = seen,
       ef_running_event_after_cursor = False \<rparr>"

definition awaiting_terminal :: "durable_session_state \<Rightarrow> bool" where
  "awaiting_terminal durable \<longleftrightarrow> ds_terminal_outcome durable = None
     \<and> ds_submission durable \<in> {SUB_ACCEPTED, IN_FLIGHT}"

definition observe_session ::
  "observation_fault \<Rightarrow> py_str \<Rightarrow> durable_session_state \<Rightarrow> datetime \<Rightarrow> observation_set \<Rightarrow>
   observation_set" where
  "observe_session fault truth_status durable now os =
     (let sid = ds_provider_session_id durable in
      case fault of
        DROP_SNAPSHOT \<Rightarrow> os
      | STALE_SESSION \<Rightarrow>
          os\<lparr> os_provider_session := Some (session_snapshot now truth_status (Some ''other'')) \<rparr>
      | UNKNOWN_VOCAB \<Rightarrow>
          os\<lparr> os_provider_session := Some (session_snapshot now ''frobnicate'' sid) \<rparr>
      | RUNNING \<Rightarrow>
          os\<lparr> os_provider_session := Some (session_snapshot now ''running'' sid) \<rparr>
      | MISSED_EDGE \<Rightarrow>
          os\<lparr> os_provider_session := Some (session_snapshot now truth_status sid),
              os_event_frontier := Some (frontier_snapshot now False) \<rparr>
      | _ \<Rightarrow>
          os\<lparr> os_provider_session := Some (session_snapshot now truth_status sid),
              os_event_frontier := Some (frontier_snapshot now True) \<rparr>)"

definition observe_post_terminal ::
  "observation_fault \<Rightarrow> durable_session_state \<Rightarrow> datetime \<Rightarrow> observation_set \<Rightarrow> observation_set" where
  "observe_post_terminal fault durable now os =
     (let available = (fault \<noteq> EVIDENCE_DELAY);
          os1 = (if \<not> ds_evidence_harvested durable \<or> ds_terminal_evidence_ref durable = None
                 then os\<lparr> os_evidence := Some \<lparr> ev_observed_at = now,
                            ev_terminal_evidence_available = available,
                            ev_artifacts_available = available \<rparr> \<rparr>
                 else os);
          consumer = (fault = CONSUMER_ACTIVE)
      in os1\<lparr>
           os_profile_lease := Some \<lparr> lo_observed_at = now,
             lo_held = (ds_profile_lease durable = HELD), lo_consumer_active = consumer \<rparr>,
           os_host_lease := Some \<lparr> lo_observed_at = now,
             lo_held = (ds_host_lease durable = HELD), lo_consumer_active = consumer \<rparr>,
           os_host := Some \<lparr> ho_observed_at = now, ho_registered = True,
             ho_runner_ready = consumer \<rparr> \<rparr>)"

definition observe ::
  "fault_plan \<Rightarrow> durable_session_state \<Rightarrow> nat \<Rightarrow> datetime \<Rightarrow>
   (harness_error, observation_set \<times> observation_fault) result" where
  "observe plan durable round_index now =
     (let fault = fault_for_round plan round_index in
      case TERMINAL_STATUS (fp_ground_truth_terminal plan) of
        None \<Rightarrow> Inl KeyError
      | Some truth_status \<Rightarrow>
          (let (os1, eff1) = (if awaiting_terminal durable
                 then (observe_session fault truth_status durable now empty_observations, fault)
                 else (empty_observations, HONEST))
           in if ds_terminal_outcome durable \<noteq> None
              then Inr (observe_post_terminal fault durable now os1,
                        if fault \<in> {EVIDENCE_DELAY, CONSUMER_ACTIVE} then fault else eff1)
              else Inr (os1, eff1)))"

section \<open>Applying a decision\<close>

fun decision_side_effect :: "decision_kind \<Rightarrow> side_effect" where
  "decision_side_effect ENSURE_PROFILE_LEASE = SE_CREATED"
| "decision_side_effect ENSURE_HOST = SE_CREATED"
| "decision_side_effect ENSURE_PROVIDER_SESSION = SE_CREATED"
| "decision_side_effect SUBMIT_TURN = SE_ACCEPTED"
| "decision_side_effect HARVEST_EVIDENCE = SE_RECORDED"
| "decision_side_effect BEGIN_CLEANUP = SE_REMOVED"
| "decision_side_effect RELEASE_LEASES = SE_RELEASED"
| "decision_side_effect _ = SE_RECORDED"

text \<open>The durable transition of an applied command.\<close>

definition durable_transition ::
  "durable_session_state \<Rightarrow> decision_kind \<Rightarrow> command_spec \<Rightarrow> bool \<Rightarrow> durable_session_state" where
  "durable_transition durable kind command delivered =
     (let d = durable\<lparr> ds_revision := ds_revision durable + 1 \<rparr> in
      case kind of
        ENSURE_PROFILE_LEASE \<Rightarrow> d\<lparr> ds_profile_lease := HELD \<rparr>
      | ENSURE_HOST \<Rightarrow> d\<lparr> ds_host_lease := HELD \<rparr>
      | ENSURE_PROVIDER_SESSION \<Rightarrow>
          d\<lparr> ds_provider_session_attached := True,
             ds_provider_session_id := Some ''provider-session-1'',
             ds_attempt_id := Some ''attempt-1'' \<rparr>
      | SUBMIT_TURN \<Rightarrow>
          d\<lparr> ds_turn_attempts := ds_turn_attempts durable + 1,
             ds_submission := (if delivered then SUB_ACCEPTED else IN_FLIGHT) \<rparr>
      | RECORD_PROVIDER_TERMINAL \<Rightarrow>
          (case cs_terminal_outcome command of None \<Rightarrow> d
           | Some outcome \<Rightarrow> d\<lparr> ds_terminal_outcome := Some outcome \<rparr>)
      | SYNTHESIZE_TERMINAL_FROM_SNAPSHOT \<Rightarrow>
          (case cs_terminal_outcome command of None \<Rightarrow> d
           | Some outcome \<Rightarrow> d\<lparr> ds_terminal_outcome := Some outcome \<rparr>)
      | HARVEST_EVIDENCE \<Rightarrow>
          d\<lparr> ds_evidence_harvested := True, ds_terminal_evidence_ref := Some ''evref-1'' \<rparr>
      | BEGIN_CLEANUP \<Rightarrow> d\<lparr> ds_cleanup_started := True, ds_cleanup_complete := True \<rparr>
      | RELEASE_LEASES \<Rightarrow> d\<lparr> ds_profile_lease := RELEASED, ds_host_lease := RELEASED \<rparr>
      | _ \<Rightarrow> d)"

definition apply_decision ::
  "durable_session_state \<Rightarrow> reconciliation_decision \<Rightarrow> side_effect_ledger \<Rightarrow> response_behavior \<Rightarrow>
   command_window option \<Rightarrow> (durable_session_state \<times> bool) \<times> side_effect_ledger" where
  "apply_decision durable decision ledger submit_response crash_window =
     (case rd_command decision of
        None \<Rightarrow> ((durable, False), ledger)
      | Some command \<Rightarrow>
        if rd_expected_fencing_generation decision \<noteq> ds_fencing_generation durable
          then ((durable, True), ledger)
        else if crash_window \<in> NO_TRANSITION_WINDOWS then ((durable, False), ledger)
        else
          (let kind = rd_kind decision;
               payload = JObj [(''kind'', JStr (decision_kind_value kind))];
               (result, ledger') = (case DECISION_TO_OPERATION kind of
                   Some operation \<Rightarrow>
                     provider_call operation (cs_command_id command) payload
                       (decision_side_effect kind)
                       (if kind = SUBMIT_TURN then submit_response else RESP_SUCCESS) ledger
                 | None \<Rightarrow>
                     provider_call OP_OBSERVE_SNAPSHOT (cs_command_id command) payload
                       SE_RECORDED RESP_SUCCESS ledger)
           in if crash_window \<in> SIDE_EFFECT_ONLY_WINDOWS then ((durable, False), ledger')
              else ((durable_transition durable kind command (pr_delivered result), False),
                    ledger')))"

section \<open>The run\<close>

record run_state =
  rs_durable :: durable_session_state
  rs_ledger :: side_effect_ledger
  rs_reference :: reference_model
  rs_journal :: "journal_entry list"
  rs_phases :: "session_lifecycle_phase list"
  rs_distinct_commands :: "(py_str \<times> decision_kind) list"
  rs_applied_command_ids :: "py_str set"
  rs_fired_crashes :: "(py_str \<times> command_window) set"
  rs_crashes_fired :: "(py_str \<times> command_window) list"
  rs_cleanup_effects :: "(py_str \<times> int) list"
  rs_reference_violation :: "py_str option"
  rs_converged :: bool
  rs_settled_kind :: "decision_kind option"

definition initial_run_state :: "fault_plan \<Rightarrow> run_state" where
  "initial_run_state plan =
     \<lparr> rs_durable = initial_durable plan, rs_ledger = empty_ledger,
       rs_reference = new_reference_model (fp_requires_profile_lease plan)
         (fp_requires_host plan) (fp_requires_cleanup plan) (fp_desired_cancel plan)
         (fp_ground_truth_terminal plan),
       rs_journal = [], rs_phases = [current_phase (initial_durable plan)],
       rs_distinct_commands = [], rs_applied_command_ids = {}, rs_fired_crashes = {},
       rs_crashes_fired = [], rs_cleanup_effects = [], rs_reference_violation = None,
       rs_converged = False, rs_settled_kind = None \<rparr>"

text \<open>The crash the plan fires on a decision: the named window, once per command identity.\<close>

definition crash_candidate ::
  "fault_plan \<Rightarrow> (py_str \<times> command_window) set \<Rightarrow> reconciliation_decision \<Rightarrow>
   command_window option" where
  "crash_candidate plan fired decision =
     (case rd_command decision of None \<Rightarrow> None
      | Some command \<Rightarrow>
        (case DECISION_TO_OPERATION (rd_kind decision) of None \<Rightarrow> None
         | Some operation \<Rightarrow>
           (case map_of (fp_command_crashes plan) operation of None \<Rightarrow> None
            | Some candidate \<Rightarrow>
                if (cs_command_id command, candidate) \<notin> fired then Some candidate else None)))"

definition feed_reference ::
  "decision_kind \<Rightarrow> py_str \<Rightarrow> run_state \<Rightarrow> run_state" where
  "feed_reference kind cid st =
     (case DECISION_TO_REFERENCE kind of None \<Rightarrow> st
      | Some cmd \<Rightarrow>
        (let st1 = st\<lparr> rs_applied_command_ids := insert cid (rs_applied_command_ids st),
                       rs_distinct_commands := rs_distinct_commands st @ [(cid, kind)] \<rparr>
         in case ref_apply cmd (rs_reference st1) of
              Inr m \<Rightarrow> st1\<lparr> rs_reference := m \<rparr>
            | Inl msg \<Rightarrow> if rs_reference_violation st1 = None
                         then st1\<lparr> rs_reference_violation := Some msg \<rparr> else st1))"

definition run_round ::
  "fault_plan \<Rightarrow> compiled_session_intent \<Rightarrow> nat \<Rightarrow> run_state \<Rightarrow>
   (harness_error, run_state \<times> bool) result" where
  "run_round plan intent round_index st =
     (let now = EPOCH + timedelta_seconds (30 * int round_index);
          durable = rs_durable st
      in bind_result (observe plan durable round_index now) (\<lambda>(observations, round_fault).
        let decision = reconcile intent durable observations now;
            cid = map_option cs_command_id (rd_command decision);
            crash_window = crash_candidate plan (rs_fired_crashes st) decision;
            st1 = (case (cid, crash_window) of
                (Some c, Some w) \<Rightarrow>
                  st\<lparr> rs_fired_crashes := insert (c, w) (rs_fired_crashes st),
                      rs_crashes_fired := rs_crashes_fired st @ [(c, w)] \<rparr>
              | _ \<Rightarrow> st);
            ((next_durable, fenced), ledger') =
              apply_decision durable decision (rs_ledger st1) (fp_submit_response plan) crash_window;
            entry = \<lparr> je_round_index = int round_index, je_decision_kind = rd_kind decision,
              je_reason_code = rd_reason_code decision, je_command_id = cid, je_fenced = fenced,
              je_crash_window = crash_window, je_observation_fault = round_fault \<rparr>;
            st2 = st1\<lparr> rs_ledger := ledger', rs_journal := rs_journal st1 @ [entry] \<rparr>;
            st3 = (case cid of
                Some c \<Rightarrow>
                  if rd_kind decision = BEGIN_CLEANUP \<and> \<not> fenced
                     \<and> crash_window \<notin> NO_TRANSITION_WINDOWS
                  then st2\<lparr> rs_cleanup_effects :=
                         rs_cleanup_effects st2 @ [(c, ds_fencing_generation durable)] \<rparr>
                  else st2
              | None \<Rightarrow> st2);
            st4 = (case cid of
                Some c \<Rightarrow>
                  if ds_revision next_durable \<noteq> ds_revision durable
                     \<and> c \<notin> rs_applied_command_ids st3
                  then feed_reference (rd_kind decision) c st3 else st3
              | None \<Rightarrow> st3);
            st5 = st4\<lparr> rs_durable := next_durable,
                       rs_phases := rs_phases st4 @ [current_phase next_durable] \<rparr>
        in if rd_kind decision = NO_OP then
             Inr (st5\<lparr> rs_converged := True, rs_settled_kind := Some NO_OP \<rparr>, True)
           else if rd_kind decision \<in> {QUARANTINE_AMBIGUOUS_STATE, FAIL_NONRETRYABLE} then
             Inr (st5\<lparr> rs_settled_kind := Some (rd_kind decision) \<rparr>,
                  crash_window = None \<and> \<not> fenced)
           else Inr (st5, False)))"

fun run_rounds ::
  "fault_plan \<Rightarrow> compiled_session_intent \<Rightarrow> nat list \<Rightarrow> run_state \<Rightarrow>
   (harness_error, run_state) result" where
  "run_rounds plan intent [] st = Inr st"
| "run_rounds plan intent (i # is) st =
     bind_result (run_round plan intent i st) (\<lambda>(st', stop).
       if stop then Inr st' else run_rounds plan intent is st')"

definition trace_of :: "fault_plan \<Rightarrow> run_state \<Rightarrow> execution_trace" where
  "trace_of plan st =
     \<lparr> tr_plan = plan, tr_journal = rs_journal st, tr_phases = rs_phases st,
       tr_final = rs_durable st, tr_ledger = rs_ledger st, tr_reference = rs_reference st,
       tr_distinct_commands = rs_distinct_commands st, tr_converged = rs_converged st,
       tr_settled_kind = rs_settled_kind st,
       tr_reference_violation = rs_reference_violation st,
       tr_crashes_fired = rs_crashes_fired st, tr_cleanup_effects = rs_cleanup_effects st \<rparr>"

definition run_plan ::
  "fault_plan \<Rightarrow> int option \<Rightarrow> (harness_error, execution_trace) result" where
  "run_plan plan max_rounds =
     bind_result (plan_intent plan) (\<lambda>intent.
       let budget = option_or max_rounds (fp_recovery_round plan + 80)
       in bind_result (run_rounds plan intent [0 ..< nat budget] (initial_run_state plan))
            (\<lambda>st. Inr (trace_of plan st)))"

end
