(* ===== verification/Fault_Refinement.thy ===== *)
theory Fault_Refinement
  imports Fault_Harness
begin

text \<open>
  The harness refines the oracle: every state a run reaches is the durable state
  \<open>durable_of\<close> an oracle state stands for, every command the reducer emits is the next one of the
  oracle's script, and once the faults are over the script is played to its end within a bound.
\<close>

section \<open>The durable state an oracle state stands for\<close>

definition outcome_of :: "py_str \<Rightarrow> terminal_outcome" where
  "outcome_of s = (if s = ''success'' then SUCCESS else if s = ''failure'' then FAILURE else CANCELLED)"

definition durable_of :: "fault_plan \<Rightarrow> reference_model \<Rightarrow> int \<Rightarrow> durable_session_state" where
  "durable_of plan m n = (initial_durable plan)\<lparr>
     ds_revision := n,
     ds_provider_session_attached := rm_session_attached m,
     ds_provider_session_id := (if rm_session_attached m then Some ''provider-session-1'' else None),
     ds_attempt_id := (if rm_session_attached m then Some ''attempt-1'' else None),
     ds_submission := (if \<not> rm_submitted m then NOT_SUBMITTED
       else if fp_submit_response plan = RESP_SUCCESS then SUB_ACCEPTED else IN_FLIGHT),
     ds_turn_attempts := (if rm_submitted m then 1 else 0),
     ds_profile_lease := (if rm_leases_released m then RELEASED
       else if rm_profile_lease_held m then HELD else LEASE_NONE),
     ds_host_lease := (if rm_leases_released m then RELEASED
       else if rm_host_lease_held m then HELD else LEASE_NONE),
     ds_terminal_outcome := map_option outcome_of (rm_terminal_outcome m),
     ds_terminal_evidence_ref := (if rm_evidence_harvested m then Some ''evref-1'' else None),
     ds_evidence_harvested := rm_evidence_harvested m,
     ds_cleanup_started := rm_cleanup_complete m,
     ds_cleanup_complete := rm_cleanup_complete m \<rparr>"

text \<open>A plan the harness accepts: a positive attempt budget and a known ground truth.\<close>

definition plan_valid :: "fault_plan \<Rightarrow> bool" where
  "plan_valid plan \<longleftrightarrow> 0 < fp_max_turn_attempts plan
     \<and> fp_ground_truth_terminal plan \<in> {''success'', ''failure'', ''cancelled''}"

definition the_intent :: "fault_plan \<Rightarrow> compiled_session_intent" where
  "the_intent plan = \<lparr>
        ci_schema_version = RECONCILER_CONTRACT_VERSION, ci_session_id = ''session-1'',
        ci_provider = ''omnigent'',
        ci_requires_profile_lease = fp_requires_profile_lease plan,
        ci_requires_host = fp_requires_host plan,
        ci_requires_cleanup = fp_requires_cleanup plan,
        ci_max_turn_attempts = fp_max_turn_attempts plan,
        ci_reconcile_interval_seconds = 30,
        ci_turn_prompt_digest = ''sha256:prompt'' \<rparr>"

lemma plan_intent_iff:
  "plan_intent plan = (if 0 < fp_max_turn_attempts plan then Inr (the_intent plan) else Inl ValidationError)"
  by (simp add: plan_intent_def intent_valid_def the_intent_def vocabulary)

text \<open>The oracle of a plan.\<close>

definition oracle_of :: "fault_plan \<Rightarrow> reference_model \<Rightarrow> bool" where
  "oracle_of plan m \<longleftrightarrow> wf_ref m
     \<and> rm_requires_profile_lease m = fp_requires_profile_lease plan
     \<and> rm_requires_host m = fp_requires_host plan
     \<and> rm_requires_cleanup m = fp_requires_cleanup plan
     \<and> rm_desired_cancel m = fp_desired_cancel plan
     \<and> rm_ground_truth_terminal m = fp_ground_truth_terminal plan"

lemma oracle_apply:
  assumes "oracle_of plan m" and "ref_remaining m = c # cs"
  obtains m' where "ref_apply c m = Inr m'" and "oracle_of plan m'" and "ref_remaining m' = cs"
proof -
  have "wf_ref m" using assms(1) by (simp add: oracle_of_def)
  from ref_accepts_next [OF this assms(2)]
  obtain m' where m': "ref_apply c m = Inr m'" "wf_ref m'" "ref_remaining m' = cs" by blast
  moreover have "oracle_of plan m'"
    using m'(2) assms(1) unfolding oracle_of_def ref_apply_config [OF m'(1)] by simp
  ultimately show thesis using that by blast
qed

lemma durable_of_reconcilable [simp]:
  "os_schema_version os = ''v1'' \<Longrightarrow> os_compatibility os = None \<Longrightarrow>
     reconcilable (the_intent plan) (durable_of plan m n) os"
  by (simp add: reconcilable_def durable_of_def initial_durable_def the_intent_def vocabulary)

section \<open>What the reducer decides on it\<close>

text \<open>The decision kinds a scripted command may take.\<close>

definition decides :: "reconciliation_decision \<Rightarrow> reference_command \<Rightarrow> bool" where
  "decides dec c \<longleftrightarrow> DECISION_TO_REFERENCE (rd_kind dec) = Some c"

definition waits :: "reconciliation_decision \<Rightarrow> bool" where
  "waits dec \<longleftrightarrow> rd_kind dec \<in> {AWAIT_OBSERVATION, RETRY_TRANSIENT_OBSERVATION}"

lemma durable_of_fields [simp]:
  "ds_revision (durable_of plan m n) = n"
  "ds_fencing_generation (durable_of plan m n) = 1"
  "ds_session_id (durable_of plan m n) = ''session-1''"
  "ds_desired (durable_of plan m n) = (if fp_desired_cancel plan then CANCEL else RUN)"
  "ds_provider_session_attached (durable_of plan m n) = rm_session_attached m"
  "ds_provider_session_id (durable_of plan m n) =
     (if rm_session_attached m then Some ''provider-session-1'' else None)"
  "ds_attempt_id (durable_of plan m n) = (if rm_session_attached m then Some ''attempt-1'' else None)"
  "ds_submission (durable_of plan m n) = (if \<not> rm_submitted m then NOT_SUBMITTED
       else if fp_submit_response plan = RESP_SUCCESS then SUB_ACCEPTED else IN_FLIGHT)"
  "ds_turn_attempts (durable_of plan m n) = (if rm_submitted m then 1 else 0)"
  "ds_profile_lease (durable_of plan m n) = (if rm_leases_released m then RELEASED
       else if rm_profile_lease_held m then HELD else LEASE_NONE)"
  "ds_host_lease (durable_of plan m n) = (if rm_leases_released m then RELEASED
       else if rm_host_lease_held m then HELD else LEASE_NONE)"
  "ds_terminal_outcome (durable_of plan m n) = map_option outcome_of (rm_terminal_outcome m)"
  "ds_terminal_evidence_ref (durable_of plan m n) =
     (if rm_evidence_harvested m then Some ''evref-1'' else None)"
  "ds_evidence_harvested (durable_of plan m n) = rm_evidence_harvested m"
  "ds_cleanup_started (durable_of plan m n) = rm_cleanup_complete m"
  "ds_cleanup_complete (durable_of plan m n) = rm_cleanup_complete m"
  "ds_failed (durable_of plan m n) = False"
  "ds_quarantined (durable_of plan m n) = False"
  by (simp_all add: durable_of_def initial_durable_def)

lemma the_intent_fields [simp]:
  "ci_requires_profile_lease (the_intent plan) = fp_requires_profile_lease plan"
  "ci_requires_host (the_intent plan) = fp_requires_host plan"
  "ci_requires_cleanup (the_intent plan) = fp_requires_cleanup plan"
  "ci_max_turn_attempts (the_intent plan) = fp_max_turn_attempts plan"
  by (simp_all add: the_intent_def)

definition final_outcome :: "fault_plan \<Rightarrow> terminal_outcome" where
  "final_outcome plan =
     (if fp_desired_cancel plan then CANCELLED else outcome_of (fp_ground_truth_terminal plan))"

text \<open>A decision that executes the given scripted command.\<close>

definition executes :: "fault_plan \<Rightarrow> reconciliation_decision \<Rightarrow> reference_command \<Rightarrow> bool" where
  "executes plan dec c \<longleftrightarrow> decides dec c \<and>
     (c = REF_RECORD_TERMINAL \<longrightarrow> records_terminal dec (Some (final_outcome plan)))"

lemma empty_observations_simps [simp]:
  "os_schema_version empty_observations = ''v1''"
  "os_compatibility empty_observations = None"
  "os_provider_session empty_observations = None"
  "os_provider_turn empty_observations = None"
  by (simp_all add: empty_observations_def vocabulary)

lemma oracle_flags:
  assumes "oracle_of plan m"
  shows "wf_ref m"
    and "fp_requires_profile_lease plan = rm_requires_profile_lease m"
    and "fp_requires_host plan = rm_requires_host m"
    and "fp_requires_cleanup plan = rm_requires_cleanup m"
    and "fp_desired_cancel plan = rm_desired_cancel m"
    and "fp_ground_truth_terminal plan = rm_ground_truth_terminal m"
  using assms by (simp_all add: oracle_of_def)

lemma decision_provisioning:
  assumes "plan_valid plan" and "oracle_of plan m" and "rm_terminal_outcome m = None"
    and "fp_desired_cancel plan \<or> \<not> rm_submitted m"
  shows "\<exists>c. next_command m = Some c
     \<and> executes plan (reconcile (the_intent plan) (durable_of plan m n) empty_observations now) c
     \<and> c \<noteq> REF_RELEASE_LEASES"
proof -
  note flags = oracle_flags [OF assms(2)]
  note pre = wf_ref_before_terminal [OF flags(1) assms(3)]
  have "0 < fp_max_turn_attempts plan" using assms(1) by (simp add: plan_valid_def)
  moreover have "rm_desired_cancel m \<or> \<not> rm_submitted m" using assms(4) by (simp add: flags)
  ultimately show ?thesis
    by (cases "rm_desired_cancel m"; cases "rm_requires_profile_lease m \<and> \<not> rm_profile_lease_held m";
        cases "rm_requires_host m \<and> \<not> rm_host_lease_held m"; cases "rm_session_attached m")
      (simp_all add: reconcile_live Let_def next_command_def executes_def pre flags assms(3)
        decides_def records_terminal_mk terminal_decision_kinds_def final_outcome_def)
qed

lemma terminal_statuses:
  assumes "plan_valid plan"
  obtains s where "TERMINAL_STATUS (fp_ground_truth_terminal plan) = Some s"
    and "CLASS_TO_OUTCOME (classify_provider_status s) =
           Some (outcome_of (fp_ground_truth_terminal plan))"
    and "classify_provider_status s \<noteq> CLS_UNKNOWN" and "classify_provider_status s \<noteq> CLS_ACTIVE"
    and "classify_provider_status s \<noteq> CLS_IDLE" and "classify_provider_status s \<noteq> CLS_INTERVENTION"
proof -
  have *: "classify_provider_status ''completed'' = CLS_TERMINAL_SUCCESS"
    "classify_provider_status ''failed'' = CLS_TERMINAL_FAILURE"
    "classify_provider_status ''cancelled'' = CLS_TERMINAL_CANCELLED"
    by code_simp+
  consider "fp_ground_truth_terminal plan = ''success''" | "fp_ground_truth_terminal plan = ''failure''"
    | "fp_ground_truth_terminal plan = ''cancelled''"
    using assms by (auto simp: plan_valid_def)
  then show thesis
  proof cases
    case 1
    then show thesis
      by (intro that [of "''completed''"]) (simp_all add: TERMINAL_STATUS_def outcome_of_def *)
  next
    case 2
    then show thesis
      by (intro that [of "''failed''"]) (simp_all add: TERMINAL_STATUS_def outcome_of_def *)
  next
    case 3
    then show thesis
      by (intro that [of "''cancelled''"]) (simp_all add: TERMINAL_STATUS_def outcome_of_def *)
  qed
qed

lemma classify_faulty:
  "classify_provider_status ''frobnicate'' = CLS_UNKNOWN"
  "classify_provider_status ''running'' = CLS_ACTIVE"
  by code_simp+

lemma observe_valid:
  assumes "plan_valid plan"
  obtains s where "TERMINAL_STATUS (fp_ground_truth_terminal plan) = Some s"
    and "CLASS_TO_OUTCOME (classify_provider_status s) =
           Some (outcome_of (fp_ground_truth_terminal plan))"
    and "observe plan d i now =
       (let (os1, eff1) = (if awaiting_terminal d
                 then (observe_session (fault_for_round plan i) s d now empty_observations,
                       fault_for_round plan i)
                 else (empty_observations, HONEST))
           in if ds_terminal_outcome d \<noteq> None
              then Inr (observe_post_terminal (fault_for_round plan i) d now os1,
                        if fault_for_round plan i \<in> {EVIDENCE_DELAY, CONSUMER_ACTIVE}
                        then fault_for_round plan i else eff1)
              else Inr (os1, eff1))"
  using terminal_statuses [OF assms] that by (metis (no_types, lifting) observe_def option.simps(5))

lemma observe_session_frame [simp]:
  "os_schema_version (observe_session f s d now os) = os_schema_version os"
  "os_compatibility (observe_session f s d now os) = os_compatibility os"
  by (simp_all add: observe_session_def Let_def split: observation_fault.split)

lemma observe_post_terminal_frame [simp]:
  "os_schema_version (observe_post_terminal f d now os) = os_schema_version os"
  "os_compatibility (observe_post_terminal f d now os) = os_compatibility os"
  "os_provider_session (observe_post_terminal f d now os) = os_provider_session os"
  by (simp_all add: observe_post_terminal_def Let_def)

text \<open>While the terminal is awaited: a silent, stale or unknown snapshot makes the reducer
  wait, and a correlated one makes it record the ground truth.\<close>

lemma decision_awaiting:
  fixes n :: int and now :: datetime and f :: observation_fault
  assumes "plan_valid plan" and "oracle_of plan m" and "rm_terminal_outcome m = None"
    and "rm_submitted m"
    and "CLASS_TO_OUTCOME (classify_provider_status s) =
           Some (outcome_of (fp_ground_truth_terminal plan))"
  defines "dec \<equiv> reconcile (the_intent plan) (durable_of plan m n)
     (observe_session f s (durable_of plan m n) now empty_observations) now"
  shows "if f \<in> {DROP_SNAPSHOT, STALE_SESSION, UNKNOWN_VOCAB, RUNNING} then waits dec
         else executes plan dec REF_RECORD_TERMINAL"
proof -
  note flags = oracle_flags [OF assms(2)]
  note pre = wf_ref_before_terminal [OF flags(1) assms(3)]
  note sub = wf_ref_submitted [OF flags(1) assms(4)]
  have cls: "classify_provider_status s \<in> {CLS_TERMINAL_SUCCESS, CLS_TERMINAL_FAILURE, CLS_TERMINAL_CANCELLED}"
    using assms(5) by (cases "classify_provider_status s") simp_all
  show ?thesis
    using cls assms(3,4,5) pre sub
    by (cases f)
      (auto simp add: dec_def reconcile_live Let_def flags observe_session_def session_snapshot_def
        frontier_snapshot_def detect_terminal_def observation_matches_session_def classify_faulty
        waits_def executes_def decides_def records_terminal_mk terminal_decision_kinds_def
        final_outcome_def)
qed

text \<open>After the terminal: late evidence and active consumers make the reducer wait.\<close>

lemma decision_post_terminal:
  fixes n :: int and now :: datetime and f :: observation_fault
  assumes "oracle_of plan m" and "rm_terminal_outcome m \<noteq> None"
  defines "dec \<equiv> reconcile (the_intent plan) (durable_of plan m n)
     (observe_post_terminal f (durable_of plan m n) now empty_observations) now"
  shows "case next_command m of
           None \<Rightarrow> rd_kind dec = NO_OP
         | Some c \<Rightarrow> c \<noteq> REF_RECORD_TERMINAL \<and>
             (executes plan dec c \<and> \<not> (c = REF_RELEASE_LEASES \<and> f = CONSUMER_ACTIVE)
              \<or> waits dec \<and> f \<in> {EVIDENCE_DELAY, CONSUMER_ACTIVE})"
proof -
  note flags = oracle_flags [OF assms(1)]
  have held: "rm_desired_cancel m \<Longrightarrow> \<not> rm_profile_lease_held m \<and> \<not> rm_host_lease_held m"
    "\<not> rm_desired_cancel m \<Longrightarrow> rm_profile_lease_held m = rm_requires_profile_lease m
       \<and> rm_host_lease_held m = rm_requires_host m"
    using flags(1) assms(2) by (auto simp: wf_ref_def)
  show ?thesis
    using held assms(2)
    by (cases "rm_desired_cancel m"; cases "rm_evidence_harvested m"; cases "rm_requires_cleanup m";
        cases "rm_cleanup_complete m"; cases "rm_leases_released m"; cases "f = EVIDENCE_DELAY";
        cases "f = CONSUMER_ACTIVE")
      (simp_all add: dec_def reconcile_live Let_def flags post_terminal_def post_terminal_chain_def
       observe_post_terminal_def waits_def executes_def decides_def next_command_def
       leases_acquirable_def consumers_active_def consumers_confirmed_absent_def)
qed

text \<open>An emitted command moves the durable state as the oracle moves.\<close>

fun ref_effect :: "reference_command \<Rightarrow> reference_model \<Rightarrow> reference_model" where
  "ref_effect REF_ENSURE_PROFILE_LEASE m = m\<lparr> rm_profile_lease_held := True \<rparr>"
| "ref_effect REF_ENSURE_HOST m = m\<lparr> rm_host_lease_held := True \<rparr>"
| "ref_effect REF_ENSURE_SESSION m = m\<lparr> rm_session_attached := True \<rparr>"
| "ref_effect REF_SUBMIT_TURN m =
     m\<lparr> rm_submitted := True, rm_submit_count := rm_submit_count m + 1 \<rparr>"
| "ref_effect REF_RECORD_TERMINAL m = m\<lparr> rm_terminal_outcome :=
     Some (if rm_desired_cancel m then ''cancelled'' else rm_ground_truth_terminal m) \<rparr>"
| "ref_effect REF_HARVEST_EVIDENCE m = m\<lparr> rm_evidence_harvested := True \<rparr>"
| "ref_effect REF_BEGIN_CLEANUP m = m\<lparr> rm_cleanup_complete := True \<rparr>"
| "ref_effect REF_RELEASE_LEASES m = m\<lparr> rm_leases_released := True \<rparr>"

lemma ref_apply_effect: "ref_apply c m = Inr m' \<Longrightarrow> m' = ref_effect c m"
  by (cases c) (auto simp: ref_defs split: if_splits)

lemma ref_apply_not_released:
  assumes "wf_ref m" and "ref_apply c m = Inr m'"
    and "c \<in> {REF_ENSURE_PROFILE_LEASE, REF_ENSURE_HOST}"
  shows "\<not> rm_leases_released m"
proof -
  have "rm_terminal_outcome m = None" using assms(2,3) by (auto simp: ref_defs split: if_splits)
  with assms(1) show ?thesis by (rule wf_ref_before_terminal)
qed

lemma ref_apply_submit_first:
  "ref_apply REF_SUBMIT_TURN m = Inr m' \<Longrightarrow> \<not> rm_submitted m"
  by (auto simp: ref_defs split: if_splits)

lemma durable_of_effect:
  "\<not> rm_leases_released m \<Longrightarrow>
   durable_of plan (ref_effect REF_ENSURE_PROFILE_LEASE m) (n + 1) =
     (durable_of plan m n)\<lparr> ds_revision := n + 1, ds_profile_lease := HELD \<rparr>"
  "\<not> rm_leases_released m \<Longrightarrow>
   durable_of plan (ref_effect REF_ENSURE_HOST m) (n + 1) =
     (durable_of plan m n)\<lparr> ds_revision := n + 1, ds_host_lease := HELD \<rparr>"
  "durable_of plan (ref_effect REF_ENSURE_SESSION m) (n + 1) =
     (durable_of plan m n)\<lparr> ds_revision := n + 1, ds_provider_session_attached := True,
        ds_provider_session_id := Some ''provider-session-1'', ds_attempt_id := Some ''attempt-1'' \<rparr>"
  "durable_of plan (ref_effect REF_SUBMIT_TURN m) (n + 1) =
     (durable_of plan m n)\<lparr> ds_revision := n + 1, ds_turn_attempts := 1,
        ds_submission := (if fp_submit_response plan = RESP_SUCCESS then SUB_ACCEPTED else IN_FLIGHT) \<rparr>"
  "durable_of plan (ref_effect REF_RECORD_TERMINAL m) (n + 1) =
     (durable_of plan m n)\<lparr> ds_revision := n + 1, ds_terminal_outcome :=
        Some (if rm_desired_cancel m then CANCELLED else outcome_of (rm_ground_truth_terminal m)) \<rparr>"
  "durable_of plan (ref_effect REF_HARVEST_EVIDENCE m) (n + 1) =
     (durable_of plan m n)\<lparr> ds_revision := n + 1, ds_evidence_harvested := True,
        ds_terminal_evidence_ref := Some ''evref-1'' \<rparr>"
  "durable_of plan (ref_effect REF_BEGIN_CLEANUP m) (n + 1) =
     (durable_of plan m n)\<lparr> ds_revision := n + 1, ds_cleanup_started := True,
        ds_cleanup_complete := True \<rparr>"
  "durable_of plan (ref_effect REF_RELEASE_LEASES m) (n + 1) =
     (durable_of plan m n)\<lparr> ds_revision := n + 1, ds_profile_lease := RELEASED,
        ds_host_lease := RELEASED \<rparr>"
  by (simp_all add: durable_of_def outcome_of_def)

lemma durable_transition_refines:
  assumes "oracle_of plan m" and "ref_apply c m = Inr m'" and "executes plan dec c"
    and "rd_command dec = Some command"
    and "delivered \<longleftrightarrow> (c = REF_SUBMIT_TURN \<longrightarrow> fp_submit_response plan = RESP_SUCCESS)"
  shows "durable_transition (durable_of plan m n) (rd_kind dec) command delivered =
     durable_of plan m' (n + 1)"
proof -
  note flags = oracle_flags [OF assms(1)]
  have d: "DECISION_TO_REFERENCE (rd_kind dec) = Some c"
    using assms(3) by (simp add: executes_def decides_def)
  have out: "c = REF_RECORD_TERMINAL \<Longrightarrow> cs_terminal_outcome command = Some (final_outcome plan)"
    using assms(3,4) by (auto simp: executes_def records_terminal_def)
  have fresh: "c \<in> {REF_ENSURE_PROFILE_LEASE, REF_ENSURE_HOST} \<Longrightarrow> \<not> rm_leases_released m"
    using ref_apply_not_released [OF flags(1) assms(2)] .
  have first: "c = REF_SUBMIT_TURN \<Longrightarrow> \<not> rm_submitted m"
    using assms(2) ref_apply_submit_first by blast
  show ?thesis
    unfolding ref_apply_effect [OF assms(2)]
    using d out assms(5) fresh first
    by (cases "rd_kind dec")
      (auto simp: durable_transition_def durable_of_effect Let_def flags final_outcome_def
        simp del: ref_effect.simps)
qed

definition effect_request ::
  "response_behavior \<Rightarrow> decision_kind \<Rightarrow> logical_operation \<times> json \<times> side_effect \<times> response_behavior" where
  "effect_request submit_response kind =
     (option_or (DECISION_TO_OPERATION kind) OP_OBSERVE_SNAPSHOT,
      JObj [(''kind'', JStr (decision_kind_value kind))],
      decision_side_effect kind,
      if kind = SUBMIT_TURN then submit_response else RESP_SUCCESS)"

lemma apply_decision_eq:
  assumes "rd_command dec = Some command"
    and "rd_expected_fencing_generation dec = ds_fencing_generation d"
  shows "apply_decision d dec l response cw =
     (if cw \<in> NO_TRANSITION_WINDOWS then ((d, False), l)
      else let l' = ledger_perform (cs_command_id command) (effect_request response (rd_kind dec)) l
       in if cw \<in> SIDE_EFFECT_ONLY_WINDOWS then ((d, False), l')
          else ((durable_transition d (rd_kind dec) command
                   (rd_kind dec = SUBMIT_TURN \<longrightarrow> response = RESP_SUCCESS), False), l'))"
proof -
  have eff: "DECISION_TO_OPERATION k = None \<Longrightarrow> decision_side_effect k = SE_RECORDED" for k
    by (cases k) simp_all
  have sub: "DECISION_TO_OPERATION k = None \<Longrightarrow> k \<noteq> SUBMIT_TURN" for k by auto
  show ?thesis
    by (cases "DECISION_TO_OPERATION (rd_kind dec)")
      (auto simp: apply_decision_def assms effect_request_def Let_def eff sub provider_call_result
        case_prod_beta)
qed

section \<open>One round as a step relation\<close>

text \<open>A round that only waits or settles: the journal and the phases grow.\<close>

definition log_round :: "journal_entry \<Rightarrow> run_state \<Rightarrow> run_state" where
  "log_round e st = st\<lparr> rs_journal := rs_journal st @ [e],
     rs_phases := rs_phases st @ [current_phase (rs_durable st)] \<rparr>"

definition crash_due :: "fault_plan \<Rightarrow> run_state \<Rightarrow> decision_kind \<Rightarrow> command_window option" where
  "crash_due plan st k =
     (case DECISION_TO_OPERATION k of None \<Rightarrow> None
      | Some operation \<Rightarrow>
        (case map_of (fp_command_crashes plan) operation of None \<Rightarrow> None
         | Some w \<Rightarrow> if (command_id (rs_durable st) k, w) \<notin> rs_fired_crashes st
                     then Some w else None))"

definition commits :: "command_window option \<Rightarrow> bool" where
  "commits cw \<longleftrightarrow> cw \<notin> NO_TRANSITION_WINDOWS \<and> cw \<notin> SIDE_EFFECT_ONLY_WINDOWS"

text \<open>A round that executes a command, up to the crash window.\<close>

definition fire_crash :: "py_str \<Rightarrow> command_window option \<Rightarrow> run_state \<Rightarrow> run_state" where
  "fire_crash cid cw st =
     (case cw of None \<Rightarrow> st
      | Some w \<Rightarrow> st\<lparr> rs_fired_crashes := insert (cid, w) (rs_fired_crashes st),
                      rs_crashes_fired := rs_crashes_fired st @ [(cid, w)] \<rparr>)"

definition perform_effect ::
  "fault_plan \<Rightarrow> decision_kind \<Rightarrow> py_str \<Rightarrow> command_window option \<Rightarrow> run_state \<Rightarrow> run_state" where
  "perform_effect plan k cid cw st =
     (if cw \<in> NO_TRANSITION_WINDOWS then st
      else st\<lparr> rs_ledger :=
                 ledger_perform cid (effect_request (fp_submit_response plan) k) (rs_ledger st),
               rs_cleanup_effects := rs_cleanup_effects st @
                 (if k = BEGIN_CLEANUP then [(cid, 1)] else []) \<rparr>)"

definition commit_command ::
  "fault_plan \<Rightarrow> decision_kind \<Rightarrow> py_str \<Rightarrow> command_window option \<Rightarrow> reference_model \<Rightarrow>
   run_state \<Rightarrow> run_state" where
  "commit_command plan k cid cw m' st =
     (if commits cw
      then st\<lparr> rs_applied_command_ids := insert cid (rs_applied_command_ids st),
               rs_distinct_commands := rs_distinct_commands st @ [(cid, k)],
               rs_reference := m',
               rs_durable := durable_of plan m' (ds_revision (rs_durable st) + 1) \<rparr>
      else st)"

inductive round_step :: "fault_plan \<Rightarrow> nat \<Rightarrow> run_state \<Rightarrow> run_state \<Rightarrow> bool \<Rightarrow> bool"
  for plan :: fault_plan and i :: nat and st :: run_state where
  wait: "next_command (rs_reference st) \<noteq> None \<Longrightarrow> fault_for_round plan i \<noteq> HONEST \<Longrightarrow>
     je_decision_kind e \<in> {AWAIT_OBSERVATION, RETRY_TRANSIENT_OBSERVATION} \<Longrightarrow> \<not> je_fenced e \<Longrightarrow>
     round_step plan i st (log_round e st) False"
| settle: "next_command (rs_reference st) = None \<Longrightarrow>
     je_decision_kind e = NO_OP \<Longrightarrow> \<not> je_fenced e \<Longrightarrow>
     round_step plan i st
       ((log_round e st)\<lparr> rs_converged := True, rs_settled_kind := Some NO_OP \<rparr>) True"
| execute: "next_command (rs_reference st) = Some c \<Longrightarrow>
     DECISION_TO_REFERENCE k = Some c \<Longrightarrow> ref_apply c (rs_reference st) = Inr m' \<Longrightarrow>
     je_decision_kind e = k \<Longrightarrow> \<not> je_fenced e \<Longrightarrow>
     (c = REF_RELEASE_LEASES \<Longrightarrow> je_observation_fault e \<noteq> CONSUMER_ACTIVE) \<Longrightarrow>
     (c = REF_RECORD_TERMINAL \<Longrightarrow> je_observation_fault e \<noteq> UNKNOWN_VOCAB) \<Longrightarrow>
     cid = command_id (rs_durable st) k \<Longrightarrow> cw = crash_due plan st k \<Longrightarrow>
     round_step plan i st
       (log_round e (commit_command plan k cid cw m'
          (perform_effect plan k cid cw (fire_crash cid cw st)))) False"

text \<open>What ties a run state to the oracle: the first part of the invariant.\<close>

definition tracks :: "fault_plan \<Rightarrow> run_state \<Rightarrow> bool" where
  "tracks plan st \<longleftrightarrow> oracle_of plan (rs_reference st)
     \<and> rs_durable st =
         durable_of plan (rs_reference st) (int (length (rs_distinct_commands st)))
     \<and> map (DECISION_TO_REFERENCE \<circ> snd) (rs_distinct_commands st)
         @ map Some (ref_remaining (rs_reference st))
       = map Some (expected_command_sequence (rs_reference st))
     \<and> rs_reference_violation st = None
     \<and> (\<forall>c \<in> rs_applied_command_ids st. \<exists>d k. c = command_id d k
          \<and> ds_session_id d = ''session-1'' \<and> ds_revision d < int (length (rs_distinct_commands st)))"

lemma tracks_fresh:
  assumes "tracks plan st"
  shows "command_id (rs_durable st) k \<notin> rs_applied_command_ids st"
proof
  assume "command_id (rs_durable st) k \<in> rs_applied_command_ids st"
  then obtain d k' where "command_id (rs_durable st) k = command_id d k'"
    "ds_session_id d = ''session-1''" "ds_revision d < int (length (rs_distinct_commands st))"
    using assms by (auto simp: tracks_def)
  moreover have "ds_session_id (rs_durable st) = ''session-1''"
    "ds_revision (rs_durable st) = int (length (rs_distinct_commands st))"
    using assms by (simp_all add: tracks_def)
  ultimately show False using command_id_inject(2) [of "rs_durable st" d k k'] by simp
qed

lemma reconcile_command:
  "rd_kind (reconcile i d os n) \<in> COMMAND_DECISION_KINDS \<Longrightarrow>
     \<exists>c. rd_command (reconcile i d os n) = Some c
       \<and> cs_command_id c = command_id d (rd_kind (reconcile i d os n))"
  by (rule reconcile_cases [of i d os n]) (auto simp: mk_decision_command)

lemma reconcile_no_command:
  "rd_kind (reconcile i d os n) \<notin> COMMAND_DECISION_KINDS \<Longrightarrow> rd_command (reconcile i d os n) = None"
  by (rule reconcile_cases [of i d os n]) (auto simp: mk_decision_command)

lemma reconcile_fencing [simp]:
  "rd_expected_fencing_generation (reconcile i d os n) = ds_fencing_generation d"
  by (rule reconcile_cases [of i d os n]) simp

lemma reference_command_kind:
  "DECISION_TO_REFERENCE k = Some c \<Longrightarrow> k \<in> COMMAND_DECISION_KINDS"
  by (cases k) (simp_all add: vocabulary)

text \<open>The three ways a round of a tracked run can go.\<close>

lemma decision_cases:
  assumes "plan_valid plan" and "oracle_of plan m"
  obtains os f where "observe plan (durable_of plan m n) i now = Inr (os, f)"
    and "case next_command m of
        None \<Rightarrow> rd_kind (reconcile (the_intent plan) (durable_of plan m n) os now) = NO_OP
      | Some c \<Rightarrow>
          executes plan (reconcile (the_intent plan) (durable_of plan m n) os now) c
            \<and> \<not> (c = REF_RELEASE_LEASES \<and> f = CONSUMER_ACTIVE)
            \<and> \<not> (c = REF_RECORD_TERMINAL \<and> f = UNKNOWN_VOCAB)
          \<or> waits (reconcile (the_intent plan) (durable_of plan m n) os now)
            \<and> fault_for_round plan i \<noteq> HONEST"
proof -
  let ?d = "durable_of plan m n"
  note flags = oracle_flags [OF assms(2)]
  obtain s where s: "CLASS_TO_OUTCOME (classify_provider_status s) =
           Some (outcome_of (fp_ground_truth_terminal plan))"
    and obs: "observe plan ?d i now =
       (let (os1, eff1) = (if awaiting_terminal ?d
                 then (observe_session (fault_for_round plan i) s ?d now empty_observations,
                       fault_for_round plan i)
                 else (empty_observations, HONEST))
           in if ds_terminal_outcome ?d \<noteq> None
              then Inr (observe_post_terminal (fault_for_round plan i) ?d now os1,
                        if fault_for_round plan i \<in> {EVIDENCE_DELAY, CONSUMER_ACTIVE}
                        then fault_for_round plan i else eff1)
              else Inr (os1, eff1))"
    by (rule observe_valid [OF assms(1), of ?d i now])
  have aw: "awaiting_terminal ?d \<longleftrightarrow> rm_terminal_outcome m = None \<and> rm_submitted m"
    by (auto simp: awaiting_terminal_def)
  show thesis
  proof (cases "rm_terminal_outcome m = None")
    case None: True
    show thesis
    proof (cases "rm_submitted m")
      case True
      with None have "next_command m = Some REF_RECORD_TERMINAL"
        using wf_ref_submitted [OF flags(1)] by (auto simp: next_command_def)
      with decision_awaiting [OF assms None True s, where n = n and f = "fault_for_round plan i" and now = now] None True
      show thesis
        by (intro that [of "observe_session (fault_for_round plan i) s ?d now empty_observations"
              "fault_for_round plan i"]) (auto simp: obs aw split: if_splits)
    next
      case False
      with decision_provisioning [OF assms None, where n = n and now = now] None show thesis
        by (intro that [of empty_observations HONEST]) (auto simp: obs aw)
    qed
  next
    case False
    with decision_post_terminal [OF assms(2), where n = n and f = "fault_for_round plan i" and now = now] show thesis
      by (intro that [of "observe_post_terminal (fault_for_round plan i) ?d now empty_observations"
            "if fault_for_round plan i \<in> {EVIDENCE_DELAY, CONSUMER_ACTIVE}
             then fault_for_round plan i else HONEST"])
        (auto simp: obs aw split: option.splits)
  qed
qed

definition round_now :: "nat \<Rightarrow> datetime" where
  "round_now i = EPOCH + timedelta_seconds (30 * int i)"

text \<open>A round whose decision carries no command.\<close>

lemma run_round_quiet:
  assumes "observe plan (rs_durable st) i (round_now i) = Inr (os, f)"
    and "reconcile intent (rs_durable st) os (round_now i) = dec"
    and "rd_kind dec \<notin> COMMAND_DECISION_KINDS"
    and "rd_kind dec \<notin> {QUARANTINE_AMBIGUOUS_STATE, FAIL_NONRETRYABLE}"
  shows "\<exists>e. je_decision_kind e = rd_kind dec \<and> \<not> je_fenced e \<and>
    run_round plan intent i st = Inr
      (if rd_kind dec = NO_OP
       then ((log_round e st)\<lparr> rs_converged := True, rs_settled_kind := Some NO_OP \<rparr>, True)
       else (log_round e st, False))"
proof -
  have "rd_command dec = None" using assms(3) reconcile_no_command unfolding assms(2) [symmetric] by blast
  then show ?thesis
    using assms
    by (intro exI [of _ "\<lparr> je_round_index = int i, je_decision_kind = rd_kind dec,
              je_reason_code = rd_reason_code dec, je_command_id = None, je_fenced = False,
              je_crash_window = None, je_observation_fault = f \<rparr>"])
      (simp add: run_round_def round_now_def [symmetric] Let_def crash_candidate_def
        apply_decision_def log_round_def)
qed

lemma crash_candidate_due:
  "rd_command dec = Some command \<Longrightarrow> cs_command_id command = command_id (rs_durable st) (rd_kind dec) \<Longrightarrow>
   crash_candidate plan (rs_fired_crashes st) dec = crash_due plan st (rd_kind dec)"
  by (simp add: crash_candidate_def crash_due_def split: option.split)

lemma feed_reference_accepts:
  assumes "DECISION_TO_REFERENCE k = Some c" and "ref_apply c (rs_reference st) = Inr m'"
  shows "feed_reference k cid st =
    st\<lparr> rs_applied_command_ids := insert cid (rs_applied_command_ids st),
        rs_distinct_commands := rs_distinct_commands st @ [(cid, k)], rs_reference := m' \<rparr>"
  using assms by (simp add: feed_reference_def)

lemma reference_command_not_settling:
  "DECISION_TO_REFERENCE k = Some c \<Longrightarrow>
     k \<noteq> NO_OP \<and> k \<noteq> QUARANTINE_AMBIGUOUS_STATE \<and> k \<noteq> FAIL_NONRETRYABLE"
  by auto

lemma decides_submit: "DECISION_TO_REFERENCE k = Some c \<Longrightarrow> k = SUBMIT_TURN \<longleftrightarrow> c = REF_SUBMIT_TURN"
  by (cases k) auto

text \<open>A round whose decision executes the next scripted command.\<close>

lemma run_round_execute:
  assumes "tracks plan st"
    and "observe plan (rs_durable st) i (round_now i) = Inr (os, f)"
    and "reconcile intent (rs_durable st) os (round_now i) = dec"
    and "executes plan dec c" and "ref_apply c (rs_reference st) = Inr m'"
  shows "\<exists>e. je_decision_kind e = rd_kind dec \<and> \<not> je_fenced e \<and> je_observation_fault e = f \<and>
    run_round plan intent i st = Inr
      (log_round e (commit_command plan (rd_kind dec) (command_id (rs_durable st) (rd_kind dec))
         (crash_due plan st (rd_kind dec)) m'
         (perform_effect plan (rd_kind dec) (command_id (rs_durable st) (rd_kind dec))
           (crash_due plan st (rd_kind dec))
           (fire_crash (command_id (rs_durable st) (rd_kind dec)) (crash_due plan st (rd_kind dec)) st))),
       False)"
proof -
  let ?k = "rd_kind dec" and ?cid = "command_id (rs_durable st) (rd_kind dec)"
  let ?cw = "crash_due plan st (rd_kind dec)"
  have k: "DECISION_TO_REFERENCE ?k = Some c" using assms(4) by (simp add: executes_def decides_def)
  then obtain command where cmd: "rd_command dec = Some command" "cs_command_id command = ?cid"
    using reconcile_command [of intent "rs_durable st" os "round_now i"] reference_command_kind
    unfolding assms(3) by blast
  have or: "oracle_of plan (rs_reference st)"
    and d: "rs_durable st = durable_of plan (rs_reference st) (int (length (rs_distinct_commands st)))"
    using assms(1) by (simp_all add: tracks_def)
  have tr: "durable_transition (rs_durable st) ?k command
      (?k = SUBMIT_TURN \<longrightarrow> fp_submit_response plan = RESP_SUCCESS) =
      durable_of plan m' (ds_revision (rs_durable st) + 1)"
    unfolding d
    by (subst durable_transition_refines [OF or assms(5,4) cmd(1)]) (simp_all add: decides_submit [OF k])
  have gen: "rd_expected_fencing_generation dec = ds_fencing_generation (rs_durable st)"
    "ds_fencing_generation (rs_durable st) = 1"
    unfolding assms(3) [symmetric] using d by simp_all
  have fresh: "?cid \<notin> rs_applied_command_ids st" using tracks_fresh [OF assms(1)] .
  note defs = run_round_def round_now_def [symmetric] Let_def crash_candidate_due [OF cmd]
    apply_decision_eq [OF cmd(1) gen(1)] log_round_def fire_crash_def perform_effect_def
    commit_command_def commits_def NO_TRANSITION_WINDOWS_def SIDE_EFFECT_ONLY_WINDOWS_def
  show ?thesis
    using assms(2,3,5) cmd gen(2) fresh k tr reference_command_not_settling [OF k]
    apply (intro exI [of _ "\<lparr> je_round_index = int i, je_decision_kind = ?k,
              je_reason_code = rd_reason_code dec, je_command_id = Some ?cid, je_fenced = False,
              je_crash_window = ?cw, je_observation_fault = f \<rparr>"])
    apply (cases "?k = BEGIN_CLEANUP"; cases ?cw)
    subgoal by (simp add: defs feed_reference_accepts)
    subgoal for w by (cases w) (simp_all add: defs feed_reference_accepts)
    subgoal by (simp add: defs feed_reference_accepts)
    subgoal for w by (cases w) (simp_all add: defs feed_reference_accepts)
    done
qed

lemma tracks_next:
  assumes "tracks plan st"
  shows "next_command (rs_reference st) =
           (case ref_remaining (rs_reference st) of [] \<Rightarrow> None | c # cs \<Rightarrow> Some c)"
  using assms oracle_flags(1) by (auto simp: tracks_def intro!: next_command_remaining)

lemma run_round_step:
  assumes "plan_valid plan" and "tracks plan st"
  shows "\<exists>st' stop. run_round plan (the_intent plan) i st = Inr (st', stop) \<and> round_step plan i st st' stop"
proof -
  let ?m = "rs_reference st" and ?n = "int (length (rs_distinct_commands st))"
  have or: "oracle_of plan ?m" and d: "rs_durable st = durable_of plan ?m ?n"
    using assms(2) by (simp_all add: tracks_def)
  obtain os f where obs: "observe plan (rs_durable st) i (round_now i) = Inr (os, f)"
    and cs: "case next_command ?m of
        None \<Rightarrow> rd_kind (reconcile (the_intent plan) (rs_durable st) os (round_now i)) = NO_OP
      | Some c \<Rightarrow>
          executes plan (reconcile (the_intent plan) (rs_durable st) os (round_now i)) c
            \<and> \<not> (c = REF_RELEASE_LEASES \<and> f = CONSUMER_ACTIVE)
            \<and> \<not> (c = REF_RECORD_TERMINAL \<and> f = UNKNOWN_VOCAB)
          \<or> waits (reconcile (the_intent plan) (rs_durable st) os (round_now i))
            \<and> fault_for_round plan i \<noteq> HONEST"
    unfolding d by (rule decision_cases [OF assms(1) or, of ?n i "round_now i"])
  define dec where "dec = reconcile (the_intent plan) (rs_durable st) os (round_now i)"
  note quiet = run_round_quiet [OF obs dec_def [symmetric]]
  consider "next_command ?m = None" "rd_kind dec = NO_OP"
    | c where "next_command ?m = Some c" "waits dec" "fault_for_round plan i \<noteq> HONEST"
    | c where "next_command ?m = Some c" "executes plan dec c"
        "\<not> (c = REF_RELEASE_LEASES \<and> f = CONSUMER_ACTIVE)"
        "\<not> (c = REF_RECORD_TERMINAL \<and> f = UNKNOWN_VOCAB)"
    using cs unfolding dec_def [symmetric] by (cases "next_command ?m") auto
  then show ?thesis
  proof cases
    case 1
    with quiet obtain e where "je_decision_kind e = NO_OP" "\<not> je_fenced e"
      "run_round plan (the_intent plan) i st =
        Inr ((log_round e st)\<lparr> rs_converged := True, rs_settled_kind := Some NO_OP \<rparr>, True)"
      by (auto simp: vocabulary)
    with 1 round_step.settle show ?thesis by blast
  next
    case 2
    with quiet obtain e where "je_decision_kind e = rd_kind dec" "\<not> je_fenced e"
      "run_round plan (the_intent plan) i st = Inr (log_round e st, False)"
      by (auto simp: waits_def vocabulary)
    with 2 round_step.wait [of st plan i e] show ?thesis by (auto simp: waits_def)
  next
    case 3
    then obtain cs where rem: "ref_remaining ?m = c # cs"
      using tracks_next [OF assms(2)] by (auto split: list.splits)
    obtain m' where m': "ref_apply c ?m = Inr m'" using oracle_apply [OF or rem] by blast
    from run_round_execute [OF assms(2) obs dec_def [symmetric] 3(2) m'] obtain e where
      e: "je_decision_kind e = rd_kind dec" "\<not> je_fenced e" "je_observation_fault e = f"
      and r: "run_round plan (the_intent plan) i st = Inr
      (log_round e (commit_command plan (rd_kind dec) (command_id (rs_durable st) (rd_kind dec))
         (crash_due plan st (rd_kind dec)) m'
         (perform_effect plan (rd_kind dec) (command_id (rs_durable st) (rd_kind dec))
           (crash_due plan st (rd_kind dec))
           (fire_crash (command_id (rs_durable st) (rd_kind dec)) (crash_due plan st (rd_kind dec)) st))),
       False)" by blast
    have "DECISION_TO_REFERENCE (rd_kind dec) = Some c"
      using 3(2) by (simp add: executes_def decides_def)
    from round_step.execute [OF 3(1) this m' e(1,2) _ _ refl refl] e(3) 3(3,4) r show ?thesis by blast
  qed
qed

lemma step_fields [simp]:
  "rs_durable (log_round e st) = rs_durable st"
  "rs_reference (log_round e st) = rs_reference st"
  "rs_distinct_commands (log_round e st) = rs_distinct_commands st"
  "rs_applied_command_ids (log_round e st) = rs_applied_command_ids st"
  "rs_reference_violation (log_round e st) = rs_reference_violation st"
  "rs_fired_crashes (log_round e st) = rs_fired_crashes st"
  "rs_ledger (log_round e st) = rs_ledger st"
  "rs_cleanup_effects (log_round e st) = rs_cleanup_effects st"
  "rs_converged (log_round e st) = rs_converged st"
  "rs_settled_kind (log_round e st) = rs_settled_kind st"
  "rs_journal (log_round e st) = rs_journal st @ [e]"
  "rs_phases (log_round e st) = rs_phases st @ [current_phase (rs_durable st)]"
  by (simp_all add: log_round_def)

lemma fire_crash_fields [simp]:
  "rs_durable (fire_crash cid cw st) = rs_durable st"
  "rs_reference (fire_crash cid cw st) = rs_reference st"
  "rs_distinct_commands (fire_crash cid cw st) = rs_distinct_commands st"
  "rs_applied_command_ids (fire_crash cid cw st) = rs_applied_command_ids st"
  "rs_reference_violation (fire_crash cid cw st) = rs_reference_violation st"
  "rs_fired_crashes (fire_crash cid cw st) = Pair cid ` set_option cw \<union> rs_fired_crashes st"
  "rs_ledger (fire_crash cid cw st) = rs_ledger st"
  "rs_cleanup_effects (fire_crash cid cw st) = rs_cleanup_effects st"
  "rs_converged (fire_crash cid cw st) = rs_converged st"
  "rs_settled_kind (fire_crash cid cw st) = rs_settled_kind st"
  "rs_journal (fire_crash cid cw st) = rs_journal st"
  "rs_phases (fire_crash cid cw st) = rs_phases st"
  by (simp_all add: fire_crash_def split: option.split)

lemma perform_effect_fields [simp]:
  "rs_durable (perform_effect plan k cid cw st) = rs_durable st"
  "rs_reference (perform_effect plan k cid cw st) = rs_reference st"
  "rs_distinct_commands (perform_effect plan k cid cw st) = rs_distinct_commands st"
  "rs_applied_command_ids (perform_effect plan k cid cw st) = rs_applied_command_ids st"
  "rs_reference_violation (perform_effect plan k cid cw st) = rs_reference_violation st"
  "rs_fired_crashes (perform_effect plan k cid cw st) = rs_fired_crashes st"
  "rs_ledger (perform_effect plan k cid cw st) =
     (if cw \<in> NO_TRANSITION_WINDOWS then rs_ledger st
      else ledger_perform cid (effect_request (fp_submit_response plan) k) (rs_ledger st))"
  "rs_cleanup_effects (perform_effect plan k cid cw st) = rs_cleanup_effects st @
     (if cw \<notin> NO_TRANSITION_WINDOWS \<and> k = BEGIN_CLEANUP then [(cid, 1)] else [])"
  "rs_converged (perform_effect plan k cid cw st) = rs_converged st"
  "rs_settled_kind (perform_effect plan k cid cw st) = rs_settled_kind st"
  "rs_journal (perform_effect plan k cid cw st) = rs_journal st"
  "rs_phases (perform_effect plan k cid cw st) = rs_phases st"
  by (simp_all add: perform_effect_def)

lemma commit_command_fields [simp]:
  "rs_durable (commit_command plan k cid cw m' st) =
     (if commits cw then durable_of plan m' (ds_revision (rs_durable st) + 1) else rs_durable st)"
  "rs_reference (commit_command plan k cid cw m' st) = (if commits cw then m' else rs_reference st)"
  "rs_distinct_commands (commit_command plan k cid cw m' st) =
     rs_distinct_commands st @ (if commits cw then [(cid, k)] else [])"
  "rs_applied_command_ids (commit_command plan k cid cw m' st) =
     (if commits cw then insert cid (rs_applied_command_ids st) else rs_applied_command_ids st)"
  "rs_reference_violation (commit_command plan k cid cw m' st) = rs_reference_violation st"
  "rs_fired_crashes (commit_command plan k cid cw m' st) = rs_fired_crashes st"
  "rs_ledger (commit_command plan k cid cw m' st) = rs_ledger st"
  "rs_cleanup_effects (commit_command plan k cid cw m' st) = rs_cleanup_effects st"
  "rs_converged (commit_command plan k cid cw m' st) = rs_converged st"
  "rs_settled_kind (commit_command plan k cid cw m' st) = rs_settled_kind st"
  "rs_journal (commit_command plan k cid cw m' st) = rs_journal st"
  "rs_phases (commit_command plan k cid cw m' st) = rs_phases st"
  by (simp_all add: commit_command_def)

lemma tracks_execute:
  assumes "tracks plan st" and "next_command (rs_reference st) = Some c"
    and "ref_apply c (rs_reference st) = Inr m'"
  obtains cs where "ref_remaining (rs_reference st) = c # cs" and "ref_remaining m' = cs"
    and "oracle_of plan m'"
    and "expected_command_sequence m' = expected_command_sequence (rs_reference st)"
proof -
  obtain cs where rem: "ref_remaining (rs_reference st) = c # cs"
    using assms(2) tracks_next [OF assms(1)] by (auto split: list.splits)
  have "oracle_of plan (rs_reference st)" using assms(1) by (simp add: tracks_def)
  from oracle_apply [OF this rem] assms(3) have "oracle_of plan m'" "ref_remaining m' = cs" by auto
  with rem that ref_apply_frame(1) [OF assms(3)] show thesis by blast
qed

lemma tracks_step:
  assumes "tracks plan st" and "round_step plan i st st' stop"
  shows "tracks plan st'"
  using assms(2)
proof cases
  case (execute c k m' e cid cw)
  obtain cs where ex: "ref_remaining (rs_reference st) = c # cs" "ref_remaining m' = cs"
    "oracle_of plan m'" "expected_command_sequence m' = expected_command_sequence (rs_reference st)"
    by (rule tracks_execute [OF assms(1) execute(3) execute(5)])
  have "ds_session_id (rs_durable st) = ''session-1''" using assms(1) by (simp add: tracks_def)
  with ex assms(1) execute(4,10) show ?thesis
    unfolding execute(1) tracks_def by (auto 4 3)
qed (use assms(1) in \<open>simp_all add: tracks_def\<close>)

lemma durable_of_initial:
  "durable_of plan (new_reference_model rp rh rc cancel truth) 0 = initial_durable plan"
  by (simp add: durable_of_def new_reference_model_def initial_durable_def)

lemma oracle_of_initial:
  "oracle_of plan (new_reference_model (fp_requires_profile_lease plan)
         (fp_requires_host plan) (fp_requires_cleanup plan) (fp_desired_cancel plan)
         (fp_ground_truth_terminal plan))"
  by (simp add: oracle_of_def) (simp add: new_reference_model_def)

lemma tracks_initial: "tracks plan (initial_run_state plan)"
  by (simp add: tracks_def initial_run_state_def oracle_of_initial durable_of_initial
      remaining_new_reference_model)

end
