(* ===== verification/Fault_Progress.thy ===== *)
theory Fault_Progress
  imports Fault_Refinement
begin

text \<open>
  Liveness and safety of the runs of \<^verbatim>\<open>moonmind/omnigent/faultlab/harness.py\<close>: the locale
  \<open>bounded_progress\<close> is the contract of a retry loop, its interpretation discharges it for the
  rounds of the harness, and the invariants kept by every round are proved by cases on the step
  relation of \<open>Fault_Refinement\<close>.
\<close>

section \<open>Interface: bounded progress\<close>

text \<open>
  A loop whose invariant every round keeps, whose fuel no round raises and every honest round
  lowers, and which stops in a good state only: with more honest rounds than fuel it ends well.
\<close>

locale bounded_progress =
  fixes step :: "nat \<Rightarrow> 's \<Rightarrow> ('e, 's \<times> bool) result"
    and inv :: "'s \<Rightarrow> bool" and fuel :: "'s \<Rightarrow> nat"
    and honest :: "nat \<Rightarrow> bool" and good :: "'s \<Rightarrow> bool"
  assumes step_total: "inv st \<Longrightarrow> \<exists>st' stop. step i st = Inr (st', stop)"
    and step_inv: "inv st \<Longrightarrow> step i st = Inr (st', stop) \<Longrightarrow> inv st'"
    and step_fuel: "inv st \<Longrightarrow> step i st = Inr (st', False) \<Longrightarrow> fuel st' \<le> fuel st"
    and honest_fuel: "inv st \<Longrightarrow> honest i \<Longrightarrow> step i st = Inr (st', False) \<Longrightarrow> fuel st' < fuel st"
    and stop_good: "inv st \<Longrightarrow> step i st = Inr (st', True) \<Longrightarrow> good st'"
begin

fun run :: "nat list \<Rightarrow> 's \<Rightarrow> ('e, 's) result" where
  "run [] st = Inr st"
| "run (i # is) st = bind_result (step i st) (\<lambda>(st', stop). if stop then Inr st' else run is st')"

lemma run_total: "inv st \<Longrightarrow> \<exists>st'. run is st = Inr st' \<and> inv st'"
proof (induction "is" arbitrary: st)
  case (Cons i "is")
  obtain st' stop where s: "step i st = Inr (st', stop)" using step_total [OF Cons.prems] by blast
  with step_inv [OF Cons.prems] have "inv st'" by blast
  with s Cons.IH [of st'] show ?case by (cases stop) auto
qed simp

lemma run_good:
  "inv st \<Longrightarrow> fuel st < length (filter honest is) \<Longrightarrow> \<exists>st'. run is st = Inr st' \<and> inv st' \<and> good st'"
proof (induction "is" arbitrary: st)
  case (Cons i "is")
  obtain st' stop where s: "step i st = Inr (st', stop)" using step_total [OF Cons.prems(1)] by blast
  have i': "inv st'" using step_inv [OF Cons.prems(1) s] .
  show ?case
  proof (cases stop)
    case True
    with s i' stop_good [OF Cons.prems(1)] show ?thesis by auto
  next
    case False
    have "fuel st' < length (filter honest is)"
      using Cons.prems step_fuel [OF Cons.prems(1)] honest_fuel [OF Cons.prems(1)] s False
      by (cases "honest i") (fastforce+)
    with Cons.IH [OF i'] s False show ?thesis by auto
  qed
qed simp

end

section \<open>The run makes progress\<close>

text \<open>Whether the planned crash of the next command has fired already.\<close>

definition crashed :: "fault_plan \<Rightarrow> run_state \<Rightarrow> bool" where
  "crashed plan st \<longleftrightarrow> (\<exists>k operation w. DECISION_TO_OPERATION k = Some operation
     \<and> map_of (fp_command_crashes plan) operation = Some w
     \<and> DECISION_TO_REFERENCE k = next_command (rs_reference st)
     \<and> (command_id (rs_durable st) k, w) \<in> rs_fired_crashes st)"

definition rounds_left :: "fault_plan \<Rightarrow> run_state \<Rightarrow> nat" where
  "rounds_left plan st = 2 * length (ref_remaining (rs_reference st))
     - (if crashed plan st then 1 else 0)"

definition closed_run :: "run_state \<Rightarrow> bool" where
  "closed_run st \<longleftrightarrow> rs_converged st \<and> rs_settled_kind st = Some NO_OP
     \<and> ref_remaining (rs_reference st) = []"

lemma operation_kind_unique:
  "DECISION_TO_OPERATION k = Some a \<Longrightarrow> DECISION_TO_OPERATION k' = Some b \<Longrightarrow>
   DECISION_TO_REFERENCE k = DECISION_TO_REFERENCE k' \<Longrightarrow> k = k'"
  by (cases k; cases k') simp_all

lemma crash_due_SomeD:
  assumes "crash_due plan st k = Some w"
  obtains operation where "DECISION_TO_OPERATION k = Some operation"
    and "map_of (fp_command_crashes plan) operation = Some w"
    and "(command_id (rs_durable st) k, w) \<notin> rs_fired_crashes st"
  using assms by (auto simp: crash_due_def split: option.splits if_splits)

lemma commits_None [simp]: "commits None"
  by (simp add: commits_def vocabulary)

lemma execute_progress:
  assumes "tracks plan st" and "next_command (rs_reference st) = Some c"
    and "DECISION_TO_REFERENCE k = Some c" and "ref_apply c (rs_reference st) = Inr m'"
    and "cid = command_id (rs_durable st) k" and "cw = crash_due plan st k"
  shows "rounds_left plan (log_round e (commit_command plan k cid cw m'
          (perform_effect plan k cid cw (fire_crash cid cw st)))) < rounds_left plan st"
    (is "rounds_left plan ?st' < _")
proof -
  obtain cs where ex: "ref_remaining (rs_reference st) = c # cs" "ref_remaining m' = cs"
    by (rule tracks_execute [OF assms(1,2,4)])
  show ?thesis
  proof (cases "commits cw")
    case True
    then show ?thesis using ex by (simp add: rounds_left_def, arith)
  next
    case False
    then obtain w where w: "crash_due plan st k = Some w" using assms(6)
      by (cases "crash_due plan st k") auto
    obtain operation where op: "DECISION_TO_OPERATION k = Some operation"
      "map_of (fp_command_crashes plan) operation = Some w"
      "(command_id (rs_durable st) k, w) \<notin> rs_fired_crashes st"
      by (rule crash_due_SomeD [OF w])
    have "crashed plan ?st'"
      unfolding crashed_def using op False assms(2,3,5,6) w by force
    moreover have "\<not> crashed plan st"
      unfolding crashed_def using op assms(2,3) operation_kind_unique by fastforce
    ultimately show ?thesis using False ex by (simp add: rounds_left_def)
  qed
qed

lemma step_progress:
  assumes "tracks plan st" and "round_step plan i st st' stop"
  shows "if stop then closed_run st'
         else rounds_left plan st' \<le> rounds_left plan st
           \<and> (fault_for_round plan i = HONEST \<longrightarrow> rounds_left plan st' < rounds_left plan st)"
  using assms(2)
proof cases
  case wait
  then show ?thesis by (simp add: rounds_left_def crashed_def)
next
  case settle
  then have "ref_remaining (rs_reference st) = []"
    using tracks_next [OF assms(1)] by (auto split: list.splits)
  with settle show ?thesis by (simp add: closed_run_def)
next
  case (execute c k m' e cid cw)
  from execute_progress [OF assms(1) execute(3-5) execute(10,11), of e] execute(1,2)
  show ?thesis by (simp add: less_imp_le)
qed

section \<open>What every run keeps\<close>

text \<open>
  The ledger: no key performed twice, digests only, and a single identity for the submission.
  Before the submission commits, that identity is the one of the current revision.
\<close>

definition submit_keys :: "side_effect_ledger \<Rightarrow> py_str set" where
  "submit_keys l = se_idempotency_key ` {r \<in> set (le_side_effects l). se_operation r = OP_SUBMIT_TURN}"

definition ledger_ok :: "run_state \<Rightarrow> bool" where
  "ledger_ok st \<longleftrightarrow> ledger_wf (rs_ledger st) \<and> distinct (performed_keys (rs_ledger st))
     \<and> (\<forall>r \<in> set (le_requests (rs_ledger st)). py_starts_with ''sha256:'' (rq_payload_digest r))
     \<and> (if rm_submitted (rs_reference st) then \<exists>key. submit_keys (rs_ledger st) \<subseteq> {key}
        else submit_keys (rs_ledger st) \<subseteq>
          (if next_command (rs_reference st) = Some REF_SUBMIT_TURN
           then {command_id (rs_durable st) SUBMIT_TURN} else {}))"

definition journal_ok :: "fault_plan \<Rightarrow> run_state \<Rightarrow> bool" where
  "journal_ok plan st \<longleftrightarrow> (\<forall>e \<in> set (rs_journal st). \<not> je_fenced e
     \<and> (je_decision_kind e = RELEASE_LEASES \<longrightarrow> je_observation_fault e \<noteq> CONSUMER_ACTIVE
          \<and> (fp_requires_cleanup plan \<longrightarrow> rm_cleanup_complete (rs_reference st)))
     \<and> (je_decision_kind e \<in> terminal_decision_kinds \<longrightarrow> je_observation_fault e \<noteq> UNKNOWN_VOCAB))"

text \<open>Every phase seen so far is a healthy one, and none is ahead of the current one.\<close>

definition phase_le :: "session_lifecycle_phase \<Rightarrow> session_lifecycle_phase \<Rightarrow> bool" where
  "phase_le p q \<longleftrightarrow>
     (case (LINEAR_PHASE_ORDER p, LINEAR_PHASE_ORDER q) of (Some x, Some y) \<Rightarrow> x \<le> y | _ \<Rightarrow> False)"

definition phases_ok :: "run_state \<Rightarrow> bool" where
  "phases_ok st \<longleftrightarrow> sorted_wrt phase_le (rs_phases st)
     \<and> (\<forall>p \<in> set (rs_phases st). phase_le p (current_phase (rs_durable st)))"

text \<open>The committed commands are the applied ones, each under an identity of its own.\<close>

definition ids_ok :: "run_state \<Rightarrow> bool" where
  "ids_ok st \<longleftrightarrow> rs_applied_command_ids st = fst ` set (rs_distinct_commands st)
     \<and> distinct (map fst (rs_distinct_commands st))"

definition cleanup_ok :: "run_state \<Rightarrow> bool" where
  "cleanup_ok st \<longleftrightarrow> (\<forall>(cid, generation) \<in> set (rs_cleanup_effects st). generation = 1)"

lemma phase_le_trans: "phase_le p q \<Longrightarrow> phase_le q r \<Longrightarrow> phase_le p r"
  by (auto simp: phase_le_def split: option.splits)

lemma current_phase_durable_of:
  "current_phase (durable_of plan m n) =
     (if rm_terminal_outcome m = None then
        (if rm_submitted m \<and> fp_submit_response plan = RESP_SUCCESS then PH_TURN_IN_FLIGHT
         else if rm_session_attached m then PH_PROVIDER_SESSION_READY
         else if rm_host_lease_held m \<and> \<not> rm_leases_released m then PH_HOST_READY
         else if rm_profile_lease_held m \<and> \<not> rm_leases_released m then PH_PROFILE_LEASE_HELD
         else PH_INITIALIZING)
      else if rm_leases_released m \<or> \<not> rm_profile_lease_held m \<and> \<not> rm_host_lease_held m then
        (if rm_cleanup_complete m then PH_CLOSED
         else if rm_leases_released m then PH_LEASES_RELEASED
         else if rm_evidence_harvested m then PH_EVIDENCE_HARVESTED else PH_TERMINAL_RECORDED)
      else if rm_cleanup_complete m then PH_CLEANUP_STARTED
      else if rm_evidence_harvested m then PH_EVIDENCE_HARVESTED else PH_TERMINAL_RECORDED)"
  by (simp add: current_phase_def Let_def)

lemma phase_healthy: "phase_le (current_phase (durable_of plan m n)) (current_phase (durable_of plan m n'))"
  by (simp add: current_phase_durable_of phase_le_def)

lemma phase_forward:
  assumes "wf_ref m" and "next_command m = Some c"
  shows "phase_le (current_phase (durable_of plan m n)) (current_phase (durable_of plan (ref_effect c m) n'))"
proof (cases "rm_terminal_outcome m = None")
  case True
  note pre = wf_ref_before_terminal [OF assms(1) True]
  have "rm_submitted m \<Longrightarrow> rm_session_attached m" "rm_session_attached m \<Longrightarrow> \<not> rm_desired_cancel m"
    using assms(1) by (auto simp: wf_ref_def)
  with True pre assms(2) show ?thesis
    by (auto simp: next_command_def current_phase_durable_of phase_le_def split: if_splits)
next
  case False
  have "rm_leases_released m \<Longrightarrow> rm_evidence_harvested m \<and> (rm_requires_cleanup m \<longrightarrow> rm_cleanup_complete m)"
    "rm_cleanup_complete m \<Longrightarrow> rm_evidence_harvested m"
    using assms(1) by (auto simp: wf_ref_def)
  with False assms(2) show ?thesis
    by (auto simp: next_command_def current_phase_durable_of phase_le_def leases_acquirable_def
        split: if_splits)
qed

lemma step_phases:
  assumes "tracks plan st" and "round_step plan i st st' stop" and "phases_ok st"
  shows "phases_ok st'"
proof -
  have or: "oracle_of plan (rs_reference st)"
    and d: "rs_durable st = durable_of plan (rs_reference st) (int (length (rs_distinct_commands st)))"
    using assms(1) by (simp_all add: tracks_def)
  have self: "phase_le (current_phase (rs_durable st)) (current_phase (rs_durable st))"
    unfolding d by (rule phase_healthy)
  from assms(2) show ?thesis
  proof cases
    case (execute c k m' e cid cw)
    have m': "m' = ref_effect c (rs_reference st)" using ref_apply_effect [OF execute(5)] .
    have fwd: "phase_le (current_phase (rs_durable st))
        (current_phase (durable_of plan m' (ds_revision (rs_durable st) + 1)))"
      unfolding m' by (subst d, rule phase_forward [OF oracle_flags(1) [OF or] execute(3)])
    have "phase_le (current_phase (durable_of plan m' (ds_revision (rs_durable st) + 1)))
        (current_phase (durable_of plan m' (ds_revision (rs_durable st) + 1)))"
      by (rule phase_healthy)
    with fwd self assms(3) show ?thesis
      unfolding execute(1) phases_ok_def by (auto simp: sorted_wrt_append intro: phase_le_trans)
  qed (use self assms(3) in \<open>auto simp: phases_ok_def sorted_wrt_append\<close>)
qed

lemma ref_effect_cleanup: "rm_cleanup_complete m \<Longrightarrow> rm_cleanup_complete (ref_effect c m)"
  by (cases c) simp_all

lemma step_journal:
  assumes "tracks plan st" and "round_step plan i st st' stop" and "journal_ok plan st"
  shows "journal_ok plan st'"
  using assms(2)
proof cases
  case (execute c k m' e cid cw)
  have fl: "fp_requires_cleanup plan = rm_requires_cleanup (rs_reference st)"
    using assms(1) oracle_flags(4) by (auto simp: tracks_def)
  have m': "m' = ref_effect c (rs_reference st)" using ref_apply_effect [OF execute(5)] .
  have rel: "k = RELEASE_LEASES \<Longrightarrow> c = REF_RELEASE_LEASES"
    and rec: "k \<in> terminal_decision_kinds \<Longrightarrow> c = REF_RECORD_TERMINAL"
    using execute(4) by (auto simp: vocabulary)
  have "c = REF_RELEASE_LEASES \<Longrightarrow> rm_requires_cleanup (rs_reference st) \<Longrightarrow>
      rm_cleanup_complete (rs_reference st)"
    using execute(3) by (auto simp: next_command_def split: if_splits)
  with rel rec execute(6-9) assms(3) fl show ?thesis
    unfolding execute(1) journal_ok_def by (auto simp: m' ref_effect_cleanup)
qed (use assms(3) in \<open>auto simp: journal_ok_def vocabulary\<close>)

lemma step_ids:
  assumes "tracks plan st" and "round_step plan i st st' stop" and "ids_ok st"
  shows "ids_ok st'"
  using assms(2)
proof cases
  case (execute c k m' e cid cw)
  have "cid \<notin> rs_applied_command_ids st" using tracks_fresh [OF assms(1)] execute(10) by simp
  with assms(3) show ?thesis unfolding execute(1) by (auto simp: ids_ok_def)
qed (use assms(3) in \<open>simp_all add: ids_ok_def\<close>)

lemma step_cleanup:
  assumes "round_step plan i st st' stop" and "cleanup_ok st"
  shows "cleanup_ok st'"
  using assms by cases (auto simp: cleanup_ok_def)

lemma payload_digest_prefix: "py_starts_with ''sha256:'' (payload_digest p)"
  by (simp add: payload_digest_def)

lemma decision_effect_nonempty: "decision_side_effect k \<noteq> SE_NONE"
  by (cases k) simp_all

lemma submit_keys_perform:
  assumes "ledger_wf l"
  shows "submit_keys (ledger_perform cid (effect_request r k) l) \<subseteq>
     submit_keys l \<union> (if k = SUBMIT_TURN then {cid} else {})"
proof -
  have "DECISION_TO_OPERATION k = Some OP_SUBMIT_TURN \<Longrightarrow> k = SUBMIT_TURN" by (cases k) simp_all
  then show ?thesis
    by (cases "DECISION_TO_OPERATION k")
      (auto simp: effect_request_def submit_keys_def provider_call_side_effects [OF assms])
qed

lemma ledger_perform_ok:
  assumes "ledger_wf l" and "distinct (performed_keys l)"
    and "\<forall>r \<in> set (le_requests l). py_starts_with ''sha256:'' (rq_payload_digest r)"
  shows "ledger_wf (ledger_perform cid (effect_request r k) l)"
    and "distinct (performed_keys (ledger_perform cid (effect_request r k) l))"
    and "\<forall>r \<in> set (le_requests (ledger_perform cid (effect_request r k) l)).
           py_starts_with ''sha256:'' (rq_payload_digest r)"
  using assms ledger.wf_perform ledger.perform_distinct
  by (auto simp: effect_request_def provider_call_ledger payload_digest_prefix)

lemma next_submit_once:
  assumes "next_command m = Some c"
  shows "rm_submitted m \<Longrightarrow> c \<noteq> REF_SUBMIT_TURN"
    and "c \<noteq> REF_SUBMIT_TURN \<Longrightarrow> rm_submitted (ref_effect c m) = rm_submitted m"
    and "rm_submitted (ref_effect REF_SUBMIT_TURN m)"
  using assms by (cases c; auto simp: next_command_def split: if_splits)+

lemma ledger_ok_frame [simp]:
  "ledger_ok (log_round e st) = ledger_ok st"
  "ledger_ok (st\<lparr> rs_converged := b, rs_settled_kind := k \<rparr>) = ledger_ok st"
  by (simp_all add: ledger_ok_def)

lemma step_ledger:
  assumes "tracks plan st" and "round_step plan i st st' stop" and "ledger_ok st"
  shows "ledger_ok st'"
  using assms(2)
proof cases
  case (execute c k m' e cid cw)
  let ?l = "rs_ledger st" and ?m = "rs_reference st"
  define l' where "l' = (if cw \<in> NO_TRANSITION_WINDOWS then ?l
    else ledger_perform cid (effect_request (fp_submit_response plan) k) ?l)"
  have l: "ledger_wf ?l" "distinct (performed_keys ?l)"
    "\<forall>r \<in> set (le_requests ?l). py_starts_with ''sha256:'' (rq_payload_digest r)"
    using assms(3) by (simp_all add: ledger_ok_def)
  have m': "m' = ref_effect c ?m" using ref_apply_effect [OF execute(5)] .
  have k: "k = SUBMIT_TURN \<longleftrightarrow> c = REF_SUBMIT_TURN" using execute(4) by (rule decides_submit)
  note once = next_submit_once [OF execute(3)]
  have keys: "submit_keys l' \<subseteq> submit_keys ?l \<union> (if c = REF_SUBMIT_TURN then {cid} else {})"
    using submit_keys_perform [OF l(1), of cid "fp_submit_response plan" k] k by (auto simp: l'_def)
  have submit: "if rm_submitted (if commits cw then m' else ?m) then \<exists>key. submit_keys l' \<subseteq> {key}
    else submit_keys l' \<subseteq> (if next_command (if commits cw then m' else ?m) = Some REF_SUBMIT_TURN
           then {command_id (if commits cw then durable_of plan m' (ds_revision (rs_durable st) + 1)
                    else rs_durable st) SUBMIT_TURN} else {})"
  proof (cases "c = REF_SUBMIT_TURN")
    case True
    then have nsub: "\<not> rm_submitted ?m" using once(1) by blast
    with True assms(3) execute(3) have "submit_keys ?l \<subseteq> {command_id (rs_durable st) SUBMIT_TURN}"
      by (simp add: ledger_ok_def)
    moreover have "cid = command_id (rs_durable st) SUBMIT_TURN" using True k execute(10) by simp
    ultimately have "submit_keys l' \<subseteq> {command_id (rs_durable st) SUBMIT_TURN}"
      using keys unfolding True by auto
    then have "\<exists>key. submit_keys l' \<subseteq> {key}" "submit_keys l' \<subseteq> {command_id (rs_durable st) SUBMIT_TURN}"
      by blast+
    then show ?thesis using True once(3) execute(3) nsub by (simp add: m')
  next
    case False
    then have "submit_keys l' \<subseteq> submit_keys ?l" using keys by auto
    moreover have "rm_submitted ?m \<or> submit_keys ?l = {}"
      using assms(3) execute(3) False by (auto simp: ledger_ok_def split: if_splits)
    ultimately show ?thesis
      using assms(3) once(2) [OF False] by (auto simp: ledger_ok_def m' split: if_splits)
  qed
  have st': "rs_ledger st' = l'" "rs_reference st' = (if commits cw then m' else ?m)"
    "rs_durable st' = (if commits cw then durable_of plan m' (ds_revision (rs_durable st) + 1)
       else rs_durable st)"
    by (simp_all add: execute(1) l'_def)
  have "ledger_wf l'" "distinct (performed_keys l')"
    "\<forall>r \<in> set (le_requests l'). py_starts_with ''sha256:'' (rq_payload_digest r)"
    using l ledger_perform_ok [OF l] by (simp_all add: l'_def)
  with submit show ?thesis unfolding ledger_ok_def st' by (intro conjI)
qed (use assms(3) in simp_all)

section \<open>Every run\<close>

definition run_inv :: "fault_plan \<Rightarrow> run_state \<Rightarrow> bool" where
  "run_inv plan st \<longleftrightarrow> plan_valid plan \<and> tracks plan st \<and> ledger_ok st \<and> journal_ok plan st
     \<and> phases_ok st \<and> cleanup_ok st \<and> ids_ok st \<and> (rs_converged st \<longrightarrow> ref_remaining (rs_reference st) = [])"

lemma step_converged:
  assumes "tracks plan st" and "round_step plan i st st' stop"
    and "rs_converged st \<longrightarrow> ref_remaining (rs_reference st) = []"
  shows "rs_converged st' \<longrightarrow> ref_remaining (rs_reference st') = []"
  using assms(2)
proof cases
  case settle
  then show ?thesis using tracks_next [OF assms(1)] by (auto split: list.splits)
next
  case execute
  then show ?thesis using tracks_next [OF assms(1)] assms(3) by (auto split: list.splits)
qed (use assms(3) in simp)

lemma run_inv_step:
  assumes "run_inv plan st" and "round_step plan i st st' stop"
  shows "run_inv plan st'"
  using assms tracks_step step_ledger step_journal step_phases step_cleanup step_ids
    step_converged
  unfolding run_inv_def by metis

lemma run_inv_round:
  assumes "run_inv plan st" and "run_round plan (the_intent plan) i st = Inr (st', stop)"
  shows "tracks plan st" and "round_step plan i st st' stop"
proof -
  show "tracks plan st" using assms(1) by (simp add: run_inv_def)
  then show "round_step plan i st st' stop"
    using assms run_round_step [of plan st i] by (auto simp: run_inv_def)
qed

interpretation harness_run: bounded_progress "run_round plan (the_intent plan)" "run_inv plan"
  "rounds_left plan" "\<lambda>i. fault_for_round plan i = HONEST" closed_run for plan
proof unfold_locales
  fix st i
  assume "run_inv plan st"
  then show "\<exists>st' stop. run_round plan (the_intent plan) i st = Inr (st', stop)"
    using run_round_step [of plan st i] by (auto simp: run_inv_def)
next
  fix st i st' stop
  assume "run_inv plan st" "run_round plan (the_intent plan) i st = Inr (st', stop)"
  then show "run_inv plan st'" using run_inv_round run_inv_step by blast
next
  fix st i st'
  assume "run_inv plan st" "run_round plan (the_intent plan) i st = Inr (st', False)"
  from step_progress [OF run_inv_round [OF this]] show "rounds_left plan st' \<le> rounds_left plan st"
    by simp
next
  fix st i st'
  assume "run_inv plan st" and h: "fault_for_round plan i = HONEST"
    and "run_round plan (the_intent plan) i st = Inr (st', False)"
  from step_progress [OF run_inv_round [OF this(1,3)]] h
  show "rounds_left plan st' < rounds_left plan st" by simp
next
  fix st i st'
  assume "run_inv plan st" "run_round plan (the_intent plan) i st = Inr (st', True)"
  from step_progress [OF run_inv_round [OF this]] show "closed_run st'" by simp
qed

lemma run_rounds_is_run: "run_rounds plan (the_intent plan) is st = harness_run.run plan is st"
  by (induction "is" arbitrary: st) (simp_all add: bind_result_def split: sum.split)

lemma run_inv_initial:
  assumes "plan_valid plan"
  shows "run_inv plan (initial_run_state plan)"
proof -
  let ?st = "initial_run_state plan"
  have "ledger_ok ?st"
    by (simp add: ledger_ok_def initial_run_state_def submit_keys_def empty_ledger_simps)
      (simp add: empty_ledger_def new_reference_model_def)
  moreover have "phases_ok ?st"
    by (simp add: phases_ok_def initial_run_state_def phase_le_def current_phase_def
        initial_durable_def)
  moreover have "journal_ok plan ?st" "cleanup_ok ?st" "ids_ok ?st" "\<not> rs_converged ?st"
    by (simp_all add: journal_ok_def cleanup_ok_def ids_ok_def initial_run_state_def)
  ultimately show ?thesis using assms tracks_initial by (simp add: run_inv_def)
qed

lemma expected_length: "length (expected_command_sequence m) \<le> 8"
  by (simp add: expected_command_sequence_def)

lemma rounds_left_initial: "rounds_left plan (initial_run_state plan) \<le> 16"
proof -
  have "length (ref_remaining (rs_reference (initial_run_state plan))) \<le> 8"
    by (simp add: initial_run_state_def remaining_new_reference_model expected_length)
  then show ?thesis by (simp add: rounds_left_def)
qed

lemma honest_rounds:
  assumes "0 \<le> fp_recovery_round plan"
  shows "80 \<le> length (filter (\<lambda>i. fault_for_round plan i = HONEST)
           [0 ..< nat (fp_recovery_round plan + 80)])"
proof -
  define r where "r = nat (fp_recovery_round plan)"
  have b: "nat (fp_recovery_round plan + 80) = r + 80" using assms by (simp add: r_def)
  have "[0 ..< r + 80] = [0 ..< r] @ [r ..< r + 80]" by (rule upt_add_eq_append) simp
  moreover have "filter (\<lambda>i. fault_for_round plan i = HONEST) [r ..< r + 80] = [r ..< r + 80]"
    using assms by (intro filter_True) (auto simp: fault_for_round_def r_def)
  ultimately show ?thesis unfolding b by simp
qed

text \<open>The two exceptions of a malformed plan.\<close>

lemma run_plan_valid:
  assumes "plan_valid plan"
  shows "run_plan plan b = bind_result
    (harness_run.run plan [0 ..< nat (option_or b (fp_recovery_round plan + 80))]
       (initial_run_state plan)) (\<lambda>st. Inr (trace_of plan st))"
  using assms by (simp add: run_plan_def plan_intent_iff plan_valid_def run_rounds_is_run)

lemma run_plan_total:
  assumes "plan_valid plan"
  obtains st where "run_plan plan b = Inr (trace_of plan st)" and "run_inv plan st"
  using harness_run.run_total [OF run_inv_initial [OF assms],
      of "[0 ..< nat (option_or b (fp_recovery_round plan + 80))]"]
  by (auto simp: run_plan_valid [OF assms])

lemma run_plan_converges:
  assumes "plan_valid plan" and "0 \<le> fp_recovery_round plan"
  obtains st where "run_plan plan None = Inr (trace_of plan st)" and "run_inv plan st"
    and "closed_run st"
proof -
  have "rounds_left plan (initial_run_state plan) <
      length (filter (\<lambda>i. fault_for_round plan i = HONEST)
        [0 ..< nat (fp_recovery_round plan + 80)])"
    using rounds_left_initial [of plan] honest_rounds [OF assms(2)] by linarith
  from harness_run.run_good [OF run_inv_initial [OF assms(1)] this] show thesis
    using that by (auto simp: run_plan_valid [OF assms(1)])
qed

end
