(* ===== verification/Fault_Invariants.thy ===== *)
theory Fault_Invariants
  imports Fault_Progress
begin

text \<open>
  The reliability checks of \<^verbatim>\<open>moonmind/omnigent/faultlab/invariants.py\<close>, and the theorem that no
  run of a valid plan violates any of them. A check returns its violations; the text of a
  violation is a constructor that carries the values the source interpolates into the message.
  The lookup of the ground truth can raise, so the checks are results.
\<close>

section \<open>The checks\<close>

datatype violation =
    MultipleSideEffects "py_str list"
  | DidNotConverge "decision_kind option"
  | WrongTerminal "terminal_outcome option" terminal_outcome
  | PhaseMovedBackward int int
  | ReferenceRejected py_str
  | DuplicateSubmitSideEffect
  | ManySubmitIdentities "py_str list"
  | ConvergedWithoutTerminal
  | ClosedWithoutCleanup
  | ReleasedBeforeCleanup
  | ReleasedWhileConsumerActive "int list"
  | StaleCleanupGenerations "int list" int
  | CleanupErasedTerminal
  | CleanupWithoutEvidence
  | TerminalOnUnknownVocabulary "int list"
  | NonDigestedPayload

type_synonym check = "execution_trace \<Rightarrow> (harness_error, violation list) result"

definition GROUND_TRUTH_OUTCOME :: "py_str \<rightharpoonup> terminal_outcome" where
  "GROUND_TRUTH_OUTCOME = map_of
     [(''success'', SUCCESS), (''failure'', FAILURE), (''cancelled'', CANCELLED)]"

definition TERMINAL_DECISIONS :: "decision_kind set" where
  "TERMINAL_DECISIONS = {RECORD_PROVIDER_TERMINAL, SYNTHESIZE_TERMINAL_FROM_SNAPSHOT}"

definition at_most_once_submission :: "execution_trace \<Rightarrow> violation list" where
  "at_most_once_submission trace =
     (let offenders = keys_with_multiple_side_effects (tr_ledger trace)
      in if offenders \<noteq> [] then [MultipleSideEffects offenders] else [])"

definition eventual_convergence :: check where
  "eventual_convergence trace =
     (if \<not> tr_converged trace then Inr [DidNotConverge (tr_settled_kind trace)]
      else case GROUND_TRUTH_OUTCOME (fp_ground_truth_terminal (tr_plan trace)) of
          None \<Rightarrow> Inl KeyError
        | Some outcome \<Rightarrow>
            (let expected = (if fp_desired_cancel (tr_plan trace) then CANCELLED else outcome)
             in if ds_terminal_outcome (tr_final trace) \<noteq> Some expected
                then Inr [WrongTerminal (ds_terminal_outcome (tr_final trace)) expected]
                else Inr []))"

text \<open>The loop over adjacent indices, which stops at the first step backward.\<close>

fun first_backward :: "int list \<Rightarrow> violation list" where
  "first_backward (x # y # ys) =
     (if y < x then [PhaseMovedBackward x y] else first_backward (y # ys))"
| "first_backward _ = []"

definition monotonic_authority :: "execution_trace \<Rightarrow> violation list" where
  "monotonic_authority trace =
     first_backward (List.map_filter LINEAR_PHASE_ORDER (tr_phases trace))"

definition fencing_safety :: "execution_trace \<Rightarrow> violation list" where
  "fencing_safety trace =
     (case tr_reference_violation trace of
        Some msg \<Rightarrow> [ReferenceRejected msg]
      | None \<Rightarrow> [])"

definition no_blind_ambiguity_retry :: "execution_trace \<Rightarrow> violation list" where
  "no_blind_ambiguity_retry trace =
     (let submits = filter (\<lambda>r. se_operation r = OP_SUBMIT_TURN) (le_side_effects (tr_ledger trace));
          keys = remdups (map se_idempotency_key submits)
      in if length keys < length submits then [DuplicateSubmitSideEffect]
         else if 1 < length keys then [ManySubmitIdentities (sort keys)]
         else [])"

definition distinct_terminality :: "execution_trace \<Rightarrow> violation list" where
  "distinct_terminality trace =
     (if tr_converged trace then
        (if ds_terminal_outcome (tr_final trace) = None then [ConvergedWithoutTerminal] else [])
        @ (if fp_requires_cleanup (tr_plan trace) \<and> \<not> ds_cleanup_complete (tr_final trace)
           then [ClosedWithoutCleanup] else [])
      else [])"

definition lease_safety :: "execution_trace \<Rightarrow> violation list" where
  "lease_safety trace =
     (let released = list_ex (\<lambda>e. je_decision_kind e = RELEASE_LEASES) (tr_journal trace);
          consumer_active_release = sort (map je_round_index
            (filter (\<lambda>e. je_decision_kind e = RELEASE_LEASES
                       \<and> je_observation_fault e = CONSUMER_ACTIVE \<and> \<not> je_fenced e)
              (tr_journal trace)))
      in (if released \<and> \<not> ds_cleanup_complete (tr_final trace) \<and> fp_requires_cleanup (tr_plan trace)
          then [ReleasedBeforeCleanup] else [])
         @ (if consumer_active_release \<noteq> []
            then [ReleasedWhileConsumerActive consumer_active_release] else []))"

definition cleanup_safety :: "execution_trace \<Rightarrow> violation list" where
  "cleanup_safety trace =
     (let authorized_generation = ds_fencing_generation (tr_final trace);
          stale_generations = sort (remdups (filter (\<lambda>g. g \<noteq> authorized_generation)
            (map snd (tr_cleanup_effects trace))))
      in fencing_safety trace
         @ (if stale_generations \<noteq> []
            then [StaleCleanupGenerations stale_generations authorized_generation] else []))"

definition historical_read_safety :: "execution_trace \<Rightarrow> violation list" where
  "historical_read_safety trace =
     (if ds_cleanup_complete (tr_final trace) then
        (if ds_terminal_outcome (tr_final trace) = None then [CleanupErasedTerminal] else [])
        @ (if ds_terminal_evidence_ref (tr_final trace) = None then [CleanupWithoutEvidence] else [])
      else [])"

definition compatibility_safety :: "execution_trace \<Rightarrow> violation list" where
  "compatibility_safety trace =
     (let offenders = sort (map je_round_index
            (filter (\<lambda>e. je_observation_fault e = UNKNOWN_VOCAB
                       \<and> je_decision_kind e \<in> TERMINAL_DECISIONS) (tr_journal trace)))
      in if offenders \<noteq> [] then [TerminalOnUnknownVocabulary offenders] else [])"

definition secret_safety :: "execution_trace \<Rightarrow> violation list" where
  "secret_safety trace =
     (if list_ex (\<lambda>r. \<not> py_starts_with ''sha256:'' (rq_payload_digest r))
           (le_requests (tr_ledger trace))
      then [NonDigestedPayload] else [])"

definition check_all ::
  "execution_trace \<Rightarrow> (harness_error, (py_str \<times> violation list) list) result" where
  "check_all trace = bind_result (eventual_convergence trace) (\<lambda>convergence. Inr
     [(''at_most_once_submission'', at_most_once_submission trace),
      (''eventual_convergence'', convergence),
      (''monotonic_authority'', monotonic_authority trace),
      (''fencing_safety'', fencing_safety trace),
      (''no_blind_ambiguity_retry'', no_blind_ambiguity_retry trace),
      (''distinct_terminality'', distinct_terminality trace),
      (''lease_safety'', lease_safety trace),
      (''cleanup_safety'', cleanup_safety trace),
      (''historical_read_safety'', historical_read_safety trace),
      (''compatibility_safety'', compatibility_safety trace),
      (''secret_safety'', secret_safety trace)])"

definition violations ::
  "execution_trace \<Rightarrow> (harness_error, (py_str \<times> violation) list) result" where
  "violations trace = bind_result (check_all trace) (\<lambda>checks.
     Inr (concat (map (\<lambda>(name, found). map (Pair name) found) checks)))"

section \<open>No run violates a check\<close>

lemma first_backward_sorted: "sorted xs \<Longrightarrow> first_backward xs = []"
  by (induction xs rule: first_backward.induct) auto

lemma map_filter_phases:
  "sorted_wrt phase_le ps \<Longrightarrow> sorted (List.map_filter LINEAR_PHASE_ORDER ps)"
proof (induction ps)
  case (Cons p ps)
  have "\<forall>y \<in> set (List.map_filter LINEAR_PHASE_ORDER ps). the (LINEAR_PHASE_ORDER p) \<le> y"
    using Cons.prems by (fastforce simp: List.map_filter_def phase_le_def split: option.splits)
  with Cons show ?case by (cases "LINEAR_PHASE_ORDER p") (auto simp: map_filter_simps)
qed (simp add: map_filter_simps)

lemma run_facts:
  assumes "run_inv plan st"
  shows "plan_valid plan" and "tracks plan st" and "ledger_ok st" and "journal_ok plan st"
    and "phases_ok st" and "cleanup_ok st"
    and "rs_converged st \<Longrightarrow> ref_remaining (rs_reference st) = []"
    and "rs_durable st = durable_of plan (rs_reference st) (int (length (rs_distinct_commands st)))"
    and "oracle_of plan (rs_reference st)" and "wf_ref (rs_reference st)" and "ids_ok st"
  using assms oracle_flags(1) by (auto simp: run_inv_def tracks_def)

lemma run_at_most_once:
  assumes "run_inv plan st"
  shows "at_most_once_submission (trace_of plan st) = []"
proof -
  have "distinct (performed_keys (rs_ledger st))"
    using run_facts(3) [OF assms] by (simp add: ledger_ok_def)
  then have "keys_with_multiple_side_effects (rs_ledger st) = []"
    unfolding keys_with_multiple_empty_iff by (intro allI distinct_count_list_le)
  then show ?thesis by (simp add: at_most_once_submission_def trace_of_def)
qed

lemma run_monotonic: "run_inv plan st \<Longrightarrow> monotonic_authority (trace_of plan st) = []"
  using run_facts(5) by (simp add: monotonic_authority_def trace_of_def phases_ok_def
      first_backward_sorted map_filter_phases)

lemma run_fencing: "run_inv plan st \<Longrightarrow> fencing_safety (trace_of plan st) = []"
  using run_facts(2) by (simp add: fencing_safety_def trace_of_def tracks_def)

lemma run_no_blind_retry:
  assumes "run_inv plan st"
  shows "no_blind_ambiguity_retry (trace_of plan st) = []"
proof -
  let ?submits = "filter (\<lambda>r. se_operation r = OP_SUBMIT_TURN) (le_side_effects (rs_ledger st))"
  have "distinct (map se_idempotency_key (le_side_effects (rs_ledger st)))"
    using run_facts(3) [OF assms] by (simp add: ledger_ok_def performed_keys_def)
  then have d: "distinct (map se_idempotency_key ?submits)" by (rule distinct_map_filter)
  obtain key where "submit_keys (rs_ledger st) \<subseteq> {key}"
    using run_facts(3) [OF assms] by (force simp: ledger_ok_def split: if_splits)
  then have "set (map se_idempotency_key ?submits) \<subseteq> {key}" by (auto simp: submit_keys_def)
  then have "card (set (map se_idempotency_key ?submits)) \<le> 1"
    by (metis card.empty card_insert_disjoint card_mono empty_iff finite.emptyI finite.insertI One_nat_def)
  then have "length (map se_idempotency_key ?submits) \<le> 1"
    unfolding distinct_card [OF d] .
  then show ?thesis
    using d by (simp add: no_blind_ambiguity_retry_def trace_of_def Let_def distinct_remdups_id)
qed

lemma run_lease_safety:
  assumes "run_inv plan st"
  shows "lease_safety (trace_of plan st) = []"
  using run_facts(4,8) [OF assms]
  by (auto simp: lease_safety_def trace_of_def journal_ok_def list_ex_iff filter_empty_conv)

lemma run_cleanup_safety:
  assumes "run_inv plan st"
  shows "cleanup_safety (trace_of plan st) = []"
proof -
  have "filter (\<lambda>g. g \<noteq> ds_fencing_generation (rs_durable st)) (map snd (rs_cleanup_effects st)) = []"
    using run_facts(6,8) [OF assms] by (auto simp: cleanup_ok_def filter_empty_conv)
  then show ?thesis
    using run_fencing [OF assms] by (simp add: cleanup_safety_def trace_of_def)
qed

lemma run_historical:
  assumes "run_inv plan st"
  shows "historical_read_safety (trace_of plan st) = []"
  using run_facts(8,10) [OF assms]
  by (auto simp: historical_read_safety_def trace_of_def wf_ref_def)

lemma run_compatibility:
  assumes "run_inv plan st"
  shows "compatibility_safety (trace_of plan st) = []"
proof -
  have "filter (\<lambda>e. je_observation_fault e = UNKNOWN_VOCAB
      \<and> je_decision_kind e \<in> TERMINAL_DECISIONS) (rs_journal st) = []"
    using run_facts(4) [OF assms]
    by (auto simp: journal_ok_def filter_empty_conv TERMINAL_DECISIONS_def terminal_decision_kinds_def)
  then show ?thesis by (simp add: compatibility_safety_def trace_of_def)
qed

lemma run_secret_safety:
  assumes "run_inv plan st"
  shows "secret_safety (trace_of plan st) = []"
  using run_facts(3) [OF assms] by (auto simp: secret_safety_def trace_of_def ledger_ok_def list_ex_iff)

lemma closed_state:
  assumes "run_inv plan st" and "rs_converged st"
  shows "is_closed (rs_reference st)"
    and "ds_terminal_outcome (rs_durable st) = Some (final_outcome plan)"
proof -
  show c: "is_closed (rs_reference st)"
    using run_facts(7,10) [OF assms(1)] assms(2) ref_remaining_closed by blast
  then obtain out where out: "rm_terminal_outcome (rs_reference st) = Some out"
    by (auto simp: is_closed_def split: if_splits)
  note flags = oracle_flags [OF run_facts(9) [OF assms(1)]]
  have "out = (if rm_desired_cancel (rs_reference st) then ''cancelled''
               else rm_ground_truth_terminal (rs_reference st))"
    using flags(1) out by (rule wf_ref_terminal)
  moreover have "outcome_of ''cancelled'' = CANCELLED" by (simp add: outcome_of_def)
  moreover have "ds_terminal_outcome (rs_durable st) = Some (outcome_of out)"
    using run_facts(8) [OF assms(1)] out by simp
  ultimately show "ds_terminal_outcome (rs_durable st) = Some (final_outcome plan)"
    by (simp add: final_outcome_def flags)
qed

lemma run_terminality:
  assumes "run_inv plan st"
  shows "distinct_terminality (trace_of plan st) = []"
  using closed_state [OF assms] run_facts(8) [OF assms] oracle_flags [OF run_facts(9) [OF assms]]
  by (auto simp: distinct_terminality_def trace_of_def is_closed_def split: if_splits)

lemma ground_truth_outcome:
  "plan_valid plan \<Longrightarrow> GROUND_TRUTH_OUTCOME (fp_ground_truth_terminal plan) =
     Some (outcome_of (fp_ground_truth_terminal plan))"
  by (auto simp: plan_valid_def GROUND_TRUTH_OUTCOME_def outcome_of_def)

lemma run_convergence:
  assumes "run_inv plan st"
  shows "eventual_convergence (trace_of plan st) =
     Inr (if rs_converged st then [] else [DidNotConverge (rs_settled_kind st)])"
  using closed_state(2) [OF assms] ground_truth_outcome [OF run_facts(1) [OF assms]]
  by (auto simp: eventual_convergence_def trace_of_def final_outcome_def Let_def)

lemmas run_checks = run_at_most_once run_monotonic run_fencing run_no_blind_retry run_terminality
  run_lease_safety run_cleanup_safety run_historical run_compatibility run_secret_safety
  run_convergence

lemma run_violations:
  "run_inv plan st \<Longrightarrow> violations (trace_of plan st) =
     Inr (if rs_converged st then [] else [(''eventual_convergence'', DidNotConverge (rs_settled_kind st))])"
  by (simp add: violations_def check_all_def run_checks)

section \<open>Properties of the fault laboratory\<close>

text \<open>A plan with every kind of trouble, on which the witnesses apply the theorems.\<close>

definition example_plan :: fault_plan where
  "example_plan = \<lparr> fp_seed = 7, fp_requires_profile_lease = True, fp_requires_host = True,
     fp_requires_cleanup = True, fp_desired_cancel = False, fp_ground_truth_terminal = ''failure'',
     fp_max_turn_attempts = 1, fp_recovery_round = 6, fp_submit_response = RESP_DROP,
     fp_observation_faults = [UNKNOWN_VOCAB, STALE_SESSION, CONSUMER_ACTIVE],
     fp_command_crashes = [(OP_SUBMIT_TURN, AFTER_SIDE_EFFECT_BEFORE_RECEIPT),
       (OP_BEGIN_CLEANUP, BEFORE_CLAIM)] \<rparr>"

lemma example_plan_valid: "plan_valid example_plan"
  by (simp add: plan_valid_def example_plan_def)

lemma trace_of_simps [simp]:
  "tr_plan (trace_of plan st) = plan" "tr_final (trace_of plan st) = rs_durable st"
  "tr_converged (trace_of plan st) = rs_converged st"
  "tr_reference (trace_of plan st) = rs_reference st"
  "tr_settled_kind (trace_of plan st) = rs_settled_kind st"
  "tr_distinct_commands (trace_of plan st) = rs_distinct_commands st"
  by (simp_all add: trace_of_def)

text \<open>
  C1. Safety of the control plane under faults: for every valid plan, whatever observations are
  dropped, stale, unknown or delayed, whatever responses are lost, wherever the process crashes,
  and however many rounds are allowed, the run completes and none of the eleven checks finds a
  violation, except that a run cut short before it converged is reported as not converged.
\<close>

theorem fault_run_safe:
  assumes "plan_valid plan"
  shows "\<exists>t. run_plan plan budget = Inr t \<and> violations t =
    Inr (if tr_converged t then []
         else [(''eventual_convergence'', DidNotConverge (tr_settled_kind t))])"
proof -
  obtain st where "run_plan plan budget = Inr (trace_of plan st)" "run_inv plan st"
    by (rule run_plan_total [OF assms])
  then show ?thesis using run_violations by auto
qed

lemma fault_run_safe_witness:
  "\<exists>t. run_plan example_plan (Some 9) = Inr t \<and> violations t =
    Inr (if tr_converged t then []
         else [(''eventual_convergence'', DidNotConverge (tr_settled_kind t))])"
  by (rule fault_run_safe [OF example_plan_valid])

text \<open>
  C10. Liveness of the control plane: with the default horizon of eighty rounds past the end of
  the fault window, every run of a valid plan converges, to the outcome the world dictates (the
  cancellation where one was requested), and passes every check.
\<close>

theorem fault_run_converges:
  assumes "plan_valid plan" and "0 \<le> fp_recovery_round plan"
  shows "\<exists>t. run_plan plan None = Inr t \<and> tr_converged t \<and> tr_settled_kind t = Some NO_OP
     \<and> violations t = Inr [] \<and> is_closed (tr_reference t)
     \<and> ds_terminal_outcome (tr_final t) =
         (if fp_desired_cancel plan then Some CANCELLED
          else GROUND_TRUTH_OUTCOME (fp_ground_truth_terminal plan))"
proof -
  obtain st where st: "run_plan plan None = Inr (trace_of plan st)" "run_inv plan st" "closed_run st"
    by (rule run_plan_converges [OF assms])
  then have "rs_converged st" "rs_settled_kind st = Some NO_OP" by (simp_all add: closed_run_def)
  with st(1) closed_state [OF st(2)] run_violations [OF st(2)] ground_truth_outcome [OF assms(1)]
  show ?thesis by (auto simp: final_outcome_def)
qed

lemma fault_run_converges_witness:
  "\<exists>t. run_plan example_plan None = Inr t \<and> tr_converged t \<and> violations t = Inr []
     \<and> ds_terminal_outcome (tr_final t) = Some FAILURE"
proof -
  have "0 \<le> fp_recovery_round example_plan" by (simp add: example_plan_def)
  from fault_run_converges [OF example_plan_valid this] show ?thesis
    by (auto simp: example_plan_def GROUND_TRUTH_OUTCOME_def)
qed

text \<open>
  C17. The run refines the oracle: at every moment the durable commands that committed are, in
  order, an initial part of the command sequence the reference model expects, the model accepted
  each of them, and the durable state is the one the model's state stands for; a run that
  converged has committed the whole sequence.
\<close>

theorem fault_run_refines_oracle:
  assumes "plan_valid plan"
  shows "\<exists>t rest. run_plan plan budget = Inr t
     \<and> map (DECISION_TO_REFERENCE \<circ> snd) (tr_distinct_commands t) @ map Some rest =
         map Some (expected_command_sequence (tr_reference t))
     \<and> tr_reference_violation t = None
     \<and> tr_final t = durable_of plan (tr_reference t) (int (length (tr_distinct_commands t)))
     \<and> (tr_converged t \<longrightarrow> rest = [])"
proof -
  obtain st where st: "run_plan plan budget = Inr (trace_of plan st)" "run_inv plan st"
    by (rule run_plan_total [OF assms])
  then show ?thesis
    using run_facts(2,7,8) [OF st(2)]
    by (intro exI [of _ "trace_of plan st"] exI [of _ "ref_remaining (rs_reference st)"])
      (simp add: tracks_def, simp add: trace_of_def)
qed

lemma fault_run_refines_oracle_witness:
  "\<exists>t rest. run_plan example_plan None = Inr t
     \<and> map (DECISION_TO_REFERENCE \<circ> snd) (tr_distinct_commands t) @ map Some rest =
         map Some (expected_command_sequence (tr_reference t))"
  using fault_run_refines_oracle [OF example_plan_valid, of None] by blast

text \<open>
  A malformed plan is rejected: a non-positive attempt budget fails validation before any
  round, and an unknown ground truth raises a key error in the first round.
\<close>

theorem fault_plan_errors:
  "(run_plan plan budget = Inl ValidationError \<longleftrightarrow> fp_max_turn_attempts plan \<le> 0)
   \<and> (run_plan plan budget = Inl KeyError \<longleftrightarrow> 0 < fp_max_turn_attempts plan
        \<and> 0 < option_or budget (fp_recovery_round plan + 80)
        \<and> fp_ground_truth_terminal plan \<notin> {''success'', ''failure'', ''cancelled''})"
proof (cases "plan_valid plan")
  case True
  obtain st where "run_plan plan budget = Inr (trace_of plan st)" by (rule run_plan_total [OF True])
  with True show ?thesis by (simp add: plan_valid_def)
next
  case False
  have "TERMINAL_STATUS (fp_ground_truth_terminal plan) = None"
    if "0 < fp_max_turn_attempts plan" using that False by (simp add: plan_valid_def TERMINAL_STATUS_def)
  moreover have "[0 ..< nat b] = (if b \<le> 0 then [] else 0 # [Suc 0 ..< nat b])" for b :: int
    by (simp add: upt_conv_Cons)
  ultimately show ?thesis
    using False
    by (simp add: run_plan_def plan_intent_iff run_round_def observe_def Let_def plan_valid_def)
qed

text \<open>
  Fencing: a decision computed against another generation than the one in force performs no
  side effect and no transition, and is reported as fenced.
\<close>

theorem stale_generation_fenced:
  assumes "rd_command dec = Some command"
    and "rd_expected_fencing_generation dec \<noteq> ds_fencing_generation d"
  shows "apply_decision d dec l response crash_window = ((d, True), l)"
  using assms by (simp add: apply_decision_def)

lemma stale_generation_fenced_witness:
  "apply_decision (example_durable\<lparr> ds_fencing_generation := 3 \<rparr>)
     (reconcile example_intent example_durable example_harvest 0) empty_ledger RESP_SUCCESS None
   = ((example_durable\<lparr> ds_fencing_generation := 3 \<rparr>, True), empty_ledger)"
proof -
  have "rd_expected_fencing_generation (reconcile example_intent example_durable example_harvest 0)
      \<noteq> ds_fencing_generation (example_durable\<lparr> ds_fencing_generation := 3 \<rparr>)"
    by (simp add: example_durable_def)
  with example_harvest_decision stale_generation_fenced show ?thesis by blast
qed

text \<open>
  C32. A crash is recoverable: executing a decision again after a crash in any of the four windows
  before the transition leaves the same durable state and the same side effects as executing it
  once without a crash. The only trace of the crash is in the requests.
\<close>

theorem crash_then_retry_is_once:
  fixes d :: durable_session_state and dec :: reconciliation_decision
    and response :: response_behavior
  assumes "ledger_wf l" and "window \<noteq> AFTER_TRANSITION_BEFORE_ACTIVITY_RESPONSE"
  defines "crashed_run \<equiv> apply_decision d dec l response (Some window)"
  defines "retry \<equiv> apply_decision (fst (fst crashed_run)) dec (snd crashed_run) response None"
  defines "once \<equiv> apply_decision d dec l response None"
  shows "fst (fst crashed_run) = d \<and> fst retry = fst once
     \<and> le_side_effects (snd retry) = le_side_effects (snd once)"
proof (cases "rd_command dec")
  case None
  then show ?thesis by (simp add: crashed_run_def retry_def once_def apply_decision_def)
next
  case (Some command)
  show ?thesis
  proof (cases "rd_expected_fencing_generation dec = ds_fencing_generation d")
    case True
    let ?l' = "ledger_perform (cs_command_id command) (effect_request response (rd_kind dec)) l"
    have again: "le_side_effects (ledger_perform (cs_command_id command)
        (effect_request response (rd_kind dec)) ?l') = le_side_effects ?l'"
      using assms(1) decision_effect_nonempty [of "rd_kind dec"]
      by (auto simp: effect_request_def provider_call_side_effects provider_call_wf performed_keys_def)
    show ?thesis
      using assms(2) again apply_decision_eq [OF Some True]
      by (cases window) (simp_all add: crashed_run_def retry_def once_def Let_def vocabulary)
  qed (simp add: Some crashed_run_def retry_def once_def apply_decision_def)
qed

lemma crash_then_retry_is_once_witness:
  "ledger_wf empty_ledger
   \<and> (let dec = reconcile example_intent example_durable example_harvest 0;
          crashed_run = apply_decision example_durable dec empty_ledger RESP_DROP
            (Some AFTER_SIDE_EFFECT_BEFORE_RECEIPT)
      in le_side_effects (snd (apply_decision (fst (fst crashed_run)) dec (snd crashed_run)
           RESP_DROP None)) =
         le_side_effects (snd (apply_decision example_durable dec empty_ledger RESP_DROP None)))"
proof -
  have "AFTER_SIDE_EFFECT_BEFORE_RECEIPT \<noteq> AFTER_TRANSITION_BEFORE_ACTIVITY_RESPONSE" by simp
  from crash_then_retry_is_once [OF empty_ledger_simps(2) this] show ?thesis
    unfolding Let_def by (intro conjI empty_ledger_simps(2)) blast
qed

end
