(* ===== verification/Fault_Conversions.thy ===== *)
theory Fault_Conversions
  imports Fault_Invariants
begin

text \<open>
  Conversion between executable plans and declarative scenarios,
  \<^verbatim>\<open>moonmind/omnigent/faultlab/conversions.py\<close>. The exceptions are values of
  \<open>conversion_error\<close>; building the scenario model validates its bounds.
\<close>

datatype conversion_error =
    FaultKeyError observation_fault
  | ScenarioValidationError
  | UnrepresentableSubmitStep
  | UnrepresentableStep logical_operation

section \<open>Definitions\<close>

text \<open>The canonical encoding of each fault; an honest observation has none.\<close>

fun FAULT_TO_STEP :: "observation_fault \<Rightarrow> scenario_step option" where
  "FAULT_TO_STEP DROP_SNAPSHOT =
     Some ((scenario_step_default OP_OBSERVE_SNAPSHOT)\<lparr> ss_response := RESP_DROP \<rparr>)"
| "FAULT_TO_STEP STALE_SESSION =
     Some ((scenario_step_default OP_OBSERVE_SNAPSHOT)\<lparr> ss_ret :=
       Some (snapshot_return_default\<lparr> sr_session_state := Some ''completed'',
               sr_provider_session_id := Some ''other'' \<rparr>) \<rparr>)"
| "FAULT_TO_STEP UNKNOWN_VOCAB =
     Some ((scenario_step_default OP_OBSERVE_SNAPSHOT)\<lparr> ss_response := RESP_UNKNOWN_SCHEMA,
       ss_ret := Some (snapshot_return_default\<lparr> sr_session_state := Some ''frobnicate'' \<rparr>) \<rparr>)"
| "FAULT_TO_STEP RUNNING =
     Some ((scenario_step_default OP_OBSERVE_SNAPSHOT)\<lparr> ss_ret :=
       Some (snapshot_return_default\<lparr> sr_session_state := Some ''running'' \<rparr>) \<rparr>)"
| "FAULT_TO_STEP MISSED_EDGE =
     Some ((scenario_step_default OP_READ_EVENTS)\<lparr>
       ss_emit := [\<lparr> ee_type = ''turn.running'', ee_cursor = None \<rparr>], ss_disconnect := True \<rparr>)"
| "FAULT_TO_STEP EVIDENCE_DELAY =
     Some ((scenario_step_default OP_HARVEST_EVIDENCE)\<lparr> ss_response := RESP_LATENCY \<rparr>)"
| "FAULT_TO_STEP CONSUMER_ACTIVE =
     Some ((scenario_step_default OP_RELEASE_LEASES)\<lparr> ss_response := RESP_LATENCY \<rparr>)"
| "FAULT_TO_STEP HONEST = None"

text \<open>The iteration order of the encoding table.\<close>

definition FAULT_TO_STEP_KEYS :: "observation_fault list" where
  "FAULT_TO_STEP_KEYS = [DROP_SNAPSHOT, STALE_SESSION, UNKNOWN_VOCAB, RUNNING, MISSED_EDGE,
     EVIDENCE_DELAY, CONSUMER_ACTIVE]"

definition step_matches :: "scenario_step \<Rightarrow> scenario_step \<Rightarrow> bool" where
  "step_matches step encoded \<longleftrightarrow> ss_on step = ss_on encoded
     \<and> ss_side_effect step = ss_side_effect encoded \<and> ss_response step = ss_response encoded
     \<and> ss_ret step = ss_ret encoded \<and> ss_emit step = ss_emit encoded
     \<and> ss_disconnect step = ss_disconnect encoded \<and> ss_duplicate step = ss_duplicate encoded
     \<and> ss_reorder step = ss_reorder encoded"

definition decode_observation_fault :: "scenario_step \<Rightarrow> observation_fault option" where
  "decode_observation_fault step =
     List.find (\<lambda>fault. case FAULT_TO_STEP fault of None \<Rightarrow> False
                       | Some encoded \<Rightarrow> step_matches step encoded) FAULT_TO_STEP_KEYS"

definition is_representable_submit :: "scenario_step \<Rightarrow> bool" where
  "is_representable_submit step \<longleftrightarrow> ss_emit step = [] \<and> ss_ret step = None
     \<and> ss_disconnect step = False \<and> ss_duplicate step = False \<and> ss_reorder step = False"

fun fault_steps :: "observation_fault list \<Rightarrow> (conversion_error, scenario_step list) result" where
  "fault_steps [] = Inr []"
| "fault_steps (fault # faults) =
     (case FAULT_TO_STEP fault of
        None \<Rightarrow> Inl (FaultKeyError fault)
      | Some step \<Rightarrow> bind_result (fault_steps faults) (\<lambda>steps. Inr (step # steps)))"

definition crash_steps :: "(logical_operation \<times> command_window) list \<Rightarrow> scenario_step list" where
  "crash_steps crashes = concat (map (\<lambda>operation.
     case map_of crashes operation of None \<Rightarrow> []
     | Some window \<Rightarrow> [(scenario_step_default operation)\<lparr> ss_crash_at := Some window \<rparr>])
     LOGICAL_OPERATION_ORDER)"

definition plan_to_scenario ::
  "fault_plan \<Rightarrow> py_str option \<Rightarrow> py_str option \<Rightarrow> py_str option \<Rightarrow>
   (conversion_error, fault_scenario) result" where
  "plan_to_scenario plan scenario_id source_ref invariant =
     bind_result (fault_steps (fp_observation_faults plan)) (\<lambda>observation_steps.
       let steps = [(scenario_step_default OP_SUBMIT_TURN)\<lparr> ss_side_effect := SE_ACCEPTED,
                      ss_response := fp_submit_response plan \<rparr>]
                   @ crash_steps (fp_command_crashes plan) @ observation_steps;
           scenario = \<lparr> fs_schema_version = FAULT_SCENARIO_SCHEMA_VERSION, fs_seed = fp_seed plan,
             fs_scenario_id = scenario_id, fs_source_ref = source_ref, fs_steps = steps,
             fs_ground_truth_terminal = fp_ground_truth_terminal plan,
             fs_requires_profile_lease = fp_requires_profile_lease plan,
             fs_requires_host = fp_requires_host plan,
             fs_requires_cleanup = fp_requires_cleanup plan,
             fs_desired_cancel = fp_desired_cancel plan,
             fs_max_turn_attempts = fp_max_turn_attempts plan,
             fs_recovery_round = fp_recovery_round plan, fs_invariant = invariant \<rparr>
       in if scenario_valid scenario then Inr scenario else Inl ScenarioValidationError)"

text \<open>The loop over the steps, with its three accumulators.\<close>

fun scan_steps ::
  "scenario_step list \<Rightarrow>
   response_behavior \<times> (logical_operation \<times> command_window) list \<times> observation_fault list \<Rightarrow>
   (conversion_error,
    response_behavior \<times> (logical_operation \<times> command_window) list \<times> observation_fault list) result"
where
  "scan_steps [] acc = Inr acc"
| "scan_steps (step # steps) (submit_response, command_crashes, observation_faults) =
     (case ss_crash_at step of
        Some window \<Rightarrow>
          scan_steps steps (submit_response, dict_set (ss_on step) window command_crashes,
            observation_faults)
      | None \<Rightarrow>
          if ss_on step = OP_SUBMIT_TURN then
            (if \<not> is_representable_submit step then Inl UnrepresentableSubmitStep
             else scan_steps steps (ss_response step, command_crashes, observation_faults))
          else (case decode_observation_fault step of
                  None \<Rightarrow> Inl (UnrepresentableStep (ss_on step))
                | Some decoded \<Rightarrow>
                    scan_steps steps (submit_response, command_crashes,
                      observation_faults @ [decoded])))"

definition scenario_to_plan :: "fault_scenario \<Rightarrow> (conversion_error, fault_plan) result" where
  "scenario_to_plan scenario =
     bind_result (scan_steps (fs_steps scenario) (RESP_SUCCESS, [], []))
       (\<lambda>(submit_response, command_crashes, observation_faults). Inr
         \<lparr> fp_seed = fs_seed scenario,
           fp_requires_profile_lease = fs_requires_profile_lease scenario,
           fp_requires_host = fs_requires_host scenario,
           fp_requires_cleanup = fs_requires_cleanup scenario,
           fp_desired_cancel = fs_desired_cancel scenario,
           fp_ground_truth_terminal = fs_ground_truth_terminal scenario,
           fp_max_turn_attempts = fs_max_turn_attempts scenario,
           fp_recovery_round = fs_recovery_round scenario,
           fp_submit_response = submit_response,
           fp_observation_faults = observation_faults,
           fp_command_crashes = command_crashes \<rparr>)"

section \<open>Round trip\<close>

lemma decode_encoded: "FAULT_TO_STEP fault = Some step \<Longrightarrow> decode_observation_fault step = Some fault"
  by (cases fault)
    (auto simp: decode_observation_fault_def FAULT_TO_STEP_KEYS_def step_matches_def
      scenario_step_default_def snapshot_return_default_def)

lemma encoded_step:
  "FAULT_TO_STEP fault = Some step \<Longrightarrow> ss_crash_at step = None \<and> ss_on step \<noteq> OP_SUBMIT_TURN"
  by (cases fault) (auto simp: scenario_step_default_def)

lemma fault_steps_scan:
  "fault_steps faults = Inr steps \<Longrightarrow>
   scan_steps steps (r, crashes, fs) = Inr (r, crashes, fs @ faults)"
proof (induction faults arbitrary: steps fs)
  case (Cons fault faults)
  then obtain step rest where s: "FAULT_TO_STEP fault = Some step" "fault_steps faults = Inr rest"
    "steps = step # rest" by (auto simp: bind_result_Inr_iff split: option.splits)
  with Cons.IH [OF s(2)] decode_encoded [OF s(1)] encoded_step [OF s(1)] show ?case by simp
qed simp

text \<open>The crashes of a plan in the stable operation order.\<close>

definition canonical_crashes ::
  "(logical_operation \<times> command_window) list \<Rightarrow> (logical_operation \<times> command_window) list" where
  "canonical_crashes crashes = concat (map (\<lambda>operation.
     case map_of crashes operation of None \<Rightarrow> [] | Some window \<Rightarrow> [(operation, window)])
     LOGICAL_OPERATION_ORDER)"

lemma scan_crashes:
  assumes "distinct ops" and "fst ` set crashes \<inter> set ops = {}"
  shows "scan_steps (concat (map (\<lambda>operation. case m operation of None \<Rightarrow> []
       | Some window \<Rightarrow> [(scenario_step_default operation)\<lparr> ss_crash_at := Some window \<rparr>]) ops) @ steps)
     (r, crashes, fs) =
   scan_steps steps (r, crashes @ concat (map (\<lambda>operation. case m operation of None \<Rightarrow> []
       | Some window \<Rightarrow> [(operation, window)]) ops), fs)"
  using assms
proof (induction ops arbitrary: crashes)
  case (Cons op ops)
  show ?case
  proof (cases "m op")
    case (Some w)
    have "dict_set op w crashes = crashes @ [(op, w)]"
      using Cons.prems by (intro dict_set_fresh) auto
    then show ?thesis
      using Some Cons.prems Cons.IH [of "crashes @ [(op, w)]"] by (simp add: scenario_step_default_def)
  qed (use Cons in simp)
qed simp

lemma scan_plan_steps:
  assumes "fault_steps faults = Inr steps"
  shows "scan_steps ((scenario_step_default OP_SUBMIT_TURN)\<lparr> ss_side_effect := SE_ACCEPTED,
           ss_response := r \<rparr> # crash_steps crashes @ steps) (RESP_SUCCESS, [], []) =
         Inr (r, canonical_crashes crashes, faults)"
proof -
  have "scan_steps (crash_steps crashes @ steps) (r, [], []) =
      scan_steps steps (r, canonical_crashes crashes, [])"
    unfolding crash_steps_def canonical_crashes_def
    by (subst scan_crashes) (simp_all add: logical_operation_order_distinct)
  with fault_steps_scan [OF assms] show ?thesis
    by (simp add: scenario_step_default_def is_representable_submit_def)
qed

lemma canonical_crashes_lookup: "map_of (canonical_crashes crashes) = map_of crashes"
proof -
  have "map_of (concat (map (\<lambda>operation. case m operation of None \<Rightarrow> []
      | Some window \<Rightarrow> [(operation, window)]) ops)) op = (if op \<in> set ops then m op else None)"
    for ops op and m :: "logical_operation \<rightharpoonup> command_window"
    by (induction ops) (auto simp: map_add_def split: option.splits)
  then show ?thesis
    by (simp add: canonical_crashes_def fun_eq_iff logical_operation_order_complete)
qed

lemma fault_steps_total:
  "HONEST \<notin> set faults \<Longrightarrow> \<exists>steps. fault_steps faults = Inr steps"
proof (induction faults)
  case (Cons fault faults)
  then obtain steps where "fault_steps faults = Inr steps" by auto
  moreover have "fault \<noteq> HONEST" using Cons.prems by auto
  ultimately show ?case by (cases fault) auto
qed simp

lemma fault_steps_honest:
  "HONEST \<in> set faults \<Longrightarrow> fault_steps faults = Inl (FaultKeyError HONEST)"
proof (induction faults)
  case (Cons fault faults)
  then show ?case by (cases fault) auto
qed simp

section \<open>Properties of the conversions\<close>

lemma run_round_crashes:
  assumes "map_of crashes = map_of (fp_command_crashes plan)"
  shows "run_round (plan\<lparr> fp_command_crashes := crashes \<rparr>) intent i st = run_round plan intent i st"
proof -
  have "map_of (fp_command_crashes (plan\<lparr> fp_command_crashes := crashes \<rparr>)) =
      map_of (fp_command_crashes plan)" using assms by simp
  then have "crash_candidate (plan\<lparr> fp_command_crashes := crashes \<rparr>) fired dec =
      crash_candidate plan fired dec" for fired dec
    unfolding crash_candidate_def by (simp only:)
  moreover have "observe (plan\<lparr> fp_command_crashes := crashes \<rparr>) d i now = observe plan d i now" for d now
    by (simp add: observe_def fault_for_round_def)
  ultimately show ?thesis by (simp add: run_round_def)
qed

lemma run_rounds_crashes:
  assumes "map_of crashes = map_of (fp_command_crashes plan)"
  shows "run_rounds (plan\<lparr> fp_command_crashes := crashes \<rparr>) intent is st = run_rounds plan intent is st"
proof (induction "is" arbitrary: st)
  case (Cons i "is")
  then show ?case
    by (cases "run_round plan intent i st") (auto simp: run_round_crashes [OF assms])
qed simp

lemma run_plan_crashes:
  assumes "map_of crashes = map_of (fp_command_crashes plan)"
  shows "run_plan (plan\<lparr> fp_command_crashes := crashes \<rparr>) budget =
    map_sum id (\<lambda>t. t\<lparr> tr_plan := plan\<lparr> fp_command_crashes := crashes \<rparr> \<rparr>) (run_plan plan budget)"
proof -
  have "initial_run_state (plan\<lparr> fp_command_crashes := crashes \<rparr>) = initial_run_state plan"
    by (simp add: initial_run_state_def initial_durable_def)
  moreover have "plan_intent (plan\<lparr> fp_command_crashes := crashes \<rparr>) = plan_intent plan"
    by (simp add: plan_intent_def)
  ultimately show ?thesis
    by (simp add: run_plan_def run_rounds_crashes [OF assms] bind_result_def trace_of_def
        split: sum.split)
qed

lemma plan_to_scenario_steps:
  assumes "fault_steps (fp_observation_faults plan) = Inr steps"
  shows "plan_to_scenario plan sid ref invariant =
     (if plan_valid plan \<and> 0 < fp_recovery_round plan
      then Inr \<lparr> fs_schema_version = FAULT_SCENARIO_SCHEMA_VERSION, fs_seed = fp_seed plan,
             fs_scenario_id = sid, fs_source_ref = ref,
             fs_steps = (scenario_step_default OP_SUBMIT_TURN)\<lparr> ss_side_effect := SE_ACCEPTED,
                 ss_response := fp_submit_response plan \<rparr>
               # crash_steps (fp_command_crashes plan) @ steps,
             fs_ground_truth_terminal = fp_ground_truth_terminal plan,
             fs_requires_profile_lease = fp_requires_profile_lease plan,
             fs_requires_host = fp_requires_host plan,
             fs_requires_cleanup = fp_requires_cleanup plan,
             fs_desired_cancel = fp_desired_cancel plan,
             fs_max_turn_attempts = fp_max_turn_attempts plan,
             fs_recovery_round = fp_recovery_round plan, fs_invariant = invariant \<rparr>
      else Inl ScenarioValidationError)"
  using assms by (auto simp: plan_to_scenario_def scenario_valid_def plan_valid_def Let_def)

text \<open>
  C35. A stored scenario replays as the plan it came from: a valid plan without a literal honest
  entry in its fault list converts to a valid scenario, the scenario converts back to the plan
  with its crashes in the stable order, and the two plans run identically, for every budget.
\<close>

theorem plan_scenario_roundtrip:
  assumes "plan_valid plan" and "0 < fp_recovery_round plan"
    and "HONEST \<notin> set (fp_observation_faults plan)"
  shows "\<exists>s plan'. plan_to_scenario plan sid ref invariant = Inr s \<and> scenario_valid s
     \<and> scenario_to_plan s = Inr plan'
     \<and> plan' = plan\<lparr> fp_command_crashes := canonical_crashes (fp_command_crashes plan) \<rparr>
     \<and> run_plan plan' budget = map_sum id (\<lambda>t. t\<lparr> tr_plan := plan' \<rparr>) (run_plan plan budget)"
proof -
  obtain steps where steps: "fault_steps (fp_observation_faults plan) = Inr steps"
    using fault_steps_total [OF assms(3)] by blast
  show ?thesis
    unfolding plan_to_scenario_steps [OF steps]
    using assms(1,2) scan_plan_steps [OF steps]
      run_plan_crashes [OF canonical_crashes_lookup, of plan]
    by (simp add: scenario_to_plan_def scenario_valid_def plan_valid_def)
qed

lemma plan_scenario_roundtrip_witness:
  "\<exists>s plan'. plan_to_scenario example_plan None None None = Inr s \<and> scenario_valid s
     \<and> scenario_to_plan s = Inr plan'
     \<and> run_plan plan' None = map_sum id (\<lambda>t. t\<lparr> tr_plan := plan' \<rparr>) (run_plan example_plan None)"
proof -
  have "0 < fp_recovery_round example_plan" "HONEST \<notin> set (fp_observation_faults example_plan)"
    by (simp_all add: example_plan_def)
  from plan_scenario_roundtrip [OF example_plan_valid this] show ?thesis by blast
qed

text \<open>
  Which plans cannot be stored: a literal honest entry in the fault list has no encoding and
  raises a key error; otherwise a non-positive bound or an unknown ground truth fails the
  validation of the scenario; every other plan converts.
\<close>

theorem plan_to_scenario_errors:
  "(plan_to_scenario plan sid ref invariant = Inl (FaultKeyError HONEST) \<longleftrightarrow>
      HONEST \<in> set (fp_observation_faults plan))
   \<and> (plan_to_scenario plan sid ref invariant = Inl ScenarioValidationError \<longleftrightarrow>
      HONEST \<notin> set (fp_observation_faults plan)
      \<and> \<not> (plan_valid plan \<and> 0 < fp_recovery_round plan))"
proof (cases "HONEST \<in> set (fp_observation_faults plan)")
  case True
  then show ?thesis by (simp add: plan_to_scenario_def fault_steps_honest)
next
  case False
  then obtain steps where steps: "fault_steps (fp_observation_faults plan) = Inr steps"
    using fault_steps_total by blast
  with False show ?thesis by (simp add: plan_to_scenario_steps)
qed

text \<open>
  A crash step loses everything but its window: whatever response, side effect, events,
  snapshot or flags a scenario step with a crash window scripts, the plan is the one of the bare
  crash step, and no error is raised.
\<close>

theorem crash_step_behaviour_dropped:
  assumes "ss_crash_at step = Some window"
  shows "scenario_to_plan (s\<lparr> fs_steps := before @ step # after \<rparr>) =
     scenario_to_plan (s\<lparr> fs_steps := before @
       (scenario_step_default (ss_on step))\<lparr> ss_crash_at := Some window \<rparr> # after \<rparr>)"
proof -
  have "scan_steps (before @ step # after) acc = scan_steps (before @
      (scenario_step_default (ss_on step))\<lparr> ss_crash_at := Some window \<rparr> # after) acc" for acc
  proof (induction before arbitrary: acc)
    case Nil
    show ?case using assms by (cases acc) (simp add: scenario_step_default_def)
  next
    case (Cons b before)
    then show ?case by (cases acc) (simp split: option.split)
  qed
  then show ?thesis by (simp add: scenario_to_plan_def)
qed

lemma crash_step_behaviour_dropped_witness:
  "\<exists>step s. ss_crash_at step = Some BEFORE_CLAIM \<and> ss_response step = RESP_AUTH_FAILURE
     \<and> scenario_to_plan (s\<lparr> fs_steps := [] @ step # [] \<rparr>) =
         scenario_to_plan (s\<lparr> fs_steps := [] @
           (scenario_step_default (ss_on step))\<lparr> ss_crash_at := Some BEFORE_CLAIM \<rparr> # [] \<rparr>)"
proof -
  let ?step = "(scenario_step_default OP_ENSURE_HOST)\<lparr> ss_response := RESP_AUTH_FAILURE,
    ss_crash_at := Some BEFORE_CLAIM \<rparr>"
  have "ss_crash_at ?step = Some BEFORE_CLAIM" "ss_response ?step = RESP_AUTH_FAILURE"
    by (simp_all add: scenario_step_default_def)
  with crash_step_behaviour_dropped show ?thesis by blast
qed

end
