(* ===== verification/Fault_Minimizer.thy ===== *)
theory Fault_Minimizer
  imports Fault_Invariants
begin

text \<open>
  The failing-plan minimizer, \<^verbatim>\<open>moonmind/omnigent/faultlab/minimizer.py\<close>. The oracle is an argument,
  as in the source; it may raise, and its exception propagates. The outer loop restarts after each
  accepted reduction, so one turn of it looks for the first reduction that preserves the failure.
\<close>

section \<open>Definitions\<close>

type_synonym 'e failure_oracle = "fault_plan \<Rightarrow> ('e, py_str set) result"

datatype 'e minimize_error = NothingToMinimize | OracleRaised 'e

definition default_oracle :: "harness_error failure_oracle" where
  "default_oracle plan = bind_result (run_plan plan None) (\<lambda>t.
     bind_result (check_all t) (\<lambda>checks. Inr (set (map fst (filter (\<lambda>(name, found). found \<noteq> []) checks)))))"

text \<open>The four groups of reductions, in the order the source tries them.\<close>

definition drop_observation_faults :: "fault_plan \<Rightarrow> fault_plan list" where
  "drop_observation_faults current = map (\<lambda>index. current\<lparr> fp_observation_faults :=
       take index (fp_observation_faults current) @ drop (Suc index) (fp_observation_faults current) \<rparr>)
     [0 ..< length (fp_observation_faults current)]"

definition drop_command_crashes :: "fault_plan \<Rightarrow> fault_plan list" where
  "drop_command_crashes current = map (\<lambda>(operation, _). current\<lparr> fp_command_crashes :=
       filter (\<lambda>(op, _). op \<noteq> operation) (fp_command_crashes current) \<rparr>)
     (fp_command_crashes current)"

definition lower_recovery_round :: "fault_plan \<Rightarrow> fault_plan list" where
  "lower_recovery_round current =
     (if 1 < fp_recovery_round current
      then [current\<lparr> fp_recovery_round := fp_recovery_round current - 1 \<rparr>] else [])"

definition simplify_knobs :: "fault_plan \<Rightarrow> fault_plan list" where
  "simplify_knobs current = filter (\<lambda>candidate. candidate \<noteq> current)
     [current\<lparr> fp_submit_response := RESP_SUCCESS \<rparr>,
      current\<lparr> fp_max_turn_attempts := 1 \<rparr>,
      current\<lparr> fp_requires_profile_lease := False \<rparr>,
      current\<lparr> fp_requires_host := False \<rparr>]"

definition reductions :: "fault_plan \<Rightarrow> fault_plan list" where
  "reductions current = drop_observation_faults current @ drop_command_crashes current
     @ lower_recovery_round current @ simplify_knobs current"

fun first_preserved ::
  "'e failure_oracle \<Rightarrow> py_str set \<Rightarrow> fault_plan list \<Rightarrow> ('e, fault_plan option) result" where
  "first_preserved judge target [] = Inr None"
| "first_preserved judge target (candidate # candidates) =
     bind_result (judge candidate) (\<lambda>found.
       if target \<subseteq> found then Inr (Some candidate) else first_preserved judge target candidates)"

lemma first_preserved_Some:
  "first_preserved judge target cs = Inr (Some c) \<Longrightarrow>
     c \<in> set cs \<and> (\<exists>found. judge c = Inr found \<and> target \<subseteq> found)"
  by (induction judge target cs rule: first_preserved.induct)
    (auto simp: bind_result_Inr_iff split: if_splits)

lemma first_preserved_None:
  "first_preserved judge target cs = Inr None \<Longrightarrow> c \<in> set cs \<Longrightarrow>
     \<exists>found. judge c = Inr found \<and> \<not> target \<subseteq> found"
  by (induction judge target cs rule: first_preserved.induct)
    (auto simp: bind_result_Inr_iff split: if_splits)

lemma first_preserved_total:
  "\<forall>c \<in> set cs. \<exists>found. judge c = Inr found \<Longrightarrow> \<exists>r. first_preserved judge target cs = Inr r"
  by (induction judge target cs rule: first_preserved.induct) auto

text \<open>Every reduction makes the plan smaller, so the loop ends.\<close>

definition plan_size :: "fault_plan \<Rightarrow> nat" where
  "plan_size p = length (fp_observation_faults p) + length (fp_command_crashes p)
     + nat (fp_recovery_round p) + (if fp_submit_response p = RESP_SUCCESS then 0 else 1)
     + (if fp_max_turn_attempts p = 1 then 0 else 1)
     + (if fp_requires_profile_lease p then 1 else 0) + (if fp_requires_host p then 1 else 0)"

lemma drop_fault_smaller: "c \<in> set (drop_observation_faults p) \<Longrightarrow> plan_size c < plan_size p"
  by (auto simp: drop_observation_faults_def plan_size_def)

lemma drop_crash_smaller: "c \<in> set (drop_command_crashes p) \<Longrightarrow> plan_size c < plan_size p"
proof -
  assume "c \<in> set (drop_command_crashes p)"
  then obtain operation w where ow: "(operation, w) \<in> set (fp_command_crashes p)"
    and c: "c = p\<lparr> fp_command_crashes :=
      filter (\<lambda>(op, _). op \<noteq> operation) (fp_command_crashes p) \<rparr>"
    by (auto simp: drop_command_crashes_def)
  have "length (filter (\<lambda>(op, _). op \<noteq> operation) (fp_command_crashes p)) <
      length (fp_command_crashes p)"
    using ow by (intro length_filter_less) auto
  then show ?thesis by (simp add: c plan_size_def)
qed

lemma lower_recovery_smaller: "c \<in> set (lower_recovery_round p) \<Longrightarrow> plan_size c < plan_size p"
  by (auto simp: lower_recovery_round_def plan_size_def split: if_splits)

lemma simplify_smaller: "c \<in> set (simplify_knobs p) \<Longrightarrow> plan_size c < plan_size p"
  by (cases p) (auto simp: simplify_knobs_def plan_size_def)

lemma reductions_smaller: "c \<in> set (reductions p) \<Longrightarrow> plan_size c < plan_size p"
  unfolding reductions_def
  using drop_fault_smaller drop_crash_smaller lower_recovery_smaller simplify_smaller by auto

function minimize_loop :: "'e failure_oracle \<Rightarrow> py_str set \<Rightarrow> fault_plan \<Rightarrow> ('e, fault_plan) result" where
  "minimize_loop judge target current =
     (case first_preserved judge target (reductions current) of
        Inl e \<Rightarrow> Inl e
      | Inr None \<Rightarrow> Inr current
      | Inr (Some candidate) \<Rightarrow> minimize_loop judge target candidate)"
  by pat_completeness auto
termination
  by (relation "measure (\<lambda>(_, _, p). plan_size p)")
    (auto dest!: first_preserved_Some intro: reductions_smaller)

declare minimize_loop.simps [simp del]

definition minimize_plan :: "'e failure_oracle \<Rightarrow> fault_plan \<Rightarrow> ('e minimize_error, fault_plan) result" where
  "minimize_plan judge plan =
     (case judge plan of
        Inl e \<Rightarrow> Inl (OracleRaised e)
      | Inr target \<Rightarrow>
          if target = {} then Inl NothingToMinimize
          else (case minimize_loop judge target plan of
                  Inl e \<Rightarrow> Inl (OracleRaised e)
                | Inr p \<Rightarrow> Inr p))"

section \<open>Correctness\<close>

lemma minimize_loop_correct:
  assumes "\<And>p. \<exists>found. judge p = Inr found" and "judge p = Inr found" and "target \<subseteq> found"
  shows "\<exists>q found'. minimize_loop judge target p = Inr q \<and> judge q = Inr found' \<and> target \<subseteq> found'
     \<and> plan_size q \<le> plan_size p
     \<and> (\<forall>c \<in> set (reductions q). \<exists>f. judge c = Inr f \<and> \<not> target \<subseteq> f)"
  using assms(2,3)
proof (induction "plan_size p" arbitrary: p found rule: less_induct)
  case less
  obtain r where r: "first_preserved judge target (reductions p) = Inr r"
    using first_preserved_total assms(1) by blast
  show ?case
  proof (cases r)
    case None
    have step: "minimize_loop judge target p = Inr p"
      by (subst minimize_loop.simps) (simp add: r None)
    have "\<forall>c \<in> set (reductions p). \<exists>f. judge c = Inr f \<and> \<not> target \<subseteq> f"
      using first_preserved_None r None by blast
    with step less.prems show ?thesis by blast
  next
    case (Some c)
    obtain f where c: "c \<in> set (reductions p)" "judge c = Inr f" "target \<subseteq> f"
      using first_preserved_Some r Some by blast
    have step: "minimize_loop judge target p = minimize_loop judge target c"
      by (subst minimize_loop.simps) (simp add: r Some)
    have "plan_size c < plan_size p" using reductions_smaller [OF c(1)] .
    with less.hyps [OF this c(2,3)] show ?thesis unfolding step by (meson less_imp_le order_trans)
  qed
qed

text \<open>
  C36. The minimizer terminates on every plan and, for an oracle that does not raise, returns a
  plan that is no larger, still shows every original failure, and is minimal: undoing any single
  fault, crash, round or knob of it loses one of those failures. It refuses exactly the plans
  that fail nothing.
\<close>

theorem minimize_plan_correct:
  "case minimize_plan ((\<lambda>p. Inr (judge p)) :: 'e failure_oracle) plan of
      Inl e \<Rightarrow> e = NothingToMinimize \<and> judge plan = {}
    | Inr q \<Rightarrow> judge plan \<noteq> {} \<and> judge plan \<subseteq> judge q \<and> plan_size q \<le> plan_size plan
        \<and> list_all (\<lambda>c. \<not> judge plan \<subseteq> judge c) (reductions q)"
proof (cases "judge plan = {}")
  case False
  let ?orc = "(\<lambda>p. Inr (judge p)) :: 'e failure_oracle"
  have total: "\<exists>found. ?orc p = Inr found" for p by simp
  from minimize_loop_correct [of ?orc, OF total refl order_refl, of plan] obtain q where
    q: "minimize_loop ?orc (judge plan) plan = Inr q" "judge plan \<subseteq> judge q"
    "plan_size q \<le> plan_size plan" "\<forall>c \<in> set (reductions q). \<not> judge plan \<subseteq> judge c"
    by auto
  moreover have "minimize_plan ?orc plan = Inr q"
    using False q(1) by (simp add: minimize_plan_def)
  ultimately show ?thesis using False by (simp add: list_all_iff)
qed (simp add: minimize_plan_def)

text \<open>
  Against the reducer there is nothing to minimize: with the default oracle, which runs the
  plan and collects the violated checks, every valid plan is refused as not failing.
\<close>

theorem default_oracle_nothing_to_minimize:
  assumes "plan_valid plan" and "0 \<le> fp_recovery_round plan"
  shows "minimize_plan default_oracle plan = Inl NothingToMinimize"
proof -
  obtain st where st: "run_plan plan None = Inr (trace_of plan st)" "run_inv plan st" "closed_run st"
    by (rule run_plan_converges [OF assms])
  then have "rs_converged st" by (simp add: closed_run_def)
  then have "\<exists>checks. check_all (trace_of plan st) = Inr checks \<and> (\<forall>(n, found) \<in> set checks. found = [])"
    using run_checks [OF st(2)] by (simp add: check_all_def)
  then have "default_oracle plan = Inr {}"
    using st(1) by (force simp: default_oracle_def filter_empty_conv)
  then show ?thesis by (simp add: minimize_plan_def)
qed

lemma default_oracle_nothing_to_minimize_witness:
  "minimize_plan default_oracle example_plan = Inl NothingToMinimize"
proof -
  have "0 \<le> fp_recovery_round example_plan" by (simp add: example_plan_def)
  from default_oracle_nothing_to_minimize [OF example_plan_valid this] show ?thesis .
qed

end
