(* ===== verification/Fault_Projection.thy ===== *)
theory Fault_Projection
  imports Fault_Invariants
begin

text \<open>
  The boundary-neutral projection of a run, \<^verbatim>\<open>moonmind/omnigent/faultlab/projection.py\<close>: the
  durable commands of a trace with their identity, digest and attempt history.
\<close>

section \<open>Definitions\<close>

record projected_command =
  pc_command_id :: py_str
  pc_command_type :: py_str
  pc_payload_digest :: py_str
  pc_is_submit :: bool
  pc_is_terminal :: bool
  pc_terminal_outcome :: "terminal_outcome option"
  pc_attempts :: int
  pc_crash_windows :: "py_str list"
  pc_responses :: "py_str list"
  pc_delivered :: bool

definition faulted :: "projected_command \<Rightarrow> bool" where
  "faulted c \<longleftrightarrow> pc_crash_windows c \<noteq> [] \<or> 1 < pc_attempts c \<or> \<not> pc_delivered c"

record projected_run =
  pj_scenario_id :: "py_str option"
  pj_commands :: "projected_command list"
  pj_converged :: bool
  pj_terminal_outcome :: "terminal_outcome option"
  pj_cleanup_complete :: bool
  pj_ledger_multiple_side_effect_keys :: "py_str list"
  pj_crashes :: "(py_str \<times> py_str) list"

definition submit_commands :: "projected_run \<Rightarrow> projected_command list" where
  "submit_commands r = filter pc_is_submit (pj_commands r)"

definition terminal_commands :: "projected_run \<Rightarrow> projected_command list" where
  "terminal_commands r = filter pc_is_terminal (pj_commands r)"

definition faulted_commands :: "projected_run \<Rightarrow> projected_command list" where
  "faulted_commands r = filter faulted (pj_commands r)"

definition TERMINAL_KINDS :: "decision_kind set" where
  "TERMINAL_KINDS = {RECORD_PROVIDER_TERMINAL, SYNTHESIZE_TERMINAL_FROM_SNAPSHOT}"

definition project_command :: "execution_trace \<Rightarrow> py_str \<times> decision_kind \<Rightarrow> projected_command" where
  "project_command trace cmd =
     (let (cid, kind) = cmd;
          is_terminal = (kind \<in> TERMINAL_KINDS);
          requests = filter (\<lambda>r. rq_idempotency_key r = cid) (le_requests (tr_ledger trace));
          crash_windows = map (command_window_value \<circ> snd)
            (filter (\<lambda>(crashed, _). crashed = cid) (tr_crashes_fired trace))
      in \<lparr> pc_command_id = cid, pc_command_type = decision_kind_value kind,
           pc_payload_digest = payload_digest (JObj [(''kind'', JStr (decision_kind_value kind))]),
           pc_is_submit = (kind = SUBMIT_TURN), pc_is_terminal = is_terminal,
           pc_terminal_outcome =
             (if is_terminal then ds_terminal_outcome (tr_final trace) else None),
           pc_attempts = (if requests = [] then 1 else int (length requests)),
           pc_crash_windows = crash_windows,
           pc_responses = map (response_behavior_value \<circ> rq_response) requests,
           pc_delivered = (if requests = [] then True
             else list_ex (\<lambda>r. rq_response r = RESP_SUCCESS) requests) \<rparr>)"

definition project_run :: "execution_trace \<Rightarrow> py_str option \<Rightarrow> projected_run" where
  "project_run trace scenario_id =
     \<lparr> pj_scenario_id = scenario_id,
       pj_commands = map (project_command trace) (tr_distinct_commands trace),
       pj_converged = tr_converged trace,
       pj_terminal_outcome = ds_terminal_outcome (tr_final trace),
       pj_cleanup_complete = ds_cleanup_complete (tr_final trace),
       pj_ledger_multiple_side_effect_keys = keys_with_multiple_side_effects (tr_ledger trace),
       pj_crashes = map (\<lambda>(cid, w). (cid, command_window_value w)) (tr_crashes_fired trace) \<rparr>"

section \<open>What a projection of a run carries\<close>

lemma project_command_simps [simp]:
  "pc_command_id (project_command trace cmd) = fst cmd"
  "pc_is_submit (project_command trace cmd) = (snd cmd = SUBMIT_TURN)"
  "pc_is_terminal (project_command trace cmd) = (snd cmd \<in> TERMINAL_KINDS)"
  "pc_terminal_outcome (project_command trace cmd) =
     (if snd cmd \<in> TERMINAL_KINDS then ds_terminal_outcome (tr_final trace) else None)"
  by (simp_all add: project_command_def Let_def case_prod_beta)

lemma submit_kind_iff: "k = SUBMIT_TURN \<longleftrightarrow> DECISION_TO_REFERENCE k = Some REF_SUBMIT_TURN"
  by (cases k) simp_all

lemma terminal_kind_iff: "k \<in> TERMINAL_KINDS \<longleftrightarrow> DECISION_TO_REFERENCE k = Some REF_RECORD_TERMINAL"
  by (cases k) (simp_all add: TERMINAL_KINDS_def)

lemma length_filter_map:
  "length (filter (\<lambda>x. f x = a) xs) = length (filter (\<lambda>y. y = a) (map f xs))"
  by (induction xs) auto

lemma expected_submit_count:
  "length (filter (\<lambda>c. c = Some REF_SUBMIT_TURN) (map Some (expected_command_sequence m))) =
     (if rm_desired_cancel m then 0 else 1)"
  by (simp add: expected_command_sequence_def)

lemma expected_terminal_count:
  "length (filter (\<lambda>c. c = Some REF_RECORD_TERMINAL) (map Some (expected_command_sequence m))) = 1"
  by (simp add: expected_command_sequence_def)

lemma tracks_count:
  assumes "tracks plan st"
  shows "length (filter (\<lambda>x. DECISION_TO_REFERENCE (snd x) = Some c) (rs_distinct_commands st))
     + length (filter (\<lambda>x. x = Some c) (map Some (ref_remaining (rs_reference st))))
     = length (filter (\<lambda>x. x = Some c) (map Some (expected_command_sequence (rs_reference st))))"
proof -
  have "map (DECISION_TO_REFERENCE \<circ> snd) (rs_distinct_commands st)
      @ map Some (ref_remaining (rs_reference st))
      = map Some (expected_command_sequence (rs_reference st))"
    using assms by (simp add: tracks_def)
  then have "filter (\<lambda>x. x = Some c) (map (DECISION_TO_REFERENCE \<circ> snd) (rs_distinct_commands st))
      @ filter (\<lambda>x. x = Some c) (map Some (ref_remaining (rs_reference st)))
      = filter (\<lambda>x. x = Some c) (map Some (expected_command_sequence (rs_reference st)))"
    by (metis filter_append)
  from arg_cong [OF this, of length] show ?thesis
    using length_filter_map [of "DECISION_TO_REFERENCE \<circ> snd" "Some c" "rs_distinct_commands st"]
    by (simp only: length_append comp_apply)
qed

text \<open>
  A projection is fit to be replayed at a durable boundary: its commands carry pairwise
  distinct identities, the ledger witness of double side effects is empty, at most one command
  submits a turn and at most one records the terminal; once the run converged there is exactly
  one of each (no submission where a cancellation was wanted), and the terminal command carries
  the recorded outcome.
\<close>

theorem project_run_sound:
  assumes "plan_valid plan"
  shows "\<exists>t. run_plan plan budget = Inr t
     \<and> distinct (map pc_command_id (pj_commands (project_run t sid)))
     \<and> pj_ledger_multiple_side_effect_keys (project_run t sid) = []
     \<and> length (submit_commands (project_run t sid)) \<le> 1
     \<and> length (terminal_commands (project_run t sid)) \<le> 1
     \<and> (pj_converged (project_run t sid) \<longrightarrow>
          length (submit_commands (project_run t sid)) = (if fp_desired_cancel plan then 0 else 1)
          \<and> map pc_terminal_outcome (terminal_commands (project_run t sid)) =
              [pj_terminal_outcome (project_run t sid)])"
proof -
  obtain st where st: "run_plan plan budget = Inr (trace_of plan st)" "run_inv plan st"
    by (rule run_plan_total [OF assms])
  let ?t = "trace_of plan st" and ?cmds = "rs_distinct_commands st"
  have tr: "tracks plan st" and ids: "ids_ok st" using run_facts(2,11) [OF st(2)] by simp_all
  have cancel: "fp_desired_cancel plan = rm_desired_cancel (rs_reference st)"
    using oracle_flags(5) [OF run_facts(9) [OF st(2)]] .
  have pj: "pj_commands (project_run ?t sid) = map (project_command ?t) ?cmds"
    by (simp add: project_run_def)
  have d: "distinct (map pc_command_id (pj_commands (project_run ?t sid)))"
    using ids by (simp add: pj ids_ok_def o_def)
  have sub: "length (submit_commands (project_run ?t sid)) =
      length (filter (\<lambda>x. DECISION_TO_REFERENCE (snd x) = Some REF_SUBMIT_TURN) ?cmds)"
    by (simp add: submit_commands_def pj filter_map o_def submit_kind_iff)
  have ter: "terminal_commands (project_run ?t sid) = map (project_command ?t)
      (filter (\<lambda>x. DECISION_TO_REFERENCE (snd x) = Some REF_RECORD_TERMINAL) ?cmds)"
    by (simp add: terminal_commands_def pj filter_map o_def terminal_kind_iff)
  have keys: "pj_ledger_multiple_side_effect_keys (project_run ?t sid) = []"
    using run_at_most_once [OF st(2)]
    by (simp add: project_run_def at_most_once_submission_def Let_def split: if_splits)
  note c1 = tracks_count [OF tr, of REF_SUBMIT_TURN] expected_submit_count [of "rs_reference st"]
  note c2 = tracks_count [OF tr, of REF_RECORD_TERMINAL] expected_terminal_count [of "rs_reference st"]
  have le: "length (submit_commands (project_run ?t sid)) \<le> 1"
    "length (terminal_commands (project_run ?t sid)) \<le> 1"
    using c1 c2 by (auto simp: sub ter split: if_splits)
  have conv: "length (submit_commands (project_run ?t sid)) = (if fp_desired_cancel plan then 0 else 1)
      \<and> map pc_terminal_outcome (terminal_commands (project_run ?t sid)) =
          [pj_terminal_outcome (project_run ?t sid)]" if "pj_converged (project_run ?t sid)"
  proof -
    have rem: "ref_remaining (rs_reference st) = []"
      using that run_facts(7) [OF st(2)] by (simp add: project_run_def)
    have "length (filter (\<lambda>x. DECISION_TO_REFERENCE (snd x) = Some REF_RECORD_TERMINAL) ?cmds) = 1"
      using c2 by (simp add: rem)
    then obtain cmd where cmd:
      "filter (\<lambda>x. DECISION_TO_REFERENCE (snd x) = Some REF_RECORD_TERMINAL) ?cmds = [cmd]"
      by (metis One_nat_def length_0_conv length_Suc_conv)
    then have "cmd \<in> set (filter (\<lambda>x. DECISION_TO_REFERENCE (snd x) = Some REF_RECORD_TERMINAL) ?cmds)"
      by simp
    then have "snd cmd \<in> TERMINAL_KINDS" by (simp add: terminal_kind_iff)
    moreover have "pj_terminal_outcome (project_run ?t sid) = ds_terminal_outcome (rs_durable st)"
      by (simp add: project_run_def)
    moreover have "length (filter (\<lambda>x. DECISION_TO_REFERENCE (snd x) = Some REF_SUBMIT_TURN) ?cmds) =
        (if rm_desired_cancel (rs_reference st) then 0 else 1)"
      using c1 unfolding rem by simp
    ultimately show ?thesis unfolding sub ter cmd cancel by simp
  qed
  show ?thesis
    by (rule exI [of _ ?t], intro conjI impI st(1) d keys le conv [THEN conjunct1]
        conv [THEN conjunct2])
qed

lemma project_run_sound_witness:
  "\<exists>t. run_plan example_plan None = Inr t
     \<and> distinct (map pc_command_id (pj_commands (project_run t None)))
     \<and> length (submit_commands (project_run t None)) \<le> 1"
  using project_run_sound [OF example_plan_valid, of None None] by blast

end
