(* ===== verification/Control_Plane_Records.thy ===== *)
theory Control_Plane_Records
  imports Py_Runtime
begin

text \<open>
  The durable aggregates of the Omnigent control plane,
  \<^verbatim>\<open>moonmind/omnigent/control_plane/records.py\<close> and \<^verbatim>\<open>identities.py\<close>: the closed outcome and
  state vocabularies, the errors, the records (which stand for the database rows too, without
  the timestamps the database writes), and the deterministic identities.
\<close>

section \<open>Vocabularies\<close>

definition SUPPORTED_SCHEMA_VERSIONS :: "int set" where
  "SUPPORTED_SCHEMA_VERSIONS = {1}"

definition CURRENT_SCHEMA_VERSION :: int where
  "CURRENT_SCHEMA_VERSION = 1"

definition TURN_STATE_ORDER :: "py_str \<rightharpoonup> int" where
  "TURN_STATE_ORDER = map_of
     [(''prepared'', 0), (''dispatching'', 1), (''delivery_unknown'', 2), (''accepted'', 3),
      (''running'', 4), (''terminal'', 5)]"

definition TURN_STATES :: "py_str set" where
  "TURN_STATES = {''prepared'', ''dispatching'', ''delivery_unknown'', ''accepted'', ''running'',
     ''terminal''}"

datatype control_plane_outcome =
    APPLIED | ALREADY_APPLIED | REVISION_CONFLICT | FENCING_CONFLICT | DELIVERY_UNKNOWN
  | IMMUTABLE_AUTHORITY_CONFLICT | NOT_OWNER

definition APPLIED_OUTCOMES :: "control_plane_outcome set" where
  "APPLIED_OUTCOMES = {APPLIED, ALREADY_APPLIED}"

definition CONFLICT_OUTCOMES :: "control_plane_outcome set" where
  "CONFLICT_OUTCOMES = {REVISION_CONFLICT, FENCING_CONFLICT, DELIVERY_UNKNOWN,
     IMMUTABLE_AUTHORITY_CONFLICT, NOT_OWNER}"

datatype fencing_scope = SESSION_SUPERVISOR | PROVIDER_PROFILE_LEASE | HOST_LEASE | CLEANUP

definition COMMAND_STATE_PENDING :: py_str where
  "COMMAND_STATE_PENDING = ''pending''"

definition COMMAND_STATE_CLAIMED :: py_str where
  "COMMAND_STATE_CLAIMED = ''claimed''"

definition COMMAND_STATE_DELIVERY_UNKNOWN :: py_str where
  "COMMAND_STATE_DELIVERY_UNKNOWN = ''delivery_unknown''"

definition COMMAND_STATE_APPLIED :: py_str where
  "COMMAND_STATE_APPLIED = ''applied''"

definition COMMAND_STATE_FAILED :: py_str where
  "COMMAND_STATE_FAILED = ''failed''"

definition COMMAND_STATES :: "py_str set" where
  "COMMAND_STATES = {COMMAND_STATE_PENDING, COMMAND_STATE_CLAIMED, COMMAND_STATE_DELIVERY_UNKNOWN,
     COMMAND_STATE_APPLIED, COMMAND_STATE_FAILED}"

definition COMMAND_TERMINAL_STATES :: "py_str set" where
  "COMMAND_TERMINAL_STATES = {COMMAND_STATE_APPLIED, COMMAND_STATE_FAILED}"

definition CLEANUP_STATE_UNCLAIMED :: py_str where
  "CLEANUP_STATE_UNCLAIMED = ''unclaimed''"

definition CLEANUP_STATE_CLAIMED :: py_str where
  "CLEANUP_STATE_CLAIMED = ''claimed''"

definition CLEANUP_STATE_COMPLETE :: py_str where
  "CLEANUP_STATE_COMPLETE = ''complete''"

definition CLEANUP_STATES :: "py_str set" where
  "CLEANUP_STATES = {CLEANUP_STATE_UNCLAIMED, CLEANUP_STATE_CLAIMED, CLEANUP_STATE_COMPLETE}"

section \<open>Errors\<close>

text \<open>
  The exceptions of the repositories. \<open>UnknownCommand\<close> is the \<open>KeyError\<close> of a missing command,
  \<open>InvalidArgument\<close> the \<open>ValueError\<close> or \<open>TypeError\<close> of an argument outside its vocabulary,
  \<open>IntegrityViolation\<close> a database constraint the repository does not translate, and
  \<open>AssertionFailure\<close> a failed \<open>assert\<close>;
  \<open>MultipleResultsFound\<close> is raised by a query for at most one row that finds several;
  \<open>CanonicalTurnAuthorityUnavailable\<close> is the error of the turn-command service.
\<close>

datatype control_plane_error =
    UnknownSchemaVersionError py_str int
  | ConflictingSessionAuthorityError
  | TerminalSessionOverwriteError
  | RevisionConflictError
  | FencingConflictError
  | NotCommandOwnerError
  | TurnIdempotencyConflictError
  | CommandIdempotencyConflictError
  | UnknownCommand
  | InvalidArgument
  | IntegrityViolation
  | AssertionFailure
  | MultipleResultsFound
  | CanonicalTurnAuthorityUnavailable

text \<open>The stable outcome a conflict error carries.\<close>

fun error_outcome :: "control_plane_error \<Rightarrow> control_plane_outcome option" where
  "error_outcome ConflictingSessionAuthorityError = Some IMMUTABLE_AUTHORITY_CONFLICT"
| "error_outcome TerminalSessionOverwriteError = Some IMMUTABLE_AUTHORITY_CONFLICT"
| "error_outcome RevisionConflictError = Some REVISION_CONFLICT"
| "error_outcome FencingConflictError = Some FENCING_CONFLICT"
| "error_outcome NotCommandOwnerError = Some NOT_OWNER"
| "error_outcome _ = None"

type_synonym 'a cp_result = "(control_plane_error, 'a) result"

section \<open>Records\<close>

record session_record =
  sn_session_id :: py_str
  sn_moonmind_workflow_id :: py_str
  sn_provider :: py_str
  sn_schema_version :: int
  sn_moonmind_run_id :: "py_str option"
  sn_step_execution_id :: "py_str option"
  sn_moonmind_agent_run_id :: "py_str option"
  sn_compatibility_profile :: "py_str option"
  sn_provider_session_ref :: "py_str option"
  sn_chat_binding_id :: "py_str option"
  sn_intent_ref :: "py_str option"
  sn_intent_digest :: "py_str option"
  sn_execution_plan_ref :: "py_str option"
  sn_runtime_binding_ref :: "py_str option"
  sn_desired_state :: py_str
  sn_observed_state :: "py_str option"
  sn_reconciled_state :: "py_str option"
  sn_active_turn_attempt_id :: "py_str option"
  sn_provider_event_cursor :: "py_str option"
  sn_snapshot_frontier :: "py_str option"
  sn_provider_profile_id :: "py_str option"
  sn_host_binding_ref :: "py_str option"
  sn_host_lease_ref :: "py_str option"
  sn_provider_profile_generation :: "int option"
  sn_host_lease_generation :: "int option"
  sn_credential_generation :: "int option"
  sn_compatibility_ref :: "py_str option"
  sn_image_manifest_ref :: "py_str option"
  sn_terminal_state :: "py_str option"
  sn_terminal_evidence_ref :: "py_str option"
  sn_cleanup_state :: py_str
  sn_historical_read_state :: py_str
  sn_revision :: int
  sn_fencing_generation :: int
  sn_next_reconciliation_deadline :: "datetime option"
  sn_last_decision_ref :: "py_str option"
  sn_metadata :: "(py_str \<times> json) list"

record turn_attempt_record =
  ta_turn_attempt_id :: py_str
  ta_session_id :: py_str
  ta_idempotency_key :: py_str
  ta_schema_version :: int
  ta_step_execution_id :: "py_str option"
  ta_lineage_kind :: py_str
  ta_parent_turn_attempt_id :: "py_str option"
  ta_remediation_of_turn_attempt_id :: "py_str option"
  ta_instruction_digest :: "py_str option"
  ta_provider_marker :: "py_str option"
  ta_provider_turn_id :: "py_str option"
  ta_provider_item_id :: "py_str option"
  ta_state :: py_str
  ta_terminal_state :: "py_str option"
  ta_attempt_outcome :: "py_str option"
  ta_terminal_evidence_ref :: "py_str option"
  ta_revision :: int
  ta_fencing_generation :: int

record command_record =
  cm_command_id :: py_str
  cm_session_id :: py_str
  cm_command_type :: py_str
  cm_idempotency_key :: py_str
  cm_payload_digest :: py_str
  cm_schema_version :: int
  cm_turn_attempt_id :: "py_str option"
  cm_expected_session_revision :: "int option"
  cm_fencing_generation :: int
  cm_status :: py_str
  cm_owner_class :: "py_str option"
  cm_claim_token :: "py_str option"
  cm_provider_receipt_id :: "py_str option"
  cm_delivery_ambiguous :: bool
  cm_result_ref :: "py_str option"
  cm_revision :: int
  cm_retry_policy :: "(py_str \<times> json) list"

record cp_observation_record =
  ob_observation_id :: py_str
  ob_session_id :: py_str
  ob_observation_type :: py_str
  ob_source :: py_str
  ob_observed_at :: datetime
  ob_deduplication_key :: py_str
  ob_schema_version :: int
  ob_source_sequence :: "int option"
  ob_source_digest :: "py_str option"
  ob_payload_ref :: "py_str option"
  ob_bounded_index :: "(py_str \<times> json) list"

record decision_record =
  de_decision_id :: py_str
  de_session_id :: py_str
  de_decision_code :: py_str
  de_schema_version :: int
  de_input_state_digest :: "py_str option"
  de_observation_frontier_digest :: "py_str option"
  de_expected_revision :: "int option"
  de_fencing_generation :: int
  de_reason_code :: "py_str option"
  de_resulting_command_id :: "py_str option"
  de_next_deadline :: "datetime option"
  de_product_visible_transition :: "py_str option"
  de_trace_ref :: "py_str option"
  de_diagnostics_ref :: "py_str option"

record chat_binding_alias_record =
  al_chat_binding_id :: py_str
  al_session_id :: "py_str option"
  al_alias_state :: py_str
  al_diagnostic_reason :: "py_str option"

record cleanup_authority_record =
  cl_session_id :: py_str
  cl_schema_version :: int
  cl_generation :: int
  cl_state :: py_str
  cl_owner_class :: "py_str option"
  cl_claim_token :: "py_str option"
  cl_fenced_host_generation :: "int option"
  cl_fenced_profile_generation :: "int option"
  cl_fenced_provider_epoch :: "py_str option"
  cl_revision :: int

definition session_is_terminal :: "session_record \<Rightarrow> bool" where
  "session_is_terminal r \<longleftrightarrow> sn_terminal_state r \<noteq> None"

definition turn_is_terminal :: "turn_attempt_record \<Rightarrow> bool" where
  "turn_is_terminal r \<longleftrightarrow> ta_terminal_state r \<noteq> None"

definition command_is_terminal :: "command_record \<Rightarrow> bool" where
  "command_is_terminal r \<longleftrightarrow> cm_status r \<in> COMMAND_TERMINAL_STATES"

definition alias_resolves :: "chat_binding_alias_record \<Rightarrow> bool" where
  "alias_resolves r \<longleftrightarrow> al_alias_state r = ''active'' \<and> al_session_id r \<noteq> None"

text \<open>The result of a guarded write: the outcome and the current record.\<close>

type_synonym 'r cas_result = "control_plane_outcome \<times> 'r"

definition cas_applied :: "'r cas_result \<Rightarrow> bool" where
  "cas_applied r \<longleftrightarrow> fst r \<in> APPLIED_OUTCOMES"

definition cas_conflicted :: "'r cas_result \<Rightarrow> bool" where
  "cas_conflicted r \<longleftrightarrow> fst r \<in> CONFLICT_OUTCOMES"

definition ensure_supported_schema_version :: "py_str \<Rightarrow> int \<Rightarrow> int cp_result" where
  "ensure_supported_schema_version aggregate version =
     (if version \<notin> SUPPORTED_SCHEMA_VERSIONS then Inl (UnknownSchemaVersionError aggregate version)
      else Inr version)"

section \<open>Digests and identities\<close>

definition compute_digest :: "json \<Rightarrow> py_str" where
  "compute_digest payload =
     (case payload of JStr s \<Rightarrow> sha256_hex (utf8 s)
      | _ \<Rightarrow> sha256_hex (utf8 (json_dumps payload)))"

definition canonical_omnigent_session_id :: "py_str \<Rightarrow> py_str \<Rightarrow> py_str \<Rightarrow> py_str" where
  "canonical_omnigent_session_id workflow_id step_execution_id agent_run_id =
     ''oms_'' @ take 40 (sha256_hex (utf8 (json_dumps (JArr
       [JStr ''omnigent-session/v1'', JStr workflow_id, JStr step_execution_id,
        JStr agent_run_id]))))"

definition canonical_omnigent_turn_attempt_id :: "py_str \<Rightarrow> int \<Rightarrow> py_str" where
  "canonical_omnigent_turn_attempt_id session_id ordinal =
     ''ota_'' @ take 40 (sha256_hex (utf8
       (''omnigent-turn/v1:'' @ session_id @ '':'' @ py_str_int ordinal)))"

definition omnigent_session_workflow_id :: "py_str \<Rightarrow> py_str" where
  "omnigent_session_workflow_id session_id = ''omnigent-session:'' @ session_id"

definition canonical_turn_command_key :: "py_str \<Rightarrow> py_str \<Rightarrow> py_str" where
  "canonical_turn_command_key workflow_id idempotency_key =
     ''omnigent-turn-command:'' @
       compute_digest (JArr [JStr ''workflow'', JStr workflow_id, JStr idempotency_key])"

definition canonical_turn_claim_token :: "py_str \<Rightarrow> py_str" where
  "canonical_turn_claim_token command_key =
     ''otc_'' @ take 40 (compute_digest (JArr [JStr command_key, JStr ''delivery'']))"

definition canonical_followup_turn_attempt_id :: "py_str \<Rightarrow> py_str \<Rightarrow> py_str" where
  "canonical_followup_turn_attempt_id session_id command_key =
     ''ota_'' @ take 40 (compute_digest (JArr [JStr session_id, JStr command_key]))"

definition canonical_turn_command_id :: "py_str \<Rightarrow> py_str \<Rightarrow> py_str \<Rightarrow> py_str" where
  "canonical_turn_command_id session_id command_key command_type =
     ''ocm_'' @ take 40 (compute_digest (JArr [JStr session_id, JStr command_key, JStr command_type]))"

section \<open>Facts\<close>

declare SUPPORTED_SCHEMA_VERSIONS_def [vocabulary] CURRENT_SCHEMA_VERSION_def [vocabulary]
  APPLIED_OUTCOMES_def [vocabulary] CONFLICT_OUTCOMES_def [vocabulary]
  COMMAND_TERMINAL_STATES_def [vocabulary] COMMAND_STATES_def [vocabulary]
  CLEANUP_STATES_def [vocabulary] TURN_STATES_def [vocabulary] TURN_STATE_ORDER_def [vocabulary]

text \<open>The state constants are distinct; nothing else about their text matters.\<close>

lemma command_state_distinct [simp]:
  "COMMAND_STATE_PENDING \<noteq> COMMAND_STATE_CLAIMED"
  "COMMAND_STATE_PENDING \<noteq> COMMAND_STATE_DELIVERY_UNKNOWN"
  "COMMAND_STATE_PENDING \<noteq> COMMAND_STATE_APPLIED"
  "COMMAND_STATE_PENDING \<noteq> COMMAND_STATE_FAILED"
  "COMMAND_STATE_CLAIMED \<noteq> COMMAND_STATE_PENDING"
  "COMMAND_STATE_CLAIMED \<noteq> COMMAND_STATE_DELIVERY_UNKNOWN"
  "COMMAND_STATE_CLAIMED \<noteq> COMMAND_STATE_APPLIED"
  "COMMAND_STATE_CLAIMED \<noteq> COMMAND_STATE_FAILED"
  "COMMAND_STATE_DELIVERY_UNKNOWN \<noteq> COMMAND_STATE_PENDING"
  "COMMAND_STATE_DELIVERY_UNKNOWN \<noteq> COMMAND_STATE_CLAIMED"
  "COMMAND_STATE_DELIVERY_UNKNOWN \<noteq> COMMAND_STATE_APPLIED"
  "COMMAND_STATE_DELIVERY_UNKNOWN \<noteq> COMMAND_STATE_FAILED"
  "COMMAND_STATE_APPLIED \<noteq> COMMAND_STATE_PENDING"
  "COMMAND_STATE_APPLIED \<noteq> COMMAND_STATE_CLAIMED"
  "COMMAND_STATE_APPLIED \<noteq> COMMAND_STATE_DELIVERY_UNKNOWN"
  "COMMAND_STATE_APPLIED \<noteq> COMMAND_STATE_FAILED"
  "COMMAND_STATE_FAILED \<noteq> COMMAND_STATE_PENDING"
  "COMMAND_STATE_FAILED \<noteq> COMMAND_STATE_CLAIMED"
  "COMMAND_STATE_FAILED \<noteq> COMMAND_STATE_DELIVERY_UNKNOWN"
  "COMMAND_STATE_FAILED \<noteq> COMMAND_STATE_APPLIED"
  by (simp_all add: COMMAND_STATE_PENDING_def COMMAND_STATE_CLAIMED_def COMMAND_STATE_DELIVERY_UNKNOWN_def
    COMMAND_STATE_APPLIED_def COMMAND_STATE_FAILED_def)

lemma cleanup_state_distinct [simp]:
  "CLEANUP_STATE_UNCLAIMED \<noteq> CLEANUP_STATE_CLAIMED"
  "CLEANUP_STATE_UNCLAIMED \<noteq> CLEANUP_STATE_COMPLETE"
  "CLEANUP_STATE_CLAIMED \<noteq> CLEANUP_STATE_UNCLAIMED"
  "CLEANUP_STATE_CLAIMED \<noteq> CLEANUP_STATE_COMPLETE"
  "CLEANUP_STATE_COMPLETE \<noteq> CLEANUP_STATE_UNCLAIMED"
  "CLEANUP_STATE_COMPLETE \<noteq> CLEANUP_STATE_CLAIMED"
  by (simp_all add: CLEANUP_STATE_UNCLAIMED_def CLEANUP_STATE_CLAIMED_def CLEANUP_STATE_COMPLETE_def)

lemma turn_states_ordered: "dom TURN_STATE_ORDER = TURN_STATES"
  by (auto simp: vocabulary)

text \<open>
  Every outcome of a guarded write is converged or conflicted and never both, so a caller
  that branches on the two properties of a result treats every outcome exactly once.
\<close>

lemma outcome_partition: "cas_applied r \<longleftrightarrow> \<not> cas_conflicted r"
  by (cases r; cases "fst r") (simp_all add: cas_applied_def cas_conflicted_def vocabulary)

end
