(* ===== verification/Control_Plane_Store.thy ===== *)
theory Control_Plane_Store
  imports Control_Plane_Records
begin

text \<open>
  The durable store behind the repositories of
  \<^verbatim>\<open>moonmind/omnigent/control_plane/repositories.py\<close>: one table per aggregate, keyed by its
  primary key, the unique indexes and foreign keys of \<^verbatim>\<open>api_service/db/models.py\<close>, and the
  transaction that every operation runs in. A writing operation locks its row while it reads and
  writes it, so it is one step on the store; a raised error rolls the transaction back, so its result
  is the error alone. Concurrency is the interleaving of such steps. The exception is the allocation
  of a chat handle, which loads the row without a lock: the allocations that have loaded a session
  and not yet written it are part of the state.
\<close>

section \<open>Tables\<close>

record control_store =
  db_sessions :: "(py_str \<times> session_record) list"
  db_turns :: "(py_str \<times> turn_attempt_record) list"
  db_observations :: "(py_str \<times> cp_observation_record) list"
  db_commands :: "(py_str \<times> command_record) list"
  db_decisions :: "(py_str \<times> decision_record) list"
  db_aliases :: "(py_str \<times> chat_binding_alias_record) list"
  db_cleanups :: "(py_str \<times> cleanup_authority_record) list"
  db_execution_plans :: "py_str list"
  db_runtime_bindings :: "(py_str \<times> py_str) list"
  db_allocations :: "(py_str \<times> py_str) list"

definition empty_store :: control_store where
  "empty_store = \<lparr> db_sessions = [], db_turns = [], db_observations = [], db_commands = [],
     db_decisions = [], db_aliases = [], db_cleanups = [], db_execution_plans = [],
     db_runtime_bindings = [], db_allocations = [] \<rparr>"

type_synonym 'a tx = "control_store \<Rightarrow> ('a \<times> control_store) cp_result"

definition tx_bind :: "'a tx \<Rightarrow> ('a \<Rightarrow> 'b tx) \<Rightarrow> 'b tx" where
  "tx_bind m k db = bind_result (m db) (\<lambda>(x, db'). k x db')"

definition tx_return :: "'a \<Rightarrow> 'a tx" where
  "tx_return x db = Inr (x, db)"

definition transaction :: "'a tx \<Rightarrow> control_store \<Rightarrow> 'a cp_result \<times> control_store" where
  "transaction body db = (case body db of Inl e \<Rightarrow> (Inl e, db) | Inr (x, db') \<Rightarrow> (Inr x, db'))"

lemma tx_bind_Inr:
  "tx_bind m k db = Inr (y, db'') \<longleftrightarrow> (\<exists>x db'. m db = Inr (x, db') \<and> k x db' = Inr (y, db''))"
  by (cases "m db") (auto simp: tx_bind_def)

lemma tx_return_Inr [simp]: "tx_return x db = Inr (y, db') \<longleftrightarrow> y = x \<and> db' = db"
  by (auto simp: tx_return_def)

section \<open>Constraints of the session table\<close>

definition foreign_ok :: "'k option \<Rightarrow> 'k set \<Rightarrow> bool" where
  "foreign_ok ref keys \<longleftrightarrow> (case ref of None \<Rightarrow> True | Some k \<Rightarrow> k \<in> keys)"

definition session_keys :: "control_store \<Rightarrow> py_str set" where
  "session_keys db = fst ` set (db_sessions db)"

text \<open>The unique indexes hold of a row when no other row has its non-null key.\<close>

definition scope_unique :: "control_store \<Rightarrow> session_record \<Rightarrow> bool" where
  "scope_unique db row \<longleftrightarrow> sn_provider_session_ref row = None
     \<or> (\<forall>(sid, other) \<in> set (db_sessions db). sid \<noteq> sn_session_id row \<longrightarrow>
          \<not> (sn_moonmind_workflow_id other = sn_moonmind_workflow_id row
             \<and> sn_provider_session_ref other = sn_provider_session_ref row))"

definition chat_binding_unique :: "control_store \<Rightarrow> session_record \<Rightarrow> bool" where
  "chat_binding_unique db row \<longleftrightarrow> sn_chat_binding_id row = None
     \<or> (\<forall>(sid, other) \<in> set (db_sessions db). sid \<noteq> sn_session_id row \<longrightarrow>
          sn_chat_binding_id other \<noteq> sn_chat_binding_id row)"

definition session_refs_exist :: "control_store \<Rightarrow> session_record \<Rightarrow> bool" where
  "session_refs_exist db row \<longleftrightarrow>
     foreign_ok (sn_execution_plan_ref row) (set (db_execution_plans db))
     \<and> foreign_ok (sn_runtime_binding_ref row) (fst ` set (db_runtime_bindings db))"

definition session_integrity :: "control_store \<Rightarrow> session_record \<Rightarrow> bool" where
  "session_integrity db row \<longleftrightarrow>
     scope_unique db row \<and> chat_binding_unique db row \<and> session_refs_exist db row"

text \<open>
  Reading a row as a record checks its schema version; a guarded write locks the row, computes
  the outcome and the new row, flushes it and reads it back.
\<close>

definition session_row_record :: "session_record \<Rightarrow> session_record cp_result" where
  "session_row_record row =
     bind_result (ensure_supported_schema_version ''OmnigentSession'' (sn_schema_version row))
       (\<lambda>_. Inr row)"

definition put_session :: "session_record \<Rightarrow> control_store \<Rightarrow> control_store" where
  "put_session row db = db\<lparr> db_sessions := dict_set (sn_session_id row) row (db_sessions db) \<rparr>"

definition modify_session ::
  "py_str \<Rightarrow> (session_record \<Rightarrow> ('a \<times> session_record) cp_result) \<Rightarrow>
   ('a \<times> session_record) tx" where
  "modify_session session_id write db =
     (case map_of (db_sessions db) session_id of
        None \<Rightarrow> Inl ConflictingSessionAuthorityError
      | Some row \<Rightarrow>
          bind_result (write row) (\<lambda>(x, row').
            bind_result (session_row_record row') (\<lambda>record.
              Inr ((x, record), put_session row' db))))"

definition write_session ::
  "py_str \<Rightarrow> (session_record \<Rightarrow> session_record cp_result) \<Rightarrow> session_record tx" where
  "write_session session_id write =
     tx_bind (modify_session session_id (\<lambda>row. bind_result (write row) (\<lambda>row'. Inr ((), row'))))
       (\<lambda>(_, record). tx_return record)"

section \<open>Well-formed stores\<close>

definition session_table_ok :: "control_store \<Rightarrow> bool" where
  "session_table_ok db \<longleftrightarrow> distinct (map fst (db_sessions db))
     \<and> (\<forall>(sid, row) \<in> set (db_sessions db). sn_session_id row = sid
          \<and> scope_unique db row \<and> chat_binding_unique db row)"

lemma session_table_keys:
  "session_table_ok db \<Longrightarrow> map_of (db_sessions db) sid = Some row \<Longrightarrow> sn_session_id row = sid"
  by (auto simp: session_table_ok_def dest!: map_of_SomeD)

lemma put_session_lookup [simp]:
  "map_of (db_sessions (put_session row db)) sid =
     (if sid = sn_session_id row then Some row else map_of (db_sessions db) sid)"
  by (simp add: put_session_def)

lemma put_session_frame [simp]:
  "db_turns (put_session row db) = db_turns db"
  "db_observations (put_session row db) = db_observations db"
  "db_commands (put_session row db) = db_commands db"
  "db_decisions (put_session row db) = db_decisions db"
  "db_aliases (put_session row db) = db_aliases db"
  "db_cleanups (put_session row db) = db_cleanups db"
  "db_execution_plans (put_session row db) = db_execution_plans db"
  "db_runtime_bindings (put_session row db) = db_runtime_bindings db"
  "db_allocations (put_session row db) = db_allocations db"
  by (simp_all add: put_session_def)

lemma put_session_self:
  assumes "session_table_ok db" and "map_of (db_sessions db) sid = Some row"
  shows "put_session row db = db"
proof -
  have "sn_session_id row = sid" using assms by (rule session_table_keys)
  moreover have "distinct (map fst (db_sessions db))" using assms(1) by (simp add: session_table_ok_def)
  ultimately show ?thesis using assms(2) by (simp add: put_session_def dict_set_self)
qed

lemma session_row_record_Inr [simp]:
  "session_row_record row = Inr r \<longleftrightarrow> r = row \<and> sn_schema_version row = 1"
  by (auto simp: session_row_record_def ensure_supported_schema_version_def vocabulary)

lemma session_row_record_supported [simp]:
  "sn_schema_version row = 1 \<Longrightarrow> session_row_record row = Inr row"
  by (simp add: session_row_record_def ensure_supported_schema_version_def vocabulary)

lemma modify_session_Inr:
  "modify_session sid write db = Inr (res, db') \<longleftrightarrow>
     (\<exists>row x row'. map_of (db_sessions db) sid = Some row
        \<and> write row = Inr (x, row') \<and> sn_schema_version row' = 1
        \<and> res = (x, row') \<and> db' = put_session row' db)"
  by (auto simp: modify_session_def bind_result_Inr_iff split: option.splits)

lemma write_session_Inr:
  "write_session sid write db = Inr (r, db') \<longleftrightarrow>
     (\<exists>row. map_of (db_sessions db) sid = Some row \<and> write row = Inr r \<and> sn_schema_version r = 1
        \<and> db' = put_session r db)"
  by (auto simp: write_session_def tx_bind_Inr modify_session_Inr bind_result_Inr_iff)

lemma modify_session_unknown [simp]:
  "map_of (db_sessions db) sid = None \<Longrightarrow>
     modify_session sid write db = Inl ConflictingSessionAuthorityError"
  "map_of (db_sessions db) sid = None \<Longrightarrow>
     write_session sid change db = Inl ConflictingSessionAuthorityError"
  by (simp_all add: modify_session_def write_session_def tx_bind_def)

text \<open>A write that keeps the identity and the unique keys of its row keeps the table.\<close>

lemma put_session_ok:
  assumes "session_table_ok db" and "scope_unique db row" and "chat_binding_unique db row"
  shows "session_table_ok (put_session row db)"
proof -
  have dist: "distinct (map fst (db_sessions db))"
    using assms(1) by (simp add: session_table_ok_def)
  have mem: "(sid, r) \<in> set (db_sessions (put_session row db)) \<longleftrightarrow>
      (if sid = sn_session_id row then r = row else (sid, r) \<in> set (db_sessions db))" for sid r
    by (simp add: put_session_def dict_set_mem [OF dist])
  have scope: "scope_unique (put_session row db) r" and chat: "chat_binding_unique (put_session row db) r"
    if "(sid, r) \<in> set (db_sessions (put_session row db))" for sid r
  proof -
    have old: "sn_session_id r = sid \<and> scope_unique db r \<and> chat_binding_unique db r"
      if "sid \<noteq> sn_session_id row"
      using that \<open>(sid, r) \<in> _\<close> assms(1) by (auto simp: mem session_table_ok_def)
    show "scope_unique (put_session row db) r"
      using old that assms(2) unfolding scope_unique_def
      by (cases "sid = sn_session_id row") (fastforce simp: mem split: if_splits)+
    show "chat_binding_unique (put_session row db) r"
      using old that assms(3) unfolding chat_binding_unique_def
      by (cases "sid = sn_session_id row") (fastforce simp: mem split: if_splits)+
  qed
  have "sn_session_id r = sid" if "(sid, r) \<in> set (db_sessions (put_session row db))" for sid r
    using that assms(1) by (auto simp: mem session_table_ok_def split: if_splits)
  moreover have "distinct (map fst (db_sessions (put_session row db)))"
    by (simp add: put_session_def dict_set_distinct dist)
  ultimately show ?thesis unfolding session_table_ok_def using scope chat by fast
qed

end
