(* ===== verification/Control_Plane_Sessions.thy ===== *)
theory Control_Plane_Sessions
  imports Control_Plane_Store
begin

text \<open>
  \<open>SessionRepository\<close> of \<^verbatim>\<open>moonmind/omnigent/control_plane/repositories.py\<close>: the canonical
  authority of a provider session. Every lifecycle write declares the revision and the fencing
  generations it observed. An argument whose default is the \<open>_UNSET\<close> sentinel is an option, None
  when it is not given. Metrics, spans and the timestamps the database writes are not modelled.
\<close>

section \<open>Creation and reads\<close>

record new_session =
  ns_session_id :: py_str
  ns_moonmind_workflow_id :: py_str
  ns_provider :: py_str
  ns_moonmind_run_id :: "py_str option"
  ns_step_execution_id :: "py_str option"
  ns_moonmind_agent_run_id :: "py_str option"
  ns_compatibility_profile :: "py_str option"
  ns_provider_session_ref :: "py_str option"
  ns_chat_binding_id :: "py_str option"
  ns_intent_ref :: "py_str option"
  ns_intent_digest :: "py_str option"
  ns_execution_plan_ref :: "py_str option"
  ns_runtime_binding_ref :: "py_str option"
  ns_desired_state :: py_str
  ns_provider_profile_id :: "py_str option"
  ns_host_binding_ref :: "py_str option"
  ns_host_lease_ref :: "py_str option"
  ns_compatibility_ref :: "py_str option"
  ns_image_manifest_ref :: "py_str option"
  ns_metadata :: "(py_str \<times> json) list"

text \<open>The arguments with their defaults, and the row with the column defaults.\<close>

definition new_session_default :: "py_str \<Rightarrow> py_str \<Rightarrow> py_str \<Rightarrow> new_session" where
  "new_session_default session_id workflow_id provider =
     \<lparr> ns_session_id = session_id, ns_moonmind_workflow_id = workflow_id, ns_provider = provider,
       ns_moonmind_run_id = None, ns_step_execution_id = None, ns_moonmind_agent_run_id = None,
       ns_compatibility_profile = None, ns_provider_session_ref = None, ns_chat_binding_id = None,
       ns_intent_ref = None, ns_intent_digest = None, ns_execution_plan_ref = None,
       ns_runtime_binding_ref = None, ns_desired_state = ''pending'', ns_provider_profile_id = None,
       ns_host_binding_ref = None, ns_host_lease_ref = None, ns_compatibility_ref = None,
       ns_image_manifest_ref = None, ns_metadata = [] \<rparr>"

definition new_session_row :: "new_session \<Rightarrow> session_record" where
  "new_session_row args =
     \<lparr> sn_session_id = ns_session_id args, sn_moonmind_workflow_id = ns_moonmind_workflow_id args,
       sn_provider = ns_provider args, sn_schema_version = CURRENT_SCHEMA_VERSION,
       sn_moonmind_run_id = ns_moonmind_run_id args,
       sn_step_execution_id = ns_step_execution_id args,
       sn_moonmind_agent_run_id = ns_moonmind_agent_run_id args,
       sn_compatibility_profile = ns_compatibility_profile args,
       sn_provider_session_ref = ns_provider_session_ref args,
       sn_chat_binding_id = ns_chat_binding_id args, sn_intent_ref = ns_intent_ref args,
       sn_intent_digest = ns_intent_digest args,
       sn_execution_plan_ref = ns_execution_plan_ref args,
       sn_runtime_binding_ref = ns_runtime_binding_ref args,
       sn_desired_state = ns_desired_state args, sn_observed_state = None,
       sn_reconciled_state = None, sn_active_turn_attempt_id = None,
       sn_provider_event_cursor = None, sn_snapshot_frontier = None,
       sn_provider_profile_id = ns_provider_profile_id args,
       sn_host_binding_ref = ns_host_binding_ref args, sn_host_lease_ref = ns_host_lease_ref args,
       sn_provider_profile_generation = None, sn_host_lease_generation = None,
       sn_credential_generation = None, sn_compatibility_ref = ns_compatibility_ref args,
       sn_image_manifest_ref = ns_image_manifest_ref args, sn_terminal_state = None,
       sn_terminal_evidence_ref = None, sn_cleanup_state = ''pending'',
       sn_historical_read_state = ''live'', sn_revision = 1, sn_fencing_generation = 0,
       sn_next_reconciliation_deadline = None, sn_last_decision_ref = None,
       sn_metadata = ns_metadata args \<rparr>"

definition create_session :: "new_session \<Rightarrow> session_record tx" where
  "create_session args db =
     (let row = new_session_row args in
      if sn_session_id row \<in> session_keys db \<or> \<not> session_integrity db row
      then Inl ConflictingSessionAuthorityError
      else bind_result (session_row_record row) (\<lambda>record. Inr (record, put_session row db)))"

definition get_session :: "py_str \<Rightarrow> control_store \<Rightarrow> session_record option cp_result" where
  "get_session session_id db =
     (case map_of (db_sessions db) session_id of
        None \<Rightarrow> Inr None
      | Some row \<Rightarrow> bind_result (session_row_record row) (\<lambda>record. Inr (Some record)))"

text \<open>\<open>scalar_one_or_none\<close> over a query that names the rows.\<close>

definition one_session ::
  "(session_record \<Rightarrow> bool) \<Rightarrow> control_store \<Rightarrow> session_record option cp_result" where
  "one_session selected db =
     (case filter selected (map snd (db_sessions db)) of
        [] \<Rightarrow> Inr None
      | [row] \<Rightarrow> bind_result (session_row_record row) (\<lambda>record. Inr (Some record))
      | _ \<Rightarrow> Inl MultipleResultsFound)"

definition get_by_scope ::
  "py_str \<Rightarrow> py_str option \<Rightarrow> control_store \<Rightarrow> session_record option cp_result" where
  "get_by_scope workflow_id provider_session_ref db =
     (if provider_session_ref = None then Inl ConflictingSessionAuthorityError
      else one_session (\<lambda>row. sn_moonmind_workflow_id row = workflow_id
             \<and> sn_provider_session_ref row = provider_session_ref) db)"

definition get_by_chat_binding :: "py_str \<Rightarrow> control_store \<Rightarrow> session_record option cp_result" where
  "get_by_chat_binding chat_binding_id db =
     one_session (\<lambda>row. sn_chat_binding_id row = Some chat_binding_id) db"

section \<open>Fencing\<close>

record session_fence =
  fe_revision :: int
  fe_fencing_generation :: int
  fe_provider_profile_generation :: "int option"
  fe_host_lease_generation :: "int option"

definition supervisor_fence :: "int \<Rightarrow> int \<Rightarrow> session_fence" where
  "supervisor_fence revision generation =
     \<lparr> fe_revision = revision, fe_fencing_generation = generation,
       fe_provider_profile_generation = None, fe_host_lease_generation = None \<rparr>"

definition check_session_fence ::
  "session_record \<Rightarrow> session_fence \<Rightarrow> control_plane_outcome option" where
  "check_session_fence row fence =
     (if sn_fencing_generation row \<noteq> fe_fencing_generation fence then Some FENCING_CONFLICT
      else if fe_provider_profile_generation fence \<noteq> None
              \<and> sn_provider_profile_generation row \<noteq> fe_provider_profile_generation fence
      then Some FENCING_CONFLICT
      else if fe_host_lease_generation fence \<noteq> None
              \<and> sn_host_lease_generation row \<noteq> fe_host_lease_generation fence
      then Some FENCING_CONFLICT
      else if sn_revision row \<noteq> fe_revision fence then Some REVISION_CONFLICT
      else None)"

text \<open>The two raises that follow a failed check in the raising operations.\<close>

definition raise_conflict :: "control_plane_outcome option \<Rightarrow> 'a cp_result \<Rightarrow> 'a cp_result" where
  "raise_conflict conflict continue =
     (if conflict = Some FENCING_CONFLICT then Inl FencingConflictError
      else if conflict = Some REVISION_CONFLICT then Inl RevisionConflictError
      else continue)"

definition raise_for_session_conflict :: "session_record cas_result \<Rightarrow> session_record tx" where
  "raise_for_session_conflict res db =
     (if fst res = REVISION_CONFLICT then Inl RevisionConflictError
      else if fst res = FENCING_CONFLICT then Inl FencingConflictError
      else Inr (snd res, db))"

section \<open>Write-once authority\<close>

text \<open>
  \<open>allocate_chat_binding\<close> loads the row without locking it, decides on what it loaded whether the
  handle is to be written, and flushes that one column; the unique index is the only check of the
  flush. As one step this is an allocation that nothing comes between; its two halves are the steps
  of one that runs beside others.
\<close>

definition check_chat_binding :: "py_str \<Rightarrow> session_record \<Rightarrow> bool cp_result" where
  "check_chat_binding chat_binding_id row =
     (if sn_chat_binding_id row \<noteq> None \<and> sn_chat_binding_id row \<noteq> Some chat_binding_id
      then Inl ConflictingSessionAuthorityError
      else Inr (sn_chat_binding_id row \<noteq> Some chat_binding_id))"

definition set_chat_binding :: "control_store \<Rightarrow> py_str \<Rightarrow> session_record \<Rightarrow> session_record cp_result" where
  "set_chat_binding db chat_binding_id row =
     (let row' = row\<lparr> sn_chat_binding_id := Some chat_binding_id \<rparr> in
      if \<not> chat_binding_unique db row' then Inl ConflictingSessionAuthorityError else Inr row')"

definition flush_chat_binding :: "py_str \<Rightarrow> py_str \<Rightarrow> session_record tx" where
  "flush_chat_binding session_id chat_binding_id db =
     write_session session_id (set_chat_binding db chat_binding_id) db"

definition allocate_chat_binding :: "py_str \<Rightarrow> py_str \<Rightarrow> session_record tx" where
  "allocate_chat_binding session_id chat_binding_id db =
     write_session session_id (\<lambda>row.
       bind_result (check_chat_binding chat_binding_id row) (\<lambda>write.
         if write then set_chat_binding db chat_binding_id row else Inr row)) db"

definition attach_provider_session ::
  "py_str \<Rightarrow> py_str \<Rightarrow> int \<Rightarrow> int \<Rightarrow> session_record tx" where
  "attach_provider_session session_id provider_session_ref expected_revision
      expected_fencing_generation db =
     write_session session_id (\<lambda>row.
       if sn_provider_session_ref row \<noteq> None
          \<and> sn_provider_session_ref row \<noteq> Some provider_session_ref
       then Inl ConflictingSessionAuthorityError
       else if sn_provider_session_ref row = Some provider_session_ref then Inr row
       else raise_conflict
         (check_session_fence row (supervisor_fence expected_revision expected_fencing_generation))
         (let row' = row\<lparr> sn_provider_session_ref := Some provider_session_ref,
                          sn_revision := sn_revision row + 1 \<rparr> in
          if \<not> scope_unique db row' then Inl ConflictingSessionAuthorityError else Inr row')) db"

section \<open>Lifecycle writes\<close>

record session_update =
  su_desired_state :: "py_str option"
  su_observed_state :: "py_str option option"
  su_reconciled_state :: "py_str option option"
  su_active_turn_attempt_id :: "py_str option option"
  su_provider_event_cursor :: "py_str option option"
  su_snapshot_frontier :: "py_str option option"
  su_cleanup_state :: "py_str option"
  su_historical_read_state :: "py_str option"
  su_next_reconciliation_deadline :: "datetime option option"
  su_last_decision_ref :: "py_str option option"

definition no_update :: session_update where
  "no_update = \<lparr> su_desired_state = None, su_observed_state = None, su_reconciled_state = None,
     su_active_turn_attempt_id = None, su_provider_event_cursor = None,
     su_snapshot_frontier = None, su_cleanup_state = None, su_historical_read_state = None,
     su_next_reconciliation_deadline = None, su_last_decision_ref = None \<rparr>"

definition provided_fields :: "session_update \<Rightarrow> py_str list" where
  "provided_fields update = map fst (filter snd
     [(''desired_state'', su_desired_state update \<noteq> None),
      (''observed_state'', su_observed_state update \<noteq> None),
      (''reconciled_state'', su_reconciled_state update \<noteq> None),
      (''active_turn_attempt_id'', su_active_turn_attempt_id update \<noteq> None),
      (''provider_event_cursor'', su_provider_event_cursor update \<noteq> None),
      (''snapshot_frontier'', su_snapshot_frontier update \<noteq> None),
      (''cleanup_state'', su_cleanup_state update \<noteq> None),
      (''historical_read_state'', su_historical_read_state update \<noteq> None),
      (''next_reconciliation_deadline'', su_next_reconciliation_deadline update \<noteq> None),
      (''last_decision_ref'', su_last_decision_ref update \<noteq> None)])"

definition POST_TERMINAL_MUTABLE_FIELDS :: "py_str set" where
  "POST_TERMINAL_MUTABLE_FIELDS = {''cleanup_state'', ''historical_read_state''}"

definition set_provided :: "session_update \<Rightarrow> session_record \<Rightarrow> session_record" where
  "set_provided update row = row\<lparr>
     sn_desired_state := option_or (su_desired_state update) (sn_desired_state row),
     sn_observed_state := option_or (su_observed_state update) (sn_observed_state row),
     sn_reconciled_state := option_or (su_reconciled_state update) (sn_reconciled_state row),
     sn_active_turn_attempt_id :=
       option_or (su_active_turn_attempt_id update) (sn_active_turn_attempt_id row),
     sn_provider_event_cursor :=
       option_or (su_provider_event_cursor update) (sn_provider_event_cursor row),
     sn_snapshot_frontier := option_or (su_snapshot_frontier update) (sn_snapshot_frontier row),
     sn_cleanup_state := option_or (su_cleanup_state update) (sn_cleanup_state row),
     sn_historical_read_state :=
       option_or (su_historical_read_state update) (sn_historical_read_state row),
     sn_next_reconciliation_deadline :=
       option_or (su_next_reconciliation_deadline update) (sn_next_reconciliation_deadline row),
     sn_last_decision_ref := option_or (su_last_decision_ref update) (sn_last_decision_ref row) \<rparr>"

definition compare_and_swap_session ::
  "py_str \<Rightarrow> session_fence \<Rightarrow> session_update \<Rightarrow> session_record cas_result tx" where
  "compare_and_swap_session session_id fence update =
     modify_session session_id (\<lambda>row.
       case check_session_fence row fence of
         Some conflict \<Rightarrow> Inr (conflict, row)
       | None \<Rightarrow>
           if sn_terminal_state row \<noteq> None
              \<and> (\<exists>name \<in> set (provided_fields update). name \<notin> POST_TERMINAL_MUTABLE_FIELDS)
           then Inl TerminalSessionOverwriteError
           else Inr (APPLIED, (set_provided update row)\<lparr> sn_revision := sn_revision row + 1 \<rparr>))"

definition update_lifecycle ::
  "py_str \<Rightarrow> session_fence \<Rightarrow> session_update \<Rightarrow> session_record tx" where
  "update_lifecycle session_id fence update =
     tx_bind (compare_and_swap_session session_id fence update) raise_for_session_conflict"

definition acquire_fencing_generation ::
  "py_str \<Rightarrow> fencing_scope \<Rightarrow> int \<Rightarrow> session_record tx" where
  "acquire_fencing_generation session_id scope expected_revision db =
     (if scope = CLEANUP then Inl InvalidArgument
      else write_session session_id (\<lambda>row.
        if sn_revision row \<noteq> expected_revision then Inl RevisionConflictError
        else let row' = (case scope of
               SESSION_SUPERVISOR \<Rightarrow> row\<lparr> sn_fencing_generation := sn_fencing_generation row + 1 \<rparr>
             | PROVIDER_PROFILE_LEASE \<Rightarrow> row\<lparr> sn_provider_profile_generation :=
                 Some (option_or (sn_provider_profile_generation row) 0 + 1) \<rparr>
             | HOST_LEASE \<Rightarrow> row\<lparr> sn_host_lease_generation :=
                 Some (option_or (sn_host_lease_generation row) 0 + 1) \<rparr>
             | CLEANUP \<Rightarrow> row)
             in Inr (row'\<lparr> sn_revision := sn_revision row + 1 \<rparr>)) db)"

definition recover_from_quarantine :: "py_str \<Rightarrow> int \<Rightarrow> int \<Rightarrow> session_record tx" where
  "recover_from_quarantine session_id expected_revision expected_fencing_generation =
     write_session session_id (\<lambda>row.
       if sn_historical_read_state row \<noteq> ''quarantined'' then Inr row
       else raise_conflict
         (check_session_fence row (supervisor_fence expected_revision expected_fencing_generation))
         (Inr (row\<lparr> sn_historical_read_state := ''live'',
                    sn_revision := sn_revision row + 1 \<rparr>)))"

definition advance_observation_frontier ::
  "py_str \<Rightarrow> int \<Rightarrow> int \<Rightarrow> py_str option option \<Rightarrow> py_str option option \<Rightarrow>
   session_record cas_result tx" where
  "advance_observation_frontier session_id expected_revision expected_fencing_generation
      provider_event_cursor snapshot_frontier =
     modify_session session_id (\<lambda>row.
       case check_session_fence row
              (supervisor_fence expected_revision expected_fencing_generation) of
         Some conflict \<Rightarrow> Inr (conflict, row)
       | None \<Rightarrow> Inr (APPLIED, row\<lparr>
           sn_provider_event_cursor := option_or provider_event_cursor (sn_provider_event_cursor row),
           sn_snapshot_frontier := option_or snapshot_frontier (sn_snapshot_frontier row),
           sn_revision := sn_revision row + 1 \<rparr>))"

section \<open>Terminality\<close>

definition mark_session_terminal ::
  "py_str \<Rightarrow> py_str \<Rightarrow> int \<Rightarrow> int \<Rightarrow> py_str option \<Rightarrow> session_record tx" where
  "mark_session_terminal session_id terminal_state expected_revision expected_fencing_generation
      terminal_evidence_ref =
     write_session session_id (\<lambda>row.
       if sn_terminal_state row \<noteq> None
       then (if sn_terminal_state row = Some terminal_state then Inr row
             else Inl TerminalSessionOverwriteError)
       else raise_conflict
         (check_session_fence row (supervisor_fence expected_revision expected_fencing_generation))
         (Inr (row\<lparr> sn_terminal_state := Some terminal_state,
                    sn_terminal_evidence_ref :=
                      (if terminal_evidence_ref \<noteq> None then terminal_evidence_ref
                       else sn_terminal_evidence_ref row),
                    sn_revision := sn_revision row + 1 \<rparr>)))"

definition attach_terminal_evidence ::
  "py_str \<Rightarrow> py_str \<Rightarrow> int \<Rightarrow> int \<Rightarrow> session_record tx" where
  "attach_terminal_evidence session_id terminal_evidence_ref expected_revision
      expected_fencing_generation =
     write_session session_id (\<lambda>row.
       if sn_terminal_state row = None then Inl TerminalSessionOverwriteError
       else if sn_fencing_generation row \<noteq> expected_fencing_generation
       then Inl FencingConflictError
       else if sn_terminal_evidence_ref row \<noteq> None
       then (if sn_terminal_evidence_ref row = Some terminal_evidence_ref then Inr row
             else Inl TerminalSessionOverwriteError)
       else raise_conflict
         (check_session_fence row (supervisor_fence expected_revision expected_fencing_generation))
         (Inr (row\<lparr> sn_terminal_evidence_ref := Some terminal_evidence_ref,
                    sn_revision := sn_revision row + 1 \<rparr>)))"

section \<open>What a write may do to a session\<close>

text \<open>
  The columns no operation writes, and the relation between the row before and after a write:
  identity is kept, authority is written once, a recorded terminal freezes the lifecycle, the
  supervisor generation never decreases, and a change other than allocating the chat handle takes
  the next revision.
\<close>

definition session_identity :: "session_record \<Rightarrow> py_str list \<times> int \<times> py_str option list" where
  "session_identity r = ([sn_session_id r, sn_moonmind_workflow_id r, sn_provider r],
     sn_schema_version r,
     [sn_moonmind_run_id r, sn_step_execution_id r, sn_moonmind_agent_run_id r,
      sn_compatibility_profile r, sn_intent_ref r, sn_intent_digest r, sn_compatibility_ref r,
      sn_image_manifest_ref r])"

definition session_lifecycle ::
  "session_record \<Rightarrow> py_str \<times> py_str option list \<times> datetime option" where
  "session_lifecycle r = (sn_desired_state r,
     [sn_observed_state r, sn_reconciled_state r, sn_active_turn_attempt_id r,
      sn_last_decision_ref r], sn_next_reconciliation_deadline r)"

definition session_row_ok :: "session_record \<Rightarrow> bool" where
  "session_row_ok r \<longleftrightarrow> sn_schema_version r = 1 \<and> 1 \<le> sn_revision r
     \<and> 0 \<le> sn_fencing_generation r
     \<and> (sn_terminal_state r = None \<longrightarrow> sn_terminal_evidence_ref r = None)"

text \<open>
  What no step takes away from a session. A terminal freezes the five lifecycle columns; the event
  cursor and the snapshot frontier still advance after it, and cleanup and archive follow it.
\<close>

definition session_authority_kept :: "session_record \<Rightarrow> session_record \<Rightarrow> bool" where
  "session_authority_kept r r' \<longleftrightarrow> session_identity r' = session_identity r
     \<and> sticky (sn_provider_session_ref r) (sn_provider_session_ref r')
     \<and> sticky (sn_terminal_state r) (sn_terminal_state r')
     \<and> sticky (sn_terminal_evidence_ref r) (sn_terminal_evidence_ref r')
     \<and> (sn_terminal_state r \<noteq> None \<longrightarrow> session_lifecycle r' = session_lifecycle r)
     \<and> sn_fencing_generation r \<le> sn_fencing_generation r'"

definition same_but_chat :: "session_record \<Rightarrow> session_record \<Rightarrow> bool" where
  "same_but_chat r r' \<longleftrightarrow> r' = r\<lparr> sn_chat_binding_id := sn_chat_binding_id r' \<rparr>"

definition session_moves :: "session_record \<Rightarrow> session_record \<Rightarrow> bool" where
  "session_moves r r' \<longleftrightarrow> session_authority_kept r r' \<and> session_row_ok r'
     \<and> sticky (sn_chat_binding_id r) (sn_chat_binding_id r')
     \<and> (sn_revision r' = sn_revision r + 1 \<or> same_but_chat r r')"

text \<open>The step of the store: an existing row moves, under the unique indexes.\<close>

definition session_write :: "control_store \<Rightarrow> control_store \<Rightarrow> bool" where
  "session_write db db' \<longleftrightarrow> (\<exists>row row'. map_of (db_sessions db) (sn_session_id row') = Some row
     \<and> session_moves row row' \<and> scope_unique db row' \<and> chat_binding_unique db row'
     \<and> db' = put_session row' db)"

definition session_created :: "control_store \<Rightarrow> control_store \<Rightarrow> bool" where
  "session_created db db' \<longleftrightarrow> (\<exists>row. sn_session_id row \<notin> session_keys db \<and> session_row_ok row
     \<and> sn_terminal_state row = None \<and> scope_unique db row \<and> chat_binding_unique db row
     \<and> db' = put_session row db)"

text \<open>The flush of an allocation that loaded the session earlier sets the handle, whatever it is by now.\<close>

definition chat_flushed :: "control_store \<Rightarrow> control_store \<Rightarrow> bool" where
  "chat_flushed db db' \<longleftrightarrow> (\<exists>row row' xs. map_of (db_sessions db) (sn_session_id row') = Some row
     \<and> session_row_ok row' \<and> same_but_chat row row' \<and> scope_unique db row' \<and> chat_binding_unique db row'
     \<and> sn_session_id row' \<in> fst ` set (db_allocations db) \<and> set xs \<subseteq> set (db_allocations db)
     \<and> db' = (put_session row' db)\<lparr> db_allocations := xs \<rparr>)"

definition sessions_ok :: "control_store \<Rightarrow> bool" where
  "sessions_ok db \<longleftrightarrow> session_table_ok db
     \<and> (\<forall>sid row. map_of (db_sessions db) sid = Some row \<longrightarrow> session_row_ok row)"

lemmas session_move_defs = session_moves_def session_authority_kept_def session_identity_def
  session_lifecycle_def same_but_chat_def

lemma session_moves_refl: "session_row_ok r \<Longrightarrow> session_moves r r"
  by (simp add: session_move_defs)

lemma authority_kept_trans:
  "session_authority_kept r s \<Longrightarrow> session_authority_kept s t \<Longrightarrow> session_authority_kept r t"
  unfolding session_authority_kept_def by (auto intro: sticky_trans elim!: sticky_trans)

lemma raise_conflict_None [simp]: "raise_conflict None k = k"
  by (simp add: raise_conflict_def)

lemma raise_conflict_Inr [simp]:
  "raise_conflict (check_session_fence row fence) k = Inr x \<longleftrightarrow>
     check_session_fence row fence = None \<and> k = Inr x"
  by (auto simp: raise_conflict_def check_session_fence_def)

lemma supervisor_fence_sel [simp]:
  "fe_revision (supervisor_fence n g) = n"
  "fe_fencing_generation (supervisor_fence n g) = g"
  "fe_provider_profile_generation (supervisor_fence n g) = None"
  "fe_host_lease_generation (supervisor_fence n g) = None"
  by (simp_all add: supervisor_fence_def)

lemma check_session_fence_None:
  "check_session_fence row fence = None \<longleftrightarrow>
     sn_fencing_generation row = fe_fencing_generation fence
     \<and> sn_revision row = fe_revision fence
     \<and> (fe_provider_profile_generation fence = None
        \<or> sn_provider_profile_generation row = fe_provider_profile_generation fence)
     \<and> (fe_host_lease_generation fence = None
        \<or> sn_host_lease_generation row = fe_host_lease_generation fence)"
  by (auto simp: check_session_fence_def)

lemma check_session_fence_conflict:
  "check_session_fence row fence = Some c \<Longrightarrow> c \<in> CONFLICT_OUTCOMES"
  by (auto simp: check_session_fence_def vocabulary split: if_splits)

text \<open>
  The unique indexes depend on three columns only, so a write that keeps them keeps uniqueness.
\<close>

lemma scope_unique_cong:
  "sn_session_id r' = sn_session_id r \<Longrightarrow> sn_moonmind_workflow_id r' = sn_moonmind_workflow_id r \<Longrightarrow>
   sn_provider_session_ref r' = sn_provider_session_ref r \<Longrightarrow> scope_unique db r' = scope_unique db r"
  by (simp add: scope_unique_def)

lemma chat_binding_unique_cong:
  "sn_session_id r' = sn_session_id r \<Longrightarrow> sn_chat_binding_id r' = sn_chat_binding_id r \<Longrightarrow>
   chat_binding_unique db r' = chat_binding_unique db r"
  by (simp add: chat_binding_unique_def)

lemma sessions_ok_row:
  assumes "sessions_ok db" and "map_of (db_sessions db) sid = Some row"
  shows "session_row_ok row" "sn_session_id row = sid" "scope_unique db row"
    "chat_binding_unique db row"
  using assms by (auto simp: sessions_ok_def session_table_ok_def dest!: map_of_SomeD)

text \<open>The form in which each operation below shows what it does.\<close>

lemma session_writeI:
  assumes "sessions_ok db" and "map_of (db_sessions db) sid = Some row" and "session_moves row row'"
    and "sn_provider_session_ref row' = sn_provider_session_ref row \<or> scope_unique db row'"
    and "sn_chat_binding_id row' = sn_chat_binding_id row \<or> chat_binding_unique db row'"
    and "db' = put_session row' db"
  shows "session_write db db'"
proof -
  have ids: "sn_session_id row' = sn_session_id row"
    "sn_moonmind_workflow_id row' = sn_moonmind_workflow_id row"
    using assms(3) by (simp_all add: session_move_defs)
  note row = sessions_ok_row [OF assms(1,2)]
  have "scope_unique db row'"
    using assms(4) scope_unique_cong [OF ids] row(3) by blast
  moreover have "chat_binding_unique db row'"
    using assms(5) chat_binding_unique_cong [OF ids(1)] row(4) by blast
  ultimately show ?thesis
    unfolding session_write_def using assms(2,3,6) ids(1) row(2) by metis
qed

section \<open>Every operation is such a write\<close>

named_theorems session_writes \<open>each operation of the session repository is a session write\<close>

lemma write_session_writes:
  assumes "sessions_ok db" and "write_session sid change db = Inr (r, db')"
    and "\<And>row. map_of (db_sessions db) sid = Some row \<Longrightarrow> session_row_ok row \<Longrightarrow> change row = Inr r \<Longrightarrow>
      session_moves row r
      \<and> (sn_provider_session_ref r = sn_provider_session_ref row \<or> scope_unique db r)
      \<and> (sn_chat_binding_id r = sn_chat_binding_id row \<or> chat_binding_unique db r)"
  shows "session_write db db'"
proof -
  obtain row where row: "map_of (db_sessions db) sid = Some row" "change row = Inr r"
    "db' = put_session r db"
    using assms(2) by (auto simp: write_session_Inr)
  from assms(3) [OF row(1) sessions_ok_row(1) [OF assms(1) row(1)] row(2)]
  show ?thesis using session_writeI [OF assms(1) row(1)] row(3) by blast
qed

lemma modify_session_writes:
  assumes "sessions_ok db" and "modify_session sid change db = Inr ((x, r), db')"
    and "\<And>row. session_row_ok row \<Longrightarrow> change row = Inr (x, r) \<Longrightarrow>
      session_moves row r \<and> sn_provider_session_ref r = sn_provider_session_ref row
      \<and> sn_chat_binding_id r = sn_chat_binding_id row"
  shows "session_write db db'"
proof -
  obtain row where row: "map_of (db_sessions db) sid = Some row" "change row = Inr (x, r)"
    "db' = put_session r db"
    using assms(2) by (auto simp: modify_session_Inr)
  from assms(3) [OF sessions_ok_row(1) [OF assms(1) row(1)] row(2)]
  show ?thesis using session_writeI [OF assms(1) row(1)] row(3) by blast
qed

lemma allocate_chat_binding_writes [session_writes]:
  assumes "sessions_ok db" and "allocate_chat_binding sid cb db = Inr (r, db')"
  shows "session_write db db'"
  using assms(2) unfolding allocate_chat_binding_def
  by (rule write_session_writes [OF assms(1)])
    (auto simp: bind_result_Inr_iff check_chat_binding_def set_chat_binding_def Let_def session_move_defs
      session_row_ok_def split: if_splits)

lemma flush_chat_binding_flushes:
  assumes "sessions_ok db" and "flush_chat_binding sid cb db = Inr (r, db')" and "(sid, cb) \<in> set (db_allocations db)"
  shows "chat_flushed db (db'\<lparr> db_allocations := remove1 (sid, cb) (db_allocations db') \<rparr>)"
proof -
  obtain row where row: "map_of (db_sessions db) sid = Some row" "r = row\<lparr> sn_chat_binding_id := Some cb \<rparr>"
    "chat_binding_unique db r" "db' = put_session r db"
    using assms(2) by (auto simp: flush_chat_binding_def write_session_Inr set_chat_binding_def Let_def split: if_splits)
  note ok = sessions_ok_row [OF assms(1) row(1)]
  have "scope_unique db r" using ok(3) row(2) scope_unique_cong [of r row db] by simp
  moreover have "session_row_ok r" using ok(1) row(2) by (simp add: session_row_ok_def)
  moreover have "sid \<in> fst ` set (db_allocations db)" using assms(3) by force
  ultimately show ?thesis
    unfolding chat_flushed_def using row ok(2)
    by (intro exI [of _ row] exI [of _ r] exI [of _ "remove1 (sid, cb) (db_allocations db)"])
      (simp add: same_but_chat_def set_remove1_subset)
qed

lemma attach_provider_session_writes [session_writes]:
  assumes "sessions_ok db" and "attach_provider_session sid ref n g db = Inr (r, db')"
  shows "session_write db db'"
  using assms(2) unfolding attach_provider_session_def
  by (rule write_session_writes [OF assms(1)])
    (auto simp: Let_def session_move_defs session_row_ok_def split: if_splits)

lemma acquire_fencing_generation_writes [session_writes]:
  assumes "sessions_ok db" and "acquire_fencing_generation sid scope n db = Inr (r, db')"
  shows "session_write db db'"
proof -
  have "write_session sid (\<lambda>row.
      if sn_revision row \<noteq> n then Inl RevisionConflictError
      else let row' = (case scope of
             SESSION_SUPERVISOR \<Rightarrow> row\<lparr> sn_fencing_generation := sn_fencing_generation row + 1 \<rparr>
           | PROVIDER_PROFILE_LEASE \<Rightarrow> row\<lparr> sn_provider_profile_generation :=
               Some (option_or (sn_provider_profile_generation row) 0 + 1) \<rparr>
           | HOST_LEASE \<Rightarrow> row\<lparr> sn_host_lease_generation :=
               Some (option_or (sn_host_lease_generation row) 0 + 1) \<rparr>
           | CLEANUP \<Rightarrow> row)
           in Inr (row'\<lparr> sn_revision := sn_revision row + 1 \<rparr>)) db = Inr (r, db')"
    using assms(2) by (simp add: acquire_fencing_generation_def split: if_splits)
  then show ?thesis
    by (rule write_session_writes [OF assms(1)])
      (auto simp: Let_def session_move_defs session_row_ok_def split: if_splits fencing_scope.splits)
qed

lemma recover_from_quarantine_writes [session_writes]:
  assumes "sessions_ok db" and "recover_from_quarantine sid n g db = Inr (r, db')"
  shows "session_write db db'"
  using assms(2) unfolding recover_from_quarantine_def
  by (rule write_session_writes [OF assms(1)])
    (auto simp: session_move_defs session_row_ok_def split: if_splits)

lemma mark_session_terminal_writes [session_writes]:
  assumes "sessions_ok db" and "mark_session_terminal sid t n g ev db = Inr (r, db')"
  shows "session_write db db'"
  using assms(2) unfolding mark_session_terminal_def
  by (rule write_session_writes [OF assms(1)])
    (auto simp: session_move_defs session_row_ok_def split: if_splits)

lemma attach_terminal_evidence_writes [session_writes]:
  assumes "sessions_ok db" and "attach_terminal_evidence sid ev n g db = Inr (r, db')"
  shows "session_write db db'"
  using assms(2) unfolding attach_terminal_evidence_def
  by (rule write_session_writes [OF assms(1)])
    (auto simp: session_move_defs session_row_ok_def split: if_splits)

lemma advance_observation_frontier_writes [session_writes]:
  assumes "sessions_ok db" and "advance_observation_frontier sid n g cur front db = Inr (res, db')"
  shows "session_write db db'"
proof -
  obtain x r where res: "res = (x, r)" by (cases res)
  from assms(2) show ?thesis unfolding advance_observation_frontier_def res
    by (rule modify_session_writes [OF assms(1)])
      (auto simp: session_move_defs session_row_ok_def split: option.splits)
qed

text \<open>After a terminal only the cleanup and archive columns are provided.\<close>

lemma provided_post_terminal:
  assumes "\<not> (\<exists>name \<in> set (provided_fields update). name \<notin> POST_TERMINAL_MUTABLE_FIELDS)"
  shows "session_lifecycle (set_provided update row) = session_lifecycle row"
proof -
  have "su_desired_state update = None \<and> su_observed_state update = None
      \<and> su_reconciled_state update = None \<and> su_active_turn_attempt_id update = None
      \<and> su_next_reconciliation_deadline update = None \<and> su_last_decision_ref update = None"
    using assms by (simp add: provided_fields_def POST_TERMINAL_MUTABLE_FIELDS_def split: if_splits)
  then show ?thesis by (simp add: session_lifecycle_def set_provided_def)
qed

lemma set_provided_frame [simp]:
  "session_identity (set_provided update row) = session_identity row"
  "sn_session_id (set_provided update row) = sn_session_id row"
  "sn_moonmind_workflow_id (set_provided update row) = sn_moonmind_workflow_id row"
  "sn_schema_version (set_provided update row) = sn_schema_version row"
  "sn_chat_binding_id (set_provided update row) = sn_chat_binding_id row"
  "sn_provider_session_ref (set_provided update row) = sn_provider_session_ref row"
  "sn_terminal_state (set_provided update row) = sn_terminal_state row"
  "sn_terminal_evidence_ref (set_provided update row) = sn_terminal_evidence_ref row"
  "sn_fencing_generation (set_provided update row) = sn_fencing_generation row"
  "sn_revision (set_provided update row) = sn_revision row"
  by (simp_all add: set_provided_def session_identity_def)

lemma revision_frame [simp]:
  "session_identity (row\<lparr> sn_revision := n \<rparr>) = session_identity row"
  "session_lifecycle (row\<lparr> sn_revision := n \<rparr>) = session_lifecycle row"
  by (simp_all add: session_identity_def session_lifecycle_def)

lemma compare_and_swap_session_writes [session_writes]:
  assumes "sessions_ok db" and "compare_and_swap_session sid fence update db = Inr (res, db')"
  shows "session_write db db'"
proof -
  obtain x r where res: "res = (x, r)" by (cases res)
  from assms(2) show ?thesis unfolding compare_and_swap_session_def res
    by (rule modify_session_writes [OF assms(1)])
      (auto simp: session_moves_def session_authority_kept_def same_but_chat_def session_row_ok_def
        provided_post_terminal split: option.splits if_splits)
qed

lemma update_lifecycle_writes [session_writes]:
  assumes "sessions_ok db" and "update_lifecycle sid fence update db = Inr (r, db')"
  shows "session_write db db'"
  using assms compare_and_swap_session_writes
  by (fastforce simp: update_lifecycle_def tx_bind_Inr raise_for_session_conflict_def
      split: if_splits)

lemma create_session_creates:
  assumes "create_session args db = Inr (r, db')"
  shows "session_created db db'"
  unfolding session_created_def
proof (intro exI [of _ "new_session_row args"] conjI)
  show "session_row_ok (new_session_row args)"
    by (simp add: session_row_ok_def new_session_row_def vocabulary)
qed (use assms in \<open>auto simp: create_session_def Let_def bind_result_Inr_iff session_integrity_def
  new_session_row_def split: if_splits\<close>)

lemma sessions_ok_allocations [simp]: "sessions_ok (db\<lparr> db_allocations := xs \<rparr>) = sessions_ok db"
  by (simp add: sessions_ok_def session_table_ok_def scope_unique_def chat_binding_unique_def)

lemma chat_flushed_ok: "sessions_ok db \<Longrightarrow> chat_flushed db db' \<Longrightarrow> sessions_ok db'"
  by (auto simp: chat_flushed_def) (auto simp: sessions_ok_def put_session_ok split: if_splits)

lemma chat_flushed_row:
  assumes "chat_flushed db db'" and "map_of (db_sessions db) sid = Some row"
  shows "\<exists>row'. map_of (db_sessions db') sid = Some row' \<and> same_but_chat row row'
    \<and> (sid \<notin> fst ` set (db_allocations db) \<longrightarrow> row' = row)"
proof -
  have "same_but_chat row row" by (simp add: same_but_chat_def)
  moreover obtain row1 row' where "map_of (db_sessions db) (sn_session_id row') = Some row1" "same_but_chat row1 row'"
    "sn_session_id row' \<in> fst ` set (db_allocations db)" "db_sessions db' = db_sessions (put_session row' db)"
    using assms(1) by (force simp: chat_flushed_def)
  ultimately show ?thesis using assms(2) by (cases "sid = sn_session_id row'") auto
qed

text \<open>Writes and creations keep the table and move every other row nowhere.\<close>

lemma session_write_ok: "sessions_ok db \<Longrightarrow> session_write db db' \<Longrightarrow> sessions_ok db'"
  by (auto simp: session_write_def sessions_ok_def put_session_ok session_moves_def split: if_splits)

lemma session_created_ok: "sessions_ok db \<Longrightarrow> session_created db db' \<Longrightarrow> sessions_ok db'"
  by (auto simp: session_created_def sessions_ok_def put_session_ok split: if_splits)

lemma session_write_row:
  assumes "sessions_ok db" and "session_write db db'" and "map_of (db_sessions db) sid = Some row"
  shows "\<exists>row'. map_of (db_sessions db') sid = Some row' \<and> session_moves row row'"
  using assms sessions_ok_row(1) [OF assms(1,3)]
  by (auto simp: session_write_def intro: session_moves_refl)

lemma session_created_row:
  assumes "session_created db db'" and "map_of (db_sessions db) sid = Some row"
  shows "map_of (db_sessions db') sid = Some row"
proof -
  have "sid \<in> session_keys db" using map_of_SomeD [OF assms(2)] by (force simp: session_keys_def)
  then show ?thesis using assms by (auto simp: session_created_def)
qed

section \<open>Reads\<close>

lemma one_session_found:
  assumes "sessions_ok db" and "map_of (db_sessions db) sid = Some row" and "selected row"
    and "\<And>j w. (j, w) \<in> set (db_sessions db) \<Longrightarrow> selected w \<Longrightarrow> j = sid"
  shows "one_session selected db = Inr (Some row)"
proof -
  have "distinct (map fst (db_sessions db))"
    using assms(1) by (simp add: sessions_ok_def session_table_ok_def)
  then have "filter selected (map snd (db_sessions db)) = [row]"
    by (rule filter_values_single [where P = selected, OF _ map_of_SomeD [OF assms(2)] assms(3)])
      (rule assms(4))
  moreover have "sn_schema_version row = 1"
    using sessions_ok_row(1) [OF assms(1,2)] by (simp add: session_row_ok_def)
  ultimately show ?thesis by (simp add: one_session_def)
qed

lemma get_by_chat_binding_found:
  assumes "sessions_ok db" and "map_of (db_sessions db) sid = Some row"
    and "sn_chat_binding_id row = Some cb"
  shows "get_by_chat_binding cb db = Inr (Some row)"
  unfolding get_by_chat_binding_def
proof (rule one_session_found [OF assms(1,2)])
  fix j w assume "(j, w) \<in> set (db_sessions db)" "sn_chat_binding_id w = Some cb"
  then show "j = sid"
    using sessions_ok_row(2,4) [OF assms(1,2)] assms(3) by (auto simp: chat_binding_unique_def)
qed (simp add: assms(3))

lemma get_by_scope_found:
  assumes "sessions_ok db" and "map_of (db_sessions db) sid = Some row"
    and "sn_provider_session_ref row = Some ref"
  shows "get_by_scope (sn_moonmind_workflow_id row) (Some ref) db = Inr (Some row)"
  unfolding get_by_scope_def if_not_P [OF option.distinct(2)]
proof (rule one_session_found [OF assms(1,2)])
  fix j w assume "(j, w) \<in> set (db_sessions db)"
    "sn_moonmind_workflow_id w = sn_moonmind_workflow_id row \<and> sn_provider_session_ref w = Some ref"
  then show "j = sid"
    using sessions_ok_row(2,3) [OF assms(1,2)] assms(3) by (auto simp: scope_unique_def)
qed (simp add: assms(3))

text \<open>
  A handle resolves to the session that owns it: once the chat handle of a session is
  allocated, or its provider session attached, the lookup by that handle, or by workflow and
  provider session, finds exactly that session, whatever else the tables hold.
\<close>

theorem session_handles_resolve:
  assumes "sessions_ok db"
  shows "(allocate_chat_binding sid cb db = Inr (r, db1) \<longrightarrow>
            sn_session_id r = sid \<and> sn_chat_binding_id r = Some cb
            \<and> get_by_chat_binding cb db1 = Inr (Some r))
       \<and> (attach_provider_session sid ref n g db = Inr (r, db2) \<longrightarrow>
            sn_session_id r = sid \<and> sn_provider_session_ref r = Some ref
            \<and> get_by_scope (sn_moonmind_workflow_id r) (Some ref) db2 = Inr (Some r))"
proof (intro conjI impI, goal_cases)
  case a: 1
  then show ?case
    using sessions_ok_row(2) [OF assms]
    by (auto simp: allocate_chat_binding_def write_session_Inr bind_result_Inr_iff check_chat_binding_def
        set_chat_binding_def Let_def split: if_splits)
next
  case a: 2
  then show ?case
    by (auto simp: allocate_chat_binding_def write_session_Inr bind_result_Inr_iff check_chat_binding_def
        set_chat_binding_def Let_def split: if_splits)
next
  case a: 3
  then have "sn_chat_binding_id r = Some cb" "db1 = put_session r db"
    by (auto simp: allocate_chat_binding_def write_session_Inr bind_result_Inr_iff check_chat_binding_def
        set_chat_binding_def Let_def split: if_splits)
  then show ?case
    using session_write_ok [OF assms allocate_chat_binding_writes [OF assms a]]
    by (simp add: get_by_chat_binding_found [of _ "sn_session_id r"])
next
  case a: 4
  then show ?case
    using sessions_ok_row(2) [OF assms]
    by (auto simp: attach_provider_session_def write_session_Inr Let_def split: if_splits)
next
  case a: 5
  then show ?case
    by (auto simp: attach_provider_session_def write_session_Inr Let_def split: if_splits)
next
  case a: 6
  then have "sn_provider_session_ref r = Some ref" "db2 = put_session r db"
    by (auto simp: attach_provider_session_def write_session_Inr Let_def split: if_splits)
  then show ?case
    using session_write_ok [OF assms attach_provider_session_writes [OF assms a]]
    by (simp add: get_by_scope_found [of _ "sn_session_id r"])
qed

definition example_session :: session_record where
  "example_session = new_session_row (new_session_default ''s1'' ''wf1'' ''codex'')"

definition example_store :: control_store where
  "example_store = put_session example_session empty_store"

lemma example_store_ok: "sessions_ok example_store"
  by (simp add: sessions_ok_def session_table_ok_def example_store_def empty_store_def
      put_session_def example_session_def new_session_row_def new_session_default_def
      scope_unique_def chat_binding_unique_def session_row_ok_def vocabulary)

lemma session_handles_resolve_witness:
  "\<exists>r db1. allocate_chat_binding ''s1'' ''chat1'' example_store = Inr (r, db1)
     \<and> get_by_chat_binding ''chat1'' db1 = Inr (Some r)"
proof -
  have "\<exists>r db1. allocate_chat_binding ''s1'' ''chat1'' example_store = Inr (r, db1)"
    by (simp add: allocate_chat_binding_def write_session_Inr check_chat_binding_def set_chat_binding_def
        example_store_def empty_store_def
        put_session_def example_session_def new_session_row_def new_session_default_def Let_def
        chat_binding_unique_def vocabulary)
  then show ?thesis using session_handles_resolve [OF example_store_ok] by blast
qed

end
