(* ===== verification/Control_Plane_Runtime_Authority.thy ===== *)
theory Control_Plane_Runtime_Authority
  imports Control_Plane_Sessions
begin

text \<open>
  The two writers of runtime authority of \<open>SessionRepository\<close>,
  \<^verbatim>\<open>moonmind/omnigent/control_plane/repositories.py\<close>: binding provider, host and plan references
  under the supervisor fence, and replacing the Provider Profile lease of a session that has no
  live host or provider session.
\<close>

section \<open>Binding\<close>

record runtime_authority =
  ra_provider_profile_id :: "py_str option option"
  ra_host_binding_ref :: "py_str option option"
  ra_host_lease_ref :: "py_str option option"
  ra_credential_generation :: "int option option"
  ra_provider_profile_generation :: "int option option"
  ra_host_lease_generation :: "int option option"
  ra_execution_plan_ref :: "py_str option option"
  ra_runtime_binding_ref :: "py_str option option"
  ra_metadata_patch :: "(py_str \<times> json) list"

definition no_authority :: runtime_authority where
  "no_authority = \<lparr> ra_provider_profile_id = None, ra_host_binding_ref = None,
     ra_host_lease_ref = None, ra_credential_generation = None,
     ra_provider_profile_generation = None, ra_host_lease_generation = None,
     ra_execution_plan_ref = None, ra_runtime_binding_ref = None, ra_metadata_patch = [] \<rparr>"

text \<open>\<open>dict.get\<close>: a missing key reads as null.\<close>

definition meta_get :: "(py_str \<times> json) list \<Rightarrow> py_str \<Rightarrow> json" where
  "meta_get m k = option_or (map_of m k) JNull"

text \<open>A given runtime binding has to exist, belong to the plan, and not replace another.\<close>

definition check_runtime_binding ::
  "control_store \<Rightarrow> runtime_authority \<Rightarrow> session_record \<Rightarrow> unit cp_result" where
  "check_runtime_binding db args row =
     (case ra_runtime_binding_ref args of
        Some (Some binding_ref) \<Rightarrow>
          (case map_of (db_runtime_bindings db) binding_ref of
             None \<Rightarrow> Inl ConflictingSessionAuthorityError
           | Some binding_plan_ref \<Rightarrow>
               let intended = option_or (ra_execution_plan_ref args) (sn_execution_plan_ref row) in
               if intended = None \<or> Some binding_plan_ref \<noteq> intended
               then Inl ConflictingSessionAuthorityError
               else if sn_runtime_binding_ref row \<notin> {None, Some binding_ref}
               then Inl ConflictingSessionAuthorityError
               else Inr ())
      | _ \<Rightarrow> Inr ())"

definition field_agrees :: "'a option \<Rightarrow> 'a option option \<Rightarrow> bool" where
  "field_agrees existing given \<longleftrightarrow> (case given of None \<Rightarrow> True | Some v \<Rightarrow> existing = v)"

definition already_bound :: "runtime_authority \<Rightarrow> session_record \<Rightarrow> bool" where
  "already_bound args row \<longleftrightarrow>
     field_agrees (sn_provider_profile_id row) (ra_provider_profile_id args)
     \<and> field_agrees (sn_host_binding_ref row) (ra_host_binding_ref args)
     \<and> field_agrees (sn_host_lease_ref row) (ra_host_lease_ref args)
     \<and> field_agrees (sn_credential_generation row) (ra_credential_generation args)
     \<and> field_agrees (sn_provider_profile_generation row) (ra_provider_profile_generation args)
     \<and> field_agrees (sn_host_lease_generation row) (ra_host_lease_generation args)
     \<and> field_agrees (sn_execution_plan_ref row) (ra_execution_plan_ref args)
     \<and> list_all (\<lambda>(key, v). json_eq (meta_get (sn_metadata row) key) v) (ra_metadata_patch args)
     \<and> field_agrees (sn_runtime_binding_ref row) (ra_runtime_binding_ref args)"

definition provides_something :: "runtime_authority \<Rightarrow> bool" where
  "provides_something args \<longleftrightarrow>
     ra_provider_profile_id args \<noteq> None \<or> ra_host_binding_ref args \<noteq> None
     \<or> ra_host_lease_ref args \<noteq> None \<or> ra_credential_generation args \<noteq> None
     \<or> ra_provider_profile_generation args \<noteq> None \<or> ra_host_lease_generation args \<noteq> None
     \<or> ra_execution_plan_ref args \<noteq> None \<or> ra_metadata_patch args \<noteq> []
     \<or> ra_runtime_binding_ref args \<noteq> None"

text \<open>A field conflicts when both its value and the given one are set and differ.\<close>

definition field_conflicts :: "'a option \<Rightarrow> 'a option option \<Rightarrow> bool" where
  "field_conflicts existing given \<longleftrightarrow>
     (case given of Some (Some v) \<Rightarrow> existing \<noteq> None \<and> existing \<noteq> Some v | _ \<Rightarrow> False)"

definition authority_conflicts :: "runtime_authority \<Rightarrow> session_record \<Rightarrow> bool" where
  "authority_conflicts args row \<longleftrightarrow>
     field_conflicts (sn_provider_profile_id row) (ra_provider_profile_id args)
     \<or> field_conflicts (sn_host_binding_ref row) (ra_host_binding_ref args)
     \<or> field_conflicts (sn_host_lease_ref row) (ra_host_lease_ref args)
     \<or> field_conflicts (sn_credential_generation row) (ra_credential_generation args)
     \<or> field_conflicts (sn_provider_profile_generation row) (ra_provider_profile_generation args)
     \<or> field_conflicts (sn_host_lease_generation row) (ra_host_lease_generation args)
     \<or> field_conflicts (sn_execution_plan_ref row) (ra_execution_plan_ref args)"

definition set_authority :: "runtime_authority \<Rightarrow> session_record \<Rightarrow> session_record" where
  "set_authority args row = row\<lparr>
     sn_provider_profile_id := option_or (ra_provider_profile_id args) (sn_provider_profile_id row),
     sn_host_binding_ref := option_or (ra_host_binding_ref args) (sn_host_binding_ref row),
     sn_host_lease_ref := option_or (ra_host_lease_ref args) (sn_host_lease_ref row),
     sn_credential_generation :=
       option_or (ra_credential_generation args) (sn_credential_generation row),
     sn_provider_profile_generation :=
       option_or (ra_provider_profile_generation args) (sn_provider_profile_generation row),
     sn_host_lease_generation :=
       option_or (ra_host_lease_generation args) (sn_host_lease_generation row),
     sn_execution_plan_ref := option_or (ra_execution_plan_ref args) (sn_execution_plan_ref row),
     sn_runtime_binding_ref :=
       option_or (ra_runtime_binding_ref args) (sn_runtime_binding_ref row) \<rparr>"

definition MUTABLE_BINDING_PROJECTION :: "py_str set" where
  "MUTABLE_BINDING_PROJECTION = {''runtimeBindingRef'', ''runtimeBindingRevision'',
     ''runtimeBindingFencingGeneration'', ''runtimeBindingState''}"

definition metadata_conflicts :: "(py_str \<times> json) list \<Rightarrow> (py_str \<times> json) list \<Rightarrow> bool" where
  "metadata_conflicts metadata patch \<longleftrightarrow> list_ex (\<lambda>(key, v).
     meta_get metadata key \<noteq> JNull \<and> v \<noteq> JNull \<and> \<not> json_eq (meta_get metadata key) v
     \<and> key \<notin> MUTABLE_BINDING_PROJECTION) patch"

definition update_metadata ::
  "(py_str \<times> json) list \<Rightarrow> (py_str \<times> json) list \<Rightarrow> (py_str \<times> json) list" where
  "update_metadata metadata patch = foldl (\<lambda>m (key, v). dict_set key v m) metadata patch"

definition patch_metadata ::
  "(py_str \<times> json) list \<Rightarrow> (py_str \<times> json) list \<Rightarrow> (py_str \<times> json) list cp_result" where
  "patch_metadata metadata patch =
     (let next_revision = meta_get patch ''runtimeBindingRevision'';
          current_revision = meta_get metadata ''runtimeBindingRevision'';
          continue = (if metadata_conflicts metadata patch then Inl ConflictingSessionAuthorityError
                      else Inr (update_metadata metadata patch))
      in if next_revision \<noteq> JNull \<and> current_revision \<noteq> JNull
         then (case (py_int next_revision, py_int current_revision) of
                 (Some n, Some c) \<Rightarrow> if n < c then Inl FencingConflictError else continue
               | _ \<Rightarrow> Inl InvalidArgument)
         else continue)"

definition bind_runtime_authority ::
  "py_str \<Rightarrow> int \<Rightarrow> int \<Rightarrow> runtime_authority \<Rightarrow> session_record tx" where
  "bind_runtime_authority session_id expected_revision expected_fencing_generation args db =
     write_session session_id (\<lambda>row.
       bind_result (check_runtime_binding db args row) (\<lambda>_.
         if already_bound args row \<and> provides_something args then Inr row
         else raise_conflict
           (check_session_fence row
              (supervisor_fence expected_revision expected_fencing_generation))
           (if authority_conflicts args row then Inl ConflictingSessionAuthorityError
            else bind_result (patch_metadata (sn_metadata row) (ra_metadata_patch args)) (\<lambda>metadata.
              let row' = (set_authority args row)\<lparr> sn_metadata := metadata,
                            sn_revision := sn_revision row + 1 \<rparr> in
              if \<not> session_refs_exist db row' then Inl IntegrityViolation else Inr row')))) db"

section \<open>Replacing the Provider Profile lease\<close>

definition int_or_zero :: "json \<Rightarrow> int option" where
  "int_or_zero x = (if json_truthy x then py_int x else Some 0)"

definition REPLACEMENT_IMMUTABLE_KEYS :: "py_str list" where
  "REPLACEMENT_IMMUTABLE_KEYS = [''executionPlanRef'', ''providerLeaseOwnerId'', ''providerRuntimeId'']"

definition replacement_is_newer ::
  "(py_str \<times> json) list \<Rightarrow> (py_str \<times> json) list \<Rightarrow> bool cp_result" where
  "replacement_is_newer metadata patch =
     (case (int_or_zero (meta_get metadata ''runtimeBindingRevision''),
            int_or_zero (meta_get metadata ''runtimeBindingFencingGeneration''),
            int_or_zero (meta_get patch ''runtimeBindingRevision''),
            int_or_zero (meta_get patch ''runtimeBindingFencingGeneration'')) of
        (Some current_revision, Some current_fence, Some next_revision, Some next_fence) \<Rightarrow>
          Inr (\<not> (next_revision \<le> current_revision \<or> next_fence \<le> current_fence))
      | _ \<Rightarrow> Inl InvalidArgument)"

definition replace_provider_runtime_authority ::
  "py_str \<Rightarrow> int \<Rightarrow> int \<Rightarrow> int \<Rightarrow> py_str \<Rightarrow> int \<Rightarrow> (py_str \<times> json) list \<Rightarrow> session_record tx" where
  "replace_provider_runtime_authority session_id expected_revision expected_fencing_generation
      expected_provider_profile_generation provider_profile_id credential_generation metadata_patch =
     write_session session_id (\<lambda>row. raise_conflict
       (check_session_fence row
          \<lparr> fe_revision = expected_revision, fe_fencing_generation = expected_fencing_generation,
            fe_provider_profile_generation = Some expected_provider_profile_generation,
            fe_host_lease_generation = None \<rparr>)
       (if sn_provider_profile_id row \<notin> {None, Some provider_profile_id}
        then Inl ConflictingSessionAuthorityError
        else if sn_host_binding_ref row \<noteq> None \<or> sn_host_lease_ref row \<noteq> None
                \<or> sn_provider_session_ref row \<noteq> None
        then Inl ConflictingSessionAuthorityError
        else bind_result (replacement_is_newer (sn_metadata row) metadata_patch) (\<lambda>newer.
          if \<not> newer then Inl FencingConflictError
          else if list_ex (\<lambda>key. meta_get (sn_metadata row) key \<noteq> JNull
                    \<and> meta_get metadata_patch key \<noteq> JNull
                    \<and> \<not> json_eq (meta_get (sn_metadata row) key) (meta_get metadata_patch key))
                  REPLACEMENT_IMMUTABLE_KEYS
          then Inl ConflictingSessionAuthorityError
          else Inr (row\<lparr> sn_provider_profile_id := Some provider_profile_id,
                 sn_credential_generation := Some credential_generation,
                 sn_metadata := update_metadata (sn_metadata row) metadata_patch,
                 sn_revision := sn_revision row + 1 \<rparr>))))"

section \<open>Both are session writes\<close>

lemma set_authority_frame [simp]:
  "session_identity (set_authority args row) = session_identity row"
  "session_lifecycle (set_authority args row) = session_lifecycle row"
  "sn_schema_version (set_authority args row) = sn_schema_version row"
  "sn_chat_binding_id (set_authority args row) = sn_chat_binding_id row"
  "sn_provider_session_ref (set_authority args row) = sn_provider_session_ref row"
  "sn_terminal_state (set_authority args row) = sn_terminal_state row"
  "sn_terminal_evidence_ref (set_authority args row) = sn_terminal_evidence_ref row"
  "sn_fencing_generation (set_authority args row) = sn_fencing_generation row"
  by (simp_all add: set_authority_def session_identity_def session_lifecycle_def)

lemma metadata_frame [simp]:
  "session_identity (row\<lparr> sn_metadata := m \<rparr>) = session_identity row"
  "session_lifecycle (row\<lparr> sn_metadata := m \<rparr>) = session_lifecycle row"
  by (simp_all add: session_identity_def session_lifecycle_def)

lemma bind_runtime_authority_writes [session_writes]:
  assumes "sessions_ok db" and "bind_runtime_authority sid n g args db = Inr (r, db')"
  shows "session_write db db'"
  using assms(2) unfolding bind_runtime_authority_def
  by (rule write_session_writes [OF assms(1)])
    (auto simp: Let_def session_moves_def session_authority_kept_def same_but_chat_def
      session_row_ok_def bind_result_Inr_iff split: if_splits)

lemma replace_provider_runtime_authority_writes [session_writes]:
  assumes "sessions_ok db"
    and "replace_provider_runtime_authority sid n g pg profile cg patch db = Inr (r, db')"
  shows "session_write db db'"
  using assms(2) unfolding replace_provider_runtime_authority_def
  by (rule write_session_writes [OF assms(1)])
    (auto simp: session_move_defs session_row_ok_def bind_result_Inr_iff split: if_splits)

section \<open>What binding guarantees\<close>

text \<open>
  A bound reference stays unless null is given for it explicitly, and a given reference is bound.
\<close>

definition field_bound :: "'a option \<Rightarrow> 'a option option \<Rightarrow> 'a option \<Rightarrow> bool" where
  "field_bound old given new \<longleftrightarrow>
     (case given of None \<Rightarrow> new = old | Some v \<Rightarrow> new = v \<and> (v = None \<or> sticky old new))"

definition authority_bound :: "session_record \<Rightarrow> runtime_authority \<Rightarrow> session_record \<Rightarrow> bool" where
  "authority_bound row args r \<longleftrightarrow>
     field_bound (sn_provider_profile_id row) (ra_provider_profile_id args) (sn_provider_profile_id r)
     \<and> field_bound (sn_host_binding_ref row) (ra_host_binding_ref args) (sn_host_binding_ref r)
     \<and> field_bound (sn_host_lease_ref row) (ra_host_lease_ref args) (sn_host_lease_ref r)
     \<and> field_bound (sn_credential_generation row) (ra_credential_generation args)
         (sn_credential_generation r)
     \<and> field_bound (sn_provider_profile_generation row) (ra_provider_profile_generation args)
         (sn_provider_profile_generation r)
     \<and> field_bound (sn_host_lease_generation row) (ra_host_lease_generation args)
         (sn_host_lease_generation r)
     \<and> field_bound (sn_execution_plan_ref row) (ra_execution_plan_ref args) (sn_execution_plan_ref r)
     \<and> field_bound (sn_runtime_binding_ref row) (ra_runtime_binding_ref args)
         (sn_runtime_binding_ref r)"

lemma field_bound_set:
  "\<not> field_conflicts old given \<Longrightarrow> field_bound old given (option_or given old)"
  by (auto simp: field_bound_def field_conflicts_def sticky_def split: option.splits)

lemma field_bound_agrees: "field_agrees old given \<Longrightarrow> field_bound old given old"
  by (auto simp: field_bound_def field_agrees_def split: option.splits)

lemma field_bound_runtime_binding:
  assumes "check_runtime_binding db args row = Inr u"
  shows "field_bound (sn_runtime_binding_ref row) (ra_runtime_binding_ref args)
     (option_or (ra_runtime_binding_ref args) (sn_runtime_binding_ref row))"
  using assms by (auto simp: check_runtime_binding_def field_bound_def sticky_def Let_def
      split: option.splits if_splits)

lemma set_authority_bound:
  assumes "\<not> authority_conflicts args row" and "check_runtime_binding db args row = Inr u"
  shows "authority_bound row args ((set_authority args row)\<lparr> sn_metadata := m, sn_revision := n \<rparr>)"
  using assms(1) field_bound_runtime_binding [OF assms(2)]
  by (simp add: authority_bound_def authority_conflicts_def set_authority_def field_bound_set)

lemma already_bound_bound: "already_bound args row \<Longrightarrow> authority_bound row args row"
  by (simp add: authority_bound_def already_bound_def field_bound_agrees)

text \<open>
  C31. Binding runtime authority writes only under the current revision and supervisor generation
  and takes the next revision, or is an exact replay that changes nothing. Either way a reference that
  is given with a value is bound and has not replaced a different one, a reference that is not given
  keeps its value, a reference that is given as an explicit null is null afterwards, also where one was
  bound, and a bound runtime binding is one that exists and belongs to the plan of the session.
\<close>

theorem bind_runtime_authority_sound:
  assumes "sessions_ok db" and "map_of (db_sessions db) sid = Some row"
    and "bind_runtime_authority sid n g args db = Inr (r, db')"
  shows "authority_bound row args r
     \<and> (r = row \<and> db' = db
        \<or> sn_revision row = n \<and> sn_fencing_generation row = g \<and> sn_revision r = n + 1
          \<and> session_refs_exist db r)
     \<and> (\<forall>b. ra_runtime_binding_ref args = Some (Some b) \<longrightarrow>
          sn_runtime_binding_ref r = Some b
          \<and> map_of (db_runtime_bindings db) b = sn_execution_plan_ref r)"
proof -
  obtain u where chk: "check_runtime_binding db args row = Inr u"
    and res: "r = row \<and> already_bound args row \<or>
      check_session_fence row (supervisor_fence n g) = None \<and> \<not> authority_conflicts args row
      \<and> (\<exists>m. r = (set_authority args row)\<lparr> sn_metadata := m, sn_revision := sn_revision row + 1 \<rparr>)
      \<and> session_refs_exist db r"
    and db': "db' = put_session r db"
    using assms(2,3)
    by (auto simp: bind_runtime_authority_def write_session_Inr bind_result_Inr_iff Let_def
        split: if_splits)
  have bound: "authority_bound row args r"
    using res set_authority_bound [OF _ chk] already_bound_bound by blast
  have plan: "sn_execution_plan_ref r =
      option_or (ra_execution_plan_ref args) (sn_execution_plan_ref row)"
    using bound by (auto simp: authority_bound_def field_bound_def split: option.splits)
  have "sn_runtime_binding_ref r = Some b \<and> map_of (db_runtime_bindings db) b = sn_execution_plan_ref r"
    if "ra_runtime_binding_ref args = Some (Some b)" for b
    using that chk bound plan
    by (auto simp: check_runtime_binding_def authority_bound_def field_bound_def Let_def
        split: option.splits if_splits)
  moreover have "put_session row db = db"
    using assms(1,2) put_session_self by (auto simp: sessions_ok_def)
  ultimately show ?thesis
    using res bound db' by (auto simp: check_session_fence_None)
qed

text \<open>A plan reference is replaced by clearing it and binding another.\<close>

definition plan_authority :: "py_str option \<Rightarrow> runtime_authority" where
  "plan_authority plan = no_authority\<lparr> ra_execution_plan_ref := Some plan \<rparr>"

lemma bind_plan:
  assumes "sessions_ok db" and "map_of (db_sessions db) sid = Some row"
    and "sn_execution_plan_ref row \<noteq> plan" and "plan = None \<or> sn_execution_plan_ref row = None"
    and "foreign_ok plan (set (db_execution_plans db))"
    and "foreign_ok (sn_runtime_binding_ref row) (fst ` set (db_runtime_bindings db))"
    and "r = row\<lparr> sn_execution_plan_ref := plan, sn_revision := sn_revision row + 1 \<rparr>"
  shows "bind_runtime_authority sid (sn_revision row) (sn_fencing_generation row)
      (plan_authority plan) db = Inr (r, put_session r db)"
proof -
  have [simp]: "sn_schema_version row = 1"
    using sessions_ok_row(1) [OF assms(1,2)] by (simp add: session_row_ok_def)
  show ?thesis
    using assms(2-6)
    by (auto simp: assms(7) bind_runtime_authority_def write_session_Inr plan_authority_def
        no_authority_def check_runtime_binding_def already_bound_def field_agrees_def
        check_session_fence_def authority_conflicts_def field_conflicts_def patch_metadata_def
        meta_get_def metadata_conflicts_def update_metadata_def session_refs_exist_def
        set_authority_def Let_def split: option.splits)
qed

text \<open>
  The execution plan of a session, which the schema calls immutable, can be replaced: a caller
  that holds the current revision and generation clears it by binding null and then binds any
  other plan, and both calls succeed.
\<close>

theorem execution_plan_replaced_in_two_binds:
  assumes "sessions_ok db" and "map_of (db_sessions db) sid = Some row"
    and "sn_execution_plan_ref row = Some p" and "q \<in> set (db_execution_plans db)"
    and "foreign_ok (sn_runtime_binding_ref row) (fst ` set (db_runtime_bindings db))"
  shows "\<exists>r1 db1 r2 db2.
     bind_runtime_authority sid (sn_revision row) (sn_fencing_generation row)
       (plan_authority None) db = Inr (r1, db1)
     \<and> bind_runtime_authority sid (sn_revision r1) (sn_fencing_generation r1)
         (plan_authority (Some q)) db1 = Inr (r2, db2)
     \<and> sn_execution_plan_ref r2 = Some q"
proof -
  let ?r1 = "row\<lparr> sn_execution_plan_ref := None, sn_revision := sn_revision row + 1 \<rparr>"
  let ?db1 = "put_session ?r1 db"
  have id: "sn_session_id row = sid" using sessions_ok_row(2) [OF assms(1,2)] .
  have one: "bind_runtime_authority sid (sn_revision row) (sn_fencing_generation row)
      (plan_authority None) db = Inr (?r1, ?db1)"
    using assms by (intro bind_plan) (simp_all add: foreign_ok_def)
  have ok: "sessions_ok ?db1"
    using session_write_ok [OF assms(1) bind_runtime_authority_writes [OF assms(1) one]] .
  have "\<exists>r2. bind_runtime_authority sid (sn_revision ?r1) (sn_fencing_generation ?r1)
      (plan_authority (Some q)) ?db1 = Inr (r2, put_session r2 ?db1)
      \<and> sn_execution_plan_ref r2 = Some q"
    by (rule exI [of _ "?r1\<lparr> sn_execution_plan_ref := Some q, sn_revision := sn_revision ?r1 + 1 \<rparr>"],
        intro conjI bind_plan) (use ok assms id in \<open>simp_all add: foreign_ok_def\<close>)
  with one show ?thesis by blast
qed

definition example_bound_session :: session_record where
  "example_bound_session = example_session\<lparr> sn_execution_plan_ref := Some ''plan1'' \<rparr>"

definition example_bound_store :: control_store where
  "example_bound_store =
     (put_session example_bound_session empty_store)\<lparr> db_execution_plans := [''plan1'', ''plan2''] \<rparr>"

lemma example_bound_lookup:
  "map_of (db_sessions example_bound_store) ''s1'' = Some example_bound_session"
  by (simp add: example_bound_store_def example_bound_session_def example_session_def
      new_session_row_def new_session_default_def put_session_def empty_store_def)

lemma example_bound_store_ok: "sessions_ok example_bound_store"
  by (simp add: sessions_ok_def session_table_ok_def example_bound_store_def empty_store_def
      put_session_def example_bound_session_def example_session_def new_session_row_def
      new_session_default_def scope_unique_def chat_binding_unique_def session_row_ok_def vocabulary)

lemmas example_bound_simps = example_bound_session_def example_session_def new_session_row_def
  new_session_default_def example_bound_store_def

lemma execution_plan_replaced_in_two_binds_witness:
  "\<exists>r1 db1 r2 db2.
     bind_runtime_authority ''s1'' 1 0 (plan_authority None) example_bound_store = Inr (r1, db1)
     \<and> bind_runtime_authority ''s1'' (sn_revision r1) (sn_fencing_generation r1)
         (plan_authority (Some ''plan2'')) db1 = Inr (r2, db2)
     \<and> sn_execution_plan_ref r2 = Some ''plan2''"
  using execution_plan_replaced_in_two_binds
    [OF example_bound_store_ok example_bound_lookup, of "''plan1''" "''plan2''"]
  by (simp add: example_bound_simps foreign_ok_def)

text \<open>A profile and a runtime binding of the plan are bound; the plan, not given, is kept.\<close>

definition example_binding_args :: runtime_authority where
  "example_binding_args = no_authority\<lparr> ra_provider_profile_id := Some (Some ''profile1''),
     ra_runtime_binding_ref := Some (Some ''binding1'') \<rparr>"

definition example_binding_store :: control_store where
  "example_binding_store = example_bound_store\<lparr> db_runtime_bindings := [(''binding1'', ''plan1'')] \<rparr>"

lemma example_binding_store_ok:
  "sessions_ok example_binding_store"
  "map_of (db_sessions example_binding_store) ''s1'' = Some example_bound_session"
  using example_bound_store_ok example_bound_lookup by (simp_all add: sessions_ok_def session_table_ok_def scope_unique_def
      chat_binding_unique_def example_binding_store_def)

lemma bind_runtime_authority_sound_witness:
  "\<exists>r db'. bind_runtime_authority ''s1'' 1 0 example_binding_args example_binding_store = Inr (r, db')
     \<and> sn_provider_profile_id r = Some ''profile1'' \<and> sn_execution_plan_ref r = Some ''plan1''
     \<and> sn_runtime_binding_ref r = Some ''binding1''
     \<and> map_of (db_runtime_bindings example_binding_store) ''binding1'' = sn_execution_plan_ref r
     \<and> sn_revision r = 2"
proof -
  let ?r = "example_bound_session\<lparr> sn_provider_profile_id := Some ''profile1'',
    sn_runtime_binding_ref := Some ''binding1'', sn_revision := 2 \<rparr>"
  have run: "bind_runtime_authority ''s1'' 1 0 example_binding_args example_binding_store =
      Inr (?r, put_session ?r example_binding_store)"
    using example_binding_store_ok(2)
    by (simp add: bind_runtime_authority_def write_session_Inr no_authority_def example_binding_args_def
        check_runtime_binding_def provides_something_def already_bound_def field_agrees_def check_session_fence_def
        authority_conflicts_def field_conflicts_def patch_metadata_def meta_get_def
        metadata_conflicts_def update_metadata_def session_refs_exist_def set_authority_def
        foreign_ok_def example_bound_simps example_binding_store_def empty_store_def put_session_def vocabulary)
  from bind_runtime_authority_sound [OF example_binding_store_ok this]
  have "sn_runtime_binding_ref ?r = Some ''binding1''"
    "map_of (db_runtime_bindings example_binding_store) ''binding1'' = sn_execution_plan_ref ?r"
    "sn_provider_profile_id ?r = Some ''profile1''" "sn_execution_plan_ref ?r = Some ''plan1''"
    by (auto simp: example_binding_args_def no_authority_def authority_bound_def field_bound_def example_bound_session_def)
  then show ?thesis using run by (intro exI [of _ ?r] exI conjI) (simp_all add: run)
qed

end
