(* ===== verification/Control_Plane_Turns.thy ===== *)
theory Control_Plane_Turns
  imports Control_Plane_Sessions
begin

text \<open>
  \<open>TurnAttemptRepository\<close> of \<^verbatim>\<open>moonmind/omnigent/control_plane/repositories.py\<close>: one row per
  logical turn, created once per idempotency key, moved forward through its delivery states under
  the supervisor generation of the owning session, and terminal once.
\<close>

section \<open>Definitions\<close>

record new_turn =
  nt_turn_attempt_id :: py_str
  nt_session_id :: py_str
  nt_idempotency_key :: py_str
  nt_lineage_kind :: py_str
  nt_step_execution_id :: "py_str option"
  nt_parent_turn_attempt_id :: "py_str option"
  nt_remediation_of_turn_attempt_id :: "py_str option"
  nt_instruction_digest :: "py_str option"
  nt_provider_marker :: "py_str option"
  nt_state :: py_str

definition new_turn_default :: "py_str \<Rightarrow> py_str \<Rightarrow> py_str \<Rightarrow> new_turn" where
  "new_turn_default turn_attempt_id session_id idempotency_key =
     \<lparr> nt_turn_attempt_id = turn_attempt_id, nt_session_id = session_id,
       nt_idempotency_key = idempotency_key, nt_lineage_kind = ''instruction'',
       nt_step_execution_id = None, nt_parent_turn_attempt_id = None,
       nt_remediation_of_turn_attempt_id = None, nt_instruction_digest = None,
       nt_provider_marker = None, nt_state = ''prepared'' \<rparr>"

definition new_turn_row :: "new_turn \<Rightarrow> turn_attempt_record" where
  "new_turn_row args =
     \<lparr> ta_turn_attempt_id = nt_turn_attempt_id args, ta_session_id = nt_session_id args,
       ta_idempotency_key = nt_idempotency_key args, ta_schema_version = CURRENT_SCHEMA_VERSION,
       ta_step_execution_id = nt_step_execution_id args, ta_lineage_kind = nt_lineage_kind args,
       ta_parent_turn_attempt_id = nt_parent_turn_attempt_id args,
       ta_remediation_of_turn_attempt_id = nt_remediation_of_turn_attempt_id args,
       ta_instruction_digest = nt_instruction_digest args,
       ta_provider_marker = nt_provider_marker args, ta_provider_turn_id = None,
       ta_provider_item_id = None, ta_state = nt_state args, ta_terminal_state = None,
       ta_attempt_outcome = None, ta_terminal_evidence_ref = None, ta_revision = 1,
       ta_fencing_generation = 0 \<rparr>"

definition turn_row_record :: "turn_attempt_record \<Rightarrow> turn_attempt_record cp_result" where
  "turn_row_record row =
     bind_result (ensure_supported_schema_version ''OmnigentTurnAttempt'' (ta_schema_version row))
       (\<lambda>_. Inr row)"

definition put_turn :: "turn_attempt_record \<Rightarrow> control_store \<Rightarrow> control_store" where
  "put_turn row db = db\<lparr> db_turns := dict_set (ta_turn_attempt_id row) row (db_turns db) \<rparr>"

definition get_turn :: "py_str \<Rightarrow> control_store \<Rightarrow> turn_attempt_record option cp_result" where
  "get_turn turn_attempt_id db =
     (case map_of (db_turns db) turn_attempt_id of
        None \<Rightarrow> Inr None
      | Some row \<Rightarrow> bind_result (turn_row_record row) (\<lambda>record. Inr (Some record)))"

definition get_turn_by_key :: "py_str \<Rightarrow> control_store \<Rightarrow> turn_attempt_record option cp_result" where
  "get_turn_by_key idempotency_key db =
     (case filter (\<lambda>row. ta_idempotency_key row = idempotency_key) (map snd (db_turns db)) of
        [] \<Rightarrow> Inr None
      | [row] \<Rightarrow> bind_result (turn_row_record row) (\<lambda>record. Inr (Some record))
      | _ \<Rightarrow> Inl MultipleResultsFound)"

definition turn_integrity :: "control_store \<Rightarrow> turn_attempt_record \<Rightarrow> bool" where
  "turn_integrity db row \<longleftrightarrow> ta_turn_attempt_id row \<notin> fst ` set (db_turns db)
     \<and> ta_session_id row \<in> session_keys db
     \<and> (\<forall>(_, other) \<in> set (db_turns db). ta_idempotency_key other \<noteq> ta_idempotency_key row)"

definition create_turn :: "new_turn \<Rightarrow> turn_attempt_record tx" where
  "create_turn args db =
     bind_result (get_turn_by_key (nt_idempotency_key args) db) (\<lambda>existing.
       case existing of
         Some record \<Rightarrow>
           if ta_session_id record = nt_session_id args
              \<and> ta_instruction_digest record = nt_instruction_digest args
           then Inr (record, db)
           else Inl TurnIdempotencyConflictError
       | None \<Rightarrow>
           let row = new_turn_row args in
           if \<not> turn_integrity db row then Inl TurnIdempotencyConflictError
           else bind_result (turn_row_record row) (\<lambda>record. Inr (record, put_turn row db)))"

definition count_turns_for_session :: "py_str \<Rightarrow> control_store \<Rightarrow> int" where
  "count_turns_for_session session_id db =
     int (length (filter (\<lambda>row. ta_session_id row = session_id) (map snd (db_turns db))))"

definition check_turn_fence ::
  "turn_attempt_record \<Rightarrow> int \<Rightarrow> int \<Rightarrow> int \<Rightarrow> control_plane_outcome option" where
  "check_turn_fence row session_fencing_generation expected_revision expected_fencing_generation =
     (if session_fencing_generation \<noteq> expected_fencing_generation then Some FENCING_CONFLICT
      else if ta_revision row \<noteq> expected_revision then Some REVISION_CONFLICT
      else None)"

record turn_update =
  tu_state :: "py_str option"
  tu_provider_turn_id :: "py_str option option"
  tu_provider_item_id :: "py_str option option"
  tu_terminal_state :: "py_str option option"
  tu_attempt_outcome :: "py_str option option"
  tu_terminal_evidence_ref :: "py_str option option"

definition no_turn_update :: turn_update where
  "no_turn_update = \<lparr> tu_state = None, tu_provider_turn_id = None, tu_provider_item_id = None,
     tu_terminal_state = None, tu_attempt_outcome = None, tu_terminal_evidence_ref = None \<rparr>"

text \<open>The generation that guards a turn: that of its session.\<close>

definition guarding_generation :: "control_store \<Rightarrow> turn_attempt_record \<Rightarrow> int" where
  "guarding_generation db row =
     (case map_of (db_sessions db) (ta_session_id row) of
        Some session \<Rightarrow> sn_fencing_generation session
      | None \<Rightarrow> ta_fencing_generation row)"

definition turn_state_order :: "py_str \<Rightarrow> int" where
  "turn_state_order state = option_or (TURN_STATE_ORDER state) (- 1)"

text \<open>The fields set at the end of a guarded write, whatever became of the state.\<close>

definition stamp_turn ::
  "int \<Rightarrow> turn_update \<Rightarrow> turn_attempt_record \<Rightarrow> turn_attempt_record" where
  "stamp_turn generation update row = row\<lparr>
     ta_fencing_generation := generation,
     ta_attempt_outcome := option_or (tu_attempt_outcome update) (ta_attempt_outcome row),
     ta_provider_turn_id := option_or (tu_provider_turn_id update) (ta_provider_turn_id row),
     ta_provider_item_id := option_or (tu_provider_item_id update) (ta_provider_item_id row),
     ta_terminal_evidence_ref :=
       option_or (tu_terminal_evidence_ref update) (ta_terminal_evidence_ref row),
     ta_revision := ta_revision row + 1 \<rparr>"

definition cas_turn_row ::
  "int \<Rightarrow> int \<Rightarrow> int \<Rightarrow> turn_update \<Rightarrow> turn_attempt_record \<Rightarrow>
   turn_attempt_record cas_result cp_result" where
  "cas_turn_row generation expected_revision expected_fencing_generation update row =
     (if ta_terminal_state row \<noteq> None
      then (if tu_terminal_state update = Some (ta_terminal_state row)
            then Inr (ALREADY_APPLIED, row)
            else Inl TurnIdempotencyConflictError)
      else case check_turn_fence row generation expected_revision expected_fencing_generation of
        Some conflict \<Rightarrow> Inr (conflict, row)
      | None \<Rightarrow>
          (case tu_terminal_state update of
             Some terminal_state \<Rightarrow>
               Inr (APPLIED, stamp_turn generation update
                 (row\<lparr> ta_state := ''terminal'', ta_terminal_state := terminal_state \<rparr>))
           | None \<Rightarrow>
               (case tu_state update of
                  None \<Rightarrow> Inr (APPLIED, stamp_turn generation update row)
                | Some state \<Rightarrow>
                    if state \<notin> TURN_STATES then Inl InvalidArgument
                    else if turn_state_order state < turn_state_order (ta_state row)
                    then Inr (ALREADY_APPLIED, row)
                    else Inr (APPLIED, stamp_turn generation update (row\<lparr> ta_state := state \<rparr>)))))"

definition compare_and_swap_turn ::
  "py_str \<Rightarrow> int \<Rightarrow> int \<Rightarrow> turn_update \<Rightarrow> turn_attempt_record cas_result tx" where
  "compare_and_swap_turn turn_attempt_id expected_revision expected_fencing_generation update db =
     (case map_of (db_turns db) turn_attempt_id of
        None \<Rightarrow> Inl TurnIdempotencyConflictError
      | Some row \<Rightarrow>
          bind_result (cas_turn_row (guarding_generation db row) expected_revision
              expected_fencing_generation update row) (\<lambda>(outcome, row').
            bind_result (turn_row_record row') (\<lambda>record.
              Inr ((outcome, record), put_turn row' db))))"

definition raise_for_turn_conflict :: "turn_attempt_record cas_result \<Rightarrow> turn_attempt_record tx" where
  "raise_for_turn_conflict res db =
     (if fst res = REVISION_CONFLICT then Inl RevisionConflictError
      else if fst res = FENCING_CONFLICT then Inl FencingConflictError
      else Inr (snd res, db))"

definition advance_state ::
  "py_str \<Rightarrow> py_str \<Rightarrow> int \<Rightarrow> int \<Rightarrow> py_str option \<Rightarrow> py_str option \<Rightarrow> turn_attempt_record tx" where
  "advance_state turn_attempt_id state expected_revision expected_fencing_generation
      provider_turn_id provider_item_id =
     tx_bind (compare_and_swap_turn turn_attempt_id expected_revision expected_fencing_generation
       (no_turn_update\<lparr> tu_state := Some state,
          tu_provider_turn_id := map_option Some provider_turn_id,
          tu_provider_item_id := map_option Some provider_item_id \<rparr>))
     raise_for_turn_conflict"

definition mark_turn_terminal ::
  "py_str \<Rightarrow> py_str \<Rightarrow> int \<Rightarrow> int \<Rightarrow> py_str option \<Rightarrow> py_str option \<Rightarrow> turn_attempt_record tx" where
  "mark_turn_terminal turn_attempt_id terminal_state expected_revision expected_fencing_generation
      attempt_outcome terminal_evidence_ref =
     tx_bind (compare_and_swap_turn turn_attempt_id expected_revision expected_fencing_generation
       (no_turn_update\<lparr> tu_terminal_state := Some (Some terminal_state),
          tu_attempt_outcome := map_option Some attempt_outcome,
          tu_terminal_evidence_ref := map_option Some terminal_evidence_ref \<rparr>))
     raise_for_turn_conflict"

section \<open>What a write may do to a turn\<close>

definition turn_identity ::
  "turn_attempt_record \<Rightarrow> py_str list \<times> int \<times> py_str option list" where
  "turn_identity r = ([ta_turn_attempt_id r, ta_session_id r, ta_idempotency_key r, ta_lineage_kind r],
     ta_schema_version r,
     [ta_step_execution_id r, ta_parent_turn_attempt_id r, ta_remediation_of_turn_attempt_id r,
      ta_instruction_digest r, ta_provider_marker r])"

definition turn_moves :: "turn_attempt_record \<Rightarrow> turn_attempt_record \<Rightarrow> bool" where
  "turn_moves r r' \<longleftrightarrow> turn_identity r' = turn_identity r
     \<and> turn_state_order (ta_state r) \<le> turn_state_order (ta_state r')
     \<and> (ta_terminal_state r \<noteq> None \<longrightarrow> r' = r)
     \<and> (r' = r \<or> ta_revision r' = ta_revision r + 1)"

definition turns_ok :: "control_store \<Rightarrow> bool" where
  "turns_ok db \<longleftrightarrow> keyed_table ta_turn_attempt_id ta_idempotency_key
     (\<lambda>row. ta_schema_version row = 1 \<and> ta_session_id row \<in> session_keys db) (db_turns db)"

definition turn_write :: "control_store \<Rightarrow> control_store \<Rightarrow> bool" where
  "turn_write db db' \<longleftrightarrow> (\<exists>row row'. map_of (db_turns db) (ta_turn_attempt_id row') = Some row
     \<and> turn_moves row row' \<and> db' = put_turn row' db)"

definition turn_created :: "control_store \<Rightarrow> control_store \<Rightarrow> bool" where
  "turn_created db db' \<longleftrightarrow> db' = db \<or> (\<exists>row. turn_integrity db row \<and> ta_schema_version row = 1
     \<and> db' = put_turn row db)"

lemma turn_moves_refl [simp]: "turn_moves r r"
  by (simp add: turn_moves_def)

lemma turn_row_record_Inr [simp]:
  "turn_row_record row = Inr r \<longleftrightarrow> r = row \<and> ta_schema_version row = 1"
  by (auto simp: turn_row_record_def ensure_supported_schema_version_def vocabulary)

lemma turn_row_record_supported [simp]: "ta_schema_version row = 1 \<Longrightarrow> turn_row_record row = Inr row"
  by (simp add: turn_row_record_def ensure_supported_schema_version_def vocabulary)

lemma put_turn_lookup [simp]:
  "map_of (db_turns (put_turn row db)) tid =
     (if tid = ta_turn_attempt_id row then Some row else map_of (db_turns db) tid)"
  by (simp add: put_turn_def)

lemma put_turn_frame [simp]:
  "db_sessions (put_turn row db) = db_sessions db"
  "db_observations (put_turn row db) = db_observations db"
  "db_commands (put_turn row db) = db_commands db"
  "db_decisions (put_turn row db) = db_decisions db"
  "db_aliases (put_turn row db) = db_aliases db"
  "db_cleanups (put_turn row db) = db_cleanups db"
  "session_keys (put_turn row db) = session_keys db"
  by (simp_all add: put_turn_def session_keys_def)

lemma stamp_turn_frame [simp]:
  "turn_identity (stamp_turn g update row) = turn_identity row"
  "ta_state (stamp_turn g update row) = ta_state row"
  "ta_terminal_state (stamp_turn g update row) = ta_terminal_state row"
  "ta_revision (stamp_turn g update row) = ta_revision row + 1"
  "ta_fencing_generation (stamp_turn g update row) = g"
  by (simp_all add: stamp_turn_def turn_identity_def)

lemma state_frame [simp]:
  "turn_identity (row\<lparr> ta_state := s \<rparr>) = turn_identity row"
  "turn_identity (row\<lparr> ta_terminal_state := t \<rparr>) = turn_identity row"
  by (simp_all add: turn_identity_def)

lemma turn_state_order_terminal: "turn_state_order s \<le> turn_state_order ''terminal''"
  by (simp add: turn_state_order_def TURN_STATE_ORDER_def)

lemma cas_turn_row_moves:
  "cas_turn_row g n f update row = Inr (outcome, row') \<Longrightarrow> turn_moves row row'"
  by (auto simp: cas_turn_row_def turn_moves_def turn_state_order_terminal
      split: if_splits option.splits)

lemma compare_and_swap_turn_Inr:
  "compare_and_swap_turn tid n f update db = Inr (res, db') \<longleftrightarrow>
     (\<exists>row outcome row'. map_of (db_turns db) tid = Some row
        \<and> cas_turn_row (guarding_generation db row) n f update row = Inr (outcome, row')
        \<and> ta_schema_version row' = 1 \<and> res = (outcome, row') \<and> db' = put_turn row' db)"
  by (auto simp: compare_and_swap_turn_def bind_result_Inr_iff split: option.splits)

lemma compare_and_swap_turn_writes:
  assumes "turns_ok db" and "compare_and_swap_turn tid n f update db = Inr (res, db')"
  shows "turn_write db db'"
proof -
  obtain row outcome row' where r: "map_of (db_turns db) tid = Some row"
    "cas_turn_row (guarding_generation db row) n f update row = Inr (outcome, row')"
    "db' = put_turn row' db"
    using assms(2) by (auto simp: compare_and_swap_turn_Inr)
  have "ta_turn_attempt_id row = tid"
    using assms(1) r(1) keyed_table_row by (fastforce simp: turns_ok_def)
  moreover have moves: "turn_moves row row'" using cas_turn_row_moves r(2) .
  ultimately have "ta_turn_attempt_id row' = tid" by (simp add: turn_moves_def turn_identity_def)
  with r(1,3) moves show ?thesis unfolding turn_write_def by blast
qed

lemma turn_wrapper_writes:
  assumes "turns_ok db"
    and "tx_bind (compare_and_swap_turn tid n f update) raise_for_turn_conflict db = Inr (r, db')"
  shows "turn_write db db'"
proof -
  obtain res db1 where "compare_and_swap_turn tid n f update db = Inr (res, db1)"
    "raise_for_turn_conflict res db1 = Inr (r, db')"
    using assms(2) by (auto simp: tx_bind_Inr)
  moreover from this have "db1 = db'" by (simp add: raise_for_turn_conflict_def split: if_splits)
  ultimately show ?thesis using compare_and_swap_turn_writes assms(1) by blast
qed

lemma advance_state_writes:
  "turns_ok db \<Longrightarrow> advance_state tid s n f ptid piid db = Inr (r, db') \<Longrightarrow> turn_write db db'"
  unfolding advance_state_def by (rule turn_wrapper_writes)

lemma mark_turn_terminal_writes:
  "turns_ok db \<Longrightarrow> mark_turn_terminal tid t n f oc ev db = Inr (r, db') \<Longrightarrow> turn_write db db'"
  unfolding mark_turn_terminal_def by (rule turn_wrapper_writes)

lemma create_turn_creates: "create_turn args db = Inr (r, db') \<Longrightarrow> turn_created db db'"
  by (auto simp: create_turn_def turn_created_def bind_result_Inr_iff Let_def
      split: option.splits if_splits)

section \<open>The turn table\<close>

lemma turn_write_ok:
  assumes "turns_ok db" and "turn_write db db'"
  shows "turns_ok db'"
proof -
  obtain row row' where r: "map_of (db_turns db) (ta_turn_attempt_id row') = Some row"
    "turn_moves row row'" "db' = put_turn row' db"
    using assms(2) by (auto simp: turn_write_def)
  have same: "ta_idempotency_key row' = ta_idempotency_key row" "ta_session_id row' = ta_session_id row"
    "ta_schema_version row' = ta_schema_version row"
    using r(2) by (simp_all add: turn_moves_def turn_identity_def)
  have "ta_schema_version row' = 1 \<and> ta_session_id row' \<in> session_keys db"
    using assms(1) keyed_table_row [OF _ r(1)] same by (fastforce simp: turns_ok_def)
  then have "keyed_table ta_turn_attempt_id ta_idempotency_key
      (\<lambda>row. ta_schema_version row = 1 \<and> ta_session_id row \<in> session_keys db) (db_turns db')"
    unfolding r(3) put_turn_def
    using assms(1) r(1) same(1) by (simp add: turns_ok_def keyed_table_replace)
  then show ?thesis by (simp add: turns_ok_def r(3))
qed

lemma turn_created_ok:
  assumes "turns_ok db" and "turn_created db db'"
  shows "turns_ok db'"
proof (cases "db' = db")
  case False
  then obtain row where r: "turn_integrity db row" "ta_schema_version row = 1" "db' = put_turn row db"
    using assms(2) by (auto simp: turn_created_def)
  then have "keyed_table ta_turn_attempt_id ta_idempotency_key
      (\<lambda>row. ta_schema_version row = 1 \<and> ta_session_id row \<in> session_keys db) (db_turns db')"
    unfolding r(3) put_turn_def
    using assms(1) by (simp add: turns_ok_def turn_integrity_def keyed_table_insert)
  then show ?thesis by (simp add: turns_ok_def r(3))
qed (use assms in simp)

lemma turn_write_row:
  assumes "turn_write db db'" and "map_of (db_turns db) tid = Some row"
  shows "\<exists>row'. map_of (db_turns db') tid = Some row' \<and> turn_moves row row'"
  using assms by (auto simp: turn_write_def)

lemma turn_created_row:
  assumes "turn_created db db'" and "map_of (db_turns db) tid = Some row"
  shows "map_of (db_turns db') tid = Some row"
proof -
  have "tid \<noteq> ta_turn_attempt_id r" if "turn_integrity db r" for r
    using that map_of_fresh [OF assms(2)] by (simp add: turn_integrity_def)
  then show ?thesis using assms by (auto simp: turn_created_def)
qed

lemma turn_write_frame [simp]:
  assumes "turn_write db db'"
  shows "db_sessions db' = db_sessions db" "db_commands db' = db_commands db"
    "db_cleanups db' = db_cleanups db" "db_aliases db' = db_aliases db"
    "db_observations db' = db_observations db" "db_decisions db' = db_decisions db"
  using assms by (auto simp: turn_write_def)

lemma turn_created_frame [simp]:
  assumes "turn_created db db'"
  shows "db_sessions db' = db_sessions db" "db_commands db' = db_commands db"
    "db_cleanups db' = db_cleanups db" "db_aliases db' = db_aliases db"
    "db_observations db' = db_observations db" "db_decisions db' = db_decisions db"
  using assms by (auto simp: turn_created_def)

section \<open>Idempotent creation\<close>

lemma get_turn_by_key_found:
  assumes "turns_ok db" and "map_of (db_turns db) tid = Some row"
  shows "get_turn_by_key (ta_idempotency_key row) db = Inr (Some row)"
proof -
  have "filter (\<lambda>r. ta_idempotency_key r = ta_idempotency_key row) (map snd (db_turns db)) = [row]"
    using assms keyed_table_find by (auto simp: turns_ok_def)
  moreover have "ta_schema_version row = 1"
    using assms(1) keyed_table_row [OF _ assms(2)] by (fastforce simp: turns_ok_def)
  ultimately show ?thesis by (simp add: get_turn_by_key_def)
qed

text \<open>
  A turn is created once per idempotency key: after a creation succeeds, creating again with
  the same key, session and instruction returns the same attempt and changes nothing, whatever
  attempt identifier the retry proposes; and with another session or instruction it is refused.
\<close>

theorem create_turn_idempotent:
  assumes "turns_ok db" and "create_turn args db = Inr (r, db')"
    and "nt_idempotency_key retry = nt_idempotency_key args"
  shows "create_turn retry db' =
     (if nt_session_id retry = nt_session_id args
         \<and> nt_instruction_digest retry = nt_instruction_digest args
      then Inr (r, db') else Inl TurnIdempotencyConflictError)"
proof -
  have r: "ta_idempotency_key r = nt_idempotency_key args \<and> ta_session_id r = nt_session_id args
      \<and> ta_instruction_digest r = nt_instruction_digest args
      \<and> get_turn_by_key (nt_idempotency_key args) db' = Inr (Some r)"
  proof (cases "get_turn_by_key (nt_idempotency_key args) db = Inr None")
    case True
    then have new: "db' = put_turn (new_turn_row args) db" "r = new_turn_row args"
      using assms(2) by (auto simp: create_turn_def bind_result_Inr_iff Let_def split: if_splits)
    have "turns_ok db'" using turn_created_ok [OF assms(1) create_turn_creates [OF assms(2)]] .
    then have "get_turn_by_key (ta_idempotency_key r) db' = Inr (Some r)"
      using get_turn_by_key_found [of db' "ta_turn_attempt_id r" r] new by simp
    then show ?thesis using new by (simp add: new_turn_row_def)
  next
    case False
    then have "get_turn_by_key (nt_idempotency_key args) db = Inr (Some r) \<and> db' = db
        \<and> ta_session_id r = nt_session_id args \<and> ta_instruction_digest r = nt_instruction_digest args"
      using assms(2) by (auto simp: create_turn_def bind_result_Inr_iff split: option.splits if_splits)
    moreover from this have "ta_idempotency_key r = nt_idempotency_key args"
      by (auto simp: get_turn_by_key_def bind_result_Inr_iff filter_eq_Cons_iff split: list.splits)
    ultimately show ?thesis by simp
  qed
  then show ?thesis using assms(3) by (auto simp: create_turn_def)
qed

definition example_turn :: new_turn where
  "example_turn = new_turn_default ''t1'' ''s1'' ''key1''"

lemma create_turn_idempotent_witness:
  "\<exists>r db'. create_turn example_turn example_store = Inr (r, db')
     \<and> create_turn (example_turn\<lparr> nt_turn_attempt_id := ''t2'' \<rparr>) db' = Inr (r, db')
     \<and> create_turn (example_turn\<lparr> nt_session_id := ''s2'' \<rparr>) db' = Inl TurnIdempotencyConflictError"
proof -
  have ok: "turns_ok example_store"
    by (simp add: turns_ok_def example_store_def empty_store_def put_session_def)
  have "\<exists>r db'. create_turn example_turn example_store = Inr (r, db')"
    by (simp add: create_turn_def example_turn_def new_turn_default_def get_turn_by_key_def
        example_store_def empty_store_def put_session_def new_turn_row_def turn_integrity_def
        session_keys_def example_session_def new_session_row_def new_session_default_def
        vocabulary Let_def)
  then obtain r db' where c: "create_turn example_turn example_store = Inr (r, db')" by blast
  from create_turn_idempotent [OF ok c, of "example_turn\<lparr> nt_turn_attempt_id := ''t2'' \<rparr>"]
    create_turn_idempotent [OF ok c, of "example_turn\<lparr> nt_session_id := ''s2'' \<rparr>"]
  have "create_turn (example_turn\<lparr> nt_turn_attempt_id := ''t2'' \<rparr>) db' = Inr (r, db')"
    "create_turn (example_turn\<lparr> nt_session_id := ''s2'' \<rparr>) db' = Inl TurnIdempotencyConflictError"
    by (simp_all add: example_turn_def new_turn_default_def)
  with c show ?thesis by blast
qed

end
