(* ===== verification/Control_Plane_Commands.thy ===== *)
theory Control_Plane_Commands
  imports Control_Plane_Sessions
begin

text \<open>
  \<open>CommandRepository\<close> of \<^verbatim>\<open>moonmind/omnigent/control_plane/repositories.py\<close>: the journal of
  logical side effects. A command is recorded once per idempotency key, claimed by one claimant,
  and settled by that claimant; a settled command never changes its verdict.
\<close>

section \<open>Definitions\<close>

record new_command =
  nc_command_id :: py_str
  nc_session_id :: py_str
  nc_command_type :: py_str
  nc_idempotency_key :: py_str
  nc_payload_digest :: py_str
  nc_turn_attempt_id :: "py_str option"
  nc_expected_session_revision :: "int option"
  nc_fencing_generation :: int
  nc_owner_class :: "py_str option"
  nc_retry_policy :: "(py_str \<times> json) list"

definition new_command_row :: "new_command \<Rightarrow> command_record" where
  "new_command_row args =
     \<lparr> cm_command_id = nc_command_id args, cm_session_id = nc_session_id args,
       cm_command_type = nc_command_type args, cm_idempotency_key = nc_idempotency_key args,
       cm_payload_digest = nc_payload_digest args, cm_schema_version = CURRENT_SCHEMA_VERSION,
       cm_turn_attempt_id = nc_turn_attempt_id args,
       cm_expected_session_revision = nc_expected_session_revision args,
       cm_fencing_generation = nc_fencing_generation args, cm_status = COMMAND_STATE_PENDING,
       cm_owner_class = nc_owner_class args, cm_claim_token = None,
       cm_provider_receipt_id = None, cm_delivery_ambiguous = False, cm_result_ref = None,
       cm_revision = 1, cm_retry_policy = nc_retry_policy args \<rparr>"

definition command_row_record :: "command_record \<Rightarrow> command_record cp_result" where
  "command_row_record row =
     bind_result (ensure_supported_schema_version ''OmnigentCommand'' (cm_schema_version row))
       (\<lambda>_. Inr row)"

definition put_command :: "command_record \<Rightarrow> control_store \<Rightarrow> control_store" where
  "put_command row db = db\<lparr> db_commands := dict_set (cm_command_id row) row (db_commands db) \<rparr>"

definition get_command :: "py_str \<Rightarrow> control_store \<Rightarrow> command_record option cp_result" where
  "get_command command_id db =
     (case map_of (db_commands db) command_id of
        None \<Rightarrow> Inr None
      | Some row \<Rightarrow> bind_result (command_row_record row) (\<lambda>record. Inr (Some record)))"

definition get_command_by_key :: "py_str \<Rightarrow> control_store \<Rightarrow> command_record option cp_result" where
  "get_command_by_key idempotency_key db =
     (case filter (\<lambda>row. cm_idempotency_key row = idempotency_key) (map snd (db_commands db)) of
        [] \<Rightarrow> Inr None
      | [row] \<Rightarrow> bind_result (command_row_record row) (\<lambda>record. Inr (Some record))
      | _ \<Rightarrow> Inl MultipleResultsFound)"

definition same_command_identity :: "new_command \<Rightarrow> command_record \<Rightarrow> bool" where
  "same_command_identity args existing \<longleftrightarrow>
     (nc_session_id args, nc_command_type args, nc_turn_attempt_id args, nc_payload_digest args) =
     (cm_session_id existing, cm_command_type existing, cm_turn_attempt_id existing,
      cm_payload_digest existing)"

definition command_integrity :: "control_store \<Rightarrow> command_record \<Rightarrow> bool" where
  "command_integrity db row \<longleftrightarrow> cm_command_id row \<notin> fst ` set (db_commands db)
     \<and> cm_session_id row \<in> session_keys db
     \<and> (\<forall>(_, other) \<in> set (db_commands db). cm_idempotency_key other \<noteq> cm_idempotency_key row)"

text \<open>
  A constraint that fails after the lookup found no command of this key is re-raised: the second
  lookup is for a writer that committed in between, and an operation is one step here.
\<close>

definition record_command :: "new_command \<Rightarrow> command_record tx" where
  "record_command args db =
     bind_result (get_command_by_key (nc_idempotency_key args) db) (\<lambda>existing.
       case existing of
         Some record \<Rightarrow>
           if same_command_identity args record then Inr (record, db)
           else Inl CommandIdempotencyConflictError
       | None \<Rightarrow>
           let row = new_command_row args in
           if \<not> command_integrity db row then Inl IntegrityViolation
           else bind_result (command_row_record row) (\<lambda>record. Inr (record, put_command row db)))"

text \<open>A locked read, the decision on the row, the flush and the record of the result.\<close>

definition modify_command ::
  "py_str \<Rightarrow> (command_record \<Rightarrow> command_record cas_result cp_result) \<Rightarrow>
   command_record cas_result tx" where
  "modify_command command_id write db =
     (case map_of (db_commands db) command_id of
        None \<Rightarrow> Inl UnknownCommand
      | Some row \<Rightarrow>
          bind_result (write row) (\<lambda>(outcome, row').
            bind_result (command_row_record row') (\<lambda>record.
              Inr ((outcome, record), put_command row' db))))"

definition session_generation :: "control_store \<Rightarrow> command_record \<Rightarrow> int option" where
  "session_generation db row =
     map_option sn_fencing_generation (map_of (db_sessions db) (cm_session_id row))"

definition claim_command_row ::
  "int option \<Rightarrow> py_str \<Rightarrow> py_str \<Rightarrow> command_record \<Rightarrow> command_record cas_result cp_result" where
  "claim_command_row live_generation owner_class claim_token row =
     (if cm_status row = COMMAND_STATE_PENDING then
        (if (case live_generation of None \<Rightarrow> False | Some g \<Rightarrow> cm_fencing_generation row < g)
         then Inr (FENCING_CONFLICT, row)
         else Inr (APPLIED, row\<lparr> cm_status := COMMAND_STATE_CLAIMED, cm_owner_class := Some owner_class,
                              cm_claim_token := Some claim_token,
                              cm_revision := cm_revision row + 1 \<rparr>))
      else if cm_status row = COMMAND_STATE_CLAIMED then
        (if cm_claim_token row = Some claim_token then Inr (APPLIED, row)
         else Inr (NOT_OWNER, row))
      else Inr (ALREADY_APPLIED, row))"

definition claim_command :: "py_str \<Rightarrow> py_str \<Rightarrow> py_str \<Rightarrow> command_record cas_result tx" where
  "claim_command command_id owner_class claim_token db =
     modify_command command_id
       (\<lambda>row. claim_command_row (session_generation db row) owner_class claim_token row) db"

definition command_delivery_row ::
  "py_str \<Rightarrow> py_str \<Rightarrow> control_plane_outcome \<Rightarrow> py_str option \<Rightarrow> py_str option \<Rightarrow>
   command_record \<Rightarrow> command_record cas_result cp_result" where
  "command_delivery_row owner_class claim_token outcome provider_receipt_id result_ref row =
     (if cm_status row \<in> COMMAND_TERMINAL_STATES then
        (if (cm_status row = COMMAND_STATE_APPLIED) = (outcome \<in> {APPLIED, DELIVERY_UNKNOWN})
         then Inr (ALREADY_APPLIED, row)
         else Inr (IMMUTABLE_AUTHORITY_CONFLICT, row))
      else if cm_status row \<notin> {COMMAND_STATE_CLAIMED, COMMAND_STATE_DELIVERY_UNKNOWN}
              \<or> cm_owner_class row \<noteq> Some owner_class \<or> cm_claim_token row \<noteq> Some claim_token
      then Inl NotCommandOwnerError
      else
        let row1 = row\<lparr>
              cm_provider_receipt_id :=
                (if provider_receipt_id \<noteq> None then provider_receipt_id else cm_provider_receipt_id row),
              cm_result_ref := (if result_ref \<noteq> None then result_ref else cm_result_ref row) \<rparr>;
            row2 =
              (if outcome = APPLIED
               then row1\<lparr> cm_status := COMMAND_STATE_APPLIED, cm_delivery_ambiguous := False \<rparr>
               else if outcome = DELIVERY_UNKNOWN
               then row1\<lparr> cm_status := COMMAND_STATE_DELIVERY_UNKNOWN, cm_delivery_ambiguous := True \<rparr>
               else row1\<lparr> cm_status := COMMAND_STATE_FAILED \<rparr>)
        in Inr (outcome, row2\<lparr> cm_revision := cm_revision row + 1 \<rparr>))"

definition record_command_delivery ::
  "py_str \<Rightarrow> py_str \<Rightarrow> py_str \<Rightarrow> control_plane_outcome \<Rightarrow> py_str option \<Rightarrow> py_str option \<Rightarrow>
   command_record cas_result tx" where
  "record_command_delivery command_id owner_class claim_token outcome provider_receipt_id result_ref =
     modify_command command_id
       (command_delivery_row owner_class claim_token outcome provider_receipt_id result_ref)"

definition command_failure_row ::
  "int option \<Rightarrow> py_str \<Rightarrow> py_str \<Rightarrow> py_str \<Rightarrow> command_record \<Rightarrow>
   command_record cas_result cp_result" where
  "command_failure_row live_generation owner_class claim_token result_ref row =
     (let with_result = (if cm_result_ref row = None
            then row\<lparr> cm_result_ref := Some result_ref, cm_revision := cm_revision row + 1 \<rparr>
            else row) in
      if cm_status row = COMMAND_STATE_APPLIED then Inr (ALREADY_APPLIED, row)
      else if cm_status row = COMMAND_STATE_FAILED then
        (if cm_result_ref row \<notin> {None, Some result_ref}
         then Inr (IMMUTABLE_AUTHORITY_CONFLICT, row)
         else Inr (ALREADY_APPLIED, with_result))
      else if cm_status row = COMMAND_STATE_DELIVERY_UNKNOWN then Inr (DELIVERY_UNKNOWN, with_result)
      else if cm_status row = COMMAND_STATE_CLAIMED
              \<and> (cm_owner_class row \<noteq> Some owner_class \<or> cm_claim_token row \<noteq> Some claim_token)
      then Inl NotCommandOwnerError
      else if cm_status row = COMMAND_STATE_PENDING
              \<and> (case live_generation of None \<Rightarrow> False | Some g \<Rightarrow> cm_fencing_generation row \<noteq> g)
      then Inr (FENCING_CONFLICT, row)
      else Inr (APPLIED, row\<lparr> cm_status := COMMAND_STATE_FAILED, cm_delivery_ambiguous := False,
                           cm_result_ref := Some result_ref,
                           cm_revision := cm_revision row + 1 \<rparr>))"

definition record_command_failure ::
  "py_str \<Rightarrow> py_str \<Rightarrow> py_str \<Rightarrow> py_str \<Rightarrow> command_record cas_result tx" where
  "record_command_failure command_id owner_class claim_token result_ref db =
     modify_command command_id
       (\<lambda>row. command_failure_row (session_generation db row) owner_class claim_token result_ref row)
       db"

section \<open>What a write may do to a command\<close>

definition command_identity ::
  "command_record \<Rightarrow> py_str list \<times> int list \<times> py_str option \<times> int option \<times> (py_str \<times> json) list" where
  "command_identity r =
     ([cm_command_id r, cm_session_id r, cm_command_type r, cm_idempotency_key r, cm_payload_digest r],
      [cm_schema_version r, cm_fencing_generation r], cm_turn_attempt_id r,
      cm_expected_session_revision r, cm_retry_policy r)"

definition status_rank :: "py_str \<Rightarrow> int" where
  "status_rank status = (if status = COMMAND_STATE_PENDING then 0 else if status = COMMAND_STATE_CLAIMED then 1
     else if status = COMMAND_STATE_DELIVERY_UNKNOWN then 2 else 3)"

text \<open>
  Identity is kept, the status only moves on, a verdict is final, a claim is held by one claimant
  for good, and a change takes a later revision.
\<close>

definition command_le :: "command_record \<Rightarrow> command_record \<Rightarrow> bool" where
  "command_le r r' \<longleftrightarrow> command_identity r' = command_identity r
     \<and> status_rank (cm_status r) \<le> status_rank (cm_status r')
     \<and> (command_is_terminal r \<longrightarrow> cm_status r' = cm_status r
          \<and> cm_provider_receipt_id r' = cm_provider_receipt_id r
          \<and> sticky (cm_result_ref r) (cm_result_ref r'))
     \<and> sticky (cm_claim_token r) (cm_claim_token r')
     \<and> (cm_claim_token r \<noteq> None \<longrightarrow> cm_owner_class r' = cm_owner_class r)
     \<and> (r' = r \<or> cm_revision r < cm_revision r')"

definition command_row_ok :: "command_record \<Rightarrow> bool" where
  "command_row_ok r \<longleftrightarrow> cm_schema_version r = 1 \<and> cm_status r \<in> COMMAND_STATES
     \<and> (cm_status r = COMMAND_STATE_PENDING \<longrightarrow> cm_claim_token r = None)
     \<and> (cm_status r \<in> {COMMAND_STATE_CLAIMED, COMMAND_STATE_DELIVERY_UNKNOWN, COMMAND_STATE_APPLIED} \<longrightarrow>
          cm_claim_token r \<noteq> None \<and> cm_owner_class r \<noteq> None)"

definition commands_ok :: "control_store \<Rightarrow> bool" where
  "commands_ok db \<longleftrightarrow> keyed_table cm_command_id cm_idempotency_key
     (\<lambda>row. command_row_ok row \<and> cm_session_id row \<in> session_keys db) (db_commands db)"

definition command_write :: "control_store \<Rightarrow> control_store \<Rightarrow> bool" where
  "command_write db db' \<longleftrightarrow> (\<exists>row row'. map_of (db_commands db) (cm_command_id row') = Some row
     \<and> command_le row row' \<and> command_row_ok row' \<and> db' = put_command row' db)"

definition command_created :: "control_store \<Rightarrow> control_store \<Rightarrow> bool" where
  "command_created db db' \<longleftrightarrow> db' = db \<or> (\<exists>row. command_integrity db row \<and> command_row_ok row
     \<and> db' = put_command row db)"

lemma command_le_refl [simp]: "command_le r r"
  by (simp add: command_le_def)

lemma command_le_trans:
  assumes "command_le r s" and "command_le s t"
  shows "command_le r t"
proof -
  have "command_is_terminal r \<Longrightarrow> command_is_terminal s"
    using assms(1) by (simp add: command_le_def command_is_terminal_def)
  moreover have "cm_claim_token r \<noteq> None \<Longrightarrow> cm_claim_token s \<noteq> None"
    using assms(1) by (auto simp: command_le_def)
  ultimately show ?thesis
    using assms unfolding command_le_def by (auto intro: sticky_trans)
qed

lemma command_row_record_Inr [simp]:
  "command_row_record row = Inr r \<longleftrightarrow> r = row \<and> cm_schema_version row = 1"
  by (auto simp: command_row_record_def ensure_supported_schema_version_def vocabulary)

lemma command_row_record_supported [simp]:
  "cm_schema_version row = 1 \<Longrightarrow> command_row_record row = Inr row"
  by (simp add: command_row_record_def ensure_supported_schema_version_def vocabulary)

lemma put_command_lookup [simp]:
  "map_of (db_commands (put_command row db)) cid =
     (if cid = cm_command_id row then Some row else map_of (db_commands db) cid)"
  by (simp add: put_command_def)

lemma put_command_frame [simp]:
  "db_sessions (put_command row db) = db_sessions db"
  "db_turns (put_command row db) = db_turns db"
  "db_observations (put_command row db) = db_observations db"
  "db_decisions (put_command row db) = db_decisions db"
  "db_aliases (put_command row db) = db_aliases db"
  "db_cleanups (put_command row db) = db_cleanups db"
  "session_keys (put_command row db) = session_keys db"
  by (simp_all add: put_command_def session_keys_def)

text \<open>The new row of each transition, written out.\<close>

lemma claim_command_row_shape:
  assumes "claim_command_row g oc tok row = Inr (outcome, row')"
  shows "row' = row \<or> cm_status row = COMMAND_STATE_PENDING \<and> outcome = APPLIED
     \<and> row' = row\<lparr> cm_status := COMMAND_STATE_CLAIMED, cm_owner_class := Some oc,
          cm_claim_token := Some tok, cm_revision := cm_revision row + 1 \<rparr>"
  using assms by (auto simp: claim_command_row_def split: if_splits)

lemma command_delivery_row_shape:
  assumes "command_delivery_row oc tok oc' receipt res row = Inr (outcome, row')"
  shows "row' = row \<or> cm_status row \<in> {COMMAND_STATE_CLAIMED, COMMAND_STATE_DELIVERY_UNKNOWN}
     \<and> cm_owner_class row = Some oc \<and> cm_claim_token row = Some tok
     \<and> (\<exists>receipt res status amb.
          status \<in> {COMMAND_STATE_APPLIED, COMMAND_STATE_DELIVERY_UNKNOWN, COMMAND_STATE_FAILED}
          \<and> row' = row\<lparr> cm_provider_receipt_id := receipt, cm_result_ref := res,
               cm_status := status, cm_delivery_ambiguous := amb,
               cm_revision := cm_revision row + 1 \<rparr>)"
proof (cases "cm_status row \<in> COMMAND_TERMINAL_STATES")
  case True
  then show ?thesis using assms by (auto simp: command_delivery_row_def split: if_splits)
next
  case False
  let ?receipt = "if receipt \<noteq> None then receipt else cm_provider_receipt_id row"
  let ?res = "if res \<noteq> None then res else cm_result_ref row"
  let ?status = "if oc' = APPLIED then COMMAND_STATE_APPLIED
    else if oc' = DELIVERY_UNKNOWN then COMMAND_STATE_DELIVERY_UNKNOWN else COMMAND_STATE_FAILED"
  let ?amb = "if oc' = APPLIED then False else if oc' = DELIVERY_UNKNOWN then True
    else cm_delivery_ambiguous row"
  have own: "cm_status row \<in> {COMMAND_STATE_CLAIMED, COMMAND_STATE_DELIVERY_UNKNOWN}
      \<and> cm_owner_class row = Some oc \<and> cm_claim_token row = Some tok"
    using assms False by (auto simp: command_delivery_row_def split: if_splits)
  have "row' = row\<lparr> cm_provider_receipt_id := ?receipt, cm_result_ref := ?res, cm_status := ?status,
      cm_delivery_ambiguous := ?amb, cm_revision := cm_revision row + 1 \<rparr>"
    using assms False own by (auto simp: command_delivery_row_def Let_def)
  moreover have "?status \<in> {COMMAND_STATE_APPLIED, COMMAND_STATE_DELIVERY_UNKNOWN, COMMAND_STATE_FAILED}"
    by simp
  ultimately show ?thesis using own by blast
qed

lemma command_failure_row_shape:
  assumes "command_failure_row g oc tok res row = Inr (outcome, row')"
  shows "row' = row
     \<or> cm_result_ref row = None \<and> cm_status row \<in> {COMMAND_STATE_FAILED, COMMAND_STATE_DELIVERY_UNKNOWN}
       \<and> row' = row\<lparr> cm_result_ref := Some res, cm_revision := cm_revision row + 1 \<rparr>
     \<or> cm_status row \<notin> {COMMAND_STATE_APPLIED, COMMAND_STATE_FAILED, COMMAND_STATE_DELIVERY_UNKNOWN}
       \<and> (cm_status row = COMMAND_STATE_CLAIMED \<longrightarrow>
            cm_owner_class row = Some oc \<and> cm_claim_token row = Some tok)
       \<and> row' = row\<lparr> cm_status := COMMAND_STATE_FAILED, cm_delivery_ambiguous := False,
            cm_result_ref := Some res, cm_revision := cm_revision row + 1 \<rparr>"
proof -
  let ?noted = "row\<lparr> cm_result_ref := Some res, cm_revision := cm_revision row + 1 \<rparr>"
  let ?failed = "row\<lparr> cm_status := COMMAND_STATE_FAILED, cm_delivery_ambiguous := False,
      cm_result_ref := Some res, cm_revision := cm_revision row + 1 \<rparr>"
  consider "cm_status row = COMMAND_STATE_APPLIED"
    | "cm_status row \<in> {COMMAND_STATE_FAILED, COMMAND_STATE_DELIVERY_UNKNOWN}"
    | "cm_status row \<notin> {COMMAND_STATE_APPLIED, COMMAND_STATE_FAILED, COMMAND_STATE_DELIVERY_UNKNOWN}"
    by blast
  then show ?thesis
  proof cases
    case 1
    then have "row' = row" using assms by (simp add: command_failure_row_def)
    then show ?thesis by blast
  next
    case 2
    then have "row' = (if cm_result_ref row = None then ?noted else row)"
      using assms by (cases "cm_result_ref row"; elim insertE emptyE)
        (simp_all add: command_failure_row_def split: if_splits)
    then show ?thesis using 2 by meson
  next
    case 3
    show ?thesis
    proof (cases "row' = row")
      case False
      then have "row' = ?failed \<and> (cm_status row = COMMAND_STATE_CLAIMED \<longrightarrow>
          cm_owner_class row = Some oc \<and> cm_claim_token row = Some tok)"
        using assms 3 by (simp add: command_failure_row_def split: if_splits)
      then show ?thesis using 3 by blast
    qed blast
  qed
qed

lemmas command_row_defs = command_le_def command_identity_def command_row_ok_def
  command_is_terminal_def status_rank_def COMMAND_TERMINAL_STATES_def COMMAND_STATES_def

lemma claim_command_row_le:
  assumes "command_row_ok row" and "claim_command_row g oc tok row = Inr (outcome, row')"
  shows "command_le row row' \<and> command_row_ok row'"
  using claim_command_row_shape [OF assms(2)]
proof (elim disjE conjE)
  assume "cm_status row = COMMAND_STATE_PENDING"
    "row' = row\<lparr> cm_status := COMMAND_STATE_CLAIMED, cm_owner_class := Some oc,
       cm_claim_token := Some tok, cm_revision := cm_revision row + 1 \<rparr>"
  then show ?thesis using assms(1) by (simp add: command_row_defs)
qed (use assms(1) in simp)

lemma command_delivery_row_le:
  assumes "command_row_ok row"
    and "command_delivery_row oc tok oc' receipt res row = Inr (outcome, row')"
  shows "command_le row row' \<and> command_row_ok row'"
  using command_delivery_row_shape [OF assms(2)]
proof (elim disjE conjE exE)
  fix receipt res status amb
  assume "cm_status row \<in> {COMMAND_STATE_CLAIMED, COMMAND_STATE_DELIVERY_UNKNOWN}"
    "status \<in> {COMMAND_STATE_APPLIED, COMMAND_STATE_DELIVERY_UNKNOWN, COMMAND_STATE_FAILED}"
    "row' = row\<lparr> cm_provider_receipt_id := receipt, cm_result_ref := res, cm_status := status,
       cm_delivery_ambiguous := amb, cm_revision := cm_revision row + 1 \<rparr>"
  then show ?thesis
    using assms(1) by (elim insertE emptyE) (simp_all add: command_row_defs)
qed (use assms(1) in simp)

lemma command_failure_row_le:
  assumes "command_row_ok row" and "command_failure_row g oc tok res row = Inr (outcome, row')"
  shows "command_le row row' \<and> command_row_ok row'"
  using command_failure_row_shape [OF assms(2)]
proof (elim disjE conjE)
  assume "cm_result_ref row = None"
    "cm_status row \<in> {COMMAND_STATE_FAILED, COMMAND_STATE_DELIVERY_UNKNOWN}"
    "row' = row\<lparr> cm_result_ref := Some res, cm_revision := cm_revision row + 1 \<rparr>"
  then show ?thesis
    using assms(1) by (elim insertE emptyE) (simp_all add: command_row_defs)
next
  assume "cm_status row \<notin> {COMMAND_STATE_APPLIED, COMMAND_STATE_FAILED, COMMAND_STATE_DELIVERY_UNKNOWN}"
    "row' = row\<lparr> cm_status := COMMAND_STATE_FAILED, cm_delivery_ambiguous := False,
       cm_result_ref := Some res, cm_revision := cm_revision row + 1 \<rparr>"
  then show ?thesis using assms(1) by (simp add: command_row_defs)
qed (use assms(1) in simp)

section \<open>Every operation is such a write\<close>

lemma modify_command_writes:
  assumes "commands_ok db" and "modify_command cid write db = Inr (res, db')"
    and "\<And>row outcome row'. command_row_ok row \<Longrightarrow> write row = Inr (outcome, row') \<Longrightarrow>
      command_le row row' \<and> command_row_ok row'"
  shows "command_write db db'"
proof -
  obtain row outcome row' where r: "map_of (db_commands db) cid = Some row"
    "write row = Inr (outcome, row')" "db' = put_command row' db"
    using assms(2) by (auto simp: modify_command_def bind_result_Inr_iff split: option.splits)
  have row: "cm_command_id row = cid" "command_row_ok row"
    using assms(1) keyed_table_row [OF _ r(1)] by (fastforce simp: commands_ok_def)+
  have le: "command_le row row'" "command_row_ok row'" using assms(3) [OF row(2) r(2)] by simp_all
  then have "cm_command_id row' = cid" using row(1) by (simp add: command_le_def command_identity_def)
  with r(1,3) le show ?thesis unfolding command_write_def by blast
qed

lemma claim_command_writes:
  "commands_ok db \<Longrightarrow> claim_command cid oc tok db = Inr (res, db') \<Longrightarrow> command_write db db'"
  unfolding claim_command_def by (erule (1) modify_command_writes) (rule claim_command_row_le)

lemma record_command_delivery_writes:
  "commands_ok db \<Longrightarrow> record_command_delivery cid oc tok outcome rec ref db = Inr (res, db') \<Longrightarrow>
   command_write db db'"
  unfolding record_command_delivery_def
  by (erule (1) modify_command_writes) (rule command_delivery_row_le)

lemma record_command_failure_writes:
  "commands_ok db \<Longrightarrow> record_command_failure cid oc tok ref db = Inr (res, db') \<Longrightarrow>
   command_write db db'"
  unfolding record_command_failure_def
  by (erule (1) modify_command_writes) (rule command_failure_row_le)

lemma record_command_creates: "record_command args db = Inr (r, db') \<Longrightarrow> command_created db db'"
  by (auto simp: record_command_def command_created_def bind_result_Inr_iff Let_def
      new_command_row_def command_row_ok_def COMMAND_STATES_def split: option.splits if_splits)

section \<open>The command table\<close>

lemma command_write_ok:
  assumes "commands_ok db" and "command_write db db'"
  shows "commands_ok db'"
proof -
  obtain row row' where r: "map_of (db_commands db) (cm_command_id row') = Some row"
    "command_le row row'" "command_row_ok row'" "db' = put_command row' db"
    using assms(2) by (auto simp: command_write_def)
  have same: "cm_idempotency_key row' = cm_idempotency_key row" "cm_session_id row' = cm_session_id row"
    using r(2) by (simp_all add: command_le_def command_identity_def)
  have "cm_session_id row' \<in> session_keys db"
    using assms(1) keyed_table_row [OF _ r(1)] same(2) by (fastforce simp: commands_ok_def)
  then have "keyed_table cm_command_id cm_idempotency_key
      (\<lambda>row. command_row_ok row \<and> cm_session_id row \<in> session_keys db) (db_commands db')"
    unfolding r(4) put_command_def
    using assms(1) r(1,3) same(1) by (simp add: commands_ok_def keyed_table_replace)
  then show ?thesis by (simp add: commands_ok_def r(4))
qed

lemma command_created_ok:
  assumes "commands_ok db" and "command_created db db'"
  shows "commands_ok db'"
proof (cases "db' = db")
  case False
  then obtain row where r: "command_integrity db row" "command_row_ok row" "db' = put_command row db"
    using assms(2) by (auto simp: command_created_def)
  then have "keyed_table cm_command_id cm_idempotency_key
      (\<lambda>row. command_row_ok row \<and> cm_session_id row \<in> session_keys db) (db_commands db')"
    unfolding r(3) put_command_def
    using assms(1) by (simp add: commands_ok_def command_integrity_def keyed_table_insert)
  then show ?thesis by (simp add: commands_ok_def r(3))
qed (use assms in simp)

lemma command_write_row:
  assumes "command_write db db'" and "map_of (db_commands db) cid = Some row"
  shows "\<exists>row'. map_of (db_commands db') cid = Some row' \<and> command_le row row'"
  using assms by (auto simp: command_write_def)

lemma command_created_row:
  assumes "command_created db db'" and "map_of (db_commands db) cid = Some row"
  shows "map_of (db_commands db') cid = Some row"
proof -
  have "cid \<noteq> cm_command_id r" if "command_integrity db r" for r
    using that map_of_fresh [OF assms(2)] by (simp add: command_integrity_def)
  then show ?thesis using assms by (auto simp: command_created_def)
qed

lemma command_write_frame [simp]:
  assumes "command_write db db'"
  shows "db_sessions db' = db_sessions db" "db_turns db' = db_turns db"
    "db_cleanups db' = db_cleanups db" "db_aliases db' = db_aliases db"
    "db_observations db' = db_observations db" "db_decisions db' = db_decisions db"
  using assms by (auto simp: command_write_def)

lemma command_created_frame [simp]:
  assumes "command_created db db'"
  shows "db_sessions db' = db_sessions db" "db_turns db' = db_turns db"
    "db_cleanups db' = db_cleanups db" "db_aliases db' = db_aliases db"
    "db_observations db' = db_observations db" "db_decisions db' = db_decisions db"
  using assms by (auto simp: command_created_def)

section \<open>Idempotent recording\<close>

lemma get_command_by_key_found:
  assumes "commands_ok db" and "map_of (db_commands db) cid = Some row"
  shows "get_command_by_key (cm_idempotency_key row) db = Inr (Some row)"
proof -
  have "filter (\<lambda>r. cm_idempotency_key r = cm_idempotency_key row) (map snd (db_commands db)) = [row]"
    using assms keyed_table_find by (auto simp: commands_ok_def)
  moreover have "cm_schema_version row = 1"
    using assms(1) keyed_table_row [OF _ assms(2)] by (fastforce simp: commands_ok_def command_row_ok_def)
  ultimately show ?thesis by (simp add: get_command_by_key_def)
qed

text \<open>
  C30. A logical command is journalled once: after it is recorded, recording a command under the
  same idempotency key returns the same row and changes nothing when session, type, turn and
  payload digest agree, and is refused as a key conflict when any of them differs, so a reused key
  never yields the receipt of unrelated work.
\<close>

theorem record_command_idempotent:
  assumes "commands_ok db" and "record_command args db = Inr (r, db')"
    and "nc_idempotency_key retry = nc_idempotency_key args"
  shows "record_command retry db' =
     (if nc_session_id retry = nc_session_id args \<and> nc_command_type retry = nc_command_type args
         \<and> nc_turn_attempt_id retry = nc_turn_attempt_id args
         \<and> nc_payload_digest retry = nc_payload_digest args
      then Inr (r, db') else Inl CommandIdempotencyConflictError)"
proof -
  have r: "same_command_identity args r \<and> get_command_by_key (nc_idempotency_key args) db' = Inr (Some r)"
  proof (cases "get_command_by_key (nc_idempotency_key args) db = Inr None")
    case True
    then have new: "db' = put_command (new_command_row args) db" "r = new_command_row args"
      using assms(2) by (auto simp: record_command_def bind_result_Inr_iff Let_def split: if_splits)
    have "commands_ok db'" using command_created_ok [OF assms(1) record_command_creates [OF assms(2)]] .
    then have "get_command_by_key (cm_idempotency_key r) db' = Inr (Some r)"
      using get_command_by_key_found [of db' "cm_command_id r" r] new by simp
    then show ?thesis using new by (simp add: new_command_row_def same_command_identity_def)
  next
    case False
    then show ?thesis
      using assms(2) by (auto simp: record_command_def bind_result_Inr_iff split: option.splits if_splits)
  qed
  then show ?thesis using assms(3) by (auto simp: record_command_def same_command_identity_def)
qed

definition example_command :: new_command where
  "example_command = \<lparr> nc_command_id = ''c1'', nc_session_id = ''s1'',
     nc_command_type = ''submit_turn'', nc_idempotency_key = ''k1'', nc_payload_digest = ''d1'',
     nc_turn_attempt_id = None, nc_expected_session_revision = Some 1, nc_fencing_generation = 0,
     nc_owner_class = None, nc_retry_policy = [] \<rparr>"

lemma example_commands_ok: "commands_ok example_store"
  by (simp add: commands_ok_def example_store_def empty_store_def)

lemma example_command_recorded:
  "record_command example_command example_store =
     Inr (new_command_row example_command, put_command (new_command_row example_command) example_store)"
  by (simp add: record_command_def example_command_def get_command_by_key_def example_store_def
      empty_store_def put_session_def new_command_row_def command_integrity_def session_keys_def
      example_session_def new_session_row_def new_session_default_def CURRENT_SCHEMA_VERSION_def
      Let_def)

lemma record_command_idempotent_witness:
  "\<exists>r db'. record_command example_command example_store = Inr (r, db')
     \<and> record_command (example_command\<lparr> nc_command_id := ''c2'' \<rparr>) db' = Inr (r, db')
     \<and> record_command (example_command\<lparr> nc_payload_digest := ''d2'' \<rparr>) db' =
         Inl CommandIdempotencyConflictError"
  using record_command_idempotent [OF example_commands_ok example_command_recorded,
      of "example_command\<lparr> nc_command_id := ''c2'' \<rparr>"]
    record_command_idempotent [OF example_commands_ok example_command_recorded,
      of "example_command\<lparr> nc_payload_digest := ''d2'' \<rparr>"]
    example_command_recorded
  by (simp add: example_command_def)

end
