(* ===== verification/Control_Plane_Cleanup.thy ===== *)
theory Control_Plane_Cleanup
  imports Control_Plane_Sessions
begin

text \<open>
  \<open>CleanupAuthorityRepository\<close> of \<^verbatim>\<open>moonmind/omnigent/control_plane/repositories.py\<close>: at most
  one janitor holds the cleanup of a session, fenced against the host lease, Provider Profile lease
  and provider session it was claimed against; a claim those have overtaken can be taken over.
\<close>

section \<open>Definitions\<close>

definition new_cleanup_row :: "py_str \<Rightarrow> cleanup_authority_record" where
  "new_cleanup_row session_id =
     \<lparr> cl_session_id = session_id, cl_schema_version = CURRENT_SCHEMA_VERSION, cl_generation = 0,
       cl_state = CLEANUP_STATE_UNCLAIMED, cl_owner_class = None, cl_claim_token = None,
       cl_fenced_host_generation = None, cl_fenced_profile_generation = None,
       cl_fenced_provider_epoch = None, cl_revision = 1 \<rparr>"

definition cleanup_row_record :: "cleanup_authority_record \<Rightarrow> cleanup_authority_record cp_result" where
  "cleanup_row_record row =
     bind_result (ensure_supported_schema_version ''OmnigentCleanupAuthority'' (cl_schema_version row))
       (\<lambda>_. Inr row)"

definition put_cleanup :: "cleanup_authority_record \<Rightarrow> control_store \<Rightarrow> control_store" where
  "put_cleanup row db = db\<lparr> db_cleanups := dict_set (cl_session_id row) row (db_cleanups db) \<rparr>"

definition get_cleanup :: "py_str \<Rightarrow> control_store \<Rightarrow> cleanup_authority_record option cp_result" where
  "get_cleanup session_id db =
     (case map_of (db_cleanups db) session_id of
        None \<Rightarrow> Inr None
      | Some row \<Rightarrow> bind_result (cleanup_row_record row) (\<lambda>record. Inr (Some record)))"

text \<open>The row of a known session is created lazily; the insert for an unknown one fails twice.\<close>

definition load_cleanup_for_update ::
  "py_str \<Rightarrow> control_store \<Rightarrow> cleanup_authority_record cp_result" where
  "load_cleanup_for_update session_id db =
     (case map_of (db_cleanups db) session_id of
        Some row \<Rightarrow> Inr row
      | None \<Rightarrow> if session_id \<in> session_keys db then Inr (new_cleanup_row session_id)
                else Inl AssertionFailure)"

definition modify_cleanup ::
  "py_str \<Rightarrow> (cleanup_authority_record \<Rightarrow> (control_plane_outcome \<times> cleanup_authority_record) cp_result) \<Rightarrow>
   cleanup_authority_record cas_result tx" where
  "modify_cleanup session_id write db =
     bind_result (load_cleanup_for_update session_id db) (\<lambda>row.
       bind_result (write row) (\<lambda>(outcome, row').
         bind_result (cleanup_row_record row') (\<lambda>record.
           Inr ((outcome, record), put_cleanup row' db))))"

text \<open>The authority of the session that cleanup is fenced against.\<close>

record cleanup_fences =
  cf_host :: "int option"
  cf_profile :: "int option"
  cf_epoch :: "py_str option"

definition current_fences :: "session_record option \<Rightarrow> cleanup_fences" where
  "current_fences session =
     (case session of
        None \<Rightarrow> \<lparr> cf_host = None, cf_profile = None, cf_epoch = None \<rparr>
      | Some row \<Rightarrow> \<lparr> cf_host = sn_host_lease_generation row,
                     cf_profile = sn_provider_profile_generation row,
                     cf_epoch = sn_provider_session_ref row \<rparr>)"

definition superseded :: "'a option \<Rightarrow> 'a option \<Rightarrow> bool" where
  "superseded fenced current \<longleftrightarrow> fenced \<noteq> None \<and> fenced \<noteq> current"

definition stale_claim :: "cleanup_authority_record \<Rightarrow> cleanup_fences \<Rightarrow> bool" where
  "stale_claim row current \<longleftrightarrow> superseded (cl_fenced_host_generation row) (cf_host current)
     \<or> superseded (cl_fenced_profile_generation row) (cf_profile current)
     \<or> superseded (cl_fenced_provider_epoch row) (cf_epoch current)"

definition claim_cleanup_row ::
  "cleanup_fences \<Rightarrow> py_str \<Rightarrow> py_str \<Rightarrow> cleanup_authority_record \<Rightarrow>
   cleanup_authority_record cas_result" where
  "claim_cleanup_row current owner_class claim_token row =
     (if cl_state row = CLEANUP_STATE_COMPLETE then (ALREADY_APPLIED, row)
      else if cl_state row = CLEANUP_STATE_CLAIMED \<and> cl_claim_token row = Some claim_token
      then (APPLIED, row)
      else if cl_state row = CLEANUP_STATE_CLAIMED \<and> \<not> stale_claim row current
      then (NOT_OWNER, row)
      else (APPLIED, row\<lparr> cl_state := CLEANUP_STATE_CLAIMED, cl_owner_class := Some owner_class,
              cl_claim_token := Some claim_token, cl_fenced_host_generation := cf_host current,
              cl_fenced_profile_generation := cf_profile current,
              cl_fenced_provider_epoch := cf_epoch current,
              cl_generation := cl_generation row + 1, cl_revision := cl_revision row + 1 \<rparr>))"

definition claim_cleanup :: "py_str \<Rightarrow> py_str \<Rightarrow> py_str \<Rightarrow> cleanup_authority_record cas_result tx" where
  "claim_cleanup session_id owner_class claim_token db =
     modify_cleanup session_id
       (\<lambda>row. Inr (claim_cleanup_row (current_fences (map_of (db_sessions db) session_id))
                     owner_class claim_token row)) db"

definition handoff_row :: "py_str \<Rightarrow> cleanup_authority_record \<Rightarrow> cleanup_authority_record" where
  "handoff_row owner_class row =
     (if cl_state row \<noteq> CLEANUP_STATE_UNCLAIMED then row
      else if cl_owner_class row = Some owner_class \<and> cl_claim_token row = None then row
      else row\<lparr> cl_owner_class := Some owner_class, cl_claim_token := None,
                cl_revision := cl_revision row + 1 \<rparr>)"

text \<open>The handoff returns the record alone, without an outcome.\<close>

definition record_janitor_handoff :: "py_str \<Rightarrow> py_str \<Rightarrow> cleanup_authority_record tx" where
  "record_janitor_handoff session_id owner_class =
     tx_bind (modify_cleanup session_id (\<lambda>row. Inr (APPLIED, handoff_row owner_class row)))
       (\<lambda>(outcome, record). tx_return record)"

text \<open>The session is read as a record here, so its schema version is checked.\<close>

definition complete_cleanup_row ::
  "session_record option cp_result \<Rightarrow> int \<Rightarrow> py_str \<Rightarrow> py_str \<Rightarrow> cleanup_authority_record \<Rightarrow>
   cleanup_authority_record cas_result cp_result" where
  "complete_cleanup_row loaded generation owner_class claim_token row =
     (if cl_state row = CLEANUP_STATE_COMPLETE \<and> cl_generation row = generation
      then Inr (ALREADY_APPLIED, row)
      else if cl_state row \<noteq> CLEANUP_STATE_CLAIMED \<or> cl_generation row \<noteq> generation
              \<or> cl_owner_class row \<noteq> Some owner_class \<or> cl_claim_token row \<noteq> Some claim_token
      then Inr (NOT_OWNER, row)
      else bind_result loaded (\<lambda>session.
        if session \<noteq> None
           \<and> (superseded (cl_fenced_profile_generation row) (cf_profile (current_fences session))
              \<or> superseded (cl_fenced_host_generation row) (cf_host (current_fences session))
              \<or> superseded (cl_fenced_provider_epoch row) (cf_epoch (current_fences session)))
        then Inr (FENCING_CONFLICT, row)
        else Inr (APPLIED, row\<lparr> cl_state := CLEANUP_STATE_COMPLETE,
                              cl_revision := cl_revision row + 1 \<rparr>)))"

definition complete_cleanup ::
  "py_str \<Rightarrow> int \<Rightarrow> py_str \<Rightarrow> py_str \<Rightarrow> cleanup_authority_record cas_result tx" where
  "complete_cleanup session_id generation owner_class claim_token db =
     modify_cleanup session_id
       (complete_cleanup_row (get_session session_id db) generation owner_class claim_token) db"

section \<open>What a write may do to cleanup authority\<close>

text \<open>
  Completion is final, generations never decrease, and within one generation the claim is held by
  one janitor under one set of fences.
\<close>

definition cleanup_claim ::
  "cleanup_authority_record \<Rightarrow> py_str option list \<times> int option list" where
  "cleanup_claim r = ([cl_owner_class r, cl_claim_token r, cl_fenced_provider_epoch r],
     [cl_fenced_host_generation r, cl_fenced_profile_generation r])"

definition cleanup_le :: "cleanup_authority_record \<Rightarrow> cleanup_authority_record \<Rightarrow> bool" where
  "cleanup_le r r' \<longleftrightarrow> cl_session_id r' = cl_session_id r
     \<and> cl_schema_version r' = cl_schema_version r
     \<and> (cl_state r = CLEANUP_STATE_COMPLETE \<longrightarrow> r' = r)
     \<and> cl_generation r \<le> cl_generation r'
     \<and> (cl_state r = CLEANUP_STATE_CLAIMED \<and> cl_generation r' = cl_generation r \<longrightarrow>
          cleanup_claim r' = cleanup_claim r
          \<and> cl_state r' \<in> {CLEANUP_STATE_CLAIMED, CLEANUP_STATE_COMPLETE})
     \<and> (r' = r \<or> cl_revision r < cl_revision r')"

definition cleanup_row_ok :: "cleanup_authority_record \<Rightarrow> bool" where
  "cleanup_row_ok r \<longleftrightarrow> cl_schema_version r = 1 \<and> cl_state r \<in> CLEANUP_STATES
     \<and> 0 \<le> cl_generation r
     \<and> (cl_state r \<noteq> CLEANUP_STATE_UNCLAIMED \<longrightarrow>
          1 \<le> cl_generation r \<and> cl_owner_class r \<noteq> None \<and> cl_claim_token r \<noteq> None)"

definition cleanups_ok :: "control_store \<Rightarrow> bool" where
  "cleanups_ok db \<longleftrightarrow> keyed_table cl_session_id cl_session_id
     (\<lambda>row. cleanup_row_ok row \<and> cl_session_id row \<in> session_keys db) (db_cleanups db)"

text \<open>The row a locked load yields: the stored one, or the fresh one of a known session.\<close>

definition cleanup_write :: "control_store \<Rightarrow> control_store \<Rightarrow> bool" where
  "cleanup_write db db' \<longleftrightarrow> (\<exists>row row'.
     load_cleanup_for_update (cl_session_id row') db = Inr row
     \<and> cleanup_le row row' \<and> cleanup_row_ok row' \<and> db' = put_cleanup row' db)"

lemma cleanup_le_refl [simp]: "cleanup_le r r"
  by (simp add: cleanup_le_def)

lemma cleanup_le_trans: "cleanup_le r s \<Longrightarrow> cleanup_le s t \<Longrightarrow> cleanup_le r t"
  unfolding cleanup_le_def by (elim conjE, intro conjI) auto

lemma new_cleanup_row_ok [simp]: "cleanup_row_ok (new_cleanup_row sid)"
  by (simp add: cleanup_row_ok_def new_cleanup_row_def vocabulary)

lemma cleanup_row_record_Inr [simp]:
  "cleanup_row_record row = Inr r \<longleftrightarrow> r = row \<and> cl_schema_version row = 1"
  by (auto simp: cleanup_row_record_def ensure_supported_schema_version_def vocabulary)

lemma put_cleanup_lookup [simp]:
  "map_of (db_cleanups (put_cleanup row db)) sid =
     (if sid = cl_session_id row then Some row else map_of (db_cleanups db) sid)"
  by (simp add: put_cleanup_def)

lemma put_cleanup_frame [simp]:
  "db_sessions (put_cleanup row db) = db_sessions db"
  "db_turns (put_cleanup row db) = db_turns db"
  "db_observations (put_cleanup row db) = db_observations db"
  "db_commands (put_cleanup row db) = db_commands db"
  "db_decisions (put_cleanup row db) = db_decisions db"
  "db_aliases (put_cleanup row db) = db_aliases db"
  "session_keys (put_cleanup row db) = session_keys db"
  by (simp_all add: put_cleanup_def session_keys_def)

lemma load_cleanup_row:
  assumes "cleanups_ok db" and "load_cleanup_for_update sid db = Inr row"
  shows "cl_session_id row = sid" "cleanup_row_ok row" "sid \<in> session_keys db"
    "map_of (db_cleanups db) sid = Some row \<or> map_of (db_cleanups db) sid = None \<and> row = new_cleanup_row sid"
  using assms keyed_table_row [of cl_session_id cl_session_id _ "db_cleanups db" sid row]
  by (auto simp: load_cleanup_for_update_def cleanups_ok_def new_cleanup_row_def vocabulary
      cleanup_row_ok_def split: option.splits if_splits)

lemma claim_cleanup_row_shape:
  assumes "claim_cleanup_row current oc tok row = (outcome, row')"
  shows "row' = row \<or> cl_state row \<noteq> CLEANUP_STATE_COMPLETE \<and> outcome = APPLIED
     \<and> (cl_state row = CLEANUP_STATE_CLAIMED \<longrightarrow> stale_claim row current)
     \<and> row' = row\<lparr> cl_state := CLEANUP_STATE_CLAIMED, cl_owner_class := Some oc,
          cl_claim_token := Some tok, cl_fenced_host_generation := cf_host current,
          cl_fenced_profile_generation := cf_profile current,
          cl_fenced_provider_epoch := cf_epoch current, cl_generation := cl_generation row + 1,
          cl_revision := cl_revision row + 1 \<rparr>"
  using assms by (auto simp: claim_cleanup_row_def split: if_splits)

lemmas cleanup_row_defs = cleanup_le_def cleanup_row_ok_def CLEANUP_STATES_def cleanup_claim_def

lemma claim_cleanup_row_le:
  assumes "cleanup_row_ok row" and "claim_cleanup_row current oc tok row = (outcome, row')"
  shows "cleanup_le row row' \<and> cleanup_row_ok row'"
  using claim_cleanup_row_shape [OF assms(2)]
proof (elim disjE conjE)
  assume "cl_state row \<noteq> CLEANUP_STATE_COMPLETE"
    "row' = row\<lparr> cl_state := CLEANUP_STATE_CLAIMED, cl_owner_class := Some oc,
       cl_claim_token := Some tok, cl_fenced_host_generation := cf_host current,
       cl_fenced_profile_generation := cf_profile current,
       cl_fenced_provider_epoch := cf_epoch current, cl_generation := cl_generation row + 1,
       cl_revision := cl_revision row + 1 \<rparr>"
  then show ?thesis using assms(1) by (simp add: cleanup_row_defs)
qed (use assms(1) in simp)

lemma complete_cleanup_row_shape:
  assumes "complete_cleanup_row loaded generation oc tok row = Inr (outcome, row')"
  shows "row' = row \<and> outcome \<noteq> APPLIED
     \<or> cl_state row = CLEANUP_STATE_CLAIMED \<and> cl_generation row = generation
       \<and> cl_owner_class row = Some oc \<and> cl_claim_token row = Some tok \<and> outcome = APPLIED
       \<and> (\<exists>session. loaded = Inr session
            \<and> (session \<noteq> None \<longrightarrow> \<not> stale_claim row (current_fences session)))
       \<and> row' = row\<lparr> cl_state := CLEANUP_STATE_COMPLETE, cl_revision := cl_revision row + 1 \<rparr>"
  using assms
  by (auto simp: complete_cleanup_row_def stale_claim_def bind_result_Inr_iff split: if_splits)

lemma complete_cleanup_row_le:
  assumes "cleanup_row_ok row" and "complete_cleanup_row loaded generation oc tok row = Inr (outcome, row')"
  shows "cleanup_le row row' \<and> cleanup_row_ok row'"
  using complete_cleanup_row_shape [OF assms(2)]
proof (elim disjE conjE)
  assume "cl_state row = CLEANUP_STATE_CLAIMED"
    "row' = row\<lparr> cl_state := CLEANUP_STATE_COMPLETE, cl_revision := cl_revision row + 1 \<rparr>"
  then show ?thesis using assms(1) by (simp add: cleanup_row_defs)
qed (use assms(1) in simp)

lemma modify_cleanup_Inr:
  "modify_cleanup sid write db = Inr (res, db') \<longleftrightarrow>
     (\<exists>row outcome row'. load_cleanup_for_update sid db = Inr row \<and> write row = Inr (outcome, row')
        \<and> cl_schema_version row' = 1 \<and> res = (outcome, row') \<and> db' = put_cleanup row' db)"
  by (auto simp: modify_cleanup_def bind_result_Inr_iff)

lemma modify_cleanup_writes:
  assumes "cleanups_ok db" and "modify_cleanup sid write db = Inr (res, db')"
    and "\<And>row outcome row'. cleanup_row_ok row \<Longrightarrow> write row = Inr (outcome, row') \<Longrightarrow>
      cleanup_le row row' \<and> cleanup_row_ok row'"
  shows "cleanup_write db db'"
proof -
  obtain row outcome row' where r: "load_cleanup_for_update sid db = Inr row"
    "write row = Inr (outcome, row')" "db' = put_cleanup row' db"
    using assms(2) by (auto simp: modify_cleanup_Inr)
  note row = load_cleanup_row [OF assms(1) r(1)]
  have le: "cleanup_le row row'" "cleanup_row_ok row'" using assms(3) [OF row(2) r(2)] by simp_all
  then have "cl_session_id row' = sid" using row(1) by (simp add: cleanup_le_def)
  with r le show ?thesis unfolding cleanup_write_def by blast
qed

lemma claim_cleanup_writes:
  "cleanups_ok db \<Longrightarrow> claim_cleanup sid oc tok db = Inr (res, db') \<Longrightarrow> cleanup_write db db'"
  unfolding claim_cleanup_def
  by (erule (1) modify_cleanup_writes) (simp add: claim_cleanup_row_le)

lemma record_janitor_handoff_writes:
  assumes "cleanups_ok db" and "record_janitor_handoff sid oc db = Inr (res, db')"
  shows "cleanup_write db db'"
proof -
  obtain outcome where
    "modify_cleanup sid (\<lambda>row. Inr (APPLIED, handoff_row oc row)) db = Inr ((outcome, res), db')"
    using assms(2) by (auto simp: record_janitor_handoff_def tx_bind_Inr tx_return_def)
  with assms(1) show ?thesis
    by (rule modify_cleanup_writes) (auto simp: handoff_row_def cleanup_row_defs split: if_splits)
qed

lemma complete_cleanup_writes:
  "cleanups_ok db \<Longrightarrow> complete_cleanup sid g oc tok db = Inr (res, db') \<Longrightarrow> cleanup_write db db'"
  unfolding complete_cleanup_def
  by (erule (1) modify_cleanup_writes) (rule complete_cleanup_row_le)

lemma cleanup_write_ok:
  assumes "cleanups_ok db" and "cleanup_write db db'"
  shows "cleanups_ok db'"
proof -
  obtain row row' where r: "load_cleanup_for_update (cl_session_id row') db = Inr row"
    "cleanup_le row row'" "cleanup_row_ok row'" "db' = put_cleanup row' db"
    using assms(2) by (auto simp: cleanup_write_def)
  have "cl_session_id row' \<in> session_keys db" using load_cleanup_row(3) [OF assms(1) r(1)] .
  then have "keyed_table cl_session_id cl_session_id
      (\<lambda>row. cleanup_row_ok row \<and> cl_session_id row \<in> session_keys db) (db_cleanups db')"
    unfolding r(4) put_cleanup_def using assms(1) r(3) by (simp add: cleanups_ok_def keyed_table_set)
  then show ?thesis by (simp add: cleanups_ok_def r(4))
qed

lemma cleanup_write_row:
  assumes "cleanup_write db db'" and "map_of (db_cleanups db) sid = Some row"
  shows "\<exists>row'. map_of (db_cleanups db') sid = Some row' \<and> cleanup_le row row'"
  using assms by (auto simp: cleanup_write_def load_cleanup_for_update_def)

lemma cleanup_write_frame [simp]:
  assumes "cleanup_write db db'"
  shows "db_sessions db' = db_sessions db" "db_turns db' = db_turns db"
    "db_commands db' = db_commands db" "db_aliases db' = db_aliases db"
    "db_observations db' = db_observations db" "db_decisions db' = db_decisions db"
  using assms by (auto simp: cleanup_write_def)

end
