(* ===== verification/Control_Plane_Journal.thy ===== *)
theory Control_Plane_Journal
  imports Control_Plane_Sessions
begin

text \<open>
  The append-only repositories of \<^verbatim>\<open>moonmind/omnigent/control_plane/repositories.py\<close>,
  \<open>ObservationRepository\<close> and \<open>DecisionRepository\<close>, and \<open>ChatBindingAliasRepository\<close>, which
  resolves issued chat handles. Queries ordered by a database timestamp are not modelled.
\<close>

section \<open>Observations\<close>

definition observation_row_record :: "cp_observation_record \<Rightarrow> cp_observation_record cp_result" where
  "observation_row_record row =
     bind_result (ensure_supported_schema_version ''OmnigentObservation'' (ob_schema_version row))
       (\<lambda>_. Inr row)"

definition observation_key :: "cp_observation_record \<Rightarrow> py_str \<times> py_str" where
  "observation_key row = (ob_session_id row, ob_deduplication_key row)"

definition by_dedup ::
  "py_str \<Rightarrow> py_str \<Rightarrow> control_store \<Rightarrow> cp_observation_record option cp_result" where
  "by_dedup session_id deduplication_key db =
     (case filter (\<lambda>row. observation_key row = (session_id, deduplication_key))
             (map snd (db_observations db)) of
        [] \<Rightarrow> Inr None
      | [row] \<Rightarrow> Inr (Some row)
      | _ \<Rightarrow> Inl MultipleResultsFound)"

text \<open>The argument is the row to insert, at the current schema version.\<close>

definition append_observation :: "cp_observation_record \<Rightarrow> cp_observation_record tx" where
  "append_observation args db =
     (let row = args\<lparr> ob_schema_version := CURRENT_SCHEMA_VERSION \<rparr> in
      bind_result (by_dedup (ob_session_id row) (ob_deduplication_key row) db) (\<lambda>existing.
        case existing of
          Some found \<Rightarrow> bind_result (observation_row_record found) (\<lambda>record. Inr (record, db))
        | None \<Rightarrow>
            if ob_observation_id row \<in> fst ` set (db_observations db)
               \<or> ob_session_id row \<notin> session_keys db
            then Inl IntegrityViolation
            else bind_result (observation_row_record row) (\<lambda>record. Inr (record,
              db\<lparr> db_observations :=
                    dict_set (ob_observation_id row) row (db_observations db) \<rparr>))))"

section \<open>Decisions\<close>

definition decision_row_record :: "decision_record \<Rightarrow> decision_record cp_result" where
  "decision_row_record row =
     bind_result (ensure_supported_schema_version ''OmnigentReconciliationDecision''
         (de_schema_version row)) (\<lambda>_. Inr row)"

definition get_decision :: "py_str \<Rightarrow> control_store \<Rightarrow> decision_record option cp_result" where
  "get_decision decision_id db =
     (case map_of (db_decisions db) decision_id of
        None \<Rightarrow> Inr None
      | Some row \<Rightarrow> bind_result (decision_row_record row) (\<lambda>record. Inr (Some record)))"

definition decision_identity ::
  "decision_record \<Rightarrow> py_str \<times> py_str \<times> int option \<times> int \<times> py_str option" where
  "decision_identity r = (de_session_id r, de_decision_code r, de_expected_revision r,
     de_fencing_generation r, de_reason_code r)"

definition append_decision :: "decision_record \<Rightarrow> decision_record tx" where
  "append_decision args db =
     bind_result (get_decision (de_decision_id args) db) (\<lambda>existing.
       case existing of
         Some record \<Rightarrow>
           if decision_identity args \<noteq> decision_identity record
           then Inl ConflictingSessionAuthorityError
           else Inr (record, db)
       | None \<Rightarrow>
           let row = args\<lparr> de_schema_version := CURRENT_SCHEMA_VERSION \<rparr> in
           if de_session_id row \<notin> session_keys db then Inl IntegrityViolation
           else bind_result (decision_row_record row) (\<lambda>record. Inr (record,
             db\<lparr> db_decisions := dict_set (de_decision_id row) row (db_decisions db) \<rparr>)))"

definition count_for_session_reason :: "py_str \<Rightarrow> py_str \<Rightarrow> control_store \<Rightarrow> int" where
  "count_for_session_reason session_id reason_code db =
     int (length (filter (\<lambda>row. de_session_id row = session_id \<and> de_reason_code row = Some reason_code)
       (map snd (db_decisions db))))"

section \<open>Chat-binding aliases\<close>

definition ALIAS_STATE_ACTIVE :: py_str where
  "ALIAS_STATE_ACTIVE = ''active''"

definition ALIAS_STATE_QUARANTINED :: py_str where
  "ALIAS_STATE_QUARANTINED = ''quarantined''"

definition register_alias_row ::
  "py_str option \<Rightarrow> py_str \<Rightarrow> py_str option \<Rightarrow> chat_binding_alias_record \<Rightarrow>
   chat_binding_alias_record cp_result" where
  "register_alias_row session_id alias_state diagnostic_reason row =
     (let rebound = row\<lparr> al_session_id := session_id, al_alias_state := alias_state,
                         al_diagnostic_reason := diagnostic_reason \<rparr> in
      if al_session_id row = session_id \<and> al_alias_state row = alias_state
      then Inr (if diagnostic_reason \<noteq> None
                then row\<lparr> al_diagnostic_reason := diagnostic_reason \<rparr> else row)
      else if alias_state = ALIAS_STATE_QUARANTINED then Inr rebound
      else if al_alias_state row = ALIAS_STATE_ACTIVE \<and> al_session_id row \<noteq> None
              \<and> al_session_id row \<noteq> session_id
      then Inl ConflictingSessionAuthorityError
      else Inr rebound)"

definition register_alias ::
  "py_str \<Rightarrow> py_str option \<Rightarrow> py_str \<Rightarrow> py_str option \<Rightarrow> chat_binding_alias_record tx" where
  "register_alias chat_binding_id session_id alias_state diagnostic_reason db =
     bind_result
       (case map_of (db_aliases db) chat_binding_id of
          None \<Rightarrow> Inr \<lparr> al_chat_binding_id = chat_binding_id, al_session_id = session_id,
                       al_alias_state = alias_state, al_diagnostic_reason = diagnostic_reason \<rparr>
        | Some row \<Rightarrow> register_alias_row session_id alias_state diagnostic_reason row)
       (\<lambda>row. if \<not> foreign_ok (al_session_id row) (session_keys db) then Inl IntegrityViolation
              else Inr (row, db\<lparr> db_aliases := dict_set chat_binding_id row (db_aliases db) \<rparr>))"

definition quarantine_alias :: "py_str \<Rightarrow> py_str \<Rightarrow> chat_binding_alias_record tx" where
  "quarantine_alias chat_binding_id diagnostic_reason =
     register_alias chat_binding_id None ALIAS_STATE_QUARANTINED (Some diagnostic_reason)"

definition resolve_alias :: "py_str \<Rightarrow> control_store \<Rightarrow> chat_binding_alias_record option" where
  "resolve_alias chat_binding_id db = map_of (db_aliases db) chat_binding_id"

section \<open>Append only\<close>

definition observations_ok :: "control_store \<Rightarrow> bool" where
  "observations_ok db \<longleftrightarrow> keyed_table ob_observation_id observation_key
     (\<lambda>row. ob_schema_version row = 1 \<and> ob_session_id row \<in> session_keys db) (db_observations db)"

definition decisions_ok :: "control_store \<Rightarrow> bool" where
  "decisions_ok db \<longleftrightarrow> keyed_table de_decision_id de_decision_id
     (\<lambda>row. de_schema_version row = 1 \<and> de_session_id row \<in> session_keys db) (db_decisions db)"

definition aliases_ok :: "control_store \<Rightarrow> bool" where
  "aliases_ok db \<longleftrightarrow> keyed_table al_chat_binding_id al_chat_binding_id
     (\<lambda>row. foreign_ok (al_session_id row) (session_keys db)) (db_aliases db)"

text \<open>An append leaves every row in place; an alias write touches aliases only.\<close>

definition observation_appended :: "control_store \<Rightarrow> control_store \<Rightarrow> bool" where
  "observation_appended db db' \<longleftrightarrow> (\<exists>xs. db' = db\<lparr> db_observations := xs \<rparr>
     \<and> map_of (db_observations db) \<subseteq>\<^sub>m map_of xs)"

definition decision_appended :: "control_store \<Rightarrow> control_store \<Rightarrow> bool" where
  "decision_appended db db' \<longleftrightarrow> (\<exists>xs. db' = db\<lparr> db_decisions := xs \<rparr>
     \<and> map_of (db_decisions db) \<subseteq>\<^sub>m map_of xs)"

definition alias_written :: "control_store \<Rightarrow> control_store \<Rightarrow> bool" where
  "alias_written db db' \<longleftrightarrow> (\<exists>xs. db' = db\<lparr> db_aliases := xs \<rparr>)"

lemma observation_row_record_Inr [simp]:
  "observation_row_record row = Inr r \<longleftrightarrow> r = row \<and> ob_schema_version row = 1"
  by (auto simp: observation_row_record_def ensure_supported_schema_version_def vocabulary)

lemma decision_row_record_Inr [simp]:
  "decision_row_record row = Inr r \<longleftrightarrow> r = row \<and> de_schema_version row = 1"
  by (auto simp: decision_row_record_def ensure_supported_schema_version_def vocabulary)

lemma map_le_fresh: "k \<notin> fst ` set kvs \<Longrightarrow> map_of kvs \<subseteq>\<^sub>m (map_of kvs)(k \<mapsto> v)"
  by (auto simp: map_le_def dom_def dest!: map_of_SomeD) (force dest: map_of_SomeD)

lemma append_observation_appends:
  assumes "append_observation args db = Inr (r, db')"
  shows "observation_appended db db'"
  using assms
  by (auto simp: append_observation_def observation_appended_def bind_result_Inr_iff Let_def
      map_le_fresh intro: exI [of _ "db_observations db"] split: option.splits if_splits)

lemma append_decision_appends:
  assumes "append_decision args db = Inr (r, db')"
  shows "decision_appended db db'"
  using assms
  by (auto simp: append_decision_def decision_appended_def get_decision_def bind_result_Inr_iff Let_def
      map_of_eq_None_iff map_le_fresh intro: exI [of _ "db_decisions db"]
      split: option.splits if_splits)

lemma register_alias_writes: "register_alias cb sid st why db = Inr (r, db') \<Longrightarrow> alias_written db db'"
  by (auto simp: register_alias_def alias_written_def bind_result_Inr_iff split: if_splits)

lemma register_alias_row_key:
  "register_alias_row sid st why row = Inr row' \<Longrightarrow> al_chat_binding_id row' = al_chat_binding_id row"
  by (auto simp: register_alias_row_def Let_def split: if_splits)

lemma by_dedup_None:
  "by_dedup sid key db = Inr None \<Longrightarrow> \<forall>(_, r) \<in> set (db_observations db). observation_key r \<noteq> (sid, key)"
  by (auto simp: by_dedup_def filter_empty_conv split: list.splits)

lemma append_observation_ok:
  assumes "observations_ok db" and "append_observation args db = Inr (r, db')"
  shows "observations_ok db'"
proof (cases "db' = db")
  case False
  let ?row = "args\<lparr> ob_schema_version := CURRENT_SCHEMA_VERSION \<rparr>"
  have new: "by_dedup (ob_session_id ?row) (ob_deduplication_key ?row) db = Inr None"
    "ob_session_id ?row \<in> session_keys db"
    "db' = db\<lparr> db_observations := dict_set (ob_observation_id ?row) ?row (db_observations db) \<rparr>"
    using assms(2) False
    by (auto simp: append_observation_def bind_result_Inr_iff Let_def split: option.splits if_splits)
  have "\<forall>(_, r) \<in> set (db_observations db). observation_key r \<noteq> observation_key ?row"
    using by_dedup_None [OF new(1)] by (simp add: observation_key_def)
  moreover have "ob_schema_version ?row = 1 \<and> ob_session_id ?row \<in> session_keys db"
    using new(2) by (simp add: vocabulary)
  ultimately have "keyed_table ob_observation_id observation_key
      (\<lambda>row. ob_schema_version row = 1 \<and> ob_session_id row \<in> session_keys db)
      (dict_set (ob_observation_id ?row) ?row (db_observations db))"
    using assms(1) by (intro keyed_table_insert) (simp_all add: observations_ok_def)
  then show ?thesis by (simp add: observations_ok_def new(3) session_keys_def)
qed (use assms(1) in simp)

lemma append_decision_ok:
  assumes "decisions_ok db" and "append_decision args db = Inr (r, db')"
  shows "decisions_ok db'"
proof (cases "db' = db")
  case False
  let ?row = "args\<lparr> de_schema_version := CURRENT_SCHEMA_VERSION \<rparr>"
  have new: "de_session_id ?row \<in> session_keys db"
    "db' = db\<lparr> db_decisions := dict_set (de_decision_id ?row) ?row (db_decisions db) \<rparr>"
    using assms(2) False
    by (auto simp: append_decision_def bind_result_Inr_iff Let_def split: option.splits if_splits)
  have "keyed_table de_decision_id de_decision_id
      (\<lambda>row. de_schema_version row = 1 \<and> de_session_id row \<in> session_keys db)
      (dict_set (de_decision_id ?row) ?row (db_decisions db))"
    using assms(1) new(1) by (intro keyed_table_set) (simp_all add: decisions_ok_def vocabulary)
  then show ?thesis by (simp add: decisions_ok_def new(2) session_keys_def)
qed (use assms(1) in simp)

lemma register_alias_ok:
  assumes "aliases_ok db" and "register_alias cb sid st why db = Inr (r, db')"
  shows "aliases_ok db'"
proof -
  have r: "db' = db\<lparr> db_aliases := dict_set cb r (db_aliases db) \<rparr>"
    "foreign_ok (al_session_id r) (session_keys db)"
    using assms(2) by (auto simp: register_alias_def bind_result_Inr_iff split: if_splits)
  have "al_chat_binding_id r = cb"
  proof (cases "map_of (db_aliases db) cb")
    case None
    then show ?thesis using assms(2) by (auto simp: register_alias_def split: if_splits)
  next
    case (Some row)
    then have "al_chat_binding_id row = cb"
      using assms(1) keyed_table_row [OF _ Some] by (fastforce simp: aliases_ok_def)
    then show ?thesis
      using assms(2) Some register_alias_row_key
      by (fastforce simp: register_alias_def bind_result_Inr_iff split: if_splits)
  qed
  then have "keyed_table al_chat_binding_id al_chat_binding_id
      (\<lambda>row. foreign_ok (al_session_id row) (session_keys db)) (dict_set cb r (db_aliases db))"
    using assms(1) r(2) keyed_table_set [of al_chat_binding_id _ "db_aliases db" r]
    by (simp add: aliases_ok_def)
  then show ?thesis by (simp add: aliases_ok_def r(1) session_keys_def)
qed

text \<open>
  A chat handle that resolves to one session is never silently pointed at another: after any
  successful registration it still resolves to that session or does not resolve at all, and
  registering it for another session without quarantining it is refused.
\<close>

theorem alias_never_repointed:
  assumes "resolve_alias cb db = Some row" and "alias_resolves row"
  shows "case register_alias cb sid st why db of
      Inl e \<Rightarrow> e = ConflictingSessionAuthorityError \<or> e = IntegrityViolation
    | Inr (r, db') \<Rightarrow> resolve_alias cb db' = Some r
        \<and> (alias_resolves r \<longrightarrow> al_session_id r = al_session_id row)
        \<and> (sid \<noteq> al_session_id row \<longrightarrow> st = ALIAS_STATE_QUARANTINED)"
  using assms
  by (auto simp: register_alias_def register_alias_row_def resolve_alias_def alias_resolves_def
      ALIAS_STATE_ACTIVE_def ALIAS_STATE_QUARANTINED_def Let_def bind_result_def
      split: sum.splits if_splits)

definition example_alias_store :: control_store where
  "example_alias_store = example_store\<lparr> db_aliases := [(''chat1'',
     \<lparr> al_chat_binding_id = ''chat1'', al_session_id = Some ''s1'', al_alias_state = ''active'',
       al_diagnostic_reason = None \<rparr>)] \<rparr>"

lemma alias_never_repointed_witness:
  "\<nexists>r db'. register_alias ''chat1'' (Some ''s2'') ALIAS_STATE_ACTIVE None example_alias_store = Inr (r, db')"
proof -
  have "resolve_alias ''chat1'' example_alias_store = Some
      \<lparr> al_chat_binding_id = ''chat1'', al_session_id = Some ''s1'', al_alias_state = ''active'',
        al_diagnostic_reason = None \<rparr>"
    by (simp add: resolve_alias_def example_alias_store_def)
  from alias_never_repointed [OF this, of "Some ''s2''" ALIAS_STATE_ACTIVE None] show ?thesis
    by (auto simp: alias_resolves_def ALIAS_STATE_ACTIVE_def ALIAS_STATE_QUARANTINED_def)
qed

end
