(* ===== verification/Machines.thy ===== *)
theory Machines
  imports Main
begin

text \<open>
  Transition systems that the components share: what a step keeps along a run, how many steps a run
  can take, and that it reaches an end.
\<close>

section \<open>Machines that stop\<close>

text \<open>
  Three contracts of a machine: its steps keep an invariant; they lower a weight too; and it is stuck
  only where it is over.
\<close>

locale invariant_machine =
  fixes step :: "'c \<Rightarrow> 'c \<Rightarrow> bool" and inv :: "'c \<Rightarrow> bool"
  assumes inv_step: "inv c \<Longrightarrow> step c c' \<Longrightarrow> inv c'"
begin

lemma run_keeps: "step\<^sup>*\<^sup>* c c' \<Longrightarrow> inv c \<Longrightarrow> inv c'"
  by (induction rule: rtranclp_induct) (auto intro: inv_step)

end

locale measured_machine = invariant_machine +
  fixes weight :: "'a \<Rightarrow> nat"
  assumes weight_step: "inv c \<Longrightarrow> step c c' \<Longrightarrow> weight c' < weight c"
begin

lemma run_bounded: "(step ^^ k) c c' \<Longrightarrow> inv c \<Longrightarrow> k + weight c' \<le> weight c"
proof (induction k arbitrary: c')
  case (Suc k)
  then obtain d where d: "(step ^^ k) c d" "step d c'" by auto
  then have "inv d" using Suc.prems(2) run_keeps relpowp_imp_rtranclp by metis
  then show ?case using Suc.IH [OF d(1) Suc.prems(2)] weight_step [OF _ d(2)] by simp
qed simp

end

locale stopping_machine = measured_machine +
  fixes over :: "'a \<Rightarrow> bool"
  assumes not_stuck: "inv c \<Longrightarrow> \<not> over c \<Longrightarrow> \<exists>c'. step c c'"
begin

lemma run_ends: "inv c \<Longrightarrow> \<exists>c'. step\<^sup>*\<^sup>* c c' \<and> over c'"
proof (induction "weight c" arbitrary: c rule: less_induct)
  case less
  show ?case
  proof (cases "over c")
    case False
    then obtain d where d: "step c d" using not_stuck less.prems by blast
    then obtain e where "step\<^sup>*\<^sup>* d e" "over e" using less.hyps weight_step inv_step less.prems by metis
    then show ?thesis using d by (metis converse_rtranclp_into_rtranclp)
  qed blast
qed

end

end
