(* ===== verification/Control_Plane_Histories.thy ===== *)
theory Control_Plane_Histories
  imports Control_Plane_Runtime_Authority Control_Plane_Turns Control_Plane_Commands
    Control_Plane_Cleanup Control_Plane_Journal Machines
begin

text \<open>
  Histories of the control-plane store: any interleaving of the operations of all repositories,
  and what holds along every history. An operation that writes a row is one step, as its row lock
  makes it. Three operations read without a lock. The allocation of a chat handle is therefore also
  three steps, a load, a later flush, and a rollback instead, between which anything may happen.
  \<open>create_turn\<close> looks for an equal turn before it inserts one; where a concurrent insert wins, the
  code refuses the loser with a conflict, and the model, which runs the loser after the winner, finds
  the row; the store is as the winner left it either way. \<open>compare_and_swap_turn\<close> locks the turn but
  not the session whose generation it compares: it is the step at the moment it reads that session.
  Two locales
  state what a table promises its readers, a row only advances, and a version identifies its
  content; they are interpreted on the four fenced tables. The unit of work that establishes a
  session, \<open>OmnigentControlPlaneStore\<close>, is composed of these operations.
\<close>

section \<open>Establishing a session\<close>

record establish_args =
  ea_session :: new_session
  ea_chat_binding_id :: py_str
  ea_first_turn_attempt_id :: py_str
  ea_first_turn_idempotency_key :: py_str
  ea_instruction_digest :: "py_str option"

text \<open>
  The session arguments are those \<open>establish_session\<close> passes to \<open>create\<close>: the chat handle is
  mandatory, and the remaining defaults are those of \<open>create\<close>.
\<close>

definition established_session :: "establish_args \<Rightarrow> new_session" where
  "established_session args = (ea_session args)\<lparr>
     ns_chat_binding_id := Some (ea_chat_binding_id args), ns_runtime_binding_ref := None,
     ns_desired_state := ''pending'', ns_provider_profile_id := None, ns_host_binding_ref := None,
     ns_host_lease_ref := None, ns_compatibility_ref := None, ns_image_manifest_ref := None \<rparr>"

definition established_turn :: "establish_args \<Rightarrow> new_turn" where
  "established_turn args =
     (new_turn_default (ea_first_turn_attempt_id args) (ns_session_id (ea_session args))
        (ea_first_turn_idempotency_key args))\<lparr>
       nt_lineage_kind := ''initial'', nt_step_execution_id := ns_step_execution_id (ea_session args),
       nt_instruction_digest := ea_instruction_digest args \<rparr>"

definition establish_session ::
  "establish_args \<Rightarrow> (session_record \<times> turn_attempt_record) tx" where
  "establish_session args =
     (let session_id = ns_session_id (ea_session args) in
      tx_bind (create_session (established_session args)) (\<lambda>_.
      tx_bind (register_alias (ea_chat_binding_id args) (Some session_id) ALIAS_STATE_ACTIVE None) (\<lambda>_.
      tx_bind (create_turn (established_turn args)) (\<lambda>turn.
      tx_bind (update_lifecycle session_id (supervisor_fence 1 0)
                 (no_update\<lparr> su_active_turn_attempt_id := Some (Some (ea_first_turn_attempt_id args)) \<rparr>)) (\<lambda>_.
      \<lambda>db. bind_result (get_session session_id db) (\<lambda>refreshed.
        case refreshed of None \<Rightarrow> Inl AssertionFailure
        | Some record \<Rightarrow> Inr ((record, turn), db)))))))"

section \<open>Steps\<close>

inductive store_step :: "control_store \<Rightarrow> control_store \<Rightarrow> bool" where
  session_create: "create_session args db = Inr (r, db') \<Longrightarrow> store_step db db'"
| allocate: "allocate_chat_binding sid cb db = Inr (r, db') \<Longrightarrow> store_step db db'"
| allocation_loaded:
    "map_of (db_sessions db) sid = Some row \<Longrightarrow> check_chat_binding cb row = Inr True \<Longrightarrow>
     store_step db (db\<lparr> db_allocations := (sid, cb) # db_allocations db \<rparr>)"
| allocation_flushed:
    "(sid, cb) \<in> set (db_allocations db) \<Longrightarrow> flush_chat_binding sid cb db = Inr (r, db') \<Longrightarrow>
     store_step db (db'\<lparr> db_allocations := remove1 (sid, cb) (db_allocations db') \<rparr>)"
| allocation_dropped: "store_step db (db\<lparr> db_allocations := remove1 (sid, cb) (db_allocations db) \<rparr>)"
| attach: "attach_provider_session sid ref n g db = Inr (r, db') \<Longrightarrow> store_step db db'"
| bind_authority: "bind_runtime_authority sid n g ra db = Inr (r, db') \<Longrightarrow> store_step db db'"
| replace_authority:
    "replace_provider_runtime_authority sid n g pg profile cg patch db = Inr (r, db') \<Longrightarrow>
     store_step db db'"
| session_cas: "compare_and_swap_session sid fence upd db = Inr (res, db') \<Longrightarrow> store_step db db'"
| lifecycle: "update_lifecycle sid fence upd db = Inr (r, db') \<Longrightarrow> store_step db db'"
| acquire: "acquire_fencing_generation sid scope n db = Inr (r, db') \<Longrightarrow> store_step db db'"
| recover: "recover_from_quarantine sid n g db = Inr (r, db') \<Longrightarrow> store_step db db'"
| frontier: "advance_observation_frontier sid n g cur front db = Inr (res, db') \<Longrightarrow> store_step db db'"
| session_terminal: "mark_session_terminal sid t n g ev db = Inr (r, db') \<Longrightarrow> store_step db db'"
| evidence: "attach_terminal_evidence sid evr n g db = Inr (r, db') \<Longrightarrow> store_step db db'"
| turn_create: "create_turn targs db = Inr (turn, db') \<Longrightarrow> store_step db db'"
| turn_cas: "compare_and_swap_turn tid n g tupd db = Inr (tres, db') \<Longrightarrow> store_step db db'"
| turn_advance: "advance_state tid st n g ptid piid db = Inr (turn, db') \<Longrightarrow> store_step db db'"
| turn_terminal: "mark_turn_terminal tid t n g oc ev db = Inr (turn, db') \<Longrightarrow> store_step db db'"
| command_record: "record_command cargs db = Inr (c, db') \<Longrightarrow> store_step db db'"
| command_claim: "claim_command cid own tok db = Inr (cres, db') \<Longrightarrow> store_step db db'"
| command_delivery:
    "record_command_delivery cid own tok out receipt res_ref db = Inr (cres, db') \<Longrightarrow> store_step db db'"
| command_failure: "record_command_failure cid own tok ref db = Inr (cres, db') \<Longrightarrow> store_step db db'"
| cleanup_claimed: "claim_cleanup sid own tok db = Inr (clres, db') \<Longrightarrow> store_step db db'"
| cleanup_handoff: "record_janitor_handoff sid own db = Inr (cl, db') \<Longrightarrow> store_step db db'"
| cleanup_completed: "complete_cleanup sid g own tok db = Inr (clres, db') \<Longrightarrow> store_step db db'"
| observation: "append_observation oargs db = Inr (ob, db') \<Longrightarrow> store_step db db'"
| decision: "append_decision dargs db = Inr (de, db') \<Longrightarrow> store_step db db'"
| alias_registered: "register_alias cb osid st why db = Inr (al, db') \<Longrightarrow> store_step db db'"
| plan_admitted: "store_step db (db\<lparr> db_execution_plans := plan # db_execution_plans db \<rparr>)"
| binding_admitted:
    "b \<notin> fst ` set (db_runtime_bindings db) \<Longrightarrow>
     store_step db (db\<lparr> db_runtime_bindings := (b, plan) # db_runtime_bindings db \<rparr>)"

abbreviation store_steps :: "control_store \<Rightarrow> control_store \<Rightarrow> bool" where
  "store_steps \<equiv> store_step\<^sup>*\<^sup>*"

definition store_ok :: "control_store \<Rightarrow> bool" where
  "store_ok db \<longleftrightarrow> sessions_ok db \<and> turns_ok db \<and> commands_ok db \<and> cleanups_ok db
     \<and> observations_ok db \<and> decisions_ok db \<and> aliases_ok db"

text \<open>Each step is of one kind, and the kinds touch different tables.\<close>

definition outside_written :: "control_store \<Rightarrow> control_store \<Rightarrow> bool" where
  "outside_written db db' \<longleftrightarrow> db_sessions db' = db_sessions db \<and> db_turns db' = db_turns db
     \<and> db_commands db' = db_commands db \<and> db_cleanups db' = db_cleanups db
     \<and> db_observations db' = db_observations db \<and> db_decisions db' = db_decisions db
     \<and> db_aliases db' = db_aliases db"

definition allocations_changed :: "control_store \<Rightarrow> control_store \<Rightarrow> bool" where
  "allocations_changed db db' \<longleftrightarrow> (\<exists>xs. db' = db\<lparr> db_allocations := xs \<rparr>
     \<and> (\<forall>sid \<in> fst ` set xs. sid \<in> fst ` set (db_allocations db)
          \<or> (\<exists>row. map_of (db_sessions db) sid = Some row \<and> sn_chat_binding_id row = None)))"

lemma store_step_kinds:
  assumes "store_ok db" and "store_step db db'"
  obtains (session) "session_write db db'" | (session_new) "session_created db db'"
    | (turn) "turn_write db db'" | (turn_new) "turn_created db db'"
    | (command) "command_write db db'" | (command_new) "command_created db db'"
    | (cleanup) "cleanup_write db db'"
    | (observed) args r where "append_observation args db = Inr (r, db')"
    | (decided) args r where "append_decision args db = Inr (r, db')"
    | (aliased) cb sid st why r where "register_alias cb sid st why db = Inr (r, db')"
    | (flushed) "chat_flushed db db'"
    | (allocation) "allocations_changed db db'"
    | (outside) "outside_written db db'" "db_allocations db' = db_allocations db"
proof -
  have ok: "sessions_ok db" "turns_ok db" "commands_ok db" "cleanups_ok db"
    using assms(1) by (simp_all add: store_ok_def)
  show thesis
    using assms(2)
  proof cases
    case session_create then show thesis using create_session_creates session_new by blast
  next
    case turn_create then show thesis using create_turn_creates turn_new by blast
  next
    case turn_cas then show thesis using compare_and_swap_turn_writes ok(2) turn by blast
  next
    case turn_advance then show thesis using advance_state_writes ok(2) turn by blast
  next
    case turn_terminal then show thesis using mark_turn_terminal_writes ok(2) turn by blast
  next
    case command_record then show thesis using record_command_creates command_new by blast
  next
    case command_claim then show thesis using claim_command_writes ok(3) command by blast
  next
    case command_delivery then show thesis using record_command_delivery_writes ok(3) command by blast
  next
    case command_failure then show thesis using record_command_failure_writes ok(3) command by blast
  next
    case cleanup_claimed then show thesis using claim_cleanup_writes ok(4) cleanup by blast
  next
    case cleanup_handoff then show thesis using record_janitor_handoff_writes ok(4) cleanup by blast
  next
    case cleanup_completed then show thesis using complete_cleanup_writes ok(4) cleanup by blast
  next
    case (allocation_loaded sid row cb)
    then have "sn_chat_binding_id row = None" by (auto simp: check_chat_binding_def split: if_splits)
    then have "allocations_changed db db'"
      unfolding allocations_changed_def using allocation_loaded
      by (intro exI [of _ "(sid, cb) # db_allocations db"]) auto
    then show thesis by (rule allocation)
  next
    case allocation_flushed then show thesis using flush_chat_binding_flushes ok(1) flushed by blast
  next
    case (allocation_dropped sid cb)
    then have "allocations_changed db db'"
      unfolding allocations_changed_def
      by (intro exI [of _ "remove1 (sid, cb) (db_allocations db)"]) (auto dest: set_remove1_subset [THEN subsetD])
    then show thesis by (rule allocation)
  next
    case plan_admitted then show thesis using outside by (simp add: outside_written_def)
  next
    case binding_admitted then show thesis using outside by (simp add: outside_written_def)
  qed (erule session_writes [OF ok(1), THEN session] | erule observed | erule decided | erule aliased)+
qed

section \<open>The invariant of the store\<close>

text \<open>A table that a step leaves alone stays well formed while the sessions only grow.\<close>

lemma tables_grow:
  assumes "session_keys db \<subseteq> session_keys db'"
  shows "db_turns db' = db_turns db \<Longrightarrow> turns_ok db \<Longrightarrow> turns_ok db'"
    and "db_commands db' = db_commands db \<Longrightarrow> commands_ok db \<Longrightarrow> commands_ok db'"
    and "db_cleanups db' = db_cleanups db \<Longrightarrow> cleanups_ok db \<Longrightarrow> cleanups_ok db'"
    and "db_observations db' = db_observations db \<Longrightarrow> observations_ok db \<Longrightarrow> observations_ok db'"
    and "db_decisions db' = db_decisions db \<Longrightarrow> decisions_ok db \<Longrightarrow> decisions_ok db'"
    and "db_aliases db' = db_aliases db \<Longrightarrow> aliases_ok db \<Longrightarrow> aliases_ok db'"
  using assms
  by (auto simp: turns_ok_def commands_ok_def cleanups_ok_def observations_ok_def decisions_ok_def
      aliases_ok_def foreign_ok_def elim!: keyed_table_mono split: option.splits)

lemma sessions_ok_cong: "db_sessions db' = db_sessions db \<Longrightarrow> sessions_ok db' = sessions_ok db"
  by (simp add: sessions_ok_def session_table_ok_def scope_unique_def chat_binding_unique_def)

lemma session_keys_cong: "db_sessions db' = db_sessions db \<Longrightarrow> session_keys db' = session_keys db"
  by (simp add: session_keys_def)

lemma put_session_keys: "session_keys db \<subseteq> session_keys (put_session row db)"
  by (auto simp: session_keys_def put_session_def dict_set_keys)

lemma store_step_ok:
  assumes "store_ok db" and "store_step db db'"
  shows "store_ok db'"
proof -
  have ok: "sessions_ok db" "turns_ok db" "commands_ok db" "cleanups_ok db" "observations_ok db"
    "decisions_ok db" "aliases_ok db"
    using assms(1) by (simp_all add: store_ok_def)
  note keep = sessions_ok_cong [of db' db] session_keys_cong [of db' db] tables_grow [of db db']
  from assms show ?thesis
  proof (cases rule: store_step_kinds)
    case session
    then obtain row where "db' = put_session row db" by (auto simp: session_write_def)
    then show ?thesis
      using ok session_write_ok [OF ok(1) session] tables_grow [OF put_session_keys [of db row]]
      by (simp add: store_ok_def)
  next
    case session_new
    then obtain row where "db' = put_session row db" by (auto simp: session_created_def)
    then show ?thesis
      using ok session_created_ok [OF ok(1) session_new] tables_grow [OF put_session_keys [of db row]]
      by (simp add: store_ok_def)
  next
    case turn
    then show ?thesis using ok turn_write_ok [OF ok(2) turn] keep by (simp add: store_ok_def)
  next
    case turn_new
    then show ?thesis using ok turn_created_ok [OF ok(2) turn_new] keep by (simp add: store_ok_def)
  next
    case command
    then show ?thesis using ok command_write_ok [OF ok(3) command] keep by (simp add: store_ok_def)
  next
    case command_new
    then show ?thesis using ok command_created_ok [OF ok(3) command_new] keep by (simp add: store_ok_def)
  next
    case cleanup
    then show ?thesis using ok cleanup_write_ok [OF ok(4) cleanup] keep by (simp add: store_ok_def)
  next
    case (observed args r)
    obtain xs where "db' = db\<lparr> db_observations := xs \<rparr>"
      using append_observation_appends [OF observed] by (auto simp: observation_appended_def)
    then show ?thesis using ok append_observation_ok [OF ok(5) observed] keep by (simp add: store_ok_def)
  next
    case (decided args r)
    obtain xs where "db' = db\<lparr> db_decisions := xs \<rparr>"
      using append_decision_appends [OF decided] by (auto simp: decision_appended_def)
    then show ?thesis using ok append_decision_ok [OF ok(6) decided] keep by (simp add: store_ok_def)
  next
    case (aliased cb sid st why r)
    obtain xs where "db' = db\<lparr> db_aliases := xs \<rparr>"
      using register_alias_writes [OF aliased] by (auto simp: alias_written_def)
    then show ?thesis using ok register_alias_ok [OF ok(7) aliased] keep by (simp add: store_ok_def)
  next
    case flushed
    then obtain row xs where "db' = (put_session row db)\<lparr> db_allocations := xs \<rparr>" by (auto simp: chat_flushed_def)
    moreover from this have "session_keys db \<subseteq> session_keys db'"
      using put_session_keys [of db row] by (simp add: session_keys_def)
    ultimately show ?thesis
      using ok chat_flushed_ok [OF ok(1) flushed] tables_grow [of db db'] by (simp add: store_ok_def)
  next
    case allocation
    then obtain xs where "db' = db\<lparr> db_allocations := xs \<rparr>" by (auto simp: allocations_changed_def)
    then show ?thesis using ok keep by (simp add: store_ok_def)
  next
    case outside
    then show ?thesis using ok keep by (simp add: store_ok_def outside_written_def)
  qed
qed

lemma empty_store_ok: "store_ok empty_store"
  by (simp add: store_ok_def empty_store_def sessions_ok_def session_table_ok_def turns_ok_def
      commands_ok_def cleanups_ok_def observations_ok_def decisions_ok_def aliases_ok_def)

section \<open>Rows only advance\<close>

definition session_le :: "session_record \<Rightarrow> session_record \<Rightarrow> bool" where
  "session_le r r' \<longleftrightarrow> session_authority_kept r r'
     \<and> (sn_revision r < sn_revision r' \<or> same_but_chat r r')"

definition turn_le :: "turn_attempt_record \<Rightarrow> turn_attempt_record \<Rightarrow> bool" where
  "turn_le r r' \<longleftrightarrow> turn_identity r' = turn_identity r
     \<and> turn_state_order (ta_state r) \<le> turn_state_order (ta_state r')
     \<and> (ta_terminal_state r \<noteq> None \<longrightarrow> r' = r)
     \<and> (r' = r \<or> ta_revision r < ta_revision r')"

lemma same_but_chat_trans: "same_but_chat r s \<Longrightarrow> same_but_chat s t \<Longrightarrow> same_but_chat r t"
  unfolding same_but_chat_def by (metis session_record.update_convs(10) session_record.surjective)

lemma same_but_chat_revision: "same_but_chat r s \<Longrightarrow> sn_revision s = sn_revision r"
  unfolding same_but_chat_def by (metis session_record.select_convs(33) session_record.surjective
      session_record.update_convs(10))

lemma session_le_refl [simp]: "session_le r r"
  by (simp add: session_le_def session_authority_kept_def same_but_chat_def)

lemma session_le_trans: "session_le r s \<Longrightarrow> session_le s t \<Longrightarrow> session_le r t"
  unfolding session_le_def
  by (auto intro: authority_kept_trans same_but_chat_trans dest: same_but_chat_revision)

lemma same_but_chat_le: "same_but_chat r r' \<Longrightarrow> session_le r r'"
  unfolding session_le_def session_authority_kept_def session_identity_def session_lifecycle_def same_but_chat_def
  by (cases r; cases r') simp

lemma session_moves_le: "session_moves r r' \<Longrightarrow> session_le r r'"
  by (auto simp: session_moves_def session_le_def)

lemma turn_le_refl [simp]: "turn_le r r"
  by (simp add: turn_le_def)

lemma turn_le_trans: "turn_le r s \<Longrightarrow> turn_le s t \<Longrightarrow> turn_le r t"
  unfolding turn_le_def by auto

lemma turn_moves_le: "turn_moves r r' \<Longrightarrow> turn_le r r'"
  by (auto simp: turn_moves_def turn_le_def)

text \<open>
  What a table promises along a history: under an invariant of the store that every step keeps,
  a row stays and only advances in a transitive order.
\<close>

locale row_history =
  fixes step :: "'s \<Rightarrow> 's \<Rightarrow> bool"
    and inv :: "'s \<Rightarrow> bool"
    and row :: "'s \<Rightarrow> 'k \<Rightarrow> 'r option"
    and le :: "'r \<Rightarrow> 'r \<Rightarrow> bool"
  assumes step_inv: "inv s \<Longrightarrow> step s s' \<Longrightarrow> inv s'"
    and step_row: "inv s \<Longrightarrow> step s s' \<Longrightarrow> row s k = Some r \<Longrightarrow> \<exists>r'. row s' k = Some r' \<and> le r r'"
    and le_refl: "le r r"
    and le_trans: "le r1 r2 \<Longrightarrow> le r2 r3 \<Longrightarrow> le r1 r3"
begin

lemma history_inv: "step\<^sup>*\<^sup>* s s' \<Longrightarrow> inv s \<Longrightarrow> inv s'"
  by (induction rule: rtranclp_induct) (auto intro: step_inv)

lemma history_row:
  assumes "step\<^sup>*\<^sup>* s s'" and "inv s" and "row s k = Some r"
  shows "\<exists>r'. row s' k = Some r' \<and> le r r'"
  using assms(1)
proof (induction rule: rtranclp_induct)
  case base
  show ?case using assms(3) le_refl by blast
next
  case (step t u)
  then obtain r' where "row t k = Some r'" "le r r'" by blast
  moreover have "inv t" using history_inv [OF step.hyps(1) assms(2)] .
  ultimately show ?case using step_row [OF _ step.hyps(2)] le_trans by blast
qed

end

text \<open>
  A version that grows with every change identifies the content it was read at: this is what makes
  a compare-and-swap on it sound.
\<close>

locale versioned_rows = row_history +
  fixes version :: "'r \<Rightarrow> int"
    and same :: "'r \<Rightarrow> 'r \<Rightarrow> bool"
  assumes version_le: "le r r' \<Longrightarrow> version r < version r' \<or> same r r' \<and> version r' = version r"
begin

lemma version_mono: "le r r' \<Longrightarrow> version r \<le> version r'"
  using version_le [of r r'] by linarith

lemma same_version_same_row:
  assumes "step\<^sup>*\<^sup>* s s'" and "inv s" and "row s k = Some r" and "row s' k = Some r'"
    and "version r' = version r"
  shows "same r r'"
  using history_row [OF assms(1-3)] assms(4,5) version_le by fastforce

lemma newer_version_stays:
  assumes "step\<^sup>*\<^sup>* s s'" and "inv s" and "row s k = Some r" and "n < version r"
  shows "\<exists>r'. row s' k = Some r' \<and> n < version r'"
  using history_row [OF assms(1-3)] version_mono assms(4) by fastforce

end

text \<open>What one step does to each of the four tables.\<close>

lemma store_step_tables:
  assumes "store_ok db" and "store_step db db'"
  shows "session_write db db' \<or> session_created db db' \<or> chat_flushed db db' \<or> db_sessions db' = db_sessions db"
    and "turn_write db db' \<or> turn_created db db' \<or> db_turns db' = db_turns db"
    and "command_write db db' \<or> command_created db db' \<or> db_commands db' = db_commands db"
    and "cleanup_write db db' \<or> db_cleanups db' = db_cleanups db"
proof -
  have "(session_write db db' \<or> session_created db db' \<or> chat_flushed db db' \<or> db_sessions db' = db_sessions db)
    \<and> (turn_write db db' \<or> turn_created db db' \<or> db_turns db' = db_turns db)
    \<and> (command_write db db' \<or> command_created db db' \<or> db_commands db' = db_commands db)
    \<and> (cleanup_write db db' \<or> db_cleanups db' = db_cleanups db)"
    using assms
  proof (cases rule: store_step_kinds)
    case session
    then show ?thesis by (auto simp: session_write_def)
  next
    case session_new
    then show ?thesis by (auto simp: session_created_def)
  next
    case (observed args r)
    then show ?thesis
      using append_observation_appends by (fastforce simp: observation_appended_def)
  next
    case (decided args r)
    then show ?thesis using append_decision_appends by (fastforce simp: decision_appended_def)
  next
    case (aliased cb sid st why r)
    then show ?thesis using register_alias_writes by (fastforce simp: alias_written_def)
  next
    case flushed
    then show ?thesis by (auto simp: chat_flushed_def)
  next
    case allocation
    then show ?thesis by (auto simp: allocations_changed_def)
  qed (simp_all add: outside_written_def)
  then show "session_write db db' \<or> session_created db db' \<or> chat_flushed db db' \<or> db_sessions db' = db_sessions db"
    and "turn_write db db' \<or> turn_created db db' \<or> db_turns db' = db_turns db"
    and "command_write db db' \<or> command_created db db' \<or> db_commands db' = db_commands db"
    and "cleanup_write db db' \<or> db_cleanups db' = db_cleanups db"
    by blast+
qed

lemma session_step_row:
  assumes "store_ok db" and "store_step db db'" and "map_of (db_sessions db) sid = Some r"
  shows "\<exists>r'. map_of (db_sessions db') sid = Some r' \<and> session_le r r'"
proof -
  have "sessions_ok db" using assms(1) by (simp add: store_ok_def)
  then show ?thesis
    using store_step_tables(1) [OF assms(1,2)] session_write_row [OF _ _ assms(3)] session_moves_le
      session_created_row [OF _ assms(3)] chat_flushed_row [OF _ assms(3)] same_but_chat_le session_le_refl assms(3)
    by metis
qed

text \<open>The allocations in flight, and the handle of a session that none of them is for.\<close>

lemma store_step_allocations:
  assumes "store_ok db" and "store_step db db'"
  shows "chat_flushed db db' \<or> allocations_changed db db' \<or> db_allocations db' = db_allocations db"
  using assms
proof (cases rule: store_step_kinds)
  case (observed args r)
  from append_observation_appends [OF this] show ?thesis by (auto simp: observation_appended_def)
next
  case (decided args r)
  from append_decision_appends [OF this] show ?thesis by (auto simp: decision_appended_def)
next
  case (aliased cb sid st why r)
  from register_alias_writes [OF this] show ?thesis by (auto simp: alias_written_def)
next
  case session
  then obtain row where "db' = put_session row db" unfolding session_write_def by blast
  then show ?thesis by (simp add: put_session_def)
next
  case session_new
  then obtain row where "db' = put_session row db" unfolding session_created_def by blast
  then show ?thesis by (simp add: put_session_def)
next
  case turn
  then obtain row where "db' = put_turn row db" unfolding turn_write_def by blast
  then show ?thesis by (simp add: put_turn_def)
next
  case turn_new
  then have "db' = db \<or> (\<exists>row. db' = put_turn row db)" unfolding turn_created_def by blast
  then show ?thesis by (auto simp: put_turn_def)
next
  case command
  then obtain row where "db' = put_command row db" unfolding command_write_def by blast
  then show ?thesis by (simp add: put_command_def)
next
  case command_new
  then have "db' = db \<or> (\<exists>row. db' = put_command row db)" unfolding command_created_def by blast
  then show ?thesis by (auto simp: put_command_def)
next
  case cleanup
  then obtain row where "db' = put_cleanup row db" unfolding cleanup_write_def by blast
  then show ?thesis by (simp add: put_cleanup_def)
qed simp_all

definition handle_settled :: "py_str \<Rightarrow> py_str \<Rightarrow> control_store \<Rightarrow> bool" where
  "handle_settled sid h db \<longleftrightarrow> sid \<notin> fst ` set (db_allocations db)
     \<and> (\<exists>r. map_of (db_sessions db) sid = Some r \<and> sn_chat_binding_id r = Some h)"

lemma handle_settled_step:
  assumes "store_ok db" and "store_step db db'" and "handle_settled sid h db"
  shows "handle_settled sid h db'"
proof -
  obtain r where r: "map_of (db_sessions db) sid = Some r" "sn_chat_binding_id r = Some h"
    and free: "sid \<notin> fst ` set (db_allocations db)"
    using assms(3) by (auto simp: handle_settled_def)
  have ok: "sessions_ok db" using assms(1) by (simp add: store_ok_def)
  have "\<exists>r'. map_of (db_sessions db') sid = Some r' \<and> sn_chat_binding_id r' = Some h"
    using store_step_tables(1) [OF assms(1,2)]
  proof (elim disjE)
    assume "session_write db db'"
    from session_write_row [OF ok this r(1)] show ?thesis using r(2) by (auto simp: session_moves_def sticky_def)
  next
    assume "session_created db db'"
    from session_created_row [OF this r(1)] show ?thesis using r(2) by blast
  next
    assume "chat_flushed db db'"
    from chat_flushed_row [OF this r(1)] show ?thesis using r(2) free by auto
  qed (use r in simp)
  moreover have "sid \<notin> fst ` set (db_allocations db')"
    using store_step_allocations [OF assms(1,2)]
  proof (elim disjE)
    assume "chat_flushed db db'"
    then show ?thesis using free by (auto simp: chat_flushed_def)
  next
    assume "allocations_changed db db'"
    then obtain xs where xs: "db_allocations db' = xs"
      "\<forall>sid \<in> fst ` set xs. sid \<in> fst ` set (db_allocations db)
        \<or> (\<exists>row. map_of (db_sessions db) sid = Some row \<and> sn_chat_binding_id row = None)"
      by (auto simp: allocations_changed_def)
    show ?thesis using xs free r by (metis option.distinct(1) option.inject)
  qed (use free in simp)
  ultimately show ?thesis by (simp add: handle_settled_def)
qed

lemma turn_step_row:
  assumes "store_ok db" and "store_step db db'" and "map_of (db_turns db) tid = Some r"
  shows "\<exists>r'. map_of (db_turns db') tid = Some r' \<and> turn_le r r'"
  using store_step_tables(2) [OF assms(1,2)] turn_write_row [OF _ assms(3)] turn_moves_le
    turn_created_row [OF _ assms(3)] turn_le_refl assms(3) by metis

lemma command_step_row:
  assumes "store_ok db" and "store_step db db'" and "map_of (db_commands db) cid = Some r"
  shows "\<exists>r'. map_of (db_commands db') cid = Some r' \<and> command_le r r'"
  using store_step_tables(3) [OF assms(1,2)] command_write_row [OF _ assms(3)]
    command_created_row [OF _ assms(3)] command_le_refl assms(3) by metis

lemma cleanup_step_row:
  assumes "store_ok db" and "store_step db db'" and "map_of (db_cleanups db) sid = Some r"
  shows "\<exists>r'. map_of (db_cleanups db') sid = Some r' \<and> cleanup_le r r'"
  using store_step_tables(4) [OF assms(1,2)] cleanup_write_row [OF _ assms(3)] cleanup_le_refl assms(3)
  by metis

lemma row_versions:
  "session_le r r' \<Longrightarrow> sn_revision r < sn_revision r' \<or> same_but_chat r r' \<and> sn_revision r' = sn_revision r"
  "turn_le t t' \<Longrightarrow> ta_revision t < ta_revision t' \<or> t = t' \<and> ta_revision t' = ta_revision t"
  "command_le c c' \<Longrightarrow> cm_revision c < cm_revision c' \<or> c = c' \<and> cm_revision c' = cm_revision c"
  "cleanup_le d d' \<Longrightarrow> cl_revision d < cl_revision d' \<or> d = d' \<and> cl_revision d' = cl_revision d"
  by (auto simp: session_le_def turn_le_def command_le_def cleanup_le_def dest: same_but_chat_revision)

interpretation sessions: versioned_rows store_step store_ok "\<lambda>db. map_of (db_sessions db)"
  session_le sn_revision same_but_chat
  by unfold_locales (fact store_step_ok session_step_row session_le_refl session_le_trans row_versions)+

interpretation handles: invariant_machine store_step "\<lambda>db. store_ok db \<and> handle_settled sid h db"
  by unfold_locales (auto intro: store_step_ok handle_settled_step)

interpretation turns: versioned_rows store_step store_ok "\<lambda>db. map_of (db_turns db)"
  turn_le ta_revision "(=)"
  by unfold_locales (fact store_step_ok turn_step_row turn_le_refl turn_le_trans row_versions)+

interpretation commands: versioned_rows store_step store_ok "\<lambda>db. map_of (db_commands db)"
  command_le cm_revision "(=)"
  by unfold_locales (fact store_step_ok command_step_row command_le_refl command_le_trans row_versions)+

interpretation cleanups: versioned_rows store_step store_ok "\<lambda>db. map_of (db_cleanups db)"
  cleanup_le cl_revision "(=)"
  by unfold_locales (fact store_step_ok cleanup_step_row cleanup_le_refl cleanup_le_trans row_versions)+

end
