(* ===== verification/Control_Plane_Safety.thy ===== *)
theory Control_Plane_Safety
  imports Control_Plane_Histories
begin

text \<open>
  The safety of the control plane along every history of its store, for any interleaving of
  supervisors, workers and janitors: authority is written once, no update is lost, a superseded
  supervisor is fenced out of every table, a command has one claimant and one verdict, cleanup has
  one owner per generation, and establishing a session is one consistent unit.
\<close>

section \<open>Facts on stores\<close>

lemma put_turn_self:
  assumes "turns_ok db" and "map_of (db_turns db) tid = Some row"
  shows "put_turn row db = db"
  using assms keyed_table_row [OF _ assms(2)]
  by (fastforce simp: put_turn_def turns_ok_def keyed_table_def dict_set_self)

lemma put_command_self:
  assumes "commands_ok db" and "map_of (db_commands db) cid = Some row"
  shows "put_command row db = db"
  using assms keyed_table_row [OF _ assms(2)]
  by (fastforce simp: put_command_def commands_ok_def keyed_table_def dict_set_self)

lemma put_cleanup_self:
  assumes "cleanups_ok db" and "map_of (db_cleanups db) sid = Some row"
  shows "put_cleanup row db = db"
  using assms keyed_table_row [OF _ assms(2)]
  by (fastforce simp: put_cleanup_def cleanups_ok_def keyed_table_def dict_set_self)

lemma store_okD:
  assumes "store_ok db"
  shows "sessions_ok db" "turns_ok db" "commands_ok db" "cleanups_ok db" "session_table_ok db"
  using assms by (simp_all add: store_ok_def sessions_ok_def)

lemma cas_applied_cur:
  assumes "compare_and_swap_session sid fence upd db = Inr ((APPLIED, r), db')"
  shows "\<exists>cur. map_of (db_sessions db) sid = Some cur \<and> check_session_fence cur fence = None
     \<and> r = (set_provided upd cur)\<lparr> sn_revision := sn_revision cur + 1 \<rparr> \<and> db' = put_session r db"
proof -
  obtain cur where cur: "map_of (db_sessions db) sid = Some cur" "db' = put_session r db"
    and res: "(case check_session_fence cur fence of
         Some conflict \<Rightarrow> Inr (conflict, cur)
       | None \<Rightarrow>
           if sn_terminal_state cur \<noteq> None
              \<and> (\<exists>name \<in> set (provided_fields upd). name \<notin> POST_TERMINAL_MUTABLE_FIELDS)
           then Inl TerminalSessionOverwriteError
           else Inr (APPLIED, (set_provided upd cur)\<lparr> sn_revision := sn_revision cur + 1 \<rparr>))
       = Inr (APPLIED, r)"
    using assms by (auto simp: compare_and_swap_session_def modify_session_Inr)
  have "check_session_fence cur fence \<noteq> Some APPLIED"
    using check_session_fence_conflict [of cur fence APPLIED] by (auto simp: CONFLICT_OUTCOMES_def)
  with res have "check_session_fence cur fence = None
      \<and> r = (set_provided upd cur)\<lparr> sn_revision := sn_revision cur + 1 \<rparr>"
    by (simp split: option.splits if_splits)
  with cur show ?thesis by blast
qed

section \<open>Sessions\<close>

text \<open>
  C16. Along every history, concurrent allocations of chat handles included, the tables stay
  consistent and a session, once created, stays: its identity is immutable, its provider session,
  terminal state and terminal evidence are written at most once, a recorded terminal freezes the
  desired, observed and reconciled state, the active turn, the last decision and the deadline (not
  the event cursor and the snapshot frontier, which still advance), and its revision and supervisor
  generation never decrease. A chat handle that is set stays the same when no allocation for the
  session was in flight: one that has loaded the session before overwrites it.
\<close>

theorem session_authority_history:
  assumes "store_ok db" and "store_steps db db'" and "map_of (db_sessions db) sid = Some r"
  shows "store_ok db' \<and> (\<exists>r'. map_of (db_sessions db') sid = Some r'
     \<and> session_authority_kept r r' \<and> sn_revision r \<le> sn_revision r'
     \<and> (sn_chat_binding_id r \<noteq> None \<longrightarrow> sid \<notin> fst ` set (db_allocations db) \<longrightarrow>
          sn_chat_binding_id r' = sn_chat_binding_id r))"
proof -
  obtain r' where r': "map_of (db_sessions db') sid = Some r'" "session_le r r'"
    using sessions.history_row [OF assms(2,1,3)] by blast
  moreover have "sn_revision r \<le> sn_revision r'" using sessions.version_mono [OF r'(2)] .
  moreover have "sn_chat_binding_id r' = sn_chat_binding_id r"
    if "sn_chat_binding_id r = Some h" "sid \<notin> fst ` set (db_allocations db)" for h
    using handles.run_keeps [OF assms(2), of sid h] assms(1,3) that r'(1) by (auto simp: handle_settled_def)
  ultimately show ?thesis
    using sessions.history_inv [OF assms(2,1)] by (auto simp: session_le_def)
qed

text \<open>
  C2. No update is lost: when a caller read a session and, after any history, its
  compare-and-swap on the revision it read is applied, then the row it changes is the row it read
  (up to the allocation of the chat handle), the new row is that row with the given fields, and no
  other compare-and-swap on the same revision is ever applied afterwards.
\<close>

theorem session_no_lost_update:
  assumes "store_ok db" and "map_of (db_sessions db) sid = Some seen" and "store_steps db db1"
    and "fe_revision fence = sn_revision seen"
    and "compare_and_swap_session sid fence upd db1 = Inr ((APPLIED, r), db2)"
  shows "(\<exists>cur. map_of (db_sessions db1) sid = Some cur \<and> same_but_chat seen cur
        \<and> r = (set_provided upd cur)\<lparr> sn_revision := sn_revision seen + 1 \<rparr>)
     \<and> map_of (db_sessions db2) sid = Some r
     \<and> (\<forall>db3 fence' upd' r' db4. store_steps db2 db3 \<longrightarrow> fe_revision fence' = sn_revision seen \<longrightarrow>
          compare_and_swap_session sid fence' upd' db3 \<noteq> Inr ((APPLIED, r'), db4))"
proof -
  obtain cur where cur: "map_of (db_sessions db1) sid = Some cur" "check_session_fence cur fence = None"
    "r = (set_provided upd cur)\<lparr> sn_revision := sn_revision cur + 1 \<rparr>" "db2 = put_session r db1"
    using cas_applied_cur [OF assms(5)] by blast
  have rev: "sn_revision cur = sn_revision seen" using cur(2) assms(4) by (simp add: check_session_fence_None)
  have same: "same_but_chat seen cur"
    using sessions.same_version_same_row [OF assms(3,1,2) cur(1) rev] .
  have ok1: "store_ok db1" using sessions.history_inv [OF assms(3,1)] .
  have ok2: "store_ok db2" using store_step_ok [OF ok1 session_cas [OF assms(5)]] .
  have "sn_session_id r = sid"
    using sessions_ok_row(2) [OF store_okD(1) [OF ok1] cur(1)] cur(3) by simp
  then have r2: "map_of (db_sessions db2) sid = Some r" by (simp add: cur(4))
  have "compare_and_swap_session sid fence' upd' db3 \<noteq> Inr ((APPLIED, r'), db4)"
    if later: "store_steps db2 db3" and fe: "fe_revision fence' = sn_revision seen"
    for db3 fence' upd' r' db4
  proof
    assume "compare_and_swap_session sid fence' upd' db3 = Inr ((APPLIED, r'), db4)"
    then obtain c where "map_of (db_sessions db3) sid = Some c" "sn_revision c = sn_revision seen"
      using cas_applied_cur fe by (fastforce simp: check_session_fence_None)
    moreover have "sn_revision seen < sn_revision r" using cur(3) rev by simp
    ultimately show False
      using sessions.newer_version_stays [OF later ok2 r2] by fastforce
  qed
  then show ?thesis using cur(1,3) same rev r2 by auto
qed

section \<open>Turns\<close>

text \<open>
  C25. Along every history a turn attempt keeps its identity, idempotency key and lineage, its
  delivery state never moves backwards in the documented order, and once it is terminal its row
  never changes again; the same revision means the same row.
\<close>

theorem turn_history_monotone:
  assumes "store_ok db" and "store_steps db db'" and "map_of (db_turns db) tid = Some r"
  shows "\<exists>r'. map_of (db_turns db') tid = Some r' \<and> turn_identity r' = turn_identity r
     \<and> turn_state_order (ta_state r) \<le> turn_state_order (ta_state r')
     \<and> (turn_is_terminal r \<longrightarrow> r' = r)
     \<and> (ta_revision r' = ta_revision r \<longrightarrow> r' = r)"
proof -
  obtain r' where r': "map_of (db_turns db') tid = Some r'" "turn_le r r'"
    using turns.history_row [OF assms(2,1,3)] by blast
  then show ?thesis
    unfolding turn_le_def turn_is_terminal_def by (intro exI [of _ r'] conjI impI) (blast | simp)+
qed

section \<open>Superseded supervisors\<close>

lemma acquire_supervisor_row:
  assumes "store_ok db" and "acquire_fencing_generation sid SESSION_SUPERVISOR n db = Inr (r, db1)"
  shows "map_of (db_sessions db1) sid = Some r"
    and "\<exists>old. map_of (db_sessions db) sid = Some old
      \<and> sn_fencing_generation r = sn_fencing_generation old + 1"
proof -
  let ?next = "\<lambda>row. row\<lparr> sn_fencing_generation := sn_fencing_generation row + 1,
      sn_revision := sn_revision row + 1 \<rparr>"
  have "\<exists>old. map_of (db_sessions db) sid = Some old
      \<and> (if sn_revision old \<noteq> n then Inl RevisionConflictError else Inr (?next old)) = Inr r
      \<and> sn_schema_version r = 1 \<and> db1 = put_session r db"
    using assms(2) by (simp only: acquire_fencing_generation_def write_session_Inr Let_def
        fencing_scope.case fencing_scope.distinct if_False)
  then obtain old where old: "map_of (db_sessions db) sid = Some old" "db1 = put_session r db"
    and "(if sn_revision old \<noteq> n then Inl RevisionConflictError else Inr (?next old)) = Inr r"
    by blast
  then have old': "r = ?next old" by (simp split: if_splits)
  have "sn_session_id old = sid" using sessions_ok_row(2) [OF store_okD(1) [OF assms(1)] old(1)] .
  then show "map_of (db_sessions db1) sid = Some r" by (simp add: old(2) old')
  show "\<exists>old. map_of (db_sessions db) sid = Some old
      \<and> sn_fencing_generation r = sn_fencing_generation old + 1"
    by (rule exI [of _ old]) (simp add: old(1) old')
qed

lemma newer_generation_stays:
  assumes "store_ok db1" and "map_of (db_sessions db1) sid = Some r" and "store_steps db1 db2"
    and "g < sn_fencing_generation r"
  shows "\<exists>row. map_of (db_sessions db2) sid = Some row \<and> g < sn_fencing_generation row"
  using sessions.history_row [OF assms(3,1,2)] assms(4)
  by (fastforce simp: session_le_def session_authority_kept_def)

lemma stale_session_cas:
  assumes "store_ok db" and "map_of (db_sessions db) sid = Some row"
    and "fe_fencing_generation fence < sn_fencing_generation row"
  shows "compare_and_swap_session sid fence upd db = Inr ((FENCING_CONFLICT, row), db)"
proof -
  have "check_session_fence row fence = Some FENCING_CONFLICT"
    using assms(3) by (simp add: check_session_fence_def)
  moreover have "sn_schema_version row = 1"
    using sessions_ok_row(1) [OF store_okD(1) [OF assms(1)] assms(2)] by (simp add: session_row_ok_def)
  ultimately show ?thesis
    using assms(2) put_session_self [OF store_okD(5) [OF assms(1)] assms(2)]
    by (simp add: compare_and_swap_session_def modify_session_def)
qed

lemma stale_session_terminal:
  assumes "store_ok db" and "map_of (db_sessions db) sid = Some row" and "g < sn_fencing_generation row"
    and "mark_session_terminal sid t n g ev db = Inr (r, db')"
  shows "r = row \<and> db' = db \<and> sn_terminal_state row = Some t"
proof -
  have "r = row \<and> sn_terminal_state row = Some t \<and> db' = put_session r db"
    using assms(2-4)
    by (auto simp: mark_session_terminal_def write_session_Inr check_session_fence_None split: if_splits)
  then show ?thesis using put_session_self [OF store_okD(5) [OF assms(1)] assms(2)] by simp
qed

lemma stale_turn_cas:
  assumes "store_ok db" and "map_of (db_sessions db) (ta_session_id turn) = Some row"
    and "g < sn_fencing_generation row" and "map_of (db_turns db) tid = Some turn"
    and "compare_and_swap_turn tid n g upd db = Inr ((outcome, r), db')"
  shows "outcome \<in> {ALREADY_APPLIED, FENCING_CONFLICT} \<and> r = turn \<and> db' = db"
proof -
  have gen: "guarding_generation db turn = sn_fencing_generation row"
    using assms(2) by (simp add: guarding_generation_def)
  have cas: "cas_turn_row (sn_fencing_generation row) n g upd turn = Inr (outcome, r)" "db' = put_turn r db"
    using assms(4,5) gen by (auto simp: compare_and_swap_turn_Inr)
  then have "outcome \<in> {ALREADY_APPLIED, FENCING_CONFLICT} \<and> r = turn"
    using assms(3) by (auto simp: cas_turn_row_def check_turn_fence_def split: if_splits)
  with cas(2) show ?thesis using put_turn_self [OF store_okD(2) [OF assms(1)] assms(4)] by simp
qed

lemma stale_command_claim:
  assumes "store_ok db" and "map_of (db_sessions db) (cm_session_id c) = Some row"
    and "cm_fencing_generation c < sn_fencing_generation row"
    and "map_of (db_commands db) cid = Some c" and "cm_status c = COMMAND_STATE_PENDING"
  shows "claim_command cid own tok db = Inr ((FENCING_CONFLICT, c), db)"
proof -
  have "cm_schema_version c = 1"
    using keyed_table_row [OF _ assms(4)] store_okD(3) [OF assms(1)]
    by (fastforce simp: commands_ok_def command_row_ok_def)
  then show ?thesis
    using assms(2-5) put_command_self [OF store_okD(3) [OF assms(1)] assms(4)]
    by (simp add: claim_command_def modify_command_def claim_command_row_def session_generation_def)
qed

text \<open>
  C6. A superseded supervisor is fenced out for good: after a supervisor acquires a new
  generation, in every later store a writer that presents an older generation gets a fencing
  conflict from the session compare-and-swap, cannot record or change the session terminal,
  cannot change any turn of the session, and a command journalled under the old generation that is
  still pending can no longer be claimed.
\<close>

theorem superseded_supervisor_fenced:
  assumes "store_ok db" and "acquire_fencing_generation sid SESSION_SUPERVISOR n db = Inr (r, db1)"
    and "store_steps db1 db2" and "g < sn_fencing_generation r"
  shows "(\<exists>row. map_of (db_sessions db2) sid = Some row
        \<and> (\<forall>fence upd. fe_fencing_generation fence = g \<longrightarrow>
             compare_and_swap_session sid fence upd db2 = Inr ((FENCING_CONFLICT, row), db2)))
     \<and> (\<forall>t m ev s db3. mark_session_terminal sid t m g ev db2 = Inr (s, db3) \<longrightarrow> db3 = db2)
     \<and> (\<forall>tid turn m upd res db3. map_of (db_turns db2) tid = Some turn \<longrightarrow> ta_session_id turn = sid \<longrightarrow>
          compare_and_swap_turn tid m g upd db2 = Inr (res, db3) \<longrightarrow>
          fst res \<in> {ALREADY_APPLIED, FENCING_CONFLICT} \<and> db3 = db2)
     \<and> (\<forall>cid c own tok. map_of (db_commands db2) cid = Some c \<longrightarrow> cm_session_id c = sid \<longrightarrow>
          cm_status c = COMMAND_STATE_PENDING \<longrightarrow> cm_fencing_generation c \<le> g \<longrightarrow>
          claim_command cid own tok db2 = Inr ((FENCING_CONFLICT, c), db2))"
proof -
  have ok1: "store_ok db1" using store_step_ok [OF assms(1) acquire [OF assms(2)]] .
  have ok2: "store_ok db2" using sessions.history_inv [OF assms(3) ok1] .
  obtain row where row: "map_of (db_sessions db2) sid = Some row" "g < sn_fencing_generation row"
    using newer_generation_stays [OF ok1 acquire_supervisor_row(1) [OF assms(1,2)] assms(3,4)] by blast
  have "db3 = db2" if "mark_session_terminal sid t m g ev db2 = Inr (s, db3)" for t m ev s db3
    using stale_session_terminal [OF ok2 row that] by simp
  moreover have "fst res \<in> {ALREADY_APPLIED, FENCING_CONFLICT} \<and> db3 = db2"
    if "map_of (db_turns db2) tid = Some turn" "ta_session_id turn = sid"
      "compare_and_swap_turn tid m g upd db2 = Inr (res, db3)" for tid turn m upd res db3
    using stale_turn_cas [OF ok2 _ row(2) that(1), of m upd "fst res" "snd res" db3] row(1) that(2,3)
    by simp
  moreover have "claim_command cid own tok db2 = Inr ((FENCING_CONFLICT, c), db2)"
    if "map_of (db_commands db2) cid = Some c" "cm_session_id c = sid"
      "cm_status c = COMMAND_STATE_PENDING" "cm_fencing_generation c \<le> g" for cid c own tok
    using stale_command_claim [OF ok2 _ _ that(1,3)] row that(2,4) by simp
  ultimately show ?thesis using row stale_session_cas [OF ok2 row(1)] by blast
qed

section \<open>Commands\<close>

lemma commands_row:
  assumes "store_ok db" and "map_of (db_commands db) cid = Some c"
  shows "command_row_ok c" "cm_schema_version c = 1" "cm_command_id c = cid" "put_command c db = db"
proof -
  show "command_row_ok c" "cm_command_id c = cid"
    using keyed_table_row [OF _ assms(2)] store_okD(3) [OF assms(1)] by (fastforce simp: commands_ok_def)+
  then show "cm_schema_version c = 1" by (simp add: command_row_ok_def)
  show "put_command c db = db" using put_command_self [OF store_okD(3) [OF assms(1)] assms(2)] .
qed

lemma claimed_row:
  assumes "claim_command_row g own tok c = Inr (APPLIED, c')"
  shows "cm_claim_token c' = Some tok \<and> cm_status c' = COMMAND_STATE_CLAIMED"
  using assms by (auto simp: claim_command_row_def split: if_splits)

lemma claim_applied:
  assumes "store_ok db" and "claim_command cid own tok db = Inr ((APPLIED, c), db1)"
  shows "map_of (db_commands db1) cid = Some c" "cm_claim_token c = Some tok"
proof -
  obtain c0 where c0: "map_of (db_commands db) cid = Some c0" "db1 = put_command c db"
    "claim_command_row (session_generation db c0) own tok c0 = Inr (APPLIED, c)"
    using assms(2) by (auto simp: claim_command_def modify_command_def bind_result_Inr_iff split: option.splits)
  then show "cm_claim_token c = Some tok" using claimed_row by blast
  have "command_le c0 c" using claim_command_row_le [OF commands_row(1) [OF assms(1) c0(1)] c0(3)] by simp
  then have "cm_command_id c = cid"
    using commands_row(3) [OF assms(1) c0(1)] by (simp add: command_le_def command_identity_def)
  then show "map_of (db_commands db1) cid = Some c" by (simp add: c0(2))
qed

text \<open>A claimant with another token can neither claim nor settle a command someone claimed.\<close>

lemma foreign_claimant:
  assumes "store_ok db" and "map_of (db_commands db) cid = Some c" and "cm_claim_token c = Some tok"
    and "tok' \<noteq> tok"
  shows "claim_command cid own tok' db = Inr ((outcome, r), db') \<Longrightarrow>
      outcome \<in> {NOT_OWNER, ALREADY_APPLIED} \<and> db' = db"
    and "record_command_delivery cid own tok' out receipt ref db = Inr ((outcome, r), db') \<Longrightarrow> db' = db"
proof -
  note row = commands_row [OF assms(1,2)]
  have notpending: "cm_status c \<noteq> COMMAND_STATE_PENDING"
    using row(1) assms(3) by (auto simp: command_row_ok_def)
  show "outcome \<in> {NOT_OWNER, ALREADY_APPLIED} \<and> db' = db"
    if "claim_command cid own tok' db = Inr ((outcome, r), db')"
  proof -
    have "claim_command_row (session_generation db c) own tok' c = Inr (outcome, r)"
      "db' = put_command r db"
      using that assms(2) by (auto simp: claim_command_def modify_command_def bind_result_Inr_iff)
    moreover from this have "outcome \<in> {NOT_OWNER, ALREADY_APPLIED} \<and> r = c"
      using notpending assms(3,4) by (auto simp: claim_command_row_def split: if_splits)
    ultimately show ?thesis using row(4) by simp
  qed
  show "db' = db" if "record_command_delivery cid own tok' out receipt ref db = Inr ((outcome, r), db')"
  proof -
    have "command_delivery_row own tok' out receipt ref c = Inr (outcome, r)" "db' = put_command r db"
      using that assms(2) by (auto simp: record_command_delivery_def modify_command_def bind_result_Inr_iff)
    moreover from command_delivery_row_shape [OF this(1)] have "r = c" using assms(3,4) by auto
    ultimately show ?thesis using row(4) by simp
  qed
qed

text \<open>
  C4. A command has one claimant and one verdict: once a claimant is granted a command, in every
  later store the command is still claimed by it, another claimant is never granted the command
  and cannot change it by reporting a delivery, and a settled verdict never changes.
\<close>

theorem command_single_claimant:
  assumes "store_ok db" and "claim_command cid own tok db = Inr ((APPLIED, c), db1)"
    and "store_steps db1 db2"
  shows "\<exists>c2. map_of (db_commands db2) cid = Some c2 \<and> cm_claim_token c2 = Some tok
     \<and> (\<forall>own' tok' res db3. tok' \<noteq> tok \<longrightarrow> claim_command cid own' tok' db2 = Inr (res, db3) \<longrightarrow>
          fst res \<in> {NOT_OWNER, ALREADY_APPLIED} \<and> db3 = db2)
     \<and> (\<forall>own' tok' out receipt ref res db3. tok' \<noteq> tok \<longrightarrow>
          record_command_delivery cid own' tok' out receipt ref db2 = Inr (res, db3) \<longrightarrow> db3 = db2)
     \<and> (\<forall>db3 c3. command_is_terminal c2 \<longrightarrow> store_steps db2 db3 \<longrightarrow>
          map_of (db_commands db3) cid = Some c3 \<longrightarrow> cm_status c3 = cm_status c2)"
proof -
  have ok1: "store_ok db1" using store_step_ok [OF assms(1) command_claim [OF assms(2)]] .
  have ok2: "store_ok db2" using commands.history_inv [OF assms(3) ok1] .
  note c = claim_applied [OF assms(1,2)]
  obtain c2 where c2: "map_of (db_commands db2) cid = Some c2" "command_le c c2"
    using commands.history_row [OF assms(3) ok1 c(1)] by blast
  then have tok: "cm_claim_token c2 = Some tok" using c(2) by (auto simp: command_le_def)
  have final: "cm_status c3 = cm_status c2"
    if "command_is_terminal c2" "store_steps db2 db3" "map_of (db_commands db3) cid = Some c3" for db3 c3
    using commands.history_row [OF that(2) ok2 c2(1)] that(1,3) by (auto simp: command_le_def)
  show ?thesis
  proof (intro exI [of _ c2] conjI allI impI)
    fix own' tok' and res :: "command_record cas_result" and db3
    assume "tok' \<noteq> tok" "claim_command cid own' tok' db2 = Inr (res, db3)"
    then show "fst res \<in> {NOT_OWNER, ALREADY_APPLIED}" "db3 = db2"
      using foreign_claimant(1) [OF ok2 c2(1) tok, of tok' own' "fst res" "snd res" db3] by auto
  next
    fix own' tok' out receipt ref and res :: "command_record cas_result" and db3
    assume "tok' \<noteq> tok" "record_command_delivery cid own' tok' out receipt ref db2 = Inr (res, db3)"
    then show "db3 = db2"
      using foreign_claimant(2) [OF ok2 c2(1) tok, of tok' own' out receipt ref "fst res" "snd res" db3]
      by auto
  qed (use c2 tok final in auto)
qed

section \<open>Cleanup\<close>

lemma cleanups_row:
  assumes "store_ok db" and "map_of (db_cleanups db) sid = Some c"
  shows "cleanup_row_ok c" "cl_session_id c = sid" "put_cleanup c db = db"
    "load_cleanup_for_update sid db = Inr c"
  using keyed_table_row [OF _ assms(2)] store_okD(4) [OF assms(1)]
    put_cleanup_self [OF store_okD(4) [OF assms(1)] assms(2)] assms(2)
  by (fastforce simp: cleanups_ok_def load_cleanup_for_update_def)+

lemma claim_cleanup_row_applied:
  assumes "claim_cleanup_row f own tok c = (APPLIED, c')"
  shows "cl_claim_token c' = Some tok \<and> cl_state c' = CLEANUP_STATE_CLAIMED"
  using assms by (auto simp: claim_cleanup_row_def split: if_splits)

lemma cleanup_claim_applied:
  assumes "store_ok db" and "claim_cleanup sid own tok db = Inr ((APPLIED, c), db1)"
  shows "map_of (db_cleanups db1) sid = Some c" "cl_claim_token c = Some tok"
    "cl_state c = CLEANUP_STATE_CLAIMED"
proof -
  obtain c0 where c0: "load_cleanup_for_update sid db = Inr c0" "db1 = put_cleanup c db"
    "claim_cleanup_row (current_fences (map_of (db_sessions db) sid)) own tok c0 = (APPLIED, c)"
    using assms(2) by (auto simp: claim_cleanup_def modify_cleanup_Inr)
  note row = load_cleanup_row [OF store_okD(4) [OF assms(1)] c0(1)]
  have "cleanup_le c0 c" using claim_cleanup_row_le [OF row(2) c0(3)] by simp
  then have "cl_session_id c = sid" using row(1) by (simp add: cleanup_le_def)
  then show "map_of (db_cleanups db1) sid = Some c" by (simp add: c0(2))
  show "cl_claim_token c = Some tok" "cl_state c = CLEANUP_STATE_CLAIMED"
    using claim_cleanup_row_applied [OF c0(3)] by simp_all
qed

text \<open>Where a claim has got to in a later store: still held, completed, or overtaken.\<close>

lemma cleanup_claim_later:
  assumes "cleanup_le c c2" and "cl_state c = CLEANUP_STATE_CLAIMED"
  shows "cl_generation c < cl_generation c2
     \<or> cl_generation c2 = cl_generation c \<and> cleanup_claim c2 = cleanup_claim c
       \<and> cl_state c2 \<in> {CLEANUP_STATE_CLAIMED, CLEANUP_STATE_COMPLETE}"
  using assms by (auto simp: cleanup_le_def)

lemma stale_claim_cong: "cleanup_claim c2 = cleanup_claim c \<Longrightarrow> stale_claim c2 f = stale_claim c f"
  by (simp add: cleanup_claim_def stale_claim_def)

lemma complete_cleanup_of:
  assumes "load_cleanup_for_update sid db = Inr c"
    and "complete_cleanup sid g own tok db = Inr (res, db')"
  shows "complete_cleanup_row (get_session sid db) g own tok c = Inr res"
    and "db' = put_cleanup (snd res) db"
  using assms by (auto simp: complete_cleanup_def modify_cleanup_Inr)

text \<open>The stored row \<open>c2\<close> of a claim \<open>c\<close> that was granted to \<open>tok\<close> earlier.\<close>

lemma cleanup_foreign_complete:
  assumes "store_ok db" and "map_of (db_cleanups db) sid = Some c2" and "cleanup_le c c2"
    and "cl_state c = CLEANUP_STATE_CLAIMED" and "cl_claim_token c = Some tok" and "tok' \<noteq> tok"
    and "complete_cleanup sid (cl_generation c) own' tok' db = Inr (res, db')"
  shows "fst res \<in> {NOT_OWNER, ALREADY_APPLIED} \<and> db' = db"
proof -
  note row = cleanups_row [OF assms(1,2)]
  note complete = complete_cleanup_of [OF row(4) assms(7)]
  have "cl_claim_token c2 = Some tok" if "cl_generation c2 = cl_generation c"
    using cleanup_claim_later [OF assms(3,4)] that assms(5) by (auto simp: cleanup_claim_def)
  then have "fst res \<in> {NOT_OWNER, ALREADY_APPLIED} \<and> snd res = c2"
    using complete(1) assms(6) by (auto simp: complete_cleanup_row_def split: if_splits)
  then show ?thesis using complete(2) row(3) by simp
qed

lemma cleanup_takeover:
  assumes "store_ok db" and "map_of (db_cleanups db) sid = Some c2" and "cleanup_le c c2"
    and "cl_state c = CLEANUP_STATE_CLAIMED" and "cl_claim_token c = Some tok" and "tok' \<noteq> tok"
    and "claim_cleanup sid own' tok' db = Inr ((APPLIED, c'), db')"
  shows "cl_generation c < cl_generation c'"
proof -
  note row = cleanups_row [OF assms(1,2)]
  have claim: "claim_cleanup_row (current_fences (map_of (db_sessions db) sid)) own' tok' c2 = (APPLIED, c')"
    using assms(7) row(4) by (auto simp: claim_cleanup_def modify_cleanup_Inr)
  from cleanup_claim_later [OF assms(3,4)] show ?thesis
  proof (elim disjE conjE)
    assume "cl_generation c < cl_generation c2"
    then show ?thesis using claim_cleanup_row_le [OF row(1) claim] by (simp add: cleanup_le_def)
  next
    assume gen: "cl_generation c2 = cl_generation c" and "cleanup_claim c2 = cleanup_claim c"
    then have "cl_claim_token c2 = Some tok" using assms(5) by (simp add: cleanup_claim_def)
    moreover have "cl_claim_token c' = Some tok'" using claim_cleanup_row_applied [OF claim] by simp
    ultimately have "c' \<noteq> c2" using assms(6) by auto
    then show ?thesis using claim_cleanup_row_shape [OF claim] gen by auto
  qed
qed

lemma cleanup_completion:
  assumes "store_ok db" and "map_of (db_cleanups db) sid = Some c2" and "cleanup_le c c2"
    and "cl_state c = CLEANUP_STATE_CLAIMED"
    and "complete_cleanup sid (cl_generation c) own' tok' db = Inr ((APPLIED, c'), db')"
  shows "\<not> stale_claim c (current_fences (map_of (db_sessions db) sid))"
    and "map_of (db_cleanups db') sid = Some c'" and "cl_state c' = CLEANUP_STATE_COMPLETE"
proof -
  note row = cleanups_row [OF assms(1,2)]
  note complete = complete_cleanup_of [OF row(4) assms(5)]
  from complete_cleanup_row_shape [OF complete(1)]
  have shape: "cl_generation c2 = cl_generation c"
    "\<exists>session. get_session sid db = Inr session
       \<and> (session \<noteq> None \<longrightarrow> \<not> stale_claim c2 (current_fences session))"
    "c' = c2\<lparr> cl_state := CLEANUP_STATE_COMPLETE, cl_revision := cl_revision c2 + 1 \<rparr>"
    by simp_all
  have "sid \<in> session_keys db" using load_cleanup_row(3) [OF store_okD(4) [OF assms(1)] row(4)] .
  then obtain s where s: "map_of (db_sessions db) sid = Some s"
    by (auto simp: session_keys_def dest: weak_map_of_SomeI)
  moreover have "get_session sid db = Inr (Some s)"
    using s sessions_ok_row(1) [OF store_okD(1) [OF assms(1)] s] by (simp add: get_session_def session_row_ok_def)
  ultimately have "\<not> stale_claim c2 (current_fences (map_of (db_sessions db) sid))"
    using shape(2) by auto
  moreover have "cleanup_claim c2 = cleanup_claim c"
    using cleanup_claim_later [OF assms(3,4)] shape(1) by auto
  ultimately show "\<not> stale_claim c (current_fences (map_of (db_sessions db) sid))"
    using stale_claim_cong by blast
  show "map_of (db_cleanups db') sid = Some c'" using complete(2) shape(3) row(2) by simp
  show "cl_state c' = CLEANUP_STATE_COMPLETE" using shape(3) by simp
qed

text \<open>
  C15. Cleanup of a session has one owner per generation: once a janitor is granted the cleanup, in
  every later store no janitor with another token completes that generation, another janitor is
  granted the cleanup only under a later generation, and the owner itself completes it only while
  none of the lease generations and the provider session recorded at the claim has been
  superseded; a completed cleanup never changes.
\<close>

theorem cleanup_single_owner:
  assumes "store_ok db" and "claim_cleanup sid own tok db = Inr ((APPLIED, c), db1)"
    and "store_steps db1 db2"
  shows "(\<forall>own' tok' res db3. tok' \<noteq> tok \<longrightarrow>
        complete_cleanup sid (cl_generation c) own' tok' db2 = Inr (res, db3) \<longrightarrow>
        fst res \<in> {NOT_OWNER, ALREADY_APPLIED} \<and> db3 = db2)
     \<and> (\<forall>own' tok' c' db3. tok' \<noteq> tok \<longrightarrow>
          claim_cleanup sid own' tok' db2 = Inr ((APPLIED, c'), db3) \<longrightarrow>
          cl_generation c < cl_generation c')
     \<and> (\<forall>own' tok' c' db3. complete_cleanup sid (cl_generation c) own' tok' db2 = Inr ((APPLIED, c'), db3) \<longrightarrow>
          \<not> stale_claim c (current_fences (map_of (db_sessions db2) sid))
          \<and> (\<forall>db4. store_steps db3 db4 \<longrightarrow> map_of (db_cleanups db4) sid = Some c'))"
proof -
  have ok1: "store_ok db1" using store_step_ok [OF assms(1) cleanup_claimed [OF assms(2)]] .
  have ok2: "store_ok db2" using cleanups.history_inv [OF assms(3) ok1] .
  note c = cleanup_claim_applied [OF assms(1,2)]
  obtain c2 where c2: "map_of (db_cleanups db2) sid = Some c2" "cleanup_le c c2"
    using cleanups.history_row [OF assms(3) ok1 c(1)] by blast
  have final: "map_of (db_cleanups db4) sid = Some c'"
    if "complete_cleanup sid (cl_generation c) own' tok' db2 = Inr ((APPLIED, c'), db3)"
      "store_steps db3 db4" for own' tok' c' db3 db4
  proof -
    note done' = cleanup_completion(2,3) [OF ok2 c2 c(3) that(1)]
    have "store_ok db3" using store_step_ok [OF ok2 cleanup_completed [OF that(1)]] .
    from cleanups.history_row [OF that(2) this done'(1)] done'(2) show ?thesis
      by (auto simp: cleanup_le_def)
  qed
  show ?thesis
  proof (intro conjI allI impI, goal_cases)
    case (1 own' tok' res db3)
    then show ?case using cleanup_foreign_complete [OF ok2 c2 c(3,2)] by fast
  next
    case (2 own' tok' res db3)
    then show ?case using cleanup_foreign_complete [OF ok2 c2 c(3,2)] by fast
  next
    case (3 own' tok' c' db3)
    then show ?case by (rule cleanup_takeover [OF ok2 c2 c(3,2)])
  next
    case (4 own' tok' c' db3)
    then show ?case by (rule cleanup_completion(1) [OF ok2 c2 c(3)])
  next
    case (5 own' tok' c' db3 db4)
    then show ?case by (rule final)
  qed
qed

text \<open>
  Completion does not notice a lease that did not exist at the claim: when a cleanup was
  claimed while the session had no host lease, a host lease acquired afterwards does not fence the
  completion, and until then another janitor is refused as not the owner.
\<close>

theorem cleanup_ignores_later_first_lease:
  assumes "store_ok db" and "map_of (db_cleanups db) sid = Some c"
    and "cl_state c = CLEANUP_STATE_CLAIMED" and "cl_owner_class c = Some own"
    and "cl_claim_token c = Some tok" and "cl_fenced_host_generation c = None"
    and "\<not> stale_claim c (current_fences (map_of (db_sessions db) sid))"
    and "acquire_fencing_generation sid HOST_LEASE n db = Inr (s, db1)"
  shows "sn_host_lease_generation s \<noteq> None
     \<and> (\<exists>c' db2. complete_cleanup sid (cl_generation c) own tok db1 = Inr ((APPLIED, c'), db2))
     \<and> (\<forall>own' tok'. tok' \<noteq> tok \<longrightarrow> claim_cleanup sid own' tok' db1 = Inr ((NOT_OWNER, c), db1))"
proof -
  let ?next = "\<lambda>row. row\<lparr> sn_host_lease_generation := Some (option_or (sn_host_lease_generation row) 0 + 1),
      sn_revision := sn_revision row + 1 \<rparr>"
  have "\<exists>old. map_of (db_sessions db) sid = Some old
      \<and> (if sn_revision old \<noteq> n then Inl RevisionConflictError else Inr (?next old)) = Inr s
      \<and> sn_schema_version s = 1 \<and> db1 = put_session s db"
    using assms(8) by (simp only: acquire_fencing_generation_def write_session_Inr Let_def
        fencing_scope.case fencing_scope.distinct if_False)
  then obtain old where old: "map_of (db_sessions db) sid = Some old" "db1 = put_session s db"
    "sn_schema_version s = 1"
    and "(if sn_revision old \<noteq> n then Inl RevisionConflictError else Inr (?next old)) = Inr s"
    by blast
  then have s: "s = ?next old" by (simp split: if_splits)
  have "sn_session_id s = sid"
    using sessions_ok_row(2) [OF store_okD(1) [OF assms(1)] old(1)] s by simp
  then have s1: "map_of (db_sessions db1) sid = Some s" by (simp add: old(2))
  have fresh: "\<not> stale_claim c (current_fences (Some s))"
    using assms(6,7) old(1) s by (simp add: stale_claim_def superseded_def current_fences_def)
  have ok1: "store_ok db1" using store_step_ok [OF assms(1) acquire [OF assms(8)]] .
  have c1: "map_of (db_cleanups db1) sid = Some c" using assms(2) old(2) by simp
  note row = cleanups_row [OF ok1 c1]
  have v: "cl_schema_version c = 1" using row(1) by (simp add: cleanup_row_ok_def)
  have "\<exists>c' db2. complete_cleanup sid (cl_generation c) own tok db1 = Inr ((APPLIED, c'), db2)"
    using assms(3-5) fresh row(4) s1 old(3) v
    by (simp add: complete_cleanup_def modify_cleanup_Inr complete_cleanup_row_def get_session_def
        stale_claim_def)
  moreover have "claim_cleanup sid own' tok' db1 = Inr ((NOT_OWNER, c), db1)" if "tok' \<noteq> tok" for own' tok'
    using that assms(3,5) fresh row(3,4) s1 v
    by (simp add: claim_cleanup_def modify_cleanup_Inr claim_cleanup_row_def)
  ultimately show ?thesis by (simp add: s)
qed

text \<open>
  The provider frontier moves after the terminal: on a terminal session the compare-and-swap
  refuses a new event cursor as an overwrite of terminal state, while the frontier operation with
  the same revision and generation writes it.
\<close>

theorem frontier_moves_after_terminal:
  assumes "store_ok db" and "map_of (db_sessions db) sid = Some row" and "session_is_terminal row"
  shows "compare_and_swap_session sid (supervisor_fence (sn_revision row) (sn_fencing_generation row))
       (no_update\<lparr> su_provider_event_cursor := Some cursor \<rparr>) db = Inl TerminalSessionOverwriteError
     \<and> (\<exists>r db'. advance_observation_frontier sid (sn_revision row) (sn_fencing_generation row)
           (Some cursor) None db = Inr ((APPLIED, r), db') \<and> sn_provider_event_cursor r = cursor)"
proof -
  have "sn_schema_version row = 1"
    using sessions_ok_row(1) [OF store_okD(1) [OF assms(1)] assms(2)] by (simp add: session_row_ok_def)
  then show ?thesis
    using assms(2,3)
    by (simp add: compare_and_swap_session_def modify_session_def advance_observation_frontier_def
        check_session_fence_def provided_fields_def no_update_def POST_TERMINAL_MUTABLE_FIELDS_def
        session_is_terminal_def)
qed

section \<open>Establishing a session\<close>

lemma fresh_session_turn:
  assumes "turns_ok db" and "nt_session_id args \<notin> session_keys db"
    and "db_turns db1 = db_turns db" and "create_turn args db1 = Inr (t, db2)"
  shows "t = new_turn_row args \<and> db2 = put_turn t db1"
proof (cases "get_turn_by_key (nt_idempotency_key args) db1")
  case (Inr found)
  have "found = None"
  proof (rule ccontr)
    assume "found \<noteq> None"
    then obtain r where r: "found = Some r" by blast
    have "filter (\<lambda>row. ta_idempotency_key row = nt_idempotency_key args) (map snd (db_turns db1)) = [r]"
      using Inr r by (auto simp: get_turn_by_key_def bind_result_Inr_iff split: list.splits)
    then have "r \<in> set (filter (\<lambda>row. ta_idempotency_key row = nt_idempotency_key args)
        (map snd (db_turns db1)))"
      by simp
    then have "r \<in> snd ` set (db_turns db1)" by simp
    then have "ta_session_id r \<in> session_keys db"
      using assms(1,3) by (auto simp: turns_ok_def keyed_table_def)
    then show False using assms(2,4) Inr r by (auto simp: create_turn_def split: if_splits)
  qed
  then show ?thesis using assms(4) Inr
    by (auto simp: create_turn_def bind_result_Inr_iff Let_def split: if_splits)
qed (use assms(4) in \<open>simp add: create_turn_def\<close>)

lemma register_alias_result:
  assumes "register_alias cb sid st why db = Inr (a, db')"
  shows "al_session_id a = sid" "al_alias_state a = st"
    "db' = db\<lparr> db_aliases := dict_set cb a (db_aliases db) \<rparr>"
  using assms
  by (auto simp: register_alias_def register_alias_row_def bind_result_Inr_iff Let_def
      split: option.splits if_splits)

lemma update_lifecycle_applied:
  assumes "update_lifecycle sid fence upd db = Inr (u, db')"
  shows "compare_and_swap_session sid fence upd db = Inr ((APPLIED, u), db')"
proof -
  obtain res where res: "compare_and_swap_session sid fence upd db = Inr (res, db')"
    "u = snd res" "fst res \<noteq> REVISION_CONFLICT" "fst res \<noteq> FENCING_CONFLICT"
    using assms
    by (auto simp: update_lifecycle_def tx_bind_Inr raise_for_session_conflict_def split: if_splits)
  have "fst res \<in> {APPLIED, REVISION_CONFLICT, FENCING_CONFLICT}"
    using res(1) by (auto simp: compare_and_swap_session_def modify_session_Inr check_session_fence_def
        split: option.splits if_splits)
  then have "res = (APPLIED, u)" using res(2-4) by (cases res) auto
  with res(1) show ?thesis by simp
qed

text \<open>The five calls of the unit of work, with the store between them.\<close>

lemma establish_session_calls:
  assumes "establish_session args db = Inr ((s, t), db')"
  obtains s0 db1 a db2 db3 where
    "create_session (established_session args) db = Inr (s0, db1)"
    "register_alias (ea_chat_binding_id args) (Some (ns_session_id (ea_session args)))
       ALIAS_STATE_ACTIVE None db1 = Inr (a, db2)"
    "create_turn (established_turn args) db2 = Inr (t, db3)"
    "update_lifecycle (ns_session_id (ea_session args)) (supervisor_fence 1 0)
       (no_update\<lparr> su_active_turn_attempt_id := Some (Some (ea_first_turn_attempt_id args)) \<rparr>) db3 = Inr (s, db')"
proof -
  let ?sid = "ns_session_id (ea_session args)"
  let ?upd = "no_update\<lparr> su_active_turn_attempt_id := Some (Some (ea_first_turn_attempt_id args)) \<rparr>"
  obtain s0 db1 a db2 db3 u where calls:
    "create_session (established_session args) db = Inr (s0, db1)"
    "register_alias (ea_chat_binding_id args) (Some ?sid) ALIAS_STATE_ACTIVE None db1 = Inr (a, db2)"
    "create_turn (established_turn args) db2 = Inr (t, db3)"
    "update_lifecycle ?sid (supervisor_fence 1 0) ?upd db3 = Inr (u, db')"
    "get_session ?sid db' = Inr (Some s)"
    using assms
    by (auto simp: establish_session_def Let_def tx_bind_Inr bind_result_Inr_iff split: option.splits)
  obtain cur where "map_of (db_sessions db3) ?sid = Some cur" "db' = put_session u db3"
    "u = (set_provided ?upd cur)\<lparr> sn_revision := sn_revision cur + 1 \<rparr>"
    using cas_applied_cur [OF update_lifecycle_applied [OF calls(4)]] by blast
  moreover have "db_sessions db3 = db_sessions db1"
    using create_turn_creates [OF calls(3)] register_alias_result(3) [OF calls(2)] by simp
  moreover have "db1 = put_session s0 db" "s0 = new_session_row (established_session args)"
    "sn_session_id s0 = ?sid"
    using calls(1) by (auto simp: create_session_def Let_def bind_result_Inr_iff new_session_row_def
        established_session_def split: if_splits)
  ultimately have "map_of (db_sessions db') ?sid = Some u" by simp
  then have "s = u" using calls(5) by (simp add: get_session_def bind_result_Inr_iff)
  with calls show thesis using that by blast
qed

text \<open>
  Establishing a session is one consistent unit: when it succeeds the session is new, its chat
  handle resolves to it both in the session table and through the alias, its first turn is a fresh
  prepared attempt of that session, the session names it as active at revision two, and the store
  reached is one that single operations reach.
\<close>

theorem establish_session_consistent:
  assumes "store_ok db" and "establish_session args db = Inr ((s, t), db')"
  shows "ns_session_id (ea_session args) \<notin> session_keys db \<and> store_steps db db'
     \<and> sn_session_id s = ns_session_id (ea_session args) \<and> sn_revision s = 2
     \<and> get_by_chat_binding (ea_chat_binding_id args) db' = Inr (Some s)
     \<and> (\<exists>a. resolve_alias (ea_chat_binding_id args) db' = Some a \<and> alias_resolves a
          \<and> al_session_id a = Some (sn_session_id s))
     \<and> t = new_turn_row (established_turn args) \<and> get_turn (ta_turn_attempt_id t) db' = Inr (Some t)
     \<and> ta_session_id t = sn_session_id s
     \<and> sn_active_turn_attempt_id s = Some (ta_turn_attempt_id t)"
proof -
  let ?sid = "ns_session_id (ea_session args)"
  let ?upd = "no_update\<lparr> su_active_turn_attempt_id := Some (Some (ea_first_turn_attempt_id args)) \<rparr>"
  obtain s0 db1 a db2 db3 where calls:
    "create_session (established_session args) db = Inr (s0, db1)"
    "register_alias (ea_chat_binding_id args) (Some ?sid) ALIAS_STATE_ACTIVE None db1 = Inr (a, db2)"
    "create_turn (established_turn args) db2 = Inr (t, db3)"
    "update_lifecycle ?sid (supervisor_fence 1 0) ?upd db3 = Inr (s, db')"
    by (rule establish_session_calls [OF assms(2)])
  have new: "?sid \<notin> session_keys db" "db1 = put_session s0 db"
    "s0 = new_session_row (established_session args)" "sn_session_id s0 = ?sid"
    "sn_chat_binding_id s0 = Some (ea_chat_binding_id args)" "sn_revision s0 = 1"
    using calls(1) by (auto simp: create_session_def Let_def bind_result_Inr_iff new_session_row_def
        established_session_def split: if_splits)
  note al = register_alias_result [OF calls(2)]
  have steps: "store_steps db db'"
    using session_create [OF calls(1)] alias_registered [OF calls(2)] turn_create [OF calls(3)]
      lifecycle [OF calls(4)] by (meson rtranclp.rtrancl_into_rtrancl rtranclp.rtrancl_refl)
  then have ok: "store_ok db'" using sessions.history_inv assms(1) by blast
  have turn: "t = new_turn_row (established_turn args)" "db3 = put_turn t db2"
    using fresh_session_turn [OF store_okD(2) [OF assms(1)] _ _ calls(3)] new(1,2) al(3)
    by (simp_all add: established_turn_def new_turn_default_def)
  have t: "ta_session_id t = ?sid" "ta_turn_attempt_id t = ea_first_turn_attempt_id args"
    by (simp_all add: turn(1) new_turn_row_def established_turn_def new_turn_default_def)
  obtain cur where cur: "map_of (db_sessions db3) ?sid = Some cur" "db' = put_session s db3"
    "s = (set_provided ?upd cur)\<lparr> sn_revision := sn_revision cur + 1 \<rparr>"
    using cas_applied_cur [OF update_lifecycle_applied [OF calls(4)]] by blast
  have "cur = s0" using cur(1) turn(2) al(3) new(2,4) by simp
  then have s: "sn_session_id s = ?sid" "sn_revision s = 2"
    "sn_chat_binding_id s = Some (ea_chat_binding_id args)"
    "sn_active_turn_attempt_id s = Some (ea_first_turn_attempt_id args)"
    using cur(3) new(4-6) by (simp_all add: set_provided_def no_update_def)
  have "map_of (db_sessions db') ?sid = Some s" using cur(2) s(1) by simp
  then have "get_by_chat_binding (ea_chat_binding_id args) db' = Inr (Some s)"
    using get_by_chat_binding_found [OF store_okD(1) [OF ok]] s(3) by blast
  moreover have "resolve_alias (ea_chat_binding_id args) db' = Some a \<and> alias_resolves a"
    using al cur(2) turn(2) by (simp add: resolve_alias_def alias_resolves_def ALIAS_STATE_ACTIVE_def)
  moreover have "get_turn (ta_turn_attempt_id t) db' = Inr (Some t)"
    using cur(2) turn by (simp add: get_turn_def new_turn_row_def vocabulary)
  ultimately show ?thesis using new(1) steps s t turn(1) al(1) by simp
qed

section \<open>Concrete histories\<close>

lemmas example_simps = example_store_def example_session_def new_session_row_def
  new_session_default_def empty_store_def put_session_def CURRENT_SCHEMA_VERSION_def

lemma example_lookup: "map_of (db_sessions example_store) ''s1'' = Some example_session"
  by (simp add: example_simps)

lemma example_store_all_ok: "store_ok example_store"
proof -
  have "db_turns example_store = []" "db_commands example_store = []" "db_cleanups example_store = []"
    "db_observations example_store = []" "db_decisions example_store = []" "db_aliases example_store = []"
    by (simp_all add: example_simps)
  then show ?thesis
    using example_store_ok by (simp add: store_ok_def turns_ok_def commands_ok_def cleanups_ok_def
        observations_ok_def decisions_ok_def aliases_ok_def)
qed

lemma example_session_sel [simp]:
  "sn_session_id example_session = ''s1''" "sn_revision example_session = 1"
  "sn_fencing_generation example_session = 0" "sn_schema_version example_session = 1"
  "sn_terminal_state example_session = None" "sn_host_lease_generation example_session = None"
  "sn_provider_profile_generation example_session = None"
  "sn_provider_session_ref example_session = None" "session_keys example_store = {''s1''}"
  "db_turns example_store = []" "db_commands example_store = []" "db_cleanups example_store = []"
  by (simp_all add: example_simps session_keys_def)

definition example_acquired :: session_record where
  "example_acquired = example_session\<lparr> sn_fencing_generation := 1, sn_revision := 2 \<rparr>"

lemma example_acquire:
  "acquire_fencing_generation ''s1'' SESSION_SUPERVISOR 1 example_store =
     Inr (example_acquired, put_session example_acquired example_store)"
  by (simp add: acquire_fencing_generation_def write_session_Inr example_lookup example_acquired_def)

text \<open>
  A race for the chat handle: both allocations load the session before either is written, the second
  one to be flushed overwrites the handle that was granted first, and only then is it settled.
\<close>

definition example_handled :: "py_str \<Rightarrow> session_record" where
  "example_handled h = example_session\<lparr> sn_chat_binding_id := Some h \<rparr>"

definition example_race :: "(py_str \<times> py_str) list \<Rightarrow> py_str option \<Rightarrow> control_store" where
  "example_race pending h = (put_session (example_session\<lparr> sn_chat_binding_id := h \<rparr>) example_store)\<lparr> db_allocations := pending \<rparr>"

lemma example_race_start: "example_race [] None = example_store"
  by (simp add: example_race_def example_simps)

lemma example_load:
  "store_step (example_race pending None) (example_race ((''s1'', h) # pending) None)"
  using allocation_loaded [of "example_race pending None" "''s1''" "example_session\<lparr> sn_chat_binding_id := None \<rparr>" h]
  by (simp add: example_race_def check_chat_binding_def)

lemma example_flush:
  assumes "(''s1'', h) \<in> set pending"
  shows "store_step (example_race pending old) (example_race (remove1 (''s1'', h) pending) (Some h))"
proof -
  have run: "flush_chat_binding ''s1'' h (example_race pending old) =
      Inr (example_handled h, put_session (example_handled h) (example_race pending old))"
    by (simp add: flush_chat_binding_def write_session_Inr set_chat_binding_def Let_def example_race_def example_handled_def
        chat_binding_unique_def example_simps)
  have "(put_session (example_handled h) (example_race pending old))\<lparr> db_allocations := remove1 (''s1'', h) pending \<rparr>
      = example_race (remove1 (''s1'', h) pending) (Some h)"
    by (simp add: example_race_def example_handled_def example_simps)
  with allocation_flushed [OF _ run] assms show ?thesis by (simp add: example_race_def)
qed

lemma example_race_runs:
  "store_steps example_store (example_race [(''s1'', ''chat2'')] (Some ''chat1''))"
  "store_step (example_race [(''s1'', ''chat2'')] (Some ''chat1'')) (example_race [] (Some ''chat2''))"
proof -
  have "store_step example_store (example_race [(''s1'', ''chat1'')] None)"
    using example_load [of "[]" "''chat1''"] by (simp add: example_race_start)
  moreover have "store_step (example_race [(''s1'', ''chat1'')] None) (example_race [(''s1'', ''chat2''), (''s1'', ''chat1'')] None)"
    by (rule example_load)
  moreover have "store_step (example_race [(''s1'', ''chat2''), (''s1'', ''chat1'')] None) (example_race [(''s1'', ''chat2'')] (Some ''chat1''))"
    using example_flush [of "''chat1''" "[(''s1'', ''chat2''), (''s1'', ''chat1'')]" None] by simp
  ultimately show "store_steps example_store (example_race [(''s1'', ''chat2'')] (Some ''chat1''))"
    by (meson converse_rtranclp_into_rtranclp r_into_rtranclp)
  show "store_step (example_race [(''s1'', ''chat2'')] (Some ''chat1'')) (example_race [] (Some ''chat2''))"
    using example_flush [of "''chat2''" "[(''s1'', ''chat2'')]" "Some ''chat1''"] by simp
qed

text \<open>After the race a supervisor takes the session over.\<close>

definition example_settled :: control_store where
  "example_settled = put_session (example_acquired\<lparr> sn_chat_binding_id := Some ''chat2'' \<rparr>) (example_race [] (Some ''chat2''))"

lemma example_settled_step: "store_step (example_race [] (Some ''chat2'')) example_settled"
  by (rule acquire [of "''s1''" SESSION_SUPERVISOR 1 _ "example_acquired\<lparr> sn_chat_binding_id := Some ''chat2'' \<rparr>"])
    (simp add: acquire_fencing_generation_def write_session_Inr example_acquired_def example_settled_def example_race_def)

lemma session_authority_history_witness:
  "map_of (db_sessions (example_race [(''s1'', ''chat2'')] (Some ''chat1''))) ''s1'' = Some (example_handled ''chat1'')
   \<and> store_steps (example_race [(''s1'', ''chat2'')] (Some ''chat1'')) (example_race [] (Some ''chat2''))
   \<and> map_of (db_sessions (example_race [] (Some ''chat2''))) ''s1'' = Some (example_handled ''chat2'')
   \<and> store_steps (example_race [] (Some ''chat2'')) example_settled
   \<and> (\<exists>r'. map_of (db_sessions example_settled) ''s1'' = Some r' \<and> sn_revision r' = 2
        \<and> session_authority_kept (example_handled ''chat2'') r' \<and> sn_chat_binding_id r' = Some ''chat2'')"
proof -
  have step: "store_steps (example_race [(''s1'', ''chat2'')] (Some ''chat1'')) (example_race [] (Some ''chat2''))"
    "store_steps (example_race [] (Some ''chat2'')) example_settled"
    using example_race_runs(2) example_settled_step by blast+
  have rows: "map_of (db_sessions (example_race [(''s1'', ''chat2'')] (Some ''chat1''))) ''s1'' = Some (example_handled ''chat1'')"
    "map_of (db_sessions (example_race [] (Some ''chat2''))) ''s1'' = Some (example_handled ''chat2'')"
    by (simp_all add: example_race_def example_handled_def)
  have "store_ok (example_race [] (Some ''chat2''))"
    using session_authority_history [OF example_store_all_ok rtranclp_trans [OF example_race_runs(1) step(1)] example_lookup] by blast
  from session_authority_history [OF this step(2) rows(2)]
  have "\<exists>r'. map_of (db_sessions example_settled) ''s1'' = Some r' \<and> session_authority_kept (example_handled ''chat2'') r'
      \<and> sn_chat_binding_id r' = Some ''chat2''"
    by (auto simp: example_race_def example_handled_def)
  then show ?thesis using step rows by (auto simp: example_settled_def example_acquired_def)
qed

lemma session_no_lost_update_witness:
  "\<exists>r db2. compare_and_swap_session ''s1'' (supervisor_fence 1 0) no_update example_store =
       Inr ((APPLIED, r), db2)
     \<and> (\<forall>r' db4. compare_and_swap_session ''s1'' (supervisor_fence 1 0) no_update db2 \<noteq>
          Inr ((APPLIED, r'), db4))"
proof -
  have "\<exists>r db2. compare_and_swap_session ''s1'' (supervisor_fence 1 0) no_update example_store =
       Inr ((APPLIED, r), db2)"
    by (simp add: compare_and_swap_session_def modify_session_def example_lookup check_session_fence_def)
  then obtain r db2 where cas: "compare_and_swap_session ''s1'' (supervisor_fence 1 0) no_update
      example_store = Inr ((APPLIED, r), db2)"
    by blast
  with session_no_lost_update [OF example_store_all_ok example_lookup rtranclp.rtrancl_refl _ cas]
  show ?thesis by (metis example_session_sel(2) rtranclp.rtrancl_refl supervisor_fence_sel(1))
qed

lemma superseded_supervisor_fenced_witness:
  "\<exists>row. compare_and_swap_session ''s1'' (supervisor_fence 2 0) no_update
       (put_session example_acquired example_store) =
     Inr ((FENCING_CONFLICT, row), put_session example_acquired example_store)"
  using superseded_supervisor_fenced [OF example_store_all_ok example_acquire rtranclp.rtrancl_refl,
      of 0] by (auto simp: example_acquired_def)

lemma example_turn_created:
  "create_turn example_turn example_store =
     Inr (new_turn_row example_turn, put_turn (new_turn_row example_turn) example_store)"
  by (simp add: create_turn_def example_turn_def new_turn_default_def get_turn_by_key_def
      new_turn_row_def turn_integrity_def CURRENT_SCHEMA_VERSION_def Let_def)

lemma turn_history_monotone_witness:
  "\<exists>r'. map_of (db_turns (put_turn (new_turn_row example_turn) example_store)) ''t1'' = Some r'
     \<and> turn_state_order ''prepared'' \<le> turn_state_order (ta_state r')"
  using turn_history_monotone [OF store_step_ok [OF example_store_all_ok turn_create [OF example_turn_created]]
      rtranclp.rtrancl_refl, of "''t1''" "new_turn_row example_turn"]
  by (simp add: new_turn_row_def example_turn_def new_turn_default_def)

lemma command_single_claimant_witness:
  "\<exists>c db1. claim_command ''c1'' ''worker'' ''A'' (put_command (new_command_row example_command) example_store)
       = Inr ((APPLIED, c), db1)
     \<and> (\<forall>own c' db3. claim_command ''c1'' own ''B'' db1 \<noteq> Inr ((APPLIED, c'), db3))"
proof -
  have ok: "store_ok (put_command (new_command_row example_command) example_store)"
    using store_step_ok [OF example_store_all_ok command_record [OF example_command_recorded]] .
  have "\<exists>c db1. claim_command ''c1'' ''worker'' ''A''
      (put_command (new_command_row example_command) example_store) = Inr ((APPLIED, c), db1)"
    by (simp add: claim_command_def modify_command_def claim_command_row_def new_command_row_def
        example_command_def session_generation_def example_lookup CURRENT_SCHEMA_VERSION_def)
  then obtain c db1 where claim: "claim_command ''c1'' ''worker'' ''A''
      (put_command (new_command_row example_command) example_store) = Inr ((APPLIED, c), db1)"
    by blast
  have only: "\<forall>own' tok' res db3. tok' \<noteq> ''A'' \<longrightarrow>
      claim_command ''c1'' own' tok' db1 = Inr (res, db3) \<longrightarrow>
      fst res \<in> {NOT_OWNER, ALREADY_APPLIED} \<and> db3 = db1"
    using command_single_claimant [OF ok claim rtranclp.rtrancl_refl] by (elim exE conjE)
  have "claim_command ''c1'' own ''B'' db1 \<noteq> Inr ((APPLIED, c'), db3)" for own c' db3
    using only [THEN spec, of own, THEN spec, of "''B''", THEN spec, of "(APPLIED, c')", THEN spec, of db3]
    by auto
  with claim show ?thesis by blast
qed

definition example_cleanup :: cleanup_authority_record where
  "example_cleanup = (new_cleanup_row ''s1'')\<lparr> cl_state := CLEANUP_STATE_CLAIMED,
     cl_owner_class := Some ''janitor'', cl_claim_token := Some ''A'', cl_generation := 1,
     cl_revision := 2 \<rparr>"

lemma example_cleanup_claimed:
  "claim_cleanup ''s1'' ''janitor'' ''A'' example_store =
     Inr ((APPLIED, example_cleanup), put_cleanup example_cleanup example_store)"
  by (simp add: claim_cleanup_def modify_cleanup_Inr load_cleanup_for_update_def claim_cleanup_row_def
      new_cleanup_row_def example_lookup current_fences_def example_cleanup_def CURRENT_SCHEMA_VERSION_def)

lemma cleanup_single_owner_witness:
  "\<exists>res. complete_cleanup ''s1'' 1 ''janitor'' ''B'' (put_cleanup example_cleanup example_store) =
       Inr (res, put_cleanup example_cleanup example_store)
     \<and> fst res \<in> {NOT_OWNER, ALREADY_APPLIED}"
proof -
  let ?db = "put_cleanup example_cleanup example_store"
  have "\<exists>res db3. complete_cleanup ''s1'' 1 ''janitor'' ''B'' ?db = Inr (res, db3)"
    by (simp add: complete_cleanup_def modify_cleanup_def load_cleanup_for_update_def
        complete_cleanup_row_def put_cleanup_def example_cleanup_def new_cleanup_row_def
        cleanup_row_record_def ensure_supported_schema_version_def SUPPORTED_SCHEMA_VERSIONS_def
        CURRENT_SCHEMA_VERSION_def vocabulary)
  then obtain res db3 where call: "complete_cleanup ''s1'' 1 ''janitor'' ''B'' ?db = Inr (res, db3)"
    by blast
  have "cl_generation example_cleanup = 1" "''B'' \<noteq> ''A''" by (simp_all add: example_cleanup_def)
  with cleanup_single_owner [OF example_store_all_ok example_cleanup_claimed rtranclp.rtrancl_refl]
  have "fst res \<in> {NOT_OWNER, ALREADY_APPLIED} \<and> db3 = ?db" using call by metis
  with call show ?thesis by blast
qed

lemma cleanup_ignores_later_first_lease_witness:
  "\<exists>s db1 c' db2. acquire_fencing_generation ''s1'' HOST_LEASE 1 (put_cleanup example_cleanup example_store)
       = Inr (s, db1)
     \<and> sn_host_lease_generation s \<noteq> None
     \<and> complete_cleanup ''s1'' 1 ''janitor'' ''A'' db1 = Inr ((APPLIED, c'), db2)"
proof -
  let ?db = "put_cleanup example_cleanup example_store"
  have ok: "store_ok ?db"
    using store_step_ok [OF example_store_all_ok cleanup_claimed [OF example_cleanup_claimed]] .
  have "\<exists>s db1. acquire_fencing_generation ''s1'' HOST_LEASE 1 ?db = Inr (s, db1)"
    by (simp add: acquire_fencing_generation_def write_session_Inr example_lookup)
  then obtain s db1 where acq: "acquire_fencing_generation ''s1'' HOST_LEASE 1 ?db = Inr (s, db1)"
    by blast
  have "map_of (db_cleanups ?db) ''s1'' = Some example_cleanup"
    by (simp add: example_cleanup_def new_cleanup_row_def)
  from cleanup_ignores_later_first_lease [OF ok this _ _ _ _ _ acq, of "''janitor''" "''A''"] acq
  show ?thesis
    by (auto simp: example_cleanup_def new_cleanup_row_def stale_claim_def superseded_def)
qed

definition example_terminal :: session_record where
  "example_terminal = example_session\<lparr> sn_terminal_state := Some ''completed'', sn_revision := 2 \<rparr>"

lemma frontier_moves_after_terminal_witness:
  "\<exists>r db'. advance_observation_frontier ''s1'' 2 0 (Some (Some ''cursor9'')) None
       (put_session example_terminal example_store) = Inr ((APPLIED, r), db')
     \<and> sn_provider_event_cursor r = Some ''cursor9''"
proof -
  have "mark_session_terminal ''s1'' ''completed'' 1 0 None example_store =
      Inr (example_terminal, put_session example_terminal example_store)"
    by (simp add: mark_session_terminal_def write_session_Inr example_lookup check_session_fence_def
        example_terminal_def example_session_def new_session_row_def CURRENT_SCHEMA_VERSION_def)
  then have "store_ok (put_session example_terminal example_store)"
    using store_step_ok [OF example_store_all_ok session_terminal] by blast
  from frontier_moves_after_terminal [OF this, of "''s1''" example_terminal "Some ''cursor9''"]
  show ?thesis by (simp add: example_terminal_def session_is_terminal_def)
qed

definition example_establish :: establish_args where
  "example_establish = \<lparr> ea_session = new_session_default ''s1'' ''wf1'' ''codex'',
     ea_chat_binding_id = ''chat1'', ea_first_turn_attempt_id = ''t1'',
     ea_first_turn_idempotency_key = ''key1'', ea_instruction_digest = None \<rparr>"

lemma establish_session_consistent_witness:
  "\<exists>s t db'. establish_session example_establish empty_store = Inr ((s, t), db')
     \<and> get_by_chat_binding ''chat1'' db' = Inr (Some s) \<and> sn_revision s = 2"
proof -
  have "\<exists>s t db'. establish_session example_establish empty_store = Inr ((s, t), db')"
    by (simp add: establish_session_def example_establish_def established_session_def
        established_turn_def tx_bind_def create_session_def session_integrity_def scope_unique_def
        chat_binding_unique_def session_refs_exist_def foreign_ok_def session_keys_def
        register_alias_def create_turn_def get_turn_by_key_def turn_integrity_def new_turn_row_def
        new_turn_default_def put_turn_def update_lifecycle_def compare_and_swap_session_def
        modify_session_def check_session_fence_def raise_for_session_conflict_def get_session_def
        set_provided_def no_update_def new_session_row_def new_session_default_def empty_store_def
        put_session_def CURRENT_SCHEMA_VERSION_def Let_def)
  then obtain s t db' where est: "establish_session example_establish empty_store = Inr ((s, t), db')"
    by blast
  from establish_session_consistent [OF empty_store_ok est] est show ?thesis
    by (auto simp: example_establish_def)
qed

end
