(* ===== verification/Control_Plane_Turn_Commands.thy ===== *)
theory Control_Plane_Turn_Commands
  imports Control_Plane_Safety
begin

text \<open>
  The turn-command service of \<^verbatim>\<open>moonmind/omnigent/control_plane/turn_commands.py\<close>: every follow-up
  instruction (chat, steering, approval, remediation, checkpoint) is resolved to one session,
  journalled as one command of one turn, claimed before its side effect and settled after it. The
  service is a composition of repository operations in one transaction, so it is a sequence of
  steps of \<open>store_step\<close> and everything proved of histories holds of it.
\<close>

section \<open>Definitions\<close>

text \<open>A read of the store inside a transaction.\<close>

definition tx_read :: "(control_store \<Rightarrow> 'a cp_result) \<Rightarrow> 'a tx" where
  "tx_read query db = bind_result (query db) (\<lambda>x. Inr (x, db))"

definition tx_raise :: "control_plane_error \<Rightarrow> 'a tx" where
  "tx_raise e db = Inl e"

text \<open>A Python string is true when it is present and not empty.\<close>

fun truthy_str :: "py_str option \<Rightarrow> bool" where
  "truthy_str None = False"
| "truthy_str (Some s) = (s \<noteq> [])"

record turn_command_claim =
  tc_session_id :: py_str
  tc_turn_attempt_id :: py_str
  tc_command_id :: py_str
  tc_idempotency_key :: py_str
  tc_claim_token :: py_str
  tc_outcome :: control_plane_outcome
  tc_expected_session_revision :: "int option"
  tc_fencing_generation :: int

definition owns_delivery :: "turn_command_claim \<Rightarrow> bool" where
  "owns_delivery c \<longleftrightarrow> tc_outcome c = APPLIED"

record session_bootstrap =
  sb_provider :: py_str
  sb_step_execution_id :: py_str
  sb_agent_run_id :: py_str
  sb_source_idempotency_key :: py_str
  sb_execution_plan_ref :: "py_str option"

record instruction =
  in_workflow_id :: py_str
  in_provider_session_ref :: py_str
  in_chat_binding_id :: "py_str option"
  in_command_type :: py_str
  in_idempotency_key :: py_str
  in_payload_digest :: py_str
  in_step_execution_id :: "py_str option"
  in_bootstrap :: "session_bootstrap option"

definition lineage_kind :: "py_str \<Rightarrow> py_str" where
  "lineage_kind command_type =
     (let normalized = map (\<lambda>c. if c = CHR ''.'' then CHR ''_'' else c)
            (py_lower (py_strip command_type)) in
      if py_in ''remediation'' normalized then ''remediation''
      else if py_in ''checkpoint'' normalized \<or> py_in ''branch'' normalized then ''checkpoint_resume''
      else if py_in ''approval'' normalized \<or> py_in ''elicitation'' normalized then ''approval''
      else if py_in ''steer'' normalized \<or> py_in ''interrupt'' normalized \<or> py_in ''stop'' normalized
      then ''steering''
      else ''continuation'')"

definition OWNER_CLASS :: py_str where
  "OWNER_CLASS = ''canonical_turn_command''"

definition instruction_key :: "instruction \<Rightarrow> py_str" where
  "instruction_key i = canonical_turn_command_key (in_workflow_id i) (in_idempotency_key i)"

text \<open>The session by alias, by chat handle, and by workflow and provider session, in this order.\<close>

definition session_of_alias :: "py_str \<Rightarrow> control_store \<Rightarrow> session_record option cp_result" where
  "session_of_alias chat_binding_id db =
     (case resolve_alias chat_binding_id db of
        None \<Rightarrow> Inr None
      | Some alias \<Rightarrow>
          if alias_resolves alias then get_session (option_or (al_session_id alias) ''None'') db
          else Inr None)"

definition first_found ::
  "'a option cp_result \<Rightarrow> 'a option cp_result \<Rightarrow> 'a option cp_result" where
  "first_found r s = bind_result r (\<lambda>found. case found of Some x \<Rightarrow> Inr (Some x) | None \<Rightarrow> s)"

definition resolve_session :: "instruction \<Rightarrow> control_store \<Rightarrow> session_record option cp_result" where
  "resolve_session i db =
     first_found
       (if truthy_str (in_chat_binding_id i)
        then first_found (session_of_alias (option_or (in_chat_binding_id i) []) db)
               (get_by_chat_binding (option_or (in_chat_binding_id i) []) db)
        else Inr None)
       (if in_provider_session_ref i \<noteq> []
        then get_by_scope (in_workflow_id i) (Some (in_provider_session_ref i)) db
        else Inr None)"

definition register_binding :: "instruction \<Rightarrow> py_str \<Rightarrow> unit tx" where
  "register_binding i session_id =
     (if truthy_str (in_chat_binding_id i)
      then tx_bind (register_alias (option_or (in_chat_binding_id i) []) (Some session_id)
                      ALIAS_STATE_ACTIVE None) (\<lambda>_. tx_return ())
      else tx_return ())"

text \<open>Convergence on demand: the session the bootstrap authority names is found or created.\<close>

definition bootstrap_session_id :: "instruction \<Rightarrow> session_bootstrap \<Rightarrow> py_str" where
  "bootstrap_session_id i b =
     canonical_omnigent_session_id (in_workflow_id i) (sb_step_execution_id b) (sb_agent_run_id b)"

definition matches_bootstrap :: "instruction \<Rightarrow> session_bootstrap \<Rightarrow> session_record \<Rightarrow> bool" where
  "matches_bootstrap i b s \<longleftrightarrow> sn_moonmind_workflow_id s = in_workflow_id i
     \<and> sn_step_execution_id s = Some (sb_step_execution_id b)
     \<and> sn_moonmind_agent_run_id s = Some (sb_agent_run_id b)
     \<and> sn_execution_plan_ref s = sb_execution_plan_ref b"

definition bootstrap_new_session :: "instruction \<Rightarrow> session_bootstrap \<Rightarrow> new_session" where
  "bootstrap_new_session i b =
     (new_session_default (bootstrap_session_id i b) (in_workflow_id i) (sb_provider b))\<lparr>
       ns_provider_session_ref :=
         (if in_provider_session_ref i = [] then None else Some (in_provider_session_ref i)),
       ns_chat_binding_id := in_chat_binding_id i,
       ns_step_execution_id := Some (sb_step_execution_id b),
       ns_moonmind_agent_run_id := Some (sb_agent_run_id b),
       ns_execution_plan_ref := sb_execution_plan_ref b,
       ns_metadata := [(''canonicalizedOnDemand'', JBool True)] \<rparr>"

definition bootstrap_turn :: "instruction \<Rightarrow> session_bootstrap \<Rightarrow> new_turn" where
  "bootstrap_turn i b =
     (new_turn_default (canonical_omnigent_turn_attempt_id (bootstrap_session_id i b) 1)
        (bootstrap_session_id i b)
        (''omnigent-bootstrap:'' @
           canonical_turn_command_key (in_workflow_id i) (sb_source_idempotency_key b)))\<lparr>
       nt_lineage_kind := ''initial'',
       nt_step_execution_id := Some (sb_step_execution_id b),
       nt_instruction_digest :=
         (if sb_source_idempotency_key b = in_idempotency_key i then Some (in_payload_digest i)
          else None) \<rparr>"

definition set_active_turn :: "py_str \<Rightarrow> session_update" where
  "set_active_turn turn_attempt_id = no_update\<lparr> su_active_turn_attempt_id := Some (Some turn_attempt_id) \<rparr>"

definition converge_on ::
  "instruction \<Rightarrow> session_bootstrap \<Rightarrow> session_record \<Rightarrow> (session_record \<times> turn_attempt_record option) tx" where
  "converge_on i b s =
     (if matches_bootstrap i b s then tx_return (s, None)
      else tx_raise CanonicalTurnAuthorityUnavailable)"

definition bootstrap_session ::
  "instruction \<Rightarrow> session_bootstrap \<Rightarrow> (session_record \<times> turn_attempt_record option) tx" where
  "bootstrap_session i b =
     (let session_id = bootstrap_session_id i b in
      tx_bind (tx_read (get_session session_id)) (\<lambda>existing.
        case existing of
          Some s \<Rightarrow> converge_on i b s
        | None \<Rightarrow> (\<lambda>db.
            case create_session (bootstrap_new_session i b) db of
              Inl e \<Rightarrow>
                if e = ConflictingSessionAuthorityError then
                  tx_bind (tx_read (get_session session_id)) (\<lambda>winner.
                    case winner of None \<Rightarrow> tx_raise e | Some s \<Rightarrow> converge_on i b s) db
                else Inl e
            | Inr (_, db1) \<Rightarrow>
                tx_bind (register_binding i session_id) (\<lambda>_.
                tx_bind (create_turn (bootstrap_turn i b)) (\<lambda>turn.
                tx_bind (update_lifecycle session_id (supervisor_fence 1 0)
                    (set_active_turn (canonical_omnigent_turn_attempt_id session_id 1))) (\<lambda>s.
                tx_return (s, Some turn)))) db1)))"

definition instruction_session ::
  "instruction \<Rightarrow> (session_record \<times> turn_attempt_record option) tx" where
  "instruction_session i =
     tx_bind (tx_read (resolve_session i)) (\<lambda>found.
       case found of
         Some s \<Rightarrow> tx_return (s, None)
       | None \<Rightarrow>
           (case in_bootstrap i of
              None \<Rightarrow> tx_raise CanonicalTurnAuthorityUnavailable
            | Some b \<Rightarrow> bootstrap_session i b))"

text \<open>
  The turn of a new command: the bootstrap turn when it is the instruction that was admitted
  first, otherwise a follow-up turn that becomes the active one.
\<close>

definition followup_turn :: "instruction \<Rightarrow> session_record \<Rightarrow> new_turn" where
  "followup_turn i s =
     (new_turn_default (canonical_followup_turn_attempt_id (sn_session_id s) (instruction_key i))
        (sn_session_id s) (''omnigent-turn:'' @ in_idempotency_key i))\<lparr>
       nt_lineage_kind := lineage_kind (in_command_type i),
       nt_step_execution_id := in_step_execution_id i,
       nt_parent_turn_attempt_id := sn_active_turn_attempt_id s,
       nt_instruction_digest := Some (in_payload_digest i) \<rparr>"

definition owns_bootstrap_turn :: "instruction \<Rightarrow> bool" where
  "owns_bootstrap_turn i \<longleftrightarrow>
     (case in_bootstrap i of None \<Rightarrow> False
      | Some b \<Rightarrow> sb_source_idempotency_key b = in_idempotency_key i)"

definition create_followup_turn :: "instruction \<Rightarrow> session_record \<Rightarrow> (session_record \<times> turn_attempt_record) tx" where
  "create_followup_turn i s =
     tx_bind (create_turn (followup_turn i s)) (\<lambda>turn.
     tx_bind (update_lifecycle (sn_session_id s)
         (supervisor_fence (sn_revision s) (sn_fencing_generation s))
         (set_active_turn (ta_turn_attempt_id turn))) (\<lambda>s'.
     tx_return (s', turn)))"

definition instruction_turn ::
  "instruction \<Rightarrow> session_record \<Rightarrow> turn_attempt_record option \<Rightarrow>
   (session_record \<times> turn_attempt_record) tx" where
  "instruction_turn i s first_turn =
     (case first_turn of
        Some turn \<Rightarrow> if owns_bootstrap_turn i then tx_return (s, turn) else create_followup_turn i s
      | None \<Rightarrow> create_followup_turn i s)"

definition instruction_command :: "instruction \<Rightarrow> session_record \<Rightarrow> turn_attempt_record \<Rightarrow> new_command" where
  "instruction_command i s turn =
     \<lparr> nc_command_id = canonical_turn_command_id (sn_session_id s) (instruction_key i) (in_command_type i),
       nc_session_id = sn_session_id s, nc_command_type = in_command_type i,
       nc_idempotency_key = instruction_key i, nc_payload_digest = in_payload_digest i,
       nc_turn_attempt_id = Some (ta_turn_attempt_id turn),
       nc_expected_session_revision = Some (sn_revision s),
       nc_fencing_generation = sn_fencing_generation s, nc_owner_class = Some OWNER_CLASS,
       nc_retry_policy = [] \<rparr>"

definition repeated_command :: "instruction \<Rightarrow> session_record \<Rightarrow> command_record \<Rightarrow> new_command" where
  "repeated_command i s existing =
     \<lparr> nc_command_id = cm_command_id existing, nc_session_id = sn_session_id s,
       nc_command_type = in_command_type i, nc_idempotency_key = instruction_key i,
       nc_payload_digest = in_payload_digest i, nc_turn_attempt_id = cm_turn_attempt_id existing,
       nc_expected_session_revision = cm_expected_session_revision existing,
       nc_fencing_generation = cm_fencing_generation existing, nc_owner_class = Some OWNER_CLASS,
       nc_retry_policy = [] \<rparr>"

definition journal_instruction ::
  "instruction \<Rightarrow> session_record \<Rightarrow> turn_attempt_record option \<Rightarrow> (session_record \<times> command_record) tx" where
  "journal_instruction i s first_turn =
     tx_bind (tx_read (get_command_by_key (instruction_key i))) (\<lambda>existing.
       case existing of
         None \<Rightarrow>
           tx_bind (instruction_turn i s first_turn) (\<lambda>(s', turn).
           tx_bind (record_command (instruction_command i s' turn)) (\<lambda>command.
           tx_return (s', command)))
       | Some found \<Rightarrow>
           tx_bind (record_command (repeated_command i s found)) (\<lambda>command.
           tx_return (s, command)))"

definition command_claim_result ::
  "instruction \<Rightarrow> session_record \<Rightarrow> command_record \<Rightarrow> control_plane_outcome \<Rightarrow> turn_command_claim" where
  "command_claim_result i s command outcome =
     \<lparr> tc_session_id = sn_session_id s,
       tc_turn_attempt_id = option_or (cm_turn_attempt_id command) ''None'',
       tc_command_id = cm_command_id command, tc_idempotency_key = instruction_key i,
       tc_claim_token = canonical_turn_claim_token (instruction_key i), tc_outcome = outcome,
       tc_expected_session_revision = cm_expected_session_revision command,
       tc_fencing_generation = cm_fencing_generation command \<rparr>"

definition claim_with_repositories :: "instruction \<Rightarrow> turn_command_claim tx" where
  "claim_with_repositories i =
     tx_bind (instruction_session i) (\<lambda>(s, first_turn).
       if sn_moonmind_workflow_id s \<noteq> in_workflow_id i
       then tx_raise CanonicalTurnAuthorityUnavailable
       else tx_bind (register_binding i (sn_session_id s)) (\<lambda>_.
            tx_bind (journal_instruction i s first_turn) (\<lambda>(s', command).
            tx_bind (claim_command (cm_command_id command) OWNER_CLASS
                (canonical_turn_claim_token (instruction_key i))) (\<lambda>claimed.
            tx_return (command_claim_result i s' command (fst claimed))))))"

definition claim_turn_command ::
  "instruction \<Rightarrow> control_store \<Rightarrow> turn_command_claim cp_result \<times> control_store" where
  "claim_turn_command i db = transaction (claim_with_repositories i) db"

text \<open>Settlement: the verdict on the command, then the delivery state of its turn.\<close>

definition settled_turn_state :: "control_plane_outcome \<Rightarrow> py_str option" where
  "settled_turn_state outcome =
     (if outcome \<in> APPLIED_OUTCOMES then Some ''accepted''
      else if outcome = DELIVERY_UNKNOWN then Some ''delivery_unknown'' else None)"

definition advance_settled_turn ::
  "control_plane_outcome \<Rightarrow> turn_attempt_record \<Rightarrow> session_record \<Rightarrow> unit tx" where
  "advance_settled_turn outcome turn s =
     (case settled_turn_state outcome of
        None \<Rightarrow> tx_return ()
      | Some state \<Rightarrow>
          if turn_is_terminal turn \<or> ta_state turn = state then tx_return ()
          else tx_bind (advance_state (ta_turn_attempt_id turn) state (ta_revision turn)
                  (sn_fencing_generation s) None None) (\<lambda>_. tx_return ()))"

definition settle_command ::
  "py_str \<Rightarrow> control_plane_outcome \<Rightarrow> py_str option \<Rightarrow> py_str option \<Rightarrow> command_record \<Rightarrow>
   control_plane_outcome tx" where
  "settle_command key outcome provider_receipt_id result_ref command =
     tx_bind (record_command_delivery (cm_command_id command) OWNER_CLASS
         (canonical_turn_claim_token key) outcome provider_receipt_id result_ref) (\<lambda>delivered.
     tx_bind (tx_read (get_turn (option_or (cm_turn_attempt_id command) []))) (\<lambda>turn.
     tx_bind (tx_read (get_session (cm_session_id command))) (\<lambda>session.
       case (turn, session) of
         (Some t, Some s) \<Rightarrow> tx_bind (advance_settled_turn outcome t s) (\<lambda>_. tx_return (fst delivered))
       | _ \<Rightarrow> tx_raise CanonicalTurnAuthorityUnavailable)))"

definition settle_with_repositories ::
  "py_str \<Rightarrow> py_str \<Rightarrow> control_plane_outcome \<Rightarrow> py_str option \<Rightarrow> py_str option \<Rightarrow>
   control_plane_outcome tx" where
  "settle_with_repositories workflow_id idempotency_key outcome provider_receipt_id result_ref =
     (let key = canonical_turn_command_key workflow_id idempotency_key in
      tx_bind (tx_read (get_command_by_key key)) (\<lambda>found.
        case found of
          None \<Rightarrow> tx_raise CanonicalTurnAuthorityUnavailable
        | Some command \<Rightarrow>
            if \<not> truthy_str (cm_turn_attempt_id command) then tx_raise CanonicalTurnAuthorityUnavailable
            else settle_command key outcome provider_receipt_id result_ref command))"

definition settle ::
  "py_str \<Rightarrow> py_str \<Rightarrow> control_plane_outcome \<Rightarrow> py_str option \<Rightarrow> py_str option \<Rightarrow>
   control_store \<Rightarrow> control_plane_outcome cp_result \<times> control_store" where
  "settle workflow_id idempotency_key outcome provider_receipt_id result_ref db =
     transaction (settle_with_repositories workflow_id idempotency_key outcome provider_receipt_id
       result_ref) db"

definition bind_session_runtime :: "py_str \<Rightarrow> py_str \<Rightarrow> py_str \<Rightarrow> unit tx" where
  "bind_session_runtime session_id execution_plan_ref runtime_binding_ref =
     tx_bind (tx_read (get_session session_id)) (\<lambda>found.
       case found of
         None \<Rightarrow> tx_raise CanonicalTurnAuthorityUnavailable
       | Some s \<Rightarrow>
           tx_bind (bind_runtime_authority session_id (sn_revision s) (sn_fencing_generation s)
             (no_authority\<lparr> ra_execution_plan_ref := Some (Some execution_plan_ref),
                            ra_runtime_binding_ref := Some (Some runtime_binding_ref) \<rparr>))
             (\<lambda>_. tx_return ()))"

section \<open>The service as a history\<close>

text \<open>A transaction body whose effect is a sequence of repository operations.\<close>

definition tx_steps :: "'a tx \<Rightarrow> bool" where
  "tx_steps m \<longleftrightarrow> (\<forall>db x db'. m db = Inr (x, db') \<longrightarrow> store_steps db db')"

lemma tx_stepsD: "tx_steps m \<Longrightarrow> m db = Inr (x, db') \<Longrightarrow> store_steps db db'"
  by (simp add: tx_steps_def)

lemma tx_read_Inr [simp]: "tx_read query db = Inr (x, db') \<longleftrightarrow> query db = Inr x \<and> db' = db"
  by (auto simp: tx_read_def bind_result_Inr_iff)

lemma tx_raise_Inr [simp]: "tx_raise e db \<noteq> Inr r"
  by (simp add: tx_raise_def)

lemma tx_steps_bind: "tx_steps m \<Longrightarrow> (\<And>x. tx_steps (k x)) \<Longrightarrow> tx_steps (tx_bind m k)"
  unfolding tx_steps_def tx_bind_Inr by (meson rtranclp_trans)

lemma tx_steps_basic:
  "tx_steps (tx_return x)" "tx_steps (tx_read query)" "tx_steps (tx_raise e)"
  by (auto simp: tx_steps_def)

lemma tx_steps_calls:
  "tx_steps (register_alias cb sid st why)" "tx_steps (create_turn targs)"
  "tx_steps (update_lifecycle sid' fence upd)" "tx_steps (record_command cargs)"
  "tx_steps (claim_command cid own tok)" "tx_steps (record_command_delivery cid own tok out receipt ref)"
  "tx_steps (advance_state tid state n g ptid piid)" "tx_steps (bind_runtime_authority sid' n g ra)"
  unfolding tx_steps_def by (meson r_into_rtranclp store_step.intros)+

lemmas tx_steps_rules = tx_steps_bind tx_steps_basic tx_steps_calls

lemma register_binding_steps: "tx_steps (register_binding i sid)"
  by (simp add: register_binding_def tx_steps_rules)

lemma converge_on_steps: "tx_steps (converge_on i b s)"
  by (simp add: converge_on_def tx_steps_rules)

lemma bootstrap_session_steps: "tx_steps (bootstrap_session i b)"
proof -
  let ?sid = "bootstrap_session_id i b"
  let ?found = "tx_bind (tx_read (get_session ?sid)) (\<lambda>winner.
      case winner of None \<Rightarrow> tx_raise ConflictingSessionAuthorityError | Some s \<Rightarrow> converge_on i b s)"
  let ?rest = "tx_bind (register_binding i ?sid) (\<lambda>_. tx_bind (create_turn (bootstrap_turn i b)) (\<lambda>turn.
      tx_bind (update_lifecycle ?sid (supervisor_fence 1 0)
        (set_active_turn (canonical_omnigent_turn_attempt_id ?sid 1))) (\<lambda>s. tx_return (s, Some turn))))"
  have "tx_steps ?found"
    by (intro tx_steps_bind tx_steps_basic) (simp add: tx_steps_rules converge_on_steps split: option.split)
  moreover have "tx_steps ?rest" by (intro tx_steps_rules register_binding_steps)
  ultimately have "store_steps db db'"
    if "(case create_session (bootstrap_new_session i b) db of
          Inl e \<Rightarrow> if e = ConflictingSessionAuthorityError then
              tx_bind (tx_read (get_session ?sid)) (\<lambda>winner.
                case winner of None \<Rightarrow> tx_raise e | Some s \<Rightarrow> converge_on i b s) db
            else Inl e
        | Inr (_, db1) \<Rightarrow> ?rest db1) = Inr (x, db')" for db x db'
    using that
    by (auto split: sum.splits if_splits prod.splits dest!: tx_stepsD store_step.session_create
        intro: converse_rtranclp_into_rtranclp)
  then show ?thesis
    unfolding bootstrap_session_def Let_def
    by (intro tx_steps_bind tx_steps_basic)
      (use converge_on_steps in \<open>simp add: tx_steps_def split: option.split\<close>)
qed

lemma instruction_session_steps: "tx_steps (instruction_session i)"
  unfolding instruction_session_def
  by (intro tx_steps_bind tx_steps_basic)
    (simp add: tx_steps_rules bootstrap_session_steps split: option.split)

lemma instruction_turn_steps: "tx_steps (instruction_turn i s ft)"
  unfolding instruction_turn_def create_followup_turn_def
  by (simp add: tx_steps_rules split: option.split)

lemma journal_instruction_steps: "tx_steps (journal_instruction i s ft)"
  unfolding journal_instruction_def
  by (intro tx_steps_bind tx_steps_basic)
    (auto simp: tx_steps_rules instruction_turn_steps split: option.split intro!: tx_steps_bind)

lemma claim_with_repositories_steps: "tx_steps (claim_with_repositories i)"
  unfolding claim_with_repositories_def
  by (intro tx_steps_bind instruction_session_steps)
    (auto simp: tx_steps_rules register_binding_steps journal_instruction_steps intro!: tx_steps_bind)

lemma advance_settled_turn_steps: "tx_steps (advance_settled_turn outcome t s)"
  by (simp add: advance_settled_turn_def tx_steps_rules split: option.split)

lemma settle_with_repositories_steps:
  "tx_steps (settle_with_repositories w k outcome receipt ref)"
proof -
  have "tx_steps (settle_command key outcome receipt ref command)" for key command
    unfolding settle_command_def
    by (auto simp: tx_steps_rules advance_settled_turn_steps split: option.split intro!: tx_steps_bind)
  then show ?thesis
    unfolding settle_with_repositories_def Let_def
    by (intro tx_steps_bind tx_steps_basic) (simp add: tx_steps_rules split: option.split)
qed

lemma tx_steps_ok: "tx_steps m \<Longrightarrow> m db = Inr (x, db') \<Longrightarrow> store_ok db \<Longrightarrow> store_ok db'"
  using sessions.history_inv [OF tx_stepsD] .

section \<open>One command per instruction\<close>

lemma claim_calls:
  assumes "claim_with_repositories i db = Inr (c, db')"
  obtains s ft db1 db2 s' command db3 outcome r where
    "instruction_session i db = Inr ((s, ft), db1)" "sn_moonmind_workflow_id s = in_workflow_id i"
    "register_binding i (sn_session_id s) db1 = Inr ((), db2)"
    "journal_instruction i s ft db2 = Inr ((s', command), db3)"
    "claim_command (cm_command_id command) OWNER_CLASS
       (canonical_turn_claim_token (instruction_key i)) db3 = Inr ((outcome, r), db')"
    "c = command_claim_result i s' command outcome"
  using assms by (auto simp: claim_with_repositories_def tx_bind_Inr split: if_splits)

lemma get_command_by_key_row:
  assumes "commands_ok db" and "get_command_by_key key db = Inr (Some r)"
  shows "map_of (db_commands db) (cm_command_id r) = Some r \<and> cm_idempotency_key r = key"
proof -
  have "filter (\<lambda>row. cm_idempotency_key row = key) (map snd (db_commands db)) = [r]"
    using assms(2) by (auto simp: get_command_by_key_def bind_result_Inr_iff split: list.splits)
  then have "r \<in> set (filter (\<lambda>row. cm_idempotency_key row = key) (map snd (db_commands db)))" by simp
  then obtain cid where "(cid, r) \<in> set (db_commands db)" "cm_idempotency_key r = key" by auto
  moreover from this have "cid = cm_command_id r" "distinct (map fst (db_commands db))"
    using assms(1) by (auto simp: commands_ok_def keyed_table_def)
  ultimately show ?thesis by simp
qed

lemma record_command_row:
  assumes "commands_ok db" and "record_command args db = Inr (r, db')"
  shows "map_of (db_commands db') (cm_command_id r) = Some r
     \<and> cm_idempotency_key r = nc_idempotency_key args \<and> same_command_identity args r"
proof -
  obtain found where f: "get_command_by_key (nc_idempotency_key args) db = Inr found"
    using assms(2) by (auto simp: record_command_def bind_result_Inr_iff)
  show ?thesis
  proof (cases found)
    case None
    then show ?thesis
      using assms(2) f by (auto simp: record_command_def bind_result_Inr_iff Let_def new_command_row_def
          same_command_identity_def split: if_splits)
  next
    case (Some e)
    then have "e = r" "db' = db" "same_command_identity args r"
      using assms(2) f by (auto simp: record_command_def split: if_splits)
    with Some f get_command_by_key_row [OF assms(1)] show ?thesis by simp
  qed
qed

lemma update_lifecycle_id:
  assumes "sessions_ok db" and "update_lifecycle sid fence upd db = Inr (u, db')"
  shows "sn_session_id u = sid"
  using cas_applied_cur [OF update_lifecycle_applied [OF assms(2)]] sessions_ok_row(2) [OF assms(1)]
  by auto

lemma instruction_turn_session:
  assumes "store_ok db" and "instruction_turn i s ft db = Inr ((s', t), db')"
  shows "sn_session_id s' = sn_session_id s"
proof -
  have "sn_session_id s' = sn_session_id s" if call: "create_followup_turn i s db = Inr ((s', t), db')"
  proof -
    obtain db1 where c: "create_turn (followup_turn i s) db = Inr (t, db1)"
      "update_lifecycle (sn_session_id s) (supervisor_fence (sn_revision s) (sn_fencing_generation s))
         (set_active_turn (ta_turn_attempt_id t)) db1 = Inr (s', db')"
      using call by (auto simp: create_followup_turn_def tx_bind_Inr)
    have "store_ok db1" using store_step_ok [OF assms(1) turn_create [OF c(1)]] .
    then show ?thesis using update_lifecycle_id [OF _ c(2)] store_okD(1) by blast
  qed
  then show ?thesis
    using assms(2) by (auto simp: instruction_turn_def split: option.splits if_splits)
qed

lemma journal_instruction_row:
  assumes "store_ok db" and "journal_instruction i s ft db = Inr ((s', command), db')"
  shows "map_of (db_commands db') (cm_command_id command) = Some command
     \<and> cm_idempotency_key command = instruction_key i
     \<and> cm_session_id command = sn_session_id s \<and> sn_session_id s' = sn_session_id s"
proof (cases "get_command_by_key (instruction_key i) db")
  case (Inr found)
  show ?thesis
  proof (cases found)
    case None
    then obtain turn db1 where c: "instruction_turn i s ft db = Inr ((s', turn), db1)"
      "record_command (instruction_command i s' turn) db1 = Inr (command, db')"
      using assms(2) Inr by (auto simp: journal_instruction_def tx_bind_Inr)
    have "store_ok db1" using tx_steps_ok [OF instruction_turn_steps c(1) assms(1)] .
    from record_command_row [OF store_okD(3) [OF this] c(2)] show ?thesis
      using instruction_turn_session [OF assms(1) c(1)]
      by (simp add: instruction_command_def same_command_identity_def)
  next
    case (Some e)
    then have "s' = s" "record_command (repeated_command i s e) db = Inr (command, db')"
      using assms(2) Inr by (auto simp: journal_instruction_def tx_bind_Inr)
    with record_command_row [OF store_okD(3) [OF assms(1)] this(2)] show ?thesis
      by (simp add: repeated_command_def same_command_identity_def)
  qed
qed (use assms(2) in \<open>simp add: journal_instruction_def tx_bind_def tx_read_def\<close>)

definition claim_of_row :: "turn_command_claim \<Rightarrow> command_record \<Rightarrow> bool" where
  "claim_of_row c r \<longleftrightarrow> tc_command_id c = cm_command_id r \<and> tc_session_id c = cm_session_id r
     \<and> tc_turn_attempt_id c = option_or (cm_turn_attempt_id r) ''None''
     \<and> tc_idempotency_key c = cm_idempotency_key r
     \<and> tc_claim_token c = canonical_turn_claim_token (cm_idempotency_key r)
     \<and> tc_expected_session_revision c = cm_expected_session_revision r
     \<and> tc_fencing_generation c = cm_fencing_generation r"

lemma claim_of_row_le: "command_le r r' \<Longrightarrow> claim_of_row c r' \<longleftrightarrow> claim_of_row c r"
  by (auto simp: claim_of_row_def command_le_def command_identity_def)

lemma claim_of_row_unique: "claim_of_row c r \<Longrightarrow> claim_of_row c' r \<Longrightarrow> c' = c\<lparr> tc_outcome := tc_outcome c' \<rparr>"
  by (cases c; cases c') (simp add: claim_of_row_def)

lemma claim_row:
  assumes "store_ok db" and "claim_with_repositories i db = Inr (c, db')"
  shows "\<exists>r. map_of (db_commands db') (tc_command_id c) = Some r \<and> claim_of_row c r
     \<and> cm_idempotency_key r = instruction_key i"
  using assms(2)
proof (rule claim_calls)
  fix s ft db1 db2 s' command db3 outcome r
  assume calls: "instruction_session i db = Inr ((s, ft), db1)"
    "register_binding i (sn_session_id s) db1 = Inr ((), db2)"
    "journal_instruction i s ft db2 = Inr ((s', command), db3)"
    "claim_command (cm_command_id command) OWNER_CLASS
       (canonical_turn_claim_token (instruction_key i)) db3 = Inr ((outcome, r), db')"
    "c = command_claim_result i s' command outcome"
  have ok2: "store_ok db2"
    using assms(1) tx_steps_ok instruction_session_steps register_binding_steps calls(1,2) by metis
  have ok3: "store_ok db3" using tx_steps_ok [OF journal_instruction_steps calls(3) ok2] .
  note j = journal_instruction_row [OF ok2 calls(3)]
  obtain r' where r': "map_of (db_commands db') (cm_command_id command) = Some r'" "command_le command r'"
    using commands.history_row [OF r_into_rtranclp [of store_step, OF command_claim [OF calls(4)]] ok3] j
    by blast
  have "claim_of_row c command" using j by (simp add: calls(5) command_claim_result_def claim_of_row_def)
  then show ?thesis
    using r' claim_of_row_le [OF r'(2)] j
    by (auto simp: calls(5) command_claim_result_def command_le_def command_identity_def)
qed

text \<open>A command that is journalled under the key of an instruction is the one its claim finds.\<close>

lemma claim_command_settled:
  assumes "store_ok db" and "map_of (db_commands db) cid = Some r" and "1 < status_rank (cm_status r)"
    and "claim_command cid own tok db = Inr ((outcome, c), db')"
  shows "outcome = ALREADY_APPLIED"
proof -
  have "claim_command_row (session_generation db r) own tok r = Inr (outcome, c)"
    using assms(2,4) by (auto simp: claim_command_def modify_command_def bind_result_Inr_iff)
  then show ?thesis
    using assms(3) by (auto simp: claim_command_row_def status_rank_def split: if_splits)
qed

lemma journal_known:
  assumes "store_ok db" and "map_of (db_commands db) cid = Some r"
    and "cm_idempotency_key r = instruction_key i"
    and "journal_instruction i s ft db = Inr ((s', command), db')"
  shows "command = r \<and> db' = db"
proof -
  have "get_command_by_key (instruction_key i) db = Inr (Some r)"
    using get_command_by_key_found [OF store_okD(3) [OF assms(1)] assms(2)] assms(3) by simp
  then show ?thesis
    using assms(4)
    by (auto simp: journal_instruction_def tx_bind_Inr record_command_def repeated_command_def split: if_splits)
qed

lemma claim_of_known:
  assumes "store_ok db" and "map_of (db_commands db) cid = Some r"
    and "cm_idempotency_key r = instruction_key i" and "claim_with_repositories i db = Inr (c, db')"
  shows "claim_of_row c r \<and> (1 < status_rank (cm_status r) \<longrightarrow> tc_outcome c = ALREADY_APPLIED)"
  using assms(4)
proof (rule claim_calls)
  fix s ft db1 db2 s' command db3 outcome r'
  assume calls: "instruction_session i db = Inr ((s, ft), db1)"
    "register_binding i (sn_session_id s) db1 = Inr ((), db2)"
    "journal_instruction i s ft db2 = Inr ((s', command), db3)"
    "claim_command (cm_command_id command) OWNER_CLASS
       (canonical_turn_claim_token (instruction_key i)) db3 = Inr ((outcome, r'), db')"
    "c = command_claim_result i s' command outcome"
  have steps: "store_steps db db2"
    using tx_stepsD [OF instruction_session_steps calls(1)] tx_stepsD [OF register_binding_steps calls(2)]
    by (rule rtranclp_trans)
  have ok2: "store_ok db2" using sessions.history_inv [OF steps assms(1)] .
  obtain r2 where r2: "map_of (db_commands db2) cid = Some r2" "command_le r r2"
    using commands.history_row [OF steps assms(1,2)] by blast
  then have key: "cm_idempotency_key r2 = instruction_key i"
    using assms(3) by (simp add: command_le_def command_identity_def)
  note same = journal_known [OF ok2 r2(1) key calls(3)]
  note j = journal_instruction_row [OF ok2 calls(3)]
  have "claim_of_row c r2" using j same by (simp add: calls(5) command_claim_result_def claim_of_row_def)
  moreover have "tc_outcome c = ALREADY_APPLIED" if "1 < status_rank (cm_status r)"
  proof -
    have "1 < status_rank (cm_status r2)" using that r2(2) by (simp add: command_le_def)
    moreover have "cm_command_id r2 = cid" using commands_row(3) [OF ok2 r2(1)] .
    ultimately show ?thesis
      using claim_command_settled [OF ok2 r2(1)] calls(4) same by (simp add: calls(5) command_claim_result_def)
  qed
  ultimately show ?thesis using claim_of_row_le [OF r2(2)] by simp
qed

lemma same_instruction_key:
  "in_workflow_id i = w \<Longrightarrow> in_idempotency_key i = k \<Longrightarrow> instruction_key i = canonical_turn_command_key w k"
  by (simp add: instruction_key_def)

text \<open>
  C8. An instruction has one delivery authority: once it is claimed, every later claim of the same
  workflow and idempotency key, whatever else it says and whatever happened in between, either
  fails or names the same session, turn, command, token, revision and generation.
\<close>

theorem turn_claim_stable:
  assumes "store_ok db" and "claim_with_repositories i db = Inr (c, db1)" and "store_steps db1 db2"
    and "claim_with_repositories i' db2 = Inr (c', db3)"
    and "in_workflow_id i' = in_workflow_id i" and "in_idempotency_key i' = in_idempotency_key i"
  shows "c' = c\<lparr> tc_outcome := tc_outcome c' \<rparr>"
proof -
  have ok1: "store_ok db1" using tx_steps_ok [OF claim_with_repositories_steps assms(2,1)] .
  have ok2: "store_ok db2" using sessions.history_inv [OF assms(3) ok1] .
  obtain r where r: "map_of (db_commands db1) (tc_command_id c) = Some r" "claim_of_row c r"
    "cm_idempotency_key r = instruction_key i"
    using claim_row [OF assms(1,2)] by blast
  obtain r2 where r2: "map_of (db_commands db2) (tc_command_id c) = Some r2" "command_le r r2"
    using commands.history_row [OF assms(3) ok1 r(1)] by blast
  have "cm_idempotency_key r2 = instruction_key i'"
    using r(3) r2(2) assms(5,6) by (simp add: command_le_def command_identity_def instruction_key_def)
  then have "claim_of_row c' r2" using claim_of_known [OF ok2 r2(1) _ assms(4)] by blast
  moreover have "claim_of_row c r2" using claim_of_row_le [OF r2(2)] r(2) by simp
  ultimately show ?thesis using claim_of_row_unique by blast
qed

lemma delivery_ranks:
  assumes "command_delivery_row own tok out receipt ref r = Inr (outcome, r')"
  shows "1 < status_rank (cm_status r')"
proof (cases "cm_status r \<in> COMMAND_TERMINAL_STATES")
  case True
  then have "r' = r" using assms by (auto simp: command_delivery_row_def split: if_splits)
  with True show ?thesis by (auto simp: status_rank_def COMMAND_TERMINAL_STATES_def)
next
  case False
  then have "cm_status r' \<in> {COMMAND_STATE_APPLIED, COMMAND_STATE_DELIVERY_UNKNOWN, COMMAND_STATE_FAILED}"
    using assms by (auto simp: command_delivery_row_def Let_def split: if_splits)
  then show ?thesis by (auto simp: status_rank_def)
qed

lemma settle_calls:
  assumes "settle_with_repositories w k out receipt ref db = Inr (outcome, db')"
  obtains command r db1 t s where
    "get_command_by_key (canonical_turn_command_key w k) db = Inr (Some command)"
    "truthy_str (cm_turn_attempt_id command)"
    "record_command_delivery (cm_command_id command) OWNER_CLASS
       (canonical_turn_claim_token (canonical_turn_command_key w k)) out receipt ref db
       = Inr ((outcome, r), db1)"
    "get_turn (option_or (cm_turn_attempt_id command) []) db1 = Inr (Some t)"
    "get_session (cm_session_id command) db1 = Inr (Some s)"
    "advance_settled_turn out t s db1 = Inr ((), db')"
proof -
  let ?key = "canonical_turn_command_key w k"
  obtain found where f: "get_command_by_key ?key db = Inr found"
    using assms by (auto simp: settle_with_repositories_def Let_def tx_bind_Inr)
  then obtain command where c: "found = Some command" "truthy_str (cm_turn_attempt_id command)"
    "settle_command ?key out receipt ref command db = Inr (outcome, db')"
    using assms
    by (cases found) (auto simp: settle_with_repositories_def Let_def tx_bind_Inr split: if_split_asm)
  then obtain d r db1 turn session where d: "record_command_delivery (cm_command_id command) OWNER_CLASS
       (canonical_turn_claim_token ?key) out receipt ref db = Inr ((d, r), db1)"
    "get_turn (option_or (cm_turn_attempt_id command) []) db1 = Inr turn"
    "get_session (cm_session_id command) db1 = Inr session"
    "(case (turn, session) of
        (Some t, Some s) \<Rightarrow> tx_bind (advance_settled_turn out t s) (\<lambda>_. tx_return (fst (d, r)))
      | _ \<Rightarrow> tx_raise CanonicalTurnAuthorityUnavailable) db1 = Inr (outcome, db')"
    unfolding settle_command_def tx_bind_Inr by auto
  then obtain t s where "turn = Some t" "session = Some s" "d = outcome"
    "advance_settled_turn out t s db1 = Inr ((), db')"
    by (cases turn; cases session) (auto simp: tx_bind_Inr)
  with f c(1,2) d(1-3) that show thesis by blast
qed

lemma settle_row:
  assumes "store_ok db" and "settle_with_repositories w k out receipt ref db = Inr (outcome, db')"
  shows "\<exists>cid r. map_of (db_commands db') cid = Some r \<and> 1 < status_rank (cm_status r)
     \<and> cm_idempotency_key r = canonical_turn_command_key w k"
  using assms(2)
proof (rule settle_calls)
  fix command r db1 t s
  assume calls: "get_command_by_key (canonical_turn_command_key w k) db = Inr (Some command)"
    "record_command_delivery (cm_command_id command) OWNER_CLASS
       (canonical_turn_claim_token (canonical_turn_command_key w k)) out receipt ref db
       = Inr ((outcome, r), db1)"
    "advance_settled_turn out t s db1 = Inr ((), db')"
  note cmd = get_command_by_key_row [OF store_okD(3) [OF assms(1)] calls(1)]
  have step: "store_steps db db1" using command_delivery [OF calls(2)] by blast
  have ok1: "store_ok db1" using sessions.history_inv [OF step assms(1)] .
  obtain r1 where r1: "map_of (db_commands db1) (cm_command_id command) = Some r1" "command_le command r1"
    using commands.history_row [OF step assms(1)] cmd by blast
  have "command_delivery_row OWNER_CLASS (canonical_turn_claim_token (canonical_turn_command_key w k))
      out receipt ref command = Inr (outcome, r)" "db1 = put_command r db"
    using calls(2) cmd by (auto simp: record_command_delivery_def modify_command_def bind_result_Inr_iff)
  moreover from delivery_ranks [OF this(1)] have "1 < status_rank (cm_status r)" .
  moreover have "cm_command_id r = cm_command_id command"
    using command_delivery_row_shape [OF calculation(1)] by auto
  ultimately have "1 < status_rank (cm_status r1)" using r1(1) by simp
  moreover obtain r2 where "map_of (db_commands db') (cm_command_id command) = Some r2" "command_le r1 r2"
    using commands.history_row [OF tx_stepsD [OF advance_settled_turn_steps calls(3)] ok1 r1(1)] by blast
  ultimately show ?thesis
    using cmd r1(2) by (intro exI [of _ "cm_command_id command"] exI [of _ r2])
      (simp add: command_le_def command_identity_def)
qed

text \<open>
  C9. A settled instruction is never delivered again: after a settlement succeeds with any
  outcome, every later claim of that workflow and idempotency key that succeeds reports the
  command as already applied and does not own its delivery.
\<close>

theorem settled_never_redelivered:
  assumes "store_ok db" and "settle w k out receipt ref db = (Inr outcome, db1)" and "store_steps db1 db2"
    and "claim_turn_command i db2 = (Inr c, db3)" and "in_workflow_id i = w" and "in_idempotency_key i = k"
  shows "tc_outcome c = ALREADY_APPLIED \<and> \<not> owns_delivery c"
proof -
  have settled: "settle_with_repositories w k out receipt ref db = Inr (outcome, db1)"
    using assms(2) by (auto simp: settle_def transaction_def split: sum.splits prod.splits)
  have claimed: "claim_with_repositories i db2 = Inr (c, db3)"
    using assms(4) by (auto simp: claim_turn_command_def transaction_def split: sum.splits prod.splits)
  have ok1: "store_ok db1" using tx_steps_ok [OF settle_with_repositories_steps settled assms(1)] .
  have ok2: "store_ok db2" using sessions.history_inv [OF assms(3) ok1] .
  obtain cid r where r: "map_of (db_commands db1) cid = Some r" "1 < status_rank (cm_status r)"
    "cm_idempotency_key r = instruction_key i"
    using settle_row [OF assms(1) settled] assms(5,6) by (auto simp: instruction_key_def)
  obtain r2 where r2: "map_of (db_commands db2) cid = Some r2" "command_le r r2"
    using commands.history_row [OF assms(3) ok1 r(1)] by blast
  then have "1 < status_rank (cm_status r2)" "cm_idempotency_key r2 = instruction_key i"
    using r(2,3) by (auto simp: command_le_def command_identity_def)
  with claim_of_known [OF ok2 r2(1) _ claimed] show ?thesis by (simp add: owns_delivery_def)
qed

section \<open>The authority of a first claim\<close>

lemma get_turn_by_key_row:
  assumes "turns_ok db" and "get_turn_by_key key db = Inr (Some r)"
  shows "map_of (db_turns db) (ta_turn_attempt_id r) = Some r \<and> ta_idempotency_key r = key"
proof -
  have "filter (\<lambda>row. ta_idempotency_key row = key) (map snd (db_turns db)) = [r]"
    using assms(2) by (auto simp: get_turn_by_key_def bind_result_Inr_iff split: list.splits)
  then have "r \<in> set (filter (\<lambda>row. ta_idempotency_key row = key) (map snd (db_turns db)))" by simp
  then obtain tid where "(tid, r) \<in> set (db_turns db)" "ta_idempotency_key r = key" by auto
  moreover from this have "tid = ta_turn_attempt_id r" "distinct (map fst (db_turns db))"
    using assms(1) by (auto simp: turns_ok_def keyed_table_def)
  ultimately show ?thesis by simp
qed

lemma create_turn_row:
  assumes "turns_ok db" and "create_turn args db = Inr (t, db')"
  shows "map_of (db_turns db') (ta_turn_attempt_id t) = Some t"
    and "ta_session_id t = nt_session_id args"
    and "ta_instruction_digest t = nt_instruction_digest args"
    and "db_sessions db' = db_sessions db" and "db_commands db' = db_commands db"
    and "ta_idempotency_key t = nt_idempotency_key args"
proof -
  obtain found where f: "get_turn_by_key (nt_idempotency_key args) db = Inr found"
    using assms(2) by (auto simp: create_turn_def bind_result_Inr_iff)
  have "map_of (db_turns db') (ta_turn_attempt_id t) = Some t \<and> ta_session_id t = nt_session_id args
      \<and> ta_instruction_digest t = nt_instruction_digest args \<and> ta_idempotency_key t = nt_idempotency_key args"
  proof (cases found)
    case None
    then show ?thesis
      using assms(2) f by (auto simp: create_turn_def bind_result_Inr_iff Let_def new_turn_row_def
          split: if_splits)
  next
    case (Some e)
    then have "e = t" "db' = db" "ta_session_id t = nt_session_id args"
      "ta_instruction_digest t = nt_instruction_digest args"
      using assms(2) f by (auto simp: create_turn_def split: if_splits)
    with Some f get_turn_by_key_row [OF assms(1)] show ?thesis by simp
  qed
  then show "map_of (db_turns db') (ta_turn_attempt_id t) = Some t" "ta_session_id t = nt_session_id args"
    "ta_instruction_digest t = nt_instruction_digest args"
    "ta_idempotency_key t = nt_idempotency_key args" by simp_all
  show "db_sessions db' = db_sessions db" "db_commands db' = db_commands db"
    using create_turn_creates [OF assms(2)] by simp_all
qed

lemma update_lifecycle_row:
  assumes "sessions_ok db" and "update_lifecycle sid fence upd db = Inr (u, db')"
  shows "\<exists>cur. map_of (db_sessions db) sid = Some cur
       \<and> u = (set_provided upd cur)\<lparr> sn_revision := sn_revision cur + 1 \<rparr>"
    and "map_of (db_sessions db') sid = Some u" and "sn_session_id u = sid"
    and "db_turns db' = db_turns db" and "db_commands db' = db_commands db"
proof -
  obtain cur where cur: "map_of (db_sessions db) sid = Some cur" "db' = put_session u db"
    "u = (set_provided upd cur)\<lparr> sn_revision := sn_revision cur + 1 \<rparr>"
    using cas_applied_cur [OF update_lifecycle_applied [OF assms(2)]] by blast
  then show "\<exists>cur. map_of (db_sessions db) sid = Some cur
       \<and> u = (set_provided upd cur)\<lparr> sn_revision := sn_revision cur + 1 \<rparr>" by blast
  show "sn_session_id u = sid" using update_lifecycle_id [OF assms] .
  then show "map_of (db_sessions db') sid = Some u" "db_turns db' = db_turns db"
    "db_commands db' = db_commands db"
    by (simp_all add: cur(2))
qed

text \<open>A session whose active turn carries the payload of the instruction.\<close>

definition turn_ready :: "instruction \<Rightarrow> session_record \<Rightarrow> turn_attempt_record \<Rightarrow> control_store \<Rightarrow> bool" where
  "turn_ready i s t db \<longleftrightarrow> map_of (db_sessions db) (sn_session_id s) = Some s
     \<and> map_of (db_turns db) (ta_turn_attempt_id t) = Some t \<and> ta_session_id t = sn_session_id s
     \<and> sn_active_turn_attempt_id s = Some (ta_turn_attempt_id t)
     \<and> ta_instruction_digest t = Some (in_payload_digest i)"

lemma set_active_turn_provided [simp]:
  "set_provided (set_active_turn tid) s = s\<lparr> sn_active_turn_attempt_id := Some tid \<rparr>"
  by (simp add: set_provided_def set_active_turn_def no_update_def)

lemma instruction_turn_ready:
  assumes "store_ok db" and "instruction_turn i s ft db = Inr ((s', t), db')"
    and "\<And>t. ft = Some t \<Longrightarrow> owns_bootstrap_turn i \<Longrightarrow> turn_ready i s t db"
    and "map_of (db_sessions db) (sn_session_id s) = Some s"
  shows "turn_ready i s' t db' \<and> db_commands db' = db_commands db
     \<and> sn_moonmind_workflow_id s' = sn_moonmind_workflow_id s
     \<and> (\<not> owns_bootstrap_turn i \<longrightarrow> ta_idempotency_key t = ''omnigent-turn:'' @ in_idempotency_key i)"
proof (cases "ft \<noteq> None \<and> owns_bootstrap_turn i")
  case True
  then show ?thesis using assms(2,3) by (auto simp: instruction_turn_def owns_bootstrap_turn_def)
next
  case False
  then obtain db1 where c: "create_turn (followup_turn i s) db = Inr (t, db1)"
    "update_lifecycle (sn_session_id s) (supervisor_fence (sn_revision s) (sn_fencing_generation s))
       (set_active_turn (ta_turn_attempt_id t)) db1 = Inr (s', db')"
    using assms(2)
    by (auto simp: instruction_turn_def create_followup_turn_def tx_bind_Inr split: option.splits)
  have ok1: "sessions_ok db1" using store_okD(1) [OF store_step_ok [OF assms(1) turn_create [OF c(1)]]] .
  note t = create_turn_row [OF store_okD(2) [OF assms(1)] c(1)]
  note u = update_lifecycle_row [OF ok1 c(2)]
  have "s' = s\<lparr> sn_active_turn_attempt_id := Some (ta_turn_attempt_id t), sn_revision := sn_revision s + 1 \<rparr>"
    using u(1) assms(4) t(4) by auto
  then show ?thesis using t u by (simp add: turn_ready_def followup_turn_def new_turn_default_def)
qed

lemma one_session_row:
  assumes "session_table_ok db" and "one_session selected db = Inr (Some s)"
  shows "map_of (db_sessions db) (sn_session_id s) = Some s"
proof -
  have "filter selected (map snd (db_sessions db)) = [s]"
    using assms(2) by (auto simp: one_session_def bind_result_Inr_iff split: list.splits)
  then have "s \<in> set (filter selected (map snd (db_sessions db)))" by simp
  then obtain sid where "(sid, s) \<in> set (db_sessions db)" by auto
  then show ?thesis using assms(1) by (auto simp: session_table_ok_def)
qed

lemma get_session_row: "session_table_ok db \<Longrightarrow> get_session sid db = Inr (Some s) \<Longrightarrow>
    map_of (db_sessions db) (sn_session_id s) = Some s"
  by (auto simp: get_session_def session_table_ok_def bind_result_Inr_iff dest!: map_of_SomeD
      split: option.splits)

lemma resolve_session_row:
  assumes "session_table_ok db" and "resolve_session i db = Inr (Some s)"
  shows "map_of (db_sessions db) (sn_session_id s) = Some s"
proof -
  have found: "r = Inr (Some x) \<or> t = Inr (Some x)" if "first_found r t = Inr (Some x)"
    for r t and x :: session_record
    using that by (auto simp: first_found_def bind_result_Inr_iff split: option.splits)
  have "session_of_alias cb db = Inr (Some s) \<Longrightarrow> ?thesis" for cb
    using get_session_row [OF assms(1)] by (auto simp: session_of_alias_def split: option.splits if_splits)
  moreover have "get_by_chat_binding cb db = Inr (Some s) \<Longrightarrow> ?thesis" for cb
    using one_session_row [OF assms(1)] by (simp add: get_by_chat_binding_def)
  moreover have "get_by_scope w p db = Inr (Some s) \<Longrightarrow> ?thesis" for w p
    using one_session_row [OF assms(1)] by (simp add: get_by_scope_def split: if_splits)
  ultimately show ?thesis
    using assms(2) unfolding resolve_session_def by (auto dest!: found split: if_splits)
qed

lemma register_binding_frame:
  assumes "register_binding i sid db = Inr (x, db')"
  shows "db_sessions db' = db_sessions db" "db_turns db' = db_turns db" "db_commands db' = db_commands db"
  using assms by (auto simp: register_binding_def tx_bind_Inr dest!: register_alias_result(3) split: if_splits)

lemma converge_on_Inr [simp]:
  "converge_on i b s0 db = Inr ((s, ft), db') \<longleftrightarrow> matches_bootstrap i b s0 \<and> s = s0 \<and> ft = None \<and> db' = db"
  by (auto simp: converge_on_def)

lemma bootstrap_session_calls:
  assumes "bootstrap_session i b db = Inr ((s, ft), db')"
  obtains (found) "get_session (bootstrap_session_id i b) db = Inr (Some s)" "ft = None" "db' = db"
  | (created) s0 db1 db2 t db3 where "create_session (bootstrap_new_session i b) db = Inr (s0, db1)"
      "register_binding i (bootstrap_session_id i b) db1 = Inr ((), db2)"
      "create_turn (bootstrap_turn i b) db2 = Inr (t, db3)"
      "update_lifecycle (bootstrap_session_id i b) (supervisor_fence 1 0)
         (set_active_turn (canonical_omnigent_turn_attempt_id (bootstrap_session_id i b) 1)) db3 = Inr (s, db')"
      "ft = Some t"
proof -
  obtain e where e: "get_session (bootstrap_session_id i b) db = Inr e"
    using assms by (auto simp: bootstrap_session_def Let_def tx_bind_Inr)
  show thesis
  proof (cases e)
    case None
    then show thesis
      using assms e
      by (cases "create_session (bootstrap_new_session i b) db")
        (auto simp: bootstrap_session_def Let_def tx_bind_Inr split: if_split_asm intro: created)
  next
    case (Some s0)
    then show thesis using assms e found by (auto simp: bootstrap_session_def Let_def tx_bind_Inr)
  qed
qed

lemma create_session_row:
  assumes "create_session args db = Inr (s, db')"
  shows "db' = put_session s db" "s = new_session_row args" "ns_session_id args \<notin> session_keys db"
  using assms by (auto simp: create_session_def Let_def bind_result_Inr_iff new_session_row_def split: if_splits)

lemma bootstrap_session_ready:
  assumes "store_ok db" and "bootstrap_session i b db = Inr ((s, ft), db')" and "in_bootstrap i = Some b"
  shows "map_of (db_sessions db') (sn_session_id s) = Some s \<and> db_commands db' = db_commands db
     \<and> (\<forall>t. ft = Some t \<longrightarrow> owns_bootstrap_turn i \<longrightarrow> turn_ready i s t db')"
  using assms(2)
proof (cases rule: bootstrap_session_calls)
  case found
  then show ?thesis using get_session_row store_okD(5) [OF assms(1)] by simp
next
  case (created s0 db1 db2 t db3)
  let ?sid = "bootstrap_session_id i b"
  note new = create_session_row [OF created(1)]
  note frame = register_binding_frame [OF created(2)]
  have fresh: "nt_session_id (bootstrap_turn i b) \<notin> session_keys db"
    using new(3) by (simp add: bootstrap_turn_def bootstrap_new_session_def new_turn_default_def
        new_session_default_def)
  have t: "t = new_turn_row (bootstrap_turn i b)"
    using fresh_session_turn [OF store_okD(2) [OF assms(1)] fresh _ created(3)] frame(2) new(1) by simp
  have ok2: "store_ok db2"
    using tx_steps_ok [OF register_binding_steps created(2)]
      store_step_ok [OF assms(1) session_create [OF created(1)]] by blast
  have ok3: "sessions_ok db3" using store_okD(1) [OF store_step_ok [OF ok2 turn_create [OF created(3)]]] .
  note turn = create_turn_row [OF store_okD(2) [OF ok2] created(3)]
  note u = update_lifecycle_row [OF ok3 created(4)]
  have active: "sn_active_turn_attempt_id s = Some (ta_turn_attempt_id t)"
    using u(1) by (auto simp: t new_turn_row_def bootstrap_turn_def new_turn_default_def)
  have "turn_ready i s t db'" if "owns_bootstrap_turn i"
    using that assms(3) u turn active
    by (simp add: turn_ready_def owns_bootstrap_turn_def bootstrap_turn_def new_turn_default_def)
  then show ?thesis using u turn(5) frame(3) new(1) created(5) by simp
qed

lemma instruction_session_ready:
  assumes "store_ok db" and "instruction_session i db = Inr ((s, ft), db')"
  shows "map_of (db_sessions db') (sn_session_id s) = Some s \<and> db_commands db' = db_commands db
     \<and> (\<forall>t. ft = Some t \<longrightarrow> owns_bootstrap_turn i \<longrightarrow> turn_ready i s t db')"
proof -
  obtain found where f: "resolve_session i db = Inr found"
    using assms(2) by (auto simp: instruction_session_def tx_bind_Inr)
  show ?thesis
  proof (cases found)
    case None
    then obtain b where "in_bootstrap i = Some b" "bootstrap_session i b db = Inr ((s, ft), db')"
      using assms(2) f by (auto simp: instruction_session_def tx_bind_Inr split: option.split_asm)
    with bootstrap_session_ready [OF assms(1)] show ?thesis by blast
  next
    case (Some s0)
    then show ?thesis
      using assms(2) f resolve_session_row store_okD(5) [OF assms(1)]
      by (auto simp: instruction_session_def tx_bind_Inr)
  qed
qed

lemma get_command_by_key_cong:
  "db_commands db' = db_commands db \<Longrightarrow> get_command_by_key key db' = get_command_by_key key db"
  by (simp add: get_command_by_key_def)

lemma first_claim_rows:
  assumes "store_ok db" and "claim_with_repositories i db = Inr (c, db')"
    and "get_command_by_key (instruction_key i) db = Inr None"
  shows "owns_delivery c \<and> (\<exists>s t r. map_of (db_sessions db') (tc_session_id c) = Some s
     \<and> map_of (db_turns db') (tc_turn_attempt_id c) = Some t
     \<and> map_of (db_commands db') (tc_command_id c) = Some r
     \<and> sn_moonmind_workflow_id s = in_workflow_id i
     \<and> sn_active_turn_attempt_id s = Some (tc_turn_attempt_id c)
     \<and> ta_session_id t = tc_session_id c \<and> ta_instruction_digest t = Some (in_payload_digest i)
     \<and> cm_status r = COMMAND_STATE_CLAIMED \<and> cm_claim_token r = Some (tc_claim_token c)
     \<and> cm_turn_attempt_id r = Some (tc_turn_attempt_id c)
     \<and> tc_fencing_generation c = sn_fencing_generation s
     \<and> tc_expected_session_revision c = Some (sn_revision s)
     \<and> (\<not> owns_bootstrap_turn i \<longrightarrow> ta_idempotency_key t = ''omnigent-turn:'' @ in_idempotency_key i))"
  using assms(2)
proof (rule claim_calls)
  fix s ft db1 db2 s' command db3 outcome r
  let ?tok = "canonical_turn_claim_token (instruction_key i)"
  assume calls: "instruction_session i db = Inr ((s, ft), db1)"
    "sn_moonmind_workflow_id s = in_workflow_id i"
    "register_binding i (sn_session_id s) db1 = Inr ((), db2)"
    "journal_instruction i s ft db2 = Inr ((s', command), db3)"
    "claim_command (cm_command_id command) OWNER_CLASS ?tok db3 = Inr ((outcome, r), db')"
    "c = command_claim_result i s' command outcome"
  note ready = instruction_session_ready [OF assms(1) calls(1)]
  note frame = register_binding_frame [OF calls(3)]
  have ok2: "store_ok db2"
    using assms(1) tx_steps_ok instruction_session_steps register_binding_steps calls(1,3) by metis
  have ready2: "map_of (db_sessions db2) (sn_session_id s) = Some s"
    "\<And>t. ft = Some t \<Longrightarrow> owns_bootstrap_turn i \<Longrightarrow> turn_ready i s t db2"
    using ready frame by (auto simp: turn_ready_def)
  have key2: "get_command_by_key (instruction_key i) db2 = Inr None"
    using assms(3) get_command_by_key_cong [of db2 db] ready frame(3) by simp
  then obtain t db4 where j: "instruction_turn i s ft db2 = Inr ((s', t), db4)"
    "record_command (instruction_command i s' t) db4 = Inr (command, db3)"
    using calls(4) by (auto simp: journal_instruction_def tx_bind_Inr)
  note turn = instruction_turn_ready [OF ok2 j(1) ready2(2,1)]
  have "get_command_by_key (instruction_key i) db4 = Inr None"
    using key2 get_command_by_key_cong turn by metis
  then have new: "command = new_command_row (instruction_command i s' t)" "db3 = put_command command db4"
    using j(2) by (auto simp: record_command_def instruction_command_def bind_result_Inr_iff Let_def
        split: if_splits)
  have cmd: "cm_status command = COMMAND_STATE_PENDING" "cm_session_id command = sn_session_id s'"
    "cm_fencing_generation command = sn_fencing_generation s'"
    "cm_turn_attempt_id command = Some (ta_turn_attempt_id t)"
    "cm_expected_session_revision command = Some (sn_revision s')"
    by (simp_all add: new(1) new_command_row_def instruction_command_def)
  have gen: "session_generation db3 command = Some (sn_fencing_generation s')"
    using turn by (simp add: session_generation_def cmd new(2) turn_ready_def)
  have "claim_command_row (session_generation db3 command) OWNER_CLASS ?tok command = Inr (outcome, r)"
    "db' = put_command r db3"
    using calls(5) new(2) by (auto simp: claim_command_def modify_command_def bind_result_Inr_iff)
  then have res: "outcome = APPLIED" "cm_status r = COMMAND_STATE_CLAIMED" "cm_claim_token r = Some ?tok"
    "cm_turn_attempt_id r = cm_turn_attempt_id command" "cm_command_id r = cm_command_id command"
    "db' = put_command r db3"
    using cmd(1,3) gen by (auto simp: claim_command_row_def)
  show ?thesis
    using turn res calls(2)
    by (intro conjI exI [of _ s'] exI [of _ t] exI [of _ r])
      (simp_all add: owns_delivery_def calls(6) command_claim_result_def cmd turn_ready_def new(2))
qed

text \<open>A first claim leaves the commands of every other key as they were.\<close>

lemma put_command_other_key:
  assumes "cm_idempotency_key r \<noteq> key"
    and "\<And>w. map_of (db_commands db) (cm_command_id r) = Some w \<Longrightarrow> cm_idempotency_key w \<noteq> key"
  shows "get_command_by_key key (put_command r db) = get_command_by_key key db"
proof -
  have "filter (\<lambda>row. cm_idempotency_key row = key) (map snd (dict_set (cm_command_id r) r (db_commands db)))
      = filter (\<lambda>row. cm_idempotency_key row = key) (map snd (db_commands db))"
    by (rule dict_set_filter) (use assms in auto)
  then show ?thesis by (simp add: get_command_by_key_def put_command_def)
qed

lemma claim_other_keys:
  assumes "store_ok db" and "claim_with_repositories i db = Inr (c, db')" and "key \<noteq> instruction_key i"
    and "get_command_by_key (instruction_key i) db = Inr None"
  shows "get_command_by_key key db' = get_command_by_key key db"
  using assms(2)
proof (rule claim_calls)
  fix s ft db1 db2 s' command db3 outcome r
  assume calls: "instruction_session i db = Inr ((s, ft), db1)"
    "register_binding i (sn_session_id s) db1 = Inr ((), db2)"
    "journal_instruction i s ft db2 = Inr ((s', command), db3)"
    "claim_command (cm_command_id command) OWNER_CLASS
       (canonical_turn_claim_token (instruction_key i)) db3 = Inr ((outcome, r), db')"
  note ready = instruction_session_ready [OF assms(1) calls(1)]
  note frame = register_binding_frame [OF calls(2)]
  have ok2: "store_ok db2"
    using assms(1) tx_steps_ok instruction_session_steps register_binding_steps calls(1,2) by metis
  have db2: "get_command_by_key k db2 = get_command_by_key k db" for k
    using get_command_by_key_cong ready frame(3) by metis
  then obtain t db4 where j: "instruction_turn i s ft db2 = Inr ((s', t), db4)"
    "record_command (instruction_command i s' t) db4 = Inr (command, db3)"
    using calls(3) assms(4) by (auto simp: journal_instruction_def tx_bind_Inr)
  have "db_commands db4 = db_commands db2"
    using instruction_turn_ready [OF ok2 j(1)] ready frame by (auto simp: turn_ready_def)
  then have db4: "get_command_by_key k db4 = get_command_by_key k db" for k
    using db2 get_command_by_key_cong by metis
  with assms(4) have new: "command = new_command_row (instruction_command i s' t)"
    "db3 = put_command command db4" "cm_command_id command \<notin> fst ` set (db_commands db4)"
    using j(2) by (auto simp: record_command_def instruction_command_def bind_result_Inr_iff Let_def
        command_integrity_def split: if_splits)
  have key: "cm_idempotency_key command = instruction_key i"
    by (simp add: new(1) new_command_row_def instruction_command_def)
  have "claim_command_row (session_generation db3 command) OWNER_CLASS
      (canonical_turn_claim_token (instruction_key i)) command = Inr (outcome, r)" "db' = put_command r db3"
    using calls(4) new(2) by (auto simp: claim_command_def modify_command_def bind_result_Inr_iff)
  then have r: "cm_idempotency_key r = instruction_key i" "cm_command_id r = cm_command_id command"
    "db' = put_command r db3"
    using claim_command_row_shape key by fastforce+
  have "map_of (db_commands db4) (cm_command_id command) = None" using new(3) by (simp add: map_of_eq_None_iff)
  then have "get_command_by_key key db3 = get_command_by_key key db4"
    unfolding new(2) using key assms(3) by (intro put_command_other_key) auto
  moreover have "get_command_by_key key db' = get_command_by_key key db3"
    unfolding r(3) using r key assms(3) new(2) by (intro put_command_other_key) auto
  ultimately show ?thesis using db4 by simp
qed

text \<open>
  The first claim of an instruction takes fenced authority over its delivery: it owns the
  delivery, the command is claimed by its token at the current revision and generation of a
  session of that workflow, and the turn the command names belongs to that session, is its active
  turn and carries the digest of the payload.
\<close>

theorem first_claim_authority:
  assumes "store_ok db" and "claim_with_repositories i db = Inr (c, db')"
    and "get_command_by_key (instruction_key i) db = Inr None"
  shows "owns_delivery c \<and> (\<exists>s t r. map_of (db_sessions db') (tc_session_id c) = Some s
     \<and> map_of (db_turns db') (tc_turn_attempt_id c) = Some t
     \<and> map_of (db_commands db') (tc_command_id c) = Some r
     \<and> sn_moonmind_workflow_id s = in_workflow_id i
     \<and> sn_active_turn_attempt_id s = Some (tc_turn_attempt_id c)
     \<and> ta_session_id t = tc_session_id c \<and> ta_instruction_digest t = Some (in_payload_digest i)
     \<and> cm_status r = COMMAND_STATE_CLAIMED \<and> cm_claim_token r = Some (tc_claim_token c)
     \<and> cm_turn_attempt_id r = Some (tc_turn_attempt_id c)
     \<and> tc_fencing_generation c = sn_fencing_generation s
     \<and> tc_expected_session_revision c = Some (sn_revision s))"
  using first_claim_rows [OF assms] by blast

section \<open>Two deviations\<close>

lemma followup_key_conflict:
  assumes "store_ok db" and "map_of (db_turns db) tid = Some t"
    and "ta_idempotency_key t = ''omnigent-turn:'' @ in_idempotency_key i"
    and "ta_session_id t \<noteq> sn_session_id s"
  shows "create_turn (followup_turn i s) db = Inl TurnIdempotencyConflictError"
  using get_turn_by_key_found [OF store_okD(2) [OF assms(1)] assms(2)] assms(3,4)
  by (simp add: create_turn_def followup_turn_def new_turn_default_def)

text \<open>
  C37. The key of a follow-up turn is not scoped by its workflow, although that of its command is:
  after a follow-up instruction (one that does not own the bootstrap turn of its session) is claimed
  for one workflow, the first instruction of another workflow with the same idempotency key that
  resolves to an existing session of its own, and whose chat binding, if it names one, is registered,
  is refused. It is refused by a conflict on the turn when the keys of the two commands differ; only
  if the digests of those keys collided would the conflict be on the command. Two initial
  instructions, which own the bootstrap turns of new sessions, share a key without a conflict.
\<close>

theorem turn_key_collides_across_workflows:
  assumes "store_ok db" and "claim_with_repositories i db = Inr (c, db1)" and "\<not> owns_bootstrap_turn i"
    and "get_command_by_key (instruction_key i) db = Inr None"
    and "get_command_by_key (instruction_key i') db = Inr None"
    and "in_idempotency_key i' = in_idempotency_key i" and "in_workflow_id i' \<noteq> in_workflow_id i"
    and "resolve_session i' db1 = Inr (Some s')" and "sn_moonmind_workflow_id s' = in_workflow_id i'"
    and "register_binding i' (sn_session_id s') db1 = Inr ((), db2)"
  shows "claim_with_repositories i' db1 =
     Inl (if instruction_key i' \<noteq> instruction_key i then TurnIdempotencyConflictError
          else CommandIdempotencyConflictError)"
proof -
  have ok1: "store_ok db1" using tx_steps_ok [OF claim_with_repositories_steps assms(2,1)] .
  have ok2: "store_ok db2" using tx_steps_ok [OF register_binding_steps assms(10) ok1] .
  note frame = register_binding_frame [OF assms(10)]
  obtain s t r where one: "map_of (db_sessions db1) (tc_session_id c) = Some s"
    "map_of (db_turns db2) (tc_turn_attempt_id c) = Some t"
    "sn_moonmind_workflow_id s = in_workflow_id i" "ta_session_id t = tc_session_id c"
    "ta_idempotency_key t = ''omnigent-turn:'' @ in_idempotency_key i"
    using first_claim_rows [OF assms(1,2,4)] assms(3) frame(2) by auto
  obtain r where r: "map_of (db_commands db2) (tc_command_id c) = Some r" "claim_of_row c r"
    "cm_idempotency_key r = instruction_key i"
    using claim_row [OF assms(1,2)] frame(3) by auto
  have other: "sn_session_id s' \<noteq> tc_session_id c"
    using one(1,3) assms(7,9) resolve_session_row [OF store_okD(5) [OF ok1] assms(8)] by auto
  have resolved: "claim_with_repositories i' db1 = Inl e" if "journal_instruction i' s' None db2 = Inl e" for e
    using assms(8-10) that
    by (simp add: claim_with_repositories_def instruction_session_def tx_bind_def tx_read_def tx_return_def)
  show ?thesis
  proof (cases "instruction_key i' = instruction_key i")
    case True
    then have "get_command_by_key (instruction_key i') db2 = Inr (Some r)"
      using get_command_by_key_found [OF store_okD(3) [OF ok2] r(1)] r(3) by simp
    moreover have "cm_session_id r = tc_session_id c" using r(2) by (simp add: claim_of_row_def)
    ultimately have "journal_instruction i' s' None db2 = Inl CommandIdempotencyConflictError"
      using other by (simp add: journal_instruction_def tx_bind_def tx_read_def record_command_def
          repeated_command_def same_command_identity_def)
    with True show ?thesis by (simp add: resolved)
  next
    case False
    then have "get_command_by_key (instruction_key i') db2 = Inr None"
      using claim_other_keys [OF assms(1,2) False assms(4)] assms(5) get_command_by_key_cong [OF frame(3)] by simp
    moreover have "create_turn (followup_turn i' s') db2 = Inl TurnIdempotencyConflictError"
      using followup_key_conflict [OF ok2 one(2)] one(4,5) other assms(6) by simp
    ultimately have "journal_instruction i' s' None db2 = Inl TurnIdempotencyConflictError"
      by (simp add: journal_instruction_def instruction_turn_def create_followup_turn_def tx_bind_def tx_read_def)
    with False show ?thesis by (simp add: resolved)
  qed
qed

lemma advance_accepted:
  assumes "store_ok db" and "map_of (db_turns db) tid = Some t" and "\<not> turn_is_terminal t"
    and "map_of (db_sessions db) (ta_session_id t) = Some s" and "ta_state t \<in> {''prepared'', ''dispatching'', ''delivery_unknown''}"
  shows "\<exists>t' db'. advance_settled_turn APPLIED t s db = Inr ((), db') \<and> ta_state t' = ''accepted''
     \<and> map_of (db_turns db') tid = Some t' \<and> db_commands db' = db_commands db"
proof -
  have row: "ta_turn_attempt_id t = tid" "ta_schema_version t = 1"
    using keyed_table_row [OF _ assms(2)] store_okD(2) [OF assms(1)] by (fastforce simp: turns_ok_def)+
  then show ?thesis
    using assms(2-5)
    by (auto simp: advance_settled_turn_def settled_turn_state_def vocabulary tx_bind_def advance_state_def
        compare_and_swap_turn_def cas_turn_row_def check_turn_fence_def guarding_generation_def
        turn_is_terminal_def no_turn_update_def turn_state_order_def raise_for_turn_conflict_def
        stamp_turn_def tx_return_def)
qed

text \<open>
  C38. A refused verdict still moves the turn: reporting success for a command that already failed
  is answered with an immutable-authority conflict and leaves the command failed, but the same
  settlement commits its turn as accepted by the provider.
\<close>

theorem refused_settlement_accepts_turn:
  assumes "store_ok db" and "get_command_by_key (canonical_turn_command_key w k) db = Inr (Some command)"
    and "cm_status command = COMMAND_STATE_FAILED" and "cm_turn_attempt_id command = Some tid" and "tid \<noteq> []"
    and "map_of (db_turns db) tid = Some t" and "\<not> turn_is_terminal t"
    and "ta_state t \<in> {''prepared'', ''dispatching'', ''delivery_unknown''}" and "ta_session_id t = cm_session_id command"
    and "map_of (db_sessions db) (cm_session_id command) = Some s"
  shows "\<exists>t' db'. settle w k APPLIED receipt ref db = (Inr IMMUTABLE_AUTHORITY_CONFLICT, db')
     \<and> map_of (db_commands db') (cm_command_id command) = Some command
     \<and> map_of (db_turns db') tid = Some t' \<and> ta_state t' = ''accepted''"
proof -
  let ?key = "canonical_turn_command_key w k"
  note cmd = get_command_by_key_row [OF store_okD(3) [OF assms(1)] assms(2)]
  note row = commands_row [OF assms(1) conjunct1 [OF cmd]]
  have refused: "record_command_delivery (cm_command_id command) OWNER_CLASS (canonical_turn_claim_token ?key)
      APPLIED receipt ref db = Inr ((IMMUTABLE_AUTHORITY_CONFLICT, command), db)"
    using cmd row(2,4) assms(3)
    by (simp add: record_command_delivery_def modify_command_def command_delivery_row_def
        COMMAND_TERMINAL_STATES_def)
  have turn: "get_turn tid db = Inr (Some t)"
    using assms(6) keyed_table_row [OF _ assms(6)] store_okD(2) [OF assms(1)]
    by (fastforce simp: get_turn_def turns_ok_def)
  have session: "get_session (cm_session_id command) db = Inr (Some s)"
    using assms(10) sessions_ok_row(1) [OF store_okD(1) [OF assms(1)] assms(10)]
    by (simp add: get_session_def session_row_ok_def)
  have truthy: "truthy_str (cm_turn_attempt_id command)" using assms(4,5) by simp
  obtain t' db' where t': "advance_settled_turn APPLIED t s db = Inr ((), db')" "ta_state t' = ''accepted''"
    "map_of (db_turns db') tid = Some t'" "db_commands db' = db_commands db"
    using advance_accepted [OF assms(1,6,7) _ assms(8)] assms(9,10) by auto
  have "settle w k APPLIED receipt ref db = (Inr IMMUTABLE_AUTHORITY_CONFLICT, db')"
    using assms(2,4) truthy
    by (simp add: settle_def transaction_def settle_with_repositories_def settle_command_def tx_bind_def
        tx_read_def tx_return_def Let_def refused turn session t'(1))
  with t' cmd show ?thesis by (intro exI [of _ t'] exI [of _ db']) simp
qed

section \<open>A concrete instruction\<close>

definition example_scoped :: "py_str \<Rightarrow> py_str \<Rightarrow> py_str \<Rightarrow> session_record" where
  "example_scoped sid w p =
     new_session_row ((new_session_default sid w ''codex'')\<lparr> ns_provider_session_ref := Some p \<rparr>)"

definition example_sessions :: control_store where
  "example_sessions = put_session (example_scoped ''s2'' ''wf2'' ''p2'')
     (put_session (example_scoped ''s1'' ''wf1'' ''p1'') empty_store)"

definition example_instruction :: "py_str \<Rightarrow> py_str \<Rightarrow> instruction" where
  "example_instruction w p = \<lparr> in_workflow_id = w, in_provider_session_ref = p, in_chat_binding_id = None,
     in_command_type = ''workflow.chat'', in_idempotency_key = ''k1'', in_payload_digest = ''d1'',
     in_step_execution_id = None, in_bootstrap = None \<rparr>"

lemmas example_scoped_simps = example_scoped_def new_session_row_def new_session_default_def
  CURRENT_SCHEMA_VERSION_def

lemma example_sessions_ok: "store_ok example_sessions"
proof -
  have "create_session ((new_session_default ''s1'' ''wf1'' ''codex'')\<lparr> ns_provider_session_ref := Some ''p1'' \<rparr>)
      empty_store = Inr (example_scoped ''s1'' ''wf1'' ''p1'', put_session (example_scoped ''s1'' ''wf1'' ''p1'') empty_store)"
    by (simp add: create_session_def session_integrity_def scope_unique_def chat_binding_unique_def
        session_refs_exist_def foreign_ok_def session_keys_def empty_store_def example_scoped_simps Let_def)
  then have ok: "store_ok (put_session (example_scoped ''s1'' ''wf1'' ''p1'') empty_store)"
    using store_step_ok [OF empty_store_ok session_create] by blast
  have "create_session ((new_session_default ''s2'' ''wf2'' ''codex'')\<lparr> ns_provider_session_ref := Some ''p2'' \<rparr>)
      (put_session (example_scoped ''s1'' ''wf1'' ''p1'') empty_store) =
      Inr (example_scoped ''s2'' ''wf2'' ''p2'', example_sessions)"
    by (simp add: create_session_def session_integrity_def scope_unique_def chat_binding_unique_def
        session_refs_exist_def foreign_ok_def session_keys_def empty_store_def example_scoped_simps Let_def
        put_session_def example_sessions_def)
  then show ?thesis using store_step_ok [OF ok session_create] by blast
qed

lemmas example_claim_simps = claim_with_repositories_def instruction_session_def resolve_session_def
  first_found_def get_by_scope_def one_session_def example_sessions_def example_instruction_def
  example_scoped_simps put_session_def empty_store_def tx_bind_def tx_read_def tx_return_def
  register_binding_def journal_instruction_def get_command_by_key_def instruction_turn_def
  create_followup_turn_def create_turn_def get_turn_by_key_def turn_integrity_def followup_turn_def
  new_turn_row_def new_turn_default_def session_keys_def put_turn_def update_lifecycle_def
  set_active_turn_def compare_and_swap_session_def modify_session_def check_session_fence_def
  no_update_def raise_for_session_conflict_def record_command_def command_integrity_def
  new_command_row_def instruction_command_def put_command_def claim_command_def modify_command_def
  claim_command_row_def session_generation_def Let_def set_provided_def

lemma example_claimed:
  "\<exists>c db1. claim_with_repositories (example_instruction ''wf1'' ''p1'') example_sessions = Inr (c, db1)"
  by (simp add: example_claim_simps)

lemma example_unclaimed: "get_command_by_key key example_sessions = Inr None"
  by (simp add: get_command_by_key_def example_sessions_def put_session_def empty_store_def)

lemma first_claim_authority_witness:
  "\<exists>c db1. claim_with_repositories (example_instruction ''wf1'' ''p1'') example_sessions = Inr (c, db1)
     \<and> owns_delivery c"
  using example_claimed first_claim_authority [OF example_sessions_ok _ example_unclaimed] by blast

lemma turn_key_collides_across_workflows_witness:
  "\<exists>c db1. claim_with_repositories (example_instruction ''wf1'' ''p1'') example_sessions = Inr (c, db1)
     \<and> claim_with_repositories (example_instruction ''wf2'' ''p2'') db1 =
         Inl (if canonical_turn_command_key ''wf2'' ''k1'' \<noteq> canonical_turn_command_key ''wf1'' ''k1''
              then TurnIdempotencyConflictError else CommandIdempotencyConflictError)"
proof -
  have "\<exists>c db1 s'. claim_with_repositories (example_instruction ''wf1'' ''p1'') example_sessions = Inr (c, db1)
      \<and> resolve_session (example_instruction ''wf2'' ''p2'') db1 = Inr (Some s')
      \<and> sn_moonmind_workflow_id s' = ''wf2''"
    by (simp add: example_claim_simps)
  then obtain c db1 s' where ex:
    "claim_with_repositories (example_instruction ''wf1'' ''p1'') example_sessions = Inr (c, db1)"
    "resolve_session (example_instruction ''wf2'' ''p2'') db1 = Inr (Some s')"
    "sn_moonmind_workflow_id s' = ''wf2''"
    by blast
  have "register_binding (example_instruction ''wf2'' ''p2'') (sn_session_id s') db1 = Inr ((), db1)"
    by (simp add: register_binding_def example_instruction_def tx_return_def)
  from turn_key_collides_across_workflows [OF example_sessions_ok ex(1) _ example_unclaimed example_unclaimed
      _ _ ex(2) _ this] ex(1,3)
  show ?thesis by (simp add: example_instruction_def owns_bootstrap_turn_def instruction_key_def)
qed

lemma turn_claim_stable_witness:
  "\<exists>c db1 c' db3. claim_with_repositories (example_instruction ''wf1'' ''p1'') example_sessions = Inr (c, db1)
     \<and> claim_with_repositories (example_instruction ''wf1'' ''p1'') db1 = Inr (c', db3)
     \<and> tc_command_id c' = tc_command_id c"
proof -
  have "\<exists>c db1 c' db3. claim_with_repositories (example_instruction ''wf1'' ''p1'') example_sessions = Inr (c, db1)
      \<and> claim_with_repositories (example_instruction ''wf1'' ''p1'') db1 = Inr (c', db3)"
    by (simp add: example_claim_simps repeated_command_def same_command_identity_def)
  then obtain c db1 c' db3 where ex:
    "claim_with_repositories (example_instruction ''wf1'' ''p1'') example_sessions = Inr (c, db1)"
    "claim_with_repositories (example_instruction ''wf1'' ''p1'') db1 = Inr (c', db3)"
    by blast
  have "c' = c\<lparr> tc_outcome := tc_outcome c' \<rparr>"
    using turn_claim_stable [OF example_sessions_ok ex(1) rtranclp.rtrancl_refl ex(2)] by simp
  then have "tc_command_id c' = tc_command_id (c\<lparr> tc_outcome := tc_outcome c' \<rparr>)" by simp
  with ex show ?thesis by auto
qed

lemmas example_settle_simps = settle_def claim_turn_command_def transaction_def settle_with_repositories_def
  settle_command_def record_command_delivery_def command_delivery_row_def get_turn_def get_session_def
  advance_settled_turn_def settled_turn_state_def turn_is_terminal_def advance_state_def
  compare_and_swap_turn_def cas_turn_row_def check_turn_fence_def guarding_generation_def
  no_turn_update_def turn_state_order_def raise_for_turn_conflict_def stamp_turn_def
  repeated_command_def same_command_identity_def instruction_key_def canonical_followup_turn_attempt_id_def

lemma settled_store_ok:
  assumes "store_ok db" and "settle w k out receipt ref db = (Inr outcome, db')"
  shows "store_ok db'"
proof -
  have "settle_with_repositories w k out receipt ref db = Inr (outcome, db')"
    using assms(2) by (auto simp: settle_def transaction_def split: sum.splits prod.splits)
  then show ?thesis using tx_steps_ok [OF settle_with_repositories_steps _ assms(1)] by blast
qed

lemma settled_never_redelivered_witness:
  "\<exists>c db1 out db2 c' db3. claim_with_repositories (example_instruction ''wf1'' ''p1'') example_sessions = Inr (c, db1)
     \<and> settle ''wf1'' ''k1'' APPLIED None None db1 = (Inr out, db2)
     \<and> claim_turn_command (example_instruction ''wf1'' ''p1'') db2 = (Inr c', db3) \<and> \<not> owns_delivery c'"
proof -
  have "\<exists>c db1 out db2 c' db3. claim_with_repositories (example_instruction ''wf1'' ''p1'') example_sessions = Inr (c, db1)
     \<and> settle ''wf1'' ''k1'' APPLIED None None db1 = (Inr out, db2)
     \<and> claim_turn_command (example_instruction ''wf1'' ''p1'') db2 = (Inr c', db3)"
    by (simp add: example_claim_simps example_settle_simps vocabulary OWNER_CLASS_def)
  then obtain c db1 out db2 c' db3 where ex:
    "claim_with_repositories (example_instruction ''wf1'' ''p1'') example_sessions = Inr (c, db1)"
    "settle ''wf1'' ''k1'' APPLIED None None db1 = (Inr out, db2)"
    "claim_turn_command (example_instruction ''wf1'' ''p1'') db2 = (Inr c', db3)"
    by blast
  have "store_ok db1" using tx_steps_ok [OF claim_with_repositories_steps ex(1) example_sessions_ok] .
  from settled_never_redelivered [OF this ex(2) rtranclp.rtrancl_refl ex(3)] ex
  show ?thesis by (auto simp: example_instruction_def)
qed

lemma refused_settlement_accepts_turn_witness:
  "\<exists>db tid t' db'. settle ''wf1'' ''k1'' APPLIED None None db = (Inr IMMUTABLE_AUTHORITY_CONFLICT, db')
     \<and> map_of (db_turns db') tid = Some t' \<and> ta_state t' = ''accepted''"
proof -
  have "\<exists>c db1 out db2 command tid t s.
      claim_with_repositories (example_instruction ''wf1'' ''p1'') example_sessions = Inr (c, db1)
      \<and> settle ''wf1'' ''k1'' FENCING_CONFLICT None None db1 = (Inr out, db2)
      \<and> get_command_by_key (canonical_turn_command_key ''wf1'' ''k1'') db2 = Inr (Some command)
      \<and> cm_status command = COMMAND_STATE_FAILED \<and> cm_turn_attempt_id command = Some tid \<and> tid \<noteq> []
      \<and> map_of (db_turns db2) tid = Some t \<and> \<not> turn_is_terminal t \<and> ta_state t = ''prepared''
      \<and> ta_session_id t = cm_session_id command
      \<and> map_of (db_sessions db2) (cm_session_id command) = Some s"
    by (simp add: example_claim_simps example_settle_simps vocabulary OWNER_CLASS_def)
  then obtain c db1 out db2 command tid t s where ex:
    "claim_with_repositories (example_instruction ''wf1'' ''p1'') example_sessions = Inr (c, db1)"
    "settle ''wf1'' ''k1'' FENCING_CONFLICT None None db1 = (Inr out, db2)"
    "get_command_by_key (canonical_turn_command_key ''wf1'' ''k1'') db2 = Inr (Some command)"
    "cm_status command = COMMAND_STATE_FAILED" "cm_turn_attempt_id command = Some tid" "tid \<noteq> []"
    "map_of (db_turns db2) tid = Some t" "\<not> turn_is_terminal t" "ta_state t = ''prepared''"
    "ta_session_id t = cm_session_id command" "map_of (db_sessions db2) (cm_session_id command) = Some s"
    by blast
  have "store_ok db1" using tx_steps_ok [OF claim_with_repositories_steps ex(1) example_sessions_ok] .
  then have "store_ok db2" using settled_store_ok ex(2) by blast
  from refused_settlement_accepts_turn [OF this ex(3-8) _ ex(10,11), of None None] ex(9)
  show ?thesis by blast
qed

end
