(* ===== verification/Control_Plane_Stuck_State.thy ===== *)
theory Control_Plane_Stuck_State
  imports Control_Plane_Sessions
begin

text \<open>
  The stuck-state detector of \<^verbatim>\<open>moonmind/omnigent/control_plane/stuck_state.py\<close>: a pure function from
  a session, tri-state signals (\<open>None\<close> is not observed), the clock and a policy to findings, and the
  single response derived from them. Durations are microseconds.
\<close>

section \<open>Definitions\<close>

text \<open>
  A datetime as the two storage backends return it: without a time zone, its clock reading, or with
  one, its instant in UTC.
\<close>

datatype stamp = Naive datetime | Aware datetime

datatype stuck_state_reason =
    MOONMIND_ACTIVE_NO_RECENT_EVIDENCE
  | PROVIDER_TERMINAL_MOONMIND_NONTERMINAL
  | MOONMIND_TERMINAL_PROVIDER_ACTIVE
  | ACTIVE_TURN_LIVENESS_ONLY
  | REPEATED_RECONCILIATION_NO_PROGRESS
  | HOST_LEASE_WITHOUT_SESSION_AUTHORITY
  | PROFILE_LEASE_WITHOUT_CONSUMER
  | CLEANUP_INCOMPLETE_PAST_DEADLINE
  | COMPATIBILITY_UNKNOWN_AFTER_ADMISSION
  | COMMAND_STUCK_CLAIMED_OR_DELIVERY_UNKNOWN
  | LIVE_CONFORMANCE_EVIDENCE_STALE

fun reason_value :: "stuck_state_reason \<Rightarrow> py_str" where
  "reason_value MOONMIND_ACTIVE_NO_RECENT_EVIDENCE = ''moonmind_active_no_recent_evidence''"
| "reason_value PROVIDER_TERMINAL_MOONMIND_NONTERMINAL = ''provider_terminal_moonmind_nonterminal''"
| "reason_value MOONMIND_TERMINAL_PROVIDER_ACTIVE = ''moonmind_terminal_provider_active''"
| "reason_value ACTIVE_TURN_LIVENESS_ONLY = ''active_turn_liveness_only''"
| "reason_value REPEATED_RECONCILIATION_NO_PROGRESS = ''repeated_reconciliation_no_progress''"
| "reason_value HOST_LEASE_WITHOUT_SESSION_AUTHORITY = ''host_lease_without_session_authority''"
| "reason_value PROFILE_LEASE_WITHOUT_CONSUMER = ''profile_lease_without_consumer''"
| "reason_value CLEANUP_INCOMPLETE_PAST_DEADLINE = ''cleanup_incomplete_past_deadline''"
| "reason_value COMPATIBILITY_UNKNOWN_AFTER_ADMISSION = ''compatibility_unknown_after_admission''"
| "reason_value COMMAND_STUCK_CLAIMED_OR_DELIVERY_UNKNOWN = ''command_stuck_claimed_or_delivery_unknown''"
| "reason_value LIVE_CONFORMANCE_EVIDENCE_STALE = ''live_conformance_evidence_stale''"

datatype response_action = RECONCILE | QUARANTINE | OBSERVE

definition minutes :: "int \<Rightarrow> int" where
  "minutes n = n * 60 * 1000000"

record stuck_state_policy =
  po_event_staleness :: int
  po_snapshot_staleness :: int
  po_liveness_only_max :: int
  po_cleanup_deadline :: int
  po_conformance_max_age :: int
  po_command_stuck_max :: int
  po_no_progress_max :: int
  po_persistent_ambiguity_max :: int

definition default_policy :: stuck_state_policy where
  "default_policy = \<lparr> po_event_staleness = minutes 10, po_snapshot_staleness = minutes 10,
     po_liveness_only_max = minutes 15, po_cleanup_deadline = minutes 30,
     po_conformance_max_age = minutes (24 * 60), po_command_stuck_max = minutes 10,
     po_no_progress_max = 3, po_persistent_ambiguity_max = 3 \<rparr>"

record session_signals =
  ss_last_event_at :: "stamp option"
  ss_last_snapshot_at :: "stamp option"
  ss_active_turn_started_at :: "stamp option"
  ss_liveness_only_since :: "stamp option"
  ss_provider_terminal :: "bool option"
  ss_provider_active :: "bool option"
  ss_host_lease_active :: "bool option"
  ss_host_lease_owns_session_authority :: "bool option"
  ss_profile_lease_active :: "bool option"
  ss_profile_lease_has_consumer :: "bool option"
  ss_compatibility_known :: "bool option"
  ss_admitted :: bool
  ss_active_command :: "command_record option"
  ss_active_command_since :: "stamp option"
  ss_cleanup_started_at :: "stamp option"
  ss_conformance_evidence_at :: "stamp option"
  ss_conformance_runner_available :: "bool option"
  ss_consecutive_no_progress :: int
  ss_prior_detection_count :: int

definition no_signals :: session_signals where
  "no_signals = \<lparr> ss_last_event_at = None, ss_last_snapshot_at = None, ss_active_turn_started_at = None,
     ss_liveness_only_since = None, ss_provider_terminal = None, ss_provider_active = None,
     ss_host_lease_active = None, ss_host_lease_owns_session_authority = None,
     ss_profile_lease_active = None, ss_profile_lease_has_consumer = None,
     ss_compatibility_known = None, ss_admitted = False, ss_active_command = None,
     ss_active_command_since = None, ss_cleanup_started_at = None, ss_conformance_evidence_at = None,
     ss_conformance_runner_available = None, ss_consecutive_no_progress = 0,
     ss_prior_detection_count = 0 \<rparr>"

record stuck_state_finding =
  sf_reason :: stuck_state_reason
  sf_action :: response_action
  sf_detail :: py_str
  sf_remediation :: py_str

record automated_response =
  ar_reconcile :: bool
  ar_quarantine :: bool
  ar_expected_revision :: int
  ar_expected_fencing_generation :: int
  ar_reasons :: "stuck_state_reason list"
  ar_diagnostics :: "(py_str \<times> json) list"
  ar_remediation :: "py_str option"

text \<open>A datetime without a zone is read as UTC.\<close>

fun utc :: "stamp \<Rightarrow> datetime" where
  "utc (Naive t) = t"
| "utc (Aware t) = t"

definition stale :: "stamp option \<Rightarrow> stamp \<Rightarrow> int \<Rightarrow> bool" where
  "stale reference now budget \<longleftrightarrow>
     (case reference of None \<Rightarrow> False | Some r \<Rightarrow> budget \<le> utc now - utc r)"

text \<open>Python's \<open>or\<close> on optional values that are true when present.\<close>

definition first_present :: "'a option \<Rightarrow> 'a option \<Rightarrow> 'a option" where
  "first_present x y = (case x of Some v \<Rightarrow> Some v | None \<Rightarrow> y)"

definition no_recent_evidence ::
  "session_record \<Rightarrow> session_signals \<Rightarrow> stamp \<Rightarrow> stuck_state_policy \<Rightarrow> bool" where
  "no_recent_evidence session signals now policy \<longleftrightarrow>
     sn_terminal_state session = None \<and> sn_active_turn_attempt_id session \<noteq> None
     \<and> (let fresh_event = ss_last_event_at signals \<noteq> None
              \<and> \<not> stale (ss_last_event_at signals) now (po_event_staleness policy);
            fresh_snapshot = ss_last_snapshot_at signals \<noteq> None
              \<and> \<not> stale (ss_last_snapshot_at signals) now (po_snapshot_staleness policy);
            reference = first_present (first_present (ss_last_event_at signals) (ss_last_snapshot_at signals))
              (ss_active_turn_started_at signals);
            aged_out = stale reference now (min (po_event_staleness policy) (po_snapshot_staleness policy))
        in \<not> (fresh_event \<or> fresh_snapshot) \<and> aged_out)"

definition cleanup_incomplete ::
  "session_record \<Rightarrow> session_signals \<Rightarrow> stamp \<Rightarrow> stuck_state_policy \<Rightarrow> bool" where
  "cleanup_incomplete session signals now policy \<longleftrightarrow>
     ss_cleanup_started_at signals \<noteq> None
     \<and> stale (ss_cleanup_started_at signals) now (po_cleanup_deadline policy)
     \<and> sn_cleanup_state session \<notin> {''complete'', ''closed''}"

definition command_stuck :: "session_signals \<Rightarrow> stamp \<Rightarrow> stuck_state_policy \<Rightarrow> bool" where
  "command_stuck signals now policy \<longleftrightarrow>
     (case ss_active_command signals of
        None \<Rightarrow> False
      | Some command \<Rightarrow>
          cm_status command \<in> {COMMAND_STATE_CLAIMED, COMMAND_STATE_DELIVERY_UNKNOWN}
          \<and> stale (ss_active_command_since signals) now (po_command_stuck_max policy))"

definition finding ::
  "bool \<Rightarrow> stuck_state_reason \<Rightarrow> py_str \<Rightarrow> py_str \<Rightarrow> stuck_state_finding list" where
  "finding found reason detail remediation =
     (if found then [\<lparr> sf_reason = reason, sf_action = RECONCILE, sf_detail = detail,
                       sf_remediation = remediation \<rparr>] else [])"

definition detect_stuck_state ::
  "session_record \<Rightarrow> session_signals \<Rightarrow> stamp \<Rightarrow> stuck_state_policy \<Rightarrow> stuck_state_finding list" where
  "detect_stuck_state session signals now policy =
     (let nonterminal = sn_terminal_state session = None in
      finding (no_recent_evidence session signals now policy)
        MOONMIND_ACTIVE_NO_RECENT_EVIDENCE
        ''active session has no recent provider event or snapshot''
        ''request a fenced reconcile to re-observe the provider snapshot'' @
      finding (nonterminal \<and> ss_provider_terminal signals = Some True)
        PROVIDER_TERMINAL_MOONMIND_NONTERMINAL
        ''provider reports terminal but canonical session is nonterminal''
        ''reconcile to synthesize the missed terminal from snapshot evidence'' @
      finding (sn_terminal_state session \<noteq> None \<and> ss_provider_active signals = Some True)
        MOONMIND_TERMINAL_PROVIDER_ACTIVE
        ''canonical session terminal but provider still reports active''
        ''reconcile to confirm provider terminal and drive cleanup'' @
      finding (nonterminal \<and> stale (ss_liveness_only_since signals) now (po_liveness_only_max policy))
        ACTIVE_TURN_LIVENESS_ONLY
        ''active turn has produced only liveness observations beyond policy''
        ''reconcile to re-observe substantive turn progress'' @
      finding (po_no_progress_max policy \<le> ss_consecutive_no_progress signals)
        REPEATED_RECONCILIATION_NO_PROGRESS
        ''reconciliation repeated without a revision or observation advance''
        ''reconcile once more; escalate to quarantine if still no progress'' @
      finding (ss_host_lease_active signals = Some True \<and> ss_host_lease_owns_session_authority signals = Some False)
        HOST_LEASE_WITHOUT_SESSION_AUTHORITY
        ''host lease is active but does not own current session authority''
        ''reconcile so the fenced cleanup authority reclaims the orphaned host lease'' @
      finding (ss_profile_lease_active signals = Some True \<and> ss_profile_lease_has_consumer signals = Some False)
        PROFILE_LEASE_WITHOUT_CONSUMER
        ''Provider Profile lease is active with no credential consumer''
        ''reconcile so the fenced cleanup authority releases the orphaned profile lease'' @
      finding (cleanup_incomplete session signals now policy)
        CLEANUP_INCOMPLETE_PAST_DEADLINE
        ''cleanup started but did not complete by the deadline''
        ''reconcile so the janitor re-claims and completes cleanup under current fencing'' @
      finding (ss_admitted signals \<and> ss_compatibility_known signals = None)
        COMPATIBILITY_UNKNOWN_AFTER_ADMISSION
        ''compatibility/actual-build state is unknown after admission''
        ''reconcile to re-verify deployed-build compatibility'' @
      finding (command_stuck signals now policy)
        COMMAND_STUCK_CLAIMED_OR_DELIVERY_UNKNOWN
        (''command stuck in '' @ (case ss_active_command signals of None \<Rightarrow> [] | Some c \<Rightarrow> cm_status c) @ '' state beyond policy'')
        ''reconcile to confirm delivery at the authoritative boundary; never blind-resubmit'' @
      finding (stale (ss_conformance_evidence_at signals) now (po_conformance_max_age policy)
          \<or> ss_conformance_runner_available signals = Some False)
        LIVE_CONFORMANCE_EVIDENCE_STALE
        ''live-conformance evidence is absent, expired, or its runner is unavailable''
        ''refresh protected-live conformance evidence or restore the verification runner'')"

definition plan_response ::
  "session_record \<Rightarrow> stuck_state_finding list \<Rightarrow> int \<Rightarrow> stuck_state_policy \<Rightarrow> automated_response option" where
  "plan_response session findings prior_detection_count policy =
     (case findings of
        [] \<Rightarrow> None
      | first # _ \<Rightarrow>
          let actionable = filter (\<lambda>f. sf_action f \<noteq> OBSERVE) findings;
              response = \<lparr> ar_reconcile = False, ar_quarantine = False,
                ar_expected_revision = sn_revision session,
                ar_expected_fencing_generation = sn_fencing_generation session,
                ar_reasons = map sf_reason findings,
                ar_diagnostics =
                  [(''reasons'', JArr (map (\<lambda>f. JStr (reason_value (sf_reason f))) findings)),
                   (''detection_count'', JInt (prior_detection_count + 1))],
                ar_remediation = Some (sf_remediation first) \<rparr>;
              escalate = po_persistent_ambiguity_max policy < prior_detection_count + 1
          in if actionable = [] then Some response
             else Some (response\<lparr> ar_reconcile := \<not> escalate, ar_quarantine := escalate \<rparr>))"

section \<open>What is found\<close>

definition all_reasons :: "stuck_state_reason list" where
  "all_reasons = [MOONMIND_ACTIVE_NO_RECENT_EVIDENCE, PROVIDER_TERMINAL_MOONMIND_NONTERMINAL,
     MOONMIND_TERMINAL_PROVIDER_ACTIVE, ACTIVE_TURN_LIVENESS_ONLY,
     REPEATED_RECONCILIATION_NO_PROGRESS, HOST_LEASE_WITHOUT_SESSION_AUTHORITY,
     PROFILE_LEASE_WITHOUT_CONSUMER, CLEANUP_INCOMPLETE_PAST_DEADLINE,
     COMPATIBILITY_UNKNOWN_AFTER_ADMISSION, COMMAND_STUCK_CLAIMED_OR_DELIVERY_UNKNOWN,
     LIVE_CONFORMANCE_EVIDENCE_STALE]"

text \<open>
  The condition of each finding, freshness in its intended form: every channel that has reported
  is older than its own budget, and when none has, the turn started longer ago than the smaller
  budget.
\<close>

fun stuck_when ::
  "session_record \<Rightarrow> session_signals \<Rightarrow> stamp \<Rightarrow> stuck_state_policy \<Rightarrow> stuck_state_reason \<Rightarrow> bool" where
  "stuck_when s g now p MOONMIND_ACTIVE_NO_RECENT_EVIDENCE \<longleftrightarrow>
     sn_terminal_state s = None \<and> sn_active_turn_attempt_id s \<noteq> None
     \<and> (\<forall>e \<in> set_option (ss_last_event_at g). po_event_staleness p \<le> utc now - utc e)
     \<and> (\<forall>e \<in> set_option (ss_last_snapshot_at g). po_snapshot_staleness p \<le> utc now - utc e)
     \<and> (ss_last_event_at g = None \<and> ss_last_snapshot_at g = None \<longrightarrow>
          (\<exists>t. ss_active_turn_started_at g = Some t
             \<and> (po_event_staleness p \<le> utc now - utc t \<or> po_snapshot_staleness p \<le> utc now - utc t)))"
| "stuck_when s g now p PROVIDER_TERMINAL_MOONMIND_NONTERMINAL \<longleftrightarrow>
     sn_terminal_state s = None \<and> ss_provider_terminal g = Some True"
| "stuck_when s g now p MOONMIND_TERMINAL_PROVIDER_ACTIVE \<longleftrightarrow>
     sn_terminal_state s \<noteq> None \<and> ss_provider_active g = Some True"
| "stuck_when s g now p ACTIVE_TURN_LIVENESS_ONLY \<longleftrightarrow>
     sn_terminal_state s = None \<and> (\<exists>t. ss_liveness_only_since g = Some t \<and> po_liveness_only_max p \<le> utc now - utc t)"
| "stuck_when s g now p REPEATED_RECONCILIATION_NO_PROGRESS \<longleftrightarrow>
     po_no_progress_max p \<le> ss_consecutive_no_progress g"
| "stuck_when s g now p HOST_LEASE_WITHOUT_SESSION_AUTHORITY \<longleftrightarrow>
     ss_host_lease_active g = Some True \<and> ss_host_lease_owns_session_authority g = Some False"
| "stuck_when s g now p PROFILE_LEASE_WITHOUT_CONSUMER \<longleftrightarrow>
     ss_profile_lease_active g = Some True \<and> ss_profile_lease_has_consumer g = Some False"
| "stuck_when s g now p CLEANUP_INCOMPLETE_PAST_DEADLINE \<longleftrightarrow>
     sn_cleanup_state s \<notin> {''complete'', ''closed''}
     \<and> (\<exists>t. ss_cleanup_started_at g = Some t \<and> po_cleanup_deadline p \<le> utc now - utc t)"
| "stuck_when s g now p COMPATIBILITY_UNKNOWN_AFTER_ADMISSION \<longleftrightarrow>
     ss_admitted g \<and> ss_compatibility_known g = None"
| "stuck_when s g now p COMMAND_STUCK_CLAIMED_OR_DELIVERY_UNKNOWN \<longleftrightarrow>
     (\<exists>c t. ss_active_command g = Some c \<and> cm_status c \<in> {COMMAND_STATE_CLAIMED, COMMAND_STATE_DELIVERY_UNKNOWN}
        \<and> ss_active_command_since g = Some t \<and> po_command_stuck_max p \<le> utc now - utc t)"
| "stuck_when s g now p LIVE_CONFORMANCE_EVIDENCE_STALE \<longleftrightarrow>
     (\<exists>t. ss_conformance_evidence_at g = Some t \<and> po_conformance_max_age p \<le> utc now - utc t)
     \<or> ss_conformance_runner_available g = Some False"

lemma stale_iff: "stale reference now budget \<longleftrightarrow> (\<exists>t. reference = Some t \<and> budget \<le> utc now - utc t)"
  by (simp add: stale_def split: option.split)

lemma no_recent_evidence_iff:
  "no_recent_evidence s g now p \<longleftrightarrow> stuck_when s g now p MOONMIND_ACTIVE_NO_RECENT_EVIDENCE"
  by (cases "ss_last_event_at g"; cases "ss_last_snapshot_at g")
    (auto simp: no_recent_evidence_def stale_iff first_present_def Let_def min_def)

lemma command_stuck_iff:
  "command_stuck g now p \<longleftrightarrow> stuck_when s g now p COMMAND_STUCK_CLAIMED_OR_DELIVERY_UNKNOWN"
  by (auto simp: command_stuck_def stale_iff split: option.split)

lemma cleanup_incomplete_iff:
  "cleanup_incomplete s g now p \<longleftrightarrow> stuck_when s g now p CLEANUP_INCOMPLETE_PAST_DEADLINE"
  by (auto simp: cleanup_incomplete_def stale_iff)

lemma finding_reasons: "map sf_reason (finding b r d m) = filter (\<lambda>_. b) [r]"
  by (simp add: finding_def)

lemma filter_Cons_append: "filter P (x # xs) = filter (\<lambda>_. P x) [x] @ filter P xs"
  by simp

lemma detected_reasons:
  "map sf_reason (detect_stuck_state s g now p) = filter (stuck_when s g now p) all_reasons"
  unfolding detect_stuck_state_def Let_def map_append finding_reasons all_reasons_def
    filter_Cons_append [of "stuck_when s g now p"] filter.simps(1) [of "stuck_when s g now p"]
    append_Nil2
  by (simp only: no_recent_evidence_iff cleanup_incomplete_iff command_stuck_iff [where s = s]
      stuck_when.simps stale_iff)

lemma finding_actions: "list_all (\<lambda>f. sf_action f = RECONCILE) (finding b r d m)"
  by (simp add: finding_def)

lemma detected_actions: "list_all (\<lambda>f. sf_action f = RECONCILE) (detect_stuck_state s g now p)"
  unfolding detect_stuck_state_def Let_def by (simp only: list_all_append finding_actions simp_thms)

lemma distinct_all_reasons: "distinct all_reasons" and set_all_reasons: "set all_reasons = UNIV"
proof -
  show "distinct all_reasons" by (simp add: all_reasons_def)
  have "r \<in> set all_reasons" for r by (cases r) (simp_all add: all_reasons_def)
  then show "set all_reasons = UNIV" by blast
qed

lemma stuck_when_later:
  assumes "stuck_when s g now p r" and "utc now \<le> utc now'"
  shows "stuck_when s g now' p r"
  using assms by (cases r) (force intro: order_trans diff_right_mono)+

text \<open>
  C28. The detector reports exactly the conditions that hold, each once and in the order of its
  vocabulary, always with a fenced reconciliation as the action; a session with nothing observed
  and nothing counted is never reported, and as time passes without a new signal no finding goes
  away.
\<close>

theorem detect_stuck_state_exact:
  shows "map sf_reason (detect_stuck_state s g now p) = filter (stuck_when s g now p) all_reasons
     \<and> (\<forall>r. r \<in> sf_reason ` set (detect_stuck_state s g now p) \<longleftrightarrow> stuck_when s g now p r)
     \<and> sf_action ` set (detect_stuck_state s g now p) \<subseteq> {RECONCILE}
     \<and> (0 < po_no_progress_max p \<longrightarrow> detect_stuck_state s no_signals now p = [])
     \<and> (utc now \<le> utc now' \<longrightarrow>
          sf_reason ` set (detect_stuck_state s g now p) \<subseteq> sf_reason ` set (detect_stuck_state s g now' p))"
proof -
  have reasons: "sf_reason ` set (detect_stuck_state s g t p) = {r. stuck_when s g t p r}" for g t
    using arg_cong [OF detected_reasons, of set s g t p] by (simp add: set_all_reasons)
  have none: "detect_stuck_state s no_signals now p = []" if "0 < po_no_progress_max p"
  proof -
    have "\<not> stuck_when s no_signals now p r" for r using that by (cases r) (simp_all add: no_signals_def)
    then have "sf_reason ` set (detect_stuck_state s no_signals now p) = {}" by (simp add: reasons)
    then show ?thesis by simp
  qed
  have act: "sf_action ` set (detect_stuck_state s g now p) \<subseteq> {RECONCILE}"
    using detected_actions [of s g now p] by (auto simp: list_all_iff)
  have later: "sf_reason ` set (detect_stuck_state s g now p) \<subseteq> sf_reason ` set (detect_stuck_state s g now' p)"
    if "utc now \<le> utc now'"
    unfolding reasons using stuck_when_later [OF _ that] by blast
  have reported: "r \<in> sf_reason ` set (detect_stuck_state s g now p) \<longleftrightarrow> stuck_when s g now p r" for r
    unfolding reasons by simp
  show ?thesis by (intro conjI allI impI) (rule detected_reasons reported act none later, assumption?)+
qed

text \<open>
  The response to what the detector finds is bounded and fenced: there is one exactly when
  something is found, it expects the revision and generation of the session, names every reason,
  and asks either for a reconciliation or for a quarantine, for the latter exactly when the same
  ambiguity was already detected as often as the policy allows.
\<close>

theorem plan_response_fenced:
  shows "case plan_response s (detect_stuck_state s g now p) prior p of
      None \<Rightarrow> \<forall>r. \<not> stuck_when s g now p r
    | Some a \<Rightarrow> (\<exists>r. stuck_when s g now p r)
        \<and> ar_expected_revision a = sn_revision s
        \<and> ar_expected_fencing_generation a = sn_fencing_generation s
        \<and> ar_reasons a = filter (stuck_when s g now p) all_reasons
        \<and> (ar_quarantine a \<longleftrightarrow> po_persistent_ambiguity_max p \<le> prior)
        \<and> (ar_reconcile a \<longleftrightarrow> \<not> ar_quarantine a)"
proof (cases "detect_stuck_state s g now p")
  case Nil
  then have "filter (stuck_when s g now p) all_reasons = []" using detected_reasons [of s g now p] by simp
  then show ?thesis using Nil by (simp add: plan_response_def filter_empty_conv set_all_reasons)
next
  case (Cons f fs)
  have act: "sf_action f = RECONCILE" using detected_actions [of s g now p] Cons by simp
  have eq: "filter (stuck_when s g now p) all_reasons = sf_reason f # map sf_reason fs"
    using detected_reasons [of s g now p] Cons by simp
  then have "sf_reason f \<in> set (filter (stuck_when s g now p) all_reasons)" by simp
  then have "\<exists>r. stuck_when s g now p r" by auto
  then show ?thesis using Cons act eq by (auto simp: plan_response_def Let_def)
qed

lemma detect_stuck_state_exact_witness:
  "detect_stuck_state example_session no_signals (Aware 0) default_policy = []"
  using detect_stuck_state_exact [of _ no_signals "Aware 0" default_policy "Aware 0"]
  by (simp add: default_policy_def)

end
