(* ===== verification/Plan_Values.thy ===== *)
theory Plan_Values
  imports Complex_Main Py_Runtime
begin

text \<open>
  The untyped values that plans, schemas and tool results are made of, and what the plan modules
  under \<^verbatim>\<open>moonmind/workflows/skills\<close> use of Python on them: \<open>isinstance\<close> is the constructor, \<open>==\<close>,
  \<open>in\<close>, truth, \<open>str\<close> and \<open>repr\<close>, and the string methods \<open>split\<close>, \<open>replace\<close>, \<open>isdigit\<close> and \<open>upper\<close>.
\<close>

section \<open>Values\<close>

text \<open>
  A finite float is its exact value together with the text that \<open>repr\<close> gives it; a JSON document
  has no others.
\<close>

datatype pyval =
    PNone
  | PBool bool
  | PInt int
  | PFloat rat py_str
  | PStr py_str
  | PList "pyval list"
  | PDict "(py_str \<times> pyval) list"

type_synonym pydict = "(py_str \<times> pyval) list"

text \<open>The exceptions of the plan modules, each with its code and message, and those of Python.\<close>

datatype plan_error =
    PlanValidationError py_str py_str
  | PlanExecutionError py_str py_str
  | ContractValidationError py_str py_str
  | ToolRegistryError py_str
  | PyTypeError
  | PyKeyError
  | PyValueError

type_synonym 'a checked = "(plan_error, 'a) result"

fun check_each :: "('a \<Rightarrow> unit checked) \<Rightarrow> 'a list \<Rightarrow> unit checked" where
  "check_each f [] = Inr ()"
| "check_each f (x # xs) = bind_result (f x) (\<lambda>_. check_each f xs)"

definition guard :: "bool \<Rightarrow> plan_error \<Rightarrow> unit checked" where
  "guard ok err = (if ok then Inr () else Inl err)"

fun map_checked :: "('a \<Rightarrow> 'b checked) \<Rightarrow> 'a list \<Rightarrow> 'b list checked" where
  "map_checked f [] = Inr []"
| "map_checked f (x # xs) =
     bind_result (f x) (\<lambda>y. bind_result (map_checked f xs) (\<lambda>ys. Inr (y # ys)))"

section \<open>Operations on values\<close>

fun py_canon :: "pyval \<Rightarrow> pyval" where
  "py_canon PNone = PNone"
| "py_canon (PBool b) = PFloat (of_bool b) []"
| "py_canon (PInt i) = PFloat (of_int i) []"
| "py_canon (PFloat r t) = PFloat r []"
| "py_canon (PStr s) = PStr s"
| "py_canon (PList xs) = PList (map py_canon xs)"
| "py_canon (PDict kvs) = PDict (sort_key fst (map (\<lambda>(k, v). (k, py_canon v)) kvs))"

definition py_eq :: "pyval \<Rightarrow> pyval \<Rightarrow> bool" where
  "py_eq x y \<longleftrightarrow> py_canon x = py_canon y"

definition py_truthy :: "pyval \<Rightarrow> bool" where
  "py_truthy x = (case x of PNone \<Rightarrow> False | PBool b \<Rightarrow> b | PInt i \<Rightarrow> i \<noteq> 0 | PFloat r t \<Rightarrow> r \<noteq> 0
     | PStr s \<Rightarrow> s \<noteq> [] | PList xs \<Rightarrow> xs \<noteq> [] | PDict kvs \<Rightarrow> kvs \<noteq> [])"

fun py_hashable :: "pyval \<Rightarrow> bool" where
  "py_hashable (PList xs) = False"
| "py_hashable (PDict kvs) = False"
| "py_hashable v = True"

text \<open>\<open>value in container\<close>, which raises \<open>TypeError\<close> where the container cannot hold the value.\<close>

definition py_member :: "pyval \<Rightarrow> pyval \<Rightarrow> bool checked" where
  "py_member v container =
     (case container of
        PList xs \<Rightarrow> Inr (list_ex (py_eq v) xs)
      | PDict kvs \<Rightarrow> (if py_hashable v then Inr (list_ex (\<lambda>(k, _). py_eq v (PStr k)) kvs) else Inl PyTypeError)
      | PStr s \<Rightarrow> (case v of PStr t \<Rightarrow> Inr (py_in t s) | _ \<Rightarrow> Inl PyTypeError)
      | _ \<Rightarrow> Inl PyTypeError)"

text \<open>
  \<open>repr\<close> of a string prefers single quotes and escapes the backslash, the chosen quote and what is
  not printable.
\<close>

definition repr_char :: "char \<Rightarrow> char \<Rightarrow> py_str" where
  "repr_char q c = (let n = (of_char c :: nat) in
     if c = q \<or> n = 92 then [CHR 0x5C, c]
     else if n = 10 then [CHR 0x5C, CHR ''n'']
     else if n = 13 then [CHR 0x5C, CHR ''r'']
     else if n = 9 then [CHR 0x5C, CHR ''t'']
     else if (32 \<le> n \<and> n \<le> 126) \<or> (161 \<le> n \<and> n \<noteq> 173) then [c]
     else [CHR 0x5C, CHR ''x'', hex_char (n div 16), hex_char (n mod 16)])"

definition repr_str :: "py_str \<Rightarrow> py_str" where
  "repr_str s =
     (let q = (if CHR 0x27 \<in> set s \<and> CHR 0x22 \<notin> set s then CHR 0x22 else CHR 0x27)
      in q # concat (map (repr_char q) s) @ [q])"

fun py_join :: "py_str \<Rightarrow> py_str list \<Rightarrow> py_str" where
  "py_join sep [] = []"
| "py_join sep [x] = x"
| "py_join sep (x # y # ys) = x @ sep @ py_join sep (y # ys)"

fun py_repr :: "pyval \<Rightarrow> py_str" where
  "py_repr PNone = ''None''"
| "py_repr (PBool b) = (if b then ''True'' else ''False'')"
| "py_repr (PInt i) = py_str_int i"
| "py_repr (PFloat r t) = t"
| "py_repr (PStr s) = repr_str s"
| "py_repr (PList xs) = ''['' @ py_join '', '' (map py_repr xs) @ '']''"
| "py_repr (PDict kvs) =
     ''{'' @ py_join '', '' (map (\<lambda>(k, v). repr_str k @ '': '' @ py_repr v) kvs) @ ''}''"

definition py_text :: "pyval \<Rightarrow> py_str" where
  "py_text v = (case v of PStr s \<Rightarrow> s | _ \<Rightarrow> py_repr v)"

definition quoted :: "py_str \<Rightarrow> py_str" where
  "quoted s = CHR 0x27 # s @ [CHR 0x27]"

text \<open>\<open>str(d.get(k) or "").strip()\<close>.\<close>

definition text_field :: "py_str \<Rightarrow> pydict \<Rightarrow> py_str" where
  "text_field k d =
     (case map_of d k of
        None \<Rightarrow> []
      | Some v \<Rightarrow> if py_truthy v then py_strip (py_text v) else [])"

section \<open>Strings\<close>

fun py_split :: "char \<Rightarrow> py_str \<Rightarrow> py_str list" where
  "py_split sep [] = [[]]"
| "py_split sep (c # cs) =
     (if c = sep then [] # py_split sep cs
      else case py_split sep cs of [] \<Rightarrow> [[c]] | w # ws \<Rightarrow> (c # w) # ws)"

text \<open>Replacing a text that is not empty, leftmost occurrences first.\<close>

function py_replace :: "py_str \<Rightarrow> py_str \<Rightarrow> py_str \<Rightarrow> py_str" where
  "py_replace old new [] = []"
| "py_replace old new (c # cs) =
     (if old \<noteq> [] \<and> py_starts_with old (c # cs)
      then new @ py_replace old new (drop (length old - 1) cs)
      else c # py_replace old new cs)"
  by pat_completeness auto
termination by (relation "measure (\<lambda>(_, _, s). length s)") auto

text \<open>\<open>isdigit\<close> also holds of the superscripts one, two and three, which \<open>int\<close> does not read.\<close>

definition py_isdigit :: "py_str \<Rightarrow> bool" where
  "py_isdigit s \<longleftrightarrow> s \<noteq> [] \<and> list_all (\<lambda>c. is_decimal c \<or> (of_char c :: nat) \<in> {178, 179, 185}) s"

definition py_upper_char :: "char \<Rightarrow> char" where
  "py_upper_char c = (let n = (of_char c :: nat) in if 97 \<le> n \<and> n \<le> 122 then char_of (n - 32) else c)"

text \<open>\<open>upper\<close> on the ASCII codes it is applied to.\<close>

definition py_upper :: "py_str \<Rightarrow> py_str" where
  "py_upper s = map py_upper_char s"

section \<open>Facts\<close>

lemma check_each_cong [fundef_cong]:
  "xs = ys \<Longrightarrow> (\<And>x. x \<in> set ys \<Longrightarrow> f x = g x) \<Longrightarrow> check_each f xs = check_each g ys"
proof -
  assume "xs = ys" and "\<And>x. x \<in> set ys \<Longrightarrow> f x = g x"
  then show ?thesis by (induction ys arbitrary: xs) simp_all
qed

lemma map_checked_cong [fundef_cong]:
  "xs = ys \<Longrightarrow> (\<And>x. x \<in> set ys \<Longrightarrow> f x = g x) \<Longrightarrow> map_checked f xs = map_checked g ys"
proof -
  assume "xs = ys" and "\<And>x. x \<in> set ys \<Longrightarrow> f x = g x"
  then show ?thesis by (induction ys arbitrary: xs) simp_all
qed

lemma bind_result_cong [fundef_cong]:
  "r = r' \<Longrightarrow> (\<And>x. r' = Inr x \<Longrightarrow> f x = g x) \<Longrightarrow> bind_result r f = bind_result r' g"
  by (cases r') simp_all

lemma check_each_ok: "check_each f xs = Inr () \<longleftrightarrow> (\<forall>x \<in> set xs. f x = Inr ())"
  by (induction xs) (auto simp: bind_result_Inr_iff)

lemma check_each_error:
  "check_each f xs = Inl e \<Longrightarrow>
     \<exists>ys x zs. xs = ys @ x # zs \<and> (\<forall>y \<in> set ys. f y = Inr ()) \<and> f x = Inl e"
proof (induction xs)
  case (Cons x xs)
  show ?case
  proof (cases "f x")
    case (Inl a)
    then have "x # xs = [] @ x # xs \<and> f x = Inl e" using Cons.prems by simp
    then show ?thesis by fastforce
  next
    case (Inr u)
    then have "check_each f xs = Inl e" using Cons.prems by simp
    then obtain ys y zs where "xs = ys @ y # zs" "\<forall>y \<in> set ys. f y = Inr ()" "f y = Inl e"
      using Cons.IH by blast
    then have "x # xs = (x # ys) @ y # zs" "\<forall>z \<in> set (x # ys). f z = Inr ()" "f y = Inl e"
      using Inr by simp_all
    then show ?thesis by blast
  qed
qed simp

lemma guard_ok [simp]: "guard ok err = Inr u \<longleftrightarrow> ok"
  by (simp add: guard_def)

lemma guard_error: "guard ok err = Inl e \<longleftrightarrow> \<not> ok \<and> e = err"
  by (auto simp: guard_def)

lemma map_checked_ok:
  "map_checked f xs = Inr ys \<longleftrightarrow> list_all2 (\<lambda>x y. f x = Inr y) xs ys"
  by (induction xs arbitrary: ys) (auto simp: bind_result_Inr_iff list_all2_Cons1)

lemma unit_checked_cases:
  obtains "(r :: unit checked) = Inr ()" | e where "r = Inl e"
  by (cases r) auto

lemma py_eq_refl [simp]: "py_eq x x"
  by (simp add: py_eq_def)

text \<open>A nested value is smaller than the dictionary that holds it.\<close>

lemma dict_value_size:
  "map_of d k = Some v \<Longrightarrow> size v < size_list (size_prod (\<lambda>_. 0) size) d"
  by (induction d) (auto split: if_splits)

lemma dict_mem_size:
  "(k, v) \<in> set d \<Longrightarrow> size v < size_list (size_prod (\<lambda>_. 0) size) d"
  by (induction d) auto

lemma list_mem_size: "v \<in> set xs \<Longrightarrow> size v < size_list size xs" for v :: pyval
  by (induction xs) auto

end
