(* ===== verification/Plan_Contracts.thy ===== *)
theory Plan_Contracts
  imports Plan_Values
begin

text \<open>
  The frozen dataclasses of \<^verbatim>\<open>moonmind/workflows/skills/tool_plan_contracts.py\<close> that plan validation and
  execution use, with their \<open>__post_init__\<close> checks and payloads, the pinned registry snapshot of
  \<^verbatim>\<open>tool_registry.py\<close>, and the in-memory artifact store of \<^verbatim>\<open>artifact_store.py\<close>. A timestamp is the
  text the clock gives. The ISO-8601 test of two of the classes is not part of the model.
\<close>

section \<open>Vocabulary\<close>

definition ARTIFACT_REF_PREFIX :: py_str where
  "ARTIFACT_REF_PREFIX = ''art:sha256:''"

definition REGISTRY_DIGEST_PREFIX :: py_str where
  "REGISTRY_DIGEST_PREFIX = ''reg:sha256:''"

definition SUPPORTED_PLAN_VERSIONS :: "py_str list" where
  "SUPPORTED_PLAN_VERSIONS = [''1.0'']"

definition SUPPORTED_FAILURE_MODES :: "py_str list" where
  "SUPPORTED_FAILURE_MODES = [''CONTINUE'', ''FAIL_FAST'']"

definition TOOL_RESULT_STATUSES :: "py_str list" where
  "TOOL_RESULT_STATUSES = [''CANCELLED'', ''COMPLETED'', ''FAILED'']"

definition EXPLICIT_BINDING_REASONS :: "py_str list" where
  "EXPLICIT_BINDING_REASONS = [''clearer_routing'', ''specialized_credentials'', ''stronger_isolation'']"

definition str_list :: "py_str list \<Rightarrow> pyval" where
  "str_list xs = PList (map PStr xs)"

definition ensure_positive_int :: "int \<Rightarrow> py_str \<Rightarrow> unit checked" where
  "ensure_positive_int v field_name =
     guard (0 < v) (ContractValidationError ''invalid_policy'' (field_name @ '' must be greater than zero''))"

definition ensure_non_empty :: "py_str \<Rightarrow> py_str \<Rightarrow> unit checked" where
  "ensure_non_empty v field_name =
     guard (py_strip v \<noteq> []) (ContractValidationError ''invalid_contract'' (field_name @ '' cannot be blank''))"

section \<open>Tools\<close>

record artifact_ref =
  af_artifact_ref :: py_str
  af_content_type :: py_str
  af_bytes :: int
  af_created_at :: py_str
  af_metadata :: pydict

definition artifact_payload :: "artifact_ref \<Rightarrow> pyval" where
  "artifact_payload a = PDict [(''artifact_ref'', PStr (af_artifact_ref a)),
     (''content_type'', PStr (af_content_type a)), (''bytes'', PInt (af_bytes a)),
     (''created_at'', PStr (af_created_at a)), (''metadata'', PDict (af_metadata a))]"

record tool_policy_timeouts =
  to_start_to_close_seconds :: int
  to_schedule_to_close_seconds :: int

definition timeouts_post_init :: "tool_policy_timeouts \<Rightarrow> unit checked" where
  "timeouts_post_init t =
     bind_result (ensure_positive_int (to_start_to_close_seconds t)
       ''policies.timeouts.start_to_close_seconds'') (\<lambda>_.
     bind_result (ensure_positive_int (to_schedule_to_close_seconds t)
       ''policies.timeouts.schedule_to_close_seconds'') (\<lambda>_.
     guard (to_start_to_close_seconds t \<le> to_schedule_to_close_seconds t)
       (ContractValidationError ''invalid_policy''
         ''policies.timeouts.schedule_to_close_seconds must be >= start_to_close_seconds'')))"

definition timeouts_payload :: "tool_policy_timeouts \<Rightarrow> pyval" where
  "timeouts_payload t = PDict [(''start_to_close_seconds'', PInt (to_start_to_close_seconds t)),
     (''schedule_to_close_seconds'', PInt (to_schedule_to_close_seconds t))]"

record tool_policy_retries =
  re_max_attempts :: int
  re_backoff :: py_str
  re_non_retryable_error_codes :: "py_str list"

definition retries_post_init :: "tool_policy_retries \<Rightarrow> unit checked" where
  "retries_post_init r =
     bind_result (ensure_positive_int (re_max_attempts r) ''policies.retries.max_attempts'') (\<lambda>_.
     bind_result (ensure_non_empty (re_backoff r) ''policies.retries.backoff'') (\<lambda>_.
     check_each (\<lambda>code. ensure_non_empty code ''non_retryable_error_codes[]'')
       (re_non_retryable_error_codes r)))"

definition retries_payload :: "tool_policy_retries \<Rightarrow> pyval" where
  "retries_payload r = PDict [(''max_attempts'', PInt (re_max_attempts r)),
     (''backoff'', PStr (re_backoff r)),
     (''non_retryable_error_codes'', str_list (re_non_retryable_error_codes r))]"

record tool_policies =
  pl_timeouts :: tool_policy_timeouts
  pl_retries :: tool_policy_retries

definition policies_payload :: "tool_policies \<Rightarrow> pyval" where
  "policies_payload p = PDict [(''timeouts'', timeouts_payload (pl_timeouts p)),
     (''retries'', retries_payload (pl_retries p))]"

record tool_executor_binding =
  eb_activity_type :: py_str
  eb_selector_mode :: py_str
  eb_explicit_binding_reason :: "py_str option"

definition executor_post_init :: "tool_executor_binding \<Rightarrow> unit checked" where
  "executor_post_init b =
     bind_result (ensure_non_empty (eb_activity_type b) ''executor.activity_type'') (\<lambda>_.
     bind_result (ensure_non_empty (eb_selector_mode b) ''executor.selector.mode'') (\<lambda>_.
     if eb_activity_type b = ''mm.tool.execute'' \<or> eb_activity_type b = ''mm.skill.execute''
     then guard (eb_explicit_binding_reason b = None) (ContractValidationError ''invalid_contract''
            ''executor.binding_reason is only valid for explicit activity bindings'')
     else guard (\<exists>r \<in> set EXPLICIT_BINDING_REASONS. eb_explicit_binding_reason b = Some r)
            (ContractValidationError ''invalid_contract''
              (''executor.binding_reason must be one of '' @ py_repr (str_list EXPLICIT_BINDING_REASONS)
               @ '' for explicit activity bindings''))))"

definition executor_payload :: "tool_executor_binding \<Rightarrow> pyval" where
  "executor_payload b = PDict ([(''activity_type'', PStr (eb_activity_type b)),
     (''selector'', PDict [(''mode'', PStr (eb_selector_mode b))])]
     @ (case eb_explicit_binding_reason b of None \<Rightarrow> [] | Some r \<Rightarrow> [(''binding_reason'', PStr r)]))"

record tool_definition =
  td_name :: py_str
  td_description :: py_str
  td_input_schema :: pydict
  td_output_schema :: pydict
  td_executor :: tool_executor_binding
  td_required_capabilities :: "py_str list"
  td_policies :: tool_policies
  td_allowed_roles :: "py_str list"
  td_ops_runtime :: "pydict option"

definition tool_post_init :: "tool_definition \<Rightarrow> unit checked" where
  "tool_post_init d =
     bind_result (ensure_non_empty (td_name d) ''name'') (\<lambda>_.
     guard (td_required_capabilities d \<noteq> []) (ContractValidationError ''invalid_contract''
       ''requirements.capabilities must include at least one capability''))"

definition tool_payload :: "tool_definition \<Rightarrow> pyval" where
  "tool_payload d = PDict [(''name'', PStr (td_name d)), (''description'', PStr (td_description d)),
     (''inputs'', PDict [(''schema'', PDict (td_input_schema d))]),
     (''outputs'', PDict [(''schema'', PDict (td_output_schema d))]),
     (''executor'', executor_payload (td_executor d)),
     (''requirements'', PDict [(''capabilities'', str_list (td_required_capabilities d))]),
     (''policies'', policies_payload (td_policies d)),
     (''security'', PDict ((''allowed_roles'', str_list (td_allowed_roles d))
        # (case td_ops_runtime d of None \<Rightarrow> [] | Some ops \<Rightarrow> [(''opsRuntime'', PDict ops)])))]"

section \<open>The pinned registry\<close>

record tool_registry_snapshot =
  rg_digest :: py_str
  rg_artifact_ref :: py_str
  rg_skills :: "tool_definition list"

fun check_unique_tools :: "py_str set \<Rightarrow> tool_definition list \<Rightarrow> unit checked" where
  "check_unique_tools seen [] = Inr ()"
| "check_unique_tools seen (d # ds) =
     bind_result (guard (td_name d \<notin> seen)
       (ToolRegistryError (''Duplicate tool definition for '' @ quoted (td_name d)))) (\<lambda>_.
     check_unique_tools (insert (td_name d) seen) ds)"

definition registry_post_init :: "tool_registry_snapshot \<Rightarrow> unit checked" where
  "registry_post_init r =
     bind_result (guard (py_starts_with REGISTRY_DIGEST_PREFIX (rg_digest r))
       (ToolRegistryError (''Invalid snapshot digest '' @ quoted (rg_digest r) @ '': expected '' @
         REGISTRY_DIGEST_PREFIX @ ''*''))) (\<lambda>_.
     check_unique_tools {} (rg_skills r))"

definition by_key :: "tool_registry_snapshot \<Rightarrow> py_str \<Rightarrow> tool_definition option" where
  "by_key r = map_of (rev (map (\<lambda>d. (td_name d, d)) (rg_skills r)))"

definition get_skill :: "tool_registry_snapshot \<Rightarrow> py_str \<Rightarrow> tool_definition checked" where
  "get_skill r name =
     (case by_key r name of
        Some d \<Rightarrow> Inr d
      | None \<Rightarrow> Inl (ToolRegistryError (''Tool '' @ quoted name @ '' was not found in pinned snapshot '' @ rg_digest r)))"

definition canonical_registry_doc :: "tool_definition list \<Rightarrow> pyval" where
  "canonical_registry_doc skills =
     (let entries = PList (map tool_payload (sort_key td_name skills))
      in PDict [(''schema_version'', PStr ''1.0''), (''tools'', entries), (''skills'', entries)])"

section \<open>Plans\<close>

record step_skill_selectors =
  sl_sets :: "py_str list"
  sl_include :: "py_str list"
  sl_exclude :: "py_str list"
  sl_materialization_mode :: "py_str option"

record step_source_provenance =
  sp_binding_id :: "py_str option"
  sp_include_path :: "py_str list"
  sp_blueprint_step_slug :: "py_str option"
  sp_detached :: "bool option"

record plan_step =
  st_id :: py_str
  st_skill_name :: py_str
  st_inputs :: pydict
  st_options :: pydict
  st_tool_type :: py_str
  st_skills :: "step_skill_selectors option"
  st_source :: "step_source_provenance option"

definition selectors_post_init :: "step_skill_selectors \<Rightarrow> unit checked" where
  "selectors_post_init s =
     (case sl_materialization_mode s of
        None \<Rightarrow> Inr ()
      | Some m \<Rightarrow> guard (m \<in> {''hybrid'', ''remote'', ''local'', ''none''})
          (ContractValidationError ''invalid_plan''
            ''node.skills.materializationMode must be hybrid, remote, local, or none''))"

definition ensure_some_non_empty :: "py_str option \<Rightarrow> py_str \<Rightarrow> unit checked" where
  "ensure_some_non_empty v field_name =
     (case v of None \<Rightarrow> Inr () | Some s \<Rightarrow> ensure_non_empty s field_name)"

definition source_post_init :: "step_source_provenance \<Rightarrow> unit checked" where
  "source_post_init s =
     bind_result (ensure_some_non_empty (sp_binding_id s) ''node.source.binding_id'') (\<lambda>_.
     bind_result (check_each (\<lambda>e. ensure_non_empty e ''node.source.include_path[]'') (sp_include_path s)) (\<lambda>_.
     bind_result (ensure_some_non_empty (sp_blueprint_step_slug s) ''node.source.blueprint_step_slug'') (\<lambda>_.
     guard (\<not> (sp_binding_id s = None \<and> sp_include_path s = [] \<and> sp_blueprint_step_slug s = None
               \<and> sp_detached s = None))
       (ContractValidationError ''invalid_plan''
         ''node.source must include at least one provenance field''))))"

text \<open>
  \<open>Step\<close> takes untyped inputs and refuses all but an object; every other field is typed already.
\<close>

definition new_step ::
  "py_str \<Rightarrow> py_str \<Rightarrow> pyval \<Rightarrow> pydict \<Rightarrow> py_str \<Rightarrow> step_skill_selectors option \<Rightarrow>
   step_source_provenance option \<Rightarrow> plan_step checked" where
  "new_step i skill_name inputs options tool_type skills source =
     bind_result (ensure_non_empty i ''node.id'') (\<lambda>_.
     bind_result (ensure_non_empty skill_name ''node.tool.name'') (\<lambda>_.
     case inputs of
       PDict d \<Rightarrow> Inr \<lparr> st_id = i, st_skill_name = skill_name, st_inputs = d, st_options = options,
                     st_tool_type = tool_type, st_skills = skills, st_source = source \<rparr>
     | _ \<Rightarrow> Inl (ContractValidationError ''invalid_plan'' ''node.inputs must be an object'')))"

record plan_registry_snapshot =
  ps_digest :: py_str
  ps_artifact_ref :: py_str

definition crockford :: "char \<Rightarrow> bool" where
  "crockford c \<longleftrightarrow> c \<in> set ''0123456789ABCDEFGHJKMNPQRSTVWXYZ''"

definition temporal_artifact_id :: "py_str \<Rightarrow> bool" where
  "temporal_artifact_id s \<longleftrightarrow>
     take 4 s = ''art_'' \<and> length s = 30 \<and> list_all crockford (drop 4 s)"

definition plan_snapshot_post_init :: "plan_registry_snapshot \<Rightarrow> unit checked" where
  "plan_snapshot_post_init p =
     bind_result (ensure_non_empty (ps_digest p) ''metadata.registry_snapshot.digest'') (\<lambda>_.
     bind_result (guard (py_starts_with REGISTRY_DIGEST_PREFIX (py_strip (ps_digest p)))
       (ContractValidationError ''invalid_plan''
         (''registry snapshot digest must start with '' @ quoted REGISTRY_DIGEST_PREFIX))) (\<lambda>_.
     bind_result (ensure_non_empty (ps_artifact_ref p) ''metadata.registry_snapshot.artifact_ref'') (\<lambda>_.
     (let a = py_strip (ps_artifact_ref p) in
      guard (py_starts_with ARTIFACT_REF_PREFIX a \<or> py_starts_with ''artifact://'' a
          \<or> temporal_artifact_id a)
        (ContractValidationError ''invalid_plan''
          ''registry snapshot artifact_ref must be a supported artifact locator'')))))"

record plan_metadata =
  me_title :: py_str
  me_created_at :: py_str
  me_registry_snapshot :: plan_registry_snapshot

record approval_policy =
  ap_enabled :: bool
  ap_max_review_attempts :: int
  ap_max_consecutive_no_progress_attempts :: "int option"
  ap_reviewer_model :: py_str
  ap_review_timeout_seconds :: int
  ap_skip_tool_types :: "py_str list"

definition approval_post_init :: "approval_policy \<Rightarrow> unit checked" where
  "approval_post_init a =
     bind_result (guard (0 \<le> ap_max_review_attempts a) (ContractValidationError ''invalid_policy''
       ''approval_policy.max_review_attempts must be >= 0'')) (\<lambda>_.
     bind_result (guard (case ap_max_consecutive_no_progress_attempts a of None \<Rightarrow> True | Some n \<Rightarrow> 1 \<le> n)
       (ContractValidationError ''invalid_policy''
         ''approval_policy.max_consecutive_no_progress_attempts must be >= 1'')) (\<lambda>_.
     guard (0 < ap_review_timeout_seconds a) (ContractValidationError ''invalid_policy''
       ''approval_policy.review_timeout_seconds must be > 0'')))"

record plan_policy =
  py_failure_mode :: py_str
  py_max_concurrency :: int
  py_approval_policy :: "approval_policy option"

definition policy_post_init :: "plan_policy \<Rightarrow> unit checked" where
  "policy_post_init p =
     bind_result (guard (py_failure_mode p \<in> set SUPPORTED_FAILURE_MODES)
       (ContractValidationError ''invalid_plan''
         (''policy.failure_mode must be one of '' @ py_repr (str_list SUPPORTED_FAILURE_MODES)))) (\<lambda>_.
     ensure_positive_int (py_max_concurrency p) ''policy.max_concurrency'')"

record plan_edge =
  ed_from_node :: py_str
  ed_to_node :: py_str

definition edge_post_init :: "plan_edge \<Rightarrow> unit checked" where
  "edge_post_init e =
     bind_result (ensure_non_empty (ed_from_node e) ''edge.from'') (\<lambda>_.
     ensure_non_empty (ed_to_node e) ''edge.to'')"

record plan_definition =
  pd_plan_version :: py_str
  pd_metadata :: plan_metadata
  pd_policy :: plan_policy
  pd_nodes :: "plan_step list"
  pd_edges :: "plan_edge list"

definition plan_post_init :: "plan_definition \<Rightarrow> unit checked" where
  "plan_post_init p =
     bind_result (guard (pd_plan_version p \<in> set SUPPORTED_PLAN_VERSIONS)
       (ContractValidationError ''invalid_plan''
         (''Unsupported plan_version '' @ quoted (pd_plan_version p)))) (\<lambda>_.
     guard (pd_nodes p \<noteq> []) (ContractValidationError ''invalid_plan''
       ''plan must define at least one node''))"

section \<open>Results of tools\<close>

datatype tool_failure =
  ToolFailure (tf_error_code: py_str) (tf_message: py_str) (tf_retryable: bool) (tf_details: pydict)
    (tf_cause: "tool_failure option")

fun failure_payload :: "tool_failure \<Rightarrow> pyval" where
  "failure_payload (ToolFailure code message retryable details cause) =
     PDict ([(''error_code'', PStr code), (''message'', PStr message),
       (''retryable'', PBool retryable), (''details'', PDict details)]
       @ (case cause of None \<Rightarrow> [] | Some c \<Rightarrow> [(''cause'', failure_payload c)]))"

record tool_result =
  tr_status :: py_str
  tr_outputs :: pydict
  tr_output_artifacts :: "artifact_ref list"
  tr_progress :: pydict

definition result_post_init :: "tool_result \<Rightarrow> unit checked" where
  "result_post_init r =
     guard (tr_status r \<in> set TOOL_RESULT_STATUSES) (ContractValidationError ''invalid_result''
       (''status must be one of '' @ py_repr (str_list TOOL_RESULT_STATUSES)))"

definition result_payload :: "tool_result \<Rightarrow> pydict" where
  "result_payload r =
     [(''status'', PStr (tr_status r)), (''outputs'', PDict (tr_outputs r)),
      (''progress'', PDict (tr_progress r))]
     @ (if tr_output_artifacts r = [] then []
        else [(''output_artifacts'', PList (map artifact_payload (tr_output_artifacts r)))])"

end
