(* ===== verification/Plan_Graph.thy ===== *)
theory Plan_Graph
  imports Plan_Values "HOL-Library.Multiset"
begin

text \<open>
  The graph algorithms of \<^verbatim>\<open>moonmind/workflows/skills/plan_validation.py\<close>: Kahn's sort, whose order
  breaks ties by the node name, and the breadth-first search for a dependency path. The edges of
  a plan are a list of pairs, in which a pair may occur twice.
\<close>

section \<open>Definitions\<close>

type_synonym edge_list = "(py_str \<times> py_str) list"
type_synonym degrees = "(py_str \<times> int) list"
type_synonym successors = "(py_str \<times> py_str list) list"

fun count_in_degrees :: "degrees \<Rightarrow> edge_list \<Rightarrow> degrees checked" where
  "count_in_degrees deg [] = Inr deg"
| "count_in_degrees deg ((a, b) # edges) =
     (case map_of deg b of
        None \<Rightarrow> Inl PyKeyError
      | Some d \<Rightarrow> count_in_degrees (dict_set b (d + 1) deg) edges)"

definition outgoing_get :: "successors \<Rightarrow> py_str \<Rightarrow> py_str list" where
  "outgoing_get out n = option_or (map_of out n) []"

fun group_edges :: "successors \<Rightarrow> edge_list \<Rightarrow> successors" where
  "group_edges out [] = out"
| "group_edges out ((a, b) # edges) = group_edges (dict_set a (outgoing_get out a @ [b]) out) edges"

text \<open>The inner loop of the sort: the new degrees and the nodes that became ready.\<close>

fun relax :: "py_str list \<Rightarrow> degrees \<Rightarrow> (degrees \<times> py_str list) checked" where
  "relax [] deg = Inr (deg, [])"
| "relax (s # ss) deg =
     (case map_of deg s of
        None \<Rightarrow> Inl PyKeyError
      | Some d \<Rightarrow>
          bind_result (relax ss (dict_set s (d - 1) deg)) (\<lambda>(deg', ready).
            Inr (deg', if d - 1 = 0 then s # ready else ready)))"

definition positive :: "degrees \<Rightarrow> nat" where
  "positive deg = length (filter (\<lambda>(_, d). 0 < d) deg)"

lemma positive_dict_set:
  "map_of deg s = Some d \<Longrightarrow>
   positive (dict_set s d' deg) + of_bool (0 < d) = positive deg + of_bool (0 < d')"
  by (induction deg) (auto simp: positive_def split: if_splits)

lemma relax_positive:
  "relax ss deg = Inr (deg', ready) \<Longrightarrow> positive deg' + length ready \<le> positive deg"
proof (induction ss arbitrary: deg deg' ready)
  case (Cons s ss)
  then obtain d ready1 where d: "map_of deg s = Some d"
    and r: "relax ss (dict_set s (d - 1) deg) = Inr (deg', ready1)"
    "ready = (if d - 1 = 0 then s # ready1 else ready1)"
    by (auto simp: bind_result_Inr_iff split: option.splits)
  show ?case using Cons.IH [OF r(1)] positive_dict_set [OF d, of "d - 1"] r(2)
    by (cases "0 < d"; cases "1 < d") (simp_all split: if_splits)
qed simp

function kahn :: "successors \<Rightarrow> degrees \<Rightarrow> py_str list \<Rightarrow> py_str list \<Rightarrow> py_str list checked" where
  "kahn out deg [] order = Inr order"
| "kahn out deg (current # ready) order =
     bind_result (relax (sort (outgoing_get out current)) deg) (\<lambda>(deg', new).
       kahn out deg' (ready @ new) (order @ [current]))"
  by pat_completeness auto
termination
  by (relation "measure (\<lambda>(out, deg, ready, order). positive deg + length ready)")
    (auto dest: relax_positive)

definition topological_sort :: "py_str list \<Rightarrow> edge_list \<Rightarrow> py_str list checked" where
  "topological_sort node_ids edges =
     bind_result (count_in_degrees (map (\<lambda>n. (n, 0)) node_ids) edges) (\<lambda>in_degree.
     bind_result (kahn (group_edges [] edges) in_degree
         (sort (map fst (filter (\<lambda>(_, d). d = 0) in_degree))) []) (\<lambda>order.
     if length order \<noteq> length node_ids
     then Inl (PlanValidationError ''invalid_plan'' ''Plan graph must be acyclic'')
     else Inr order))"

function search :: "successors \<Rightarrow> py_str \<Rightarrow> py_str list \<Rightarrow> py_str set \<Rightarrow> bool" where
  "search out target [] seen = False"
| "search out target (node # queue) seen =
     (if node \<in> seen then search out target queue seen
      else if target \<in> set (outgoing_get out node) then True
      else search out target (queue @ outgoing_get out node) (insert node seen))"
  by pat_completeness auto
termination
proof (relation "measures [\<lambda>(out, t, queue, seen). card (fst ` set out - seen), \<lambda>(out, t, queue, seen). length queue]")
  fix out t and node :: py_str and queue seen
  assume new: "node \<notin> seen"
  show "((out, t, queue @ outgoing_get out node, insert node seen), out, t, node # queue, seen)
      \<in> measures [\<lambda>(out, t, queue, seen). card (fst ` set out - seen), \<lambda>(out, t, queue, seen). length queue]"
  proof (cases "node \<in> fst ` set out")
    case True
    then have "card (fst ` set out - insert node seen) < card (fst ` set out - seen)"
      using new by (intro psubset_card_mono) auto
    then show ?thesis by simp
  next
    case False
    then have "outgoing_get out node = []" "fst ` set out - insert node seen = fst ` set out - seen"
      by (auto simp: outgoing_get_def map_of_eq_None_iff [symmetric])
    then show ?thesis by simp
  qed
qed auto

definition is_reachable :: "py_str \<Rightarrow> py_str \<Rightarrow> successors \<Rightarrow> bool" where
  "is_reachable start target out = (if start = target then True else search out target [start] {})"

definition sorted_successors :: "successors \<Rightarrow> successors" where
  "sorted_successors out = map (\<lambda>(n, ss). (n, sort ss)) out"

section \<open>Degrees and successors\<close>

definition successors_of :: "edge_list \<Rightarrow> py_str \<Rightarrow> py_str list" where
  "successors_of edges n = map snd (filter (\<lambda>(a, _). a = n) edges)"

lemma outgoing_get_group:
  "outgoing_get (group_edges out edges) n = outgoing_get out n @ successors_of edges n"
  by (induction edges arbitrary: out rule: list.induct)
    (auto simp: successors_of_def outgoing_get_def)

lemma outgoing_get_sorted:
  "outgoing_get (sorted_successors out) n = sort (outgoing_get out n)"
  by (induction out) (auto simp: outgoing_get_def sorted_successors_def)

lemma set_successors_of: "set (successors_of edges n) = {m. (n, m) \<in> set edges}"
  by (force simp: successors_of_def)

definition waiting :: "edge_list \<Rightarrow> py_str set \<Rightarrow> py_str \<Rightarrow> int" where
  "waiting edges done n = int (length (filter (\<lambda>(a, b). b = n \<and> a \<notin> done) edges))"

lemma waiting_zero: "waiting edges done n = 0 \<longleftrightarrow> (\<forall>a. (a, n) \<in> set edges \<longrightarrow> a \<in> done)"
  by (auto simp: waiting_def filter_empty_conv)

lemma waiting_insert:
  "c \<notin> done \<Longrightarrow> waiting edges (insert c done) n = waiting edges done n - int (count_list (successors_of edges c) n)"
  by (induction edges) (auto simp: waiting_def successors_of_def)

lemma count_in_degrees_ok:
  assumes "\<forall>(a, b) \<in> set edges. b \<in> fst ` set deg"
  shows "\<exists>deg'. count_in_degrees deg edges = Inr deg' \<and> map fst deg' = map fst deg
    \<and> (\<forall>n d. map_of deg n = Some d \<longrightarrow> map_of deg' n = Some (d + waiting edges {} n))"
  using assms
proof (induction deg edges rule: count_in_degrees.induct)
  case (2 deg a b edges)
  have "b \<in> fst ` set deg" using 2(2) by simp
  then obtain d where d: "map_of deg b = Some d" using map_of_eq_None_iff [of deg b] by (cases "map_of deg b") blast+
  have keys: "map fst (dict_set b (d + 1) deg) = map fst deg" using d by (induction deg) auto
  then have "fst ` set (dict_set b (d + 1) deg) = fst ` set deg" by (metis list.set_map)
  then have "\<forall>(x, y) \<in> set edges. y \<in> fst ` set (dict_set b (d + 1) deg)" using 2(2) by simp
  from 2(1) [OF d this] keys obtain deg' where deg': "count_in_degrees (dict_set b (d + 1) deg) edges = Inr deg'"
    "map fst deg' = map fst deg"
    "\<And>n e. ((map_of deg)(b \<mapsto> d + 1)) n = Some e \<Longrightarrow> map_of deg' n = Some (e + waiting edges {} n)"
    unfolding dict_set_lookup by auto
  have "map_of deg' n = Some (e + waiting ((a, b) # edges) {} n)" if "map_of deg n = Some e" for n e
    using deg'(3) [of n] that d by (cases "n = b") (auto simp: waiting_def)
  then show ?case using d deg'(1,2) by auto
qed (simp add: waiting_def)

lemma dict_set_same_keys: "map_of d k = Some v \<Longrightarrow> map fst (dict_set k w d) = map fst d"
  by (induction d) auto

lemma relax_ok:
  assumes "\<forall>s \<in> set ss. \<exists>d. map_of deg s = Some d \<and> int (count_list ss s) \<le> d"
  shows "\<exists>deg' new. relax ss deg = Inr (deg', new) \<and> map fst deg' = map fst deg
    \<and> (\<forall>n d. map_of deg n = Some d \<longrightarrow> map_of deg' n = Some (d - int (count_list ss n)))
    \<and> distinct new \<and> set new = {n \<in> set ss. map_of deg n = Some (int (count_list ss n))}"
  using assms
proof (induction ss arbitrary: deg)
  case (Cons s ss)
  then obtain d where d: "map_of deg s = Some d" "int (count_list ss s) + 1 \<le> d" by auto
  let ?deg = "dict_set s (d - 1) deg"
  have "\<forall>x \<in> set ss. \<exists>e. map_of ?deg x = Some e \<and> int (count_list ss x) \<le> e"
    using Cons.prems d by (auto split: if_splits)
  from Cons.IH [OF this] obtain deg' new where r: "relax ss ?deg = Inr (deg', new)"
    "map fst deg' = map fst ?deg"
    "\<And>n e. map_of ?deg n = Some e \<Longrightarrow> map_of deg' n = Some (e - int (count_list ss n))"
    "distinct new" "set new = {n \<in> set ss. map_of ?deg n = Some (int (count_list ss n))}"
    by blast
  have vals: "map_of deg' n = Some (e - int (count_list (s # ss) n))" if "map_of deg n = Some e" for n e
    using r(3) [of n] that d(1) by (cases "n = s") auto
  have fresh: "s \<notin> set new" if "d = 1"
    using that d(2) r(5) by (auto simp: count_list_0_iff)
  have new: "set (if d - 1 = 0 then s # new else new)
      = {n \<in> set (s # ss). map_of deg n = Some (int (count_list (s # ss) n))}"
  proof -
    have "n \<in> set new \<longleftrightarrow> n \<in> set ss \<and> map_of deg n = Some (int (count_list ss n))" if "n \<noteq> s" for n
      using that r(5) by simp
    moreover have "s \<in> set new \<longleftrightarrow> s \<in> set ss \<and> d = int (count_list ss s) + 1" using r(5) by auto
    moreover have "s \<in> set ss" if "d = int (count_list ss s) + 1" "d \<noteq> 1"
      using that count_list_0_iff [of ss s] by auto
    ultimately show ?thesis using d by (auto split: if_splits)
  qed
  show ?case
    using d(1) r(1,2,4) vals new fresh dict_set_same_keys [OF d(1)] by simp
qed simp

section \<open>The sort\<close>

text \<open>
  A state of the sort: the degree of a node counts its edges from nodes not yet ordered, and the
  nodes ordered or ready are those whose predecessors are all ordered.
\<close>

definition sort_state :: "py_str list \<Rightarrow> edge_list \<Rightarrow> degrees \<Rightarrow> py_str list \<Rightarrow> py_str list \<Rightarrow> bool" where
  "sort_state ids edges deg ready order \<longleftrightarrow>
     map fst deg = ids \<and> distinct (order @ ready)
     \<and> (\<forall>n \<in> set ids. map_of deg n = Some (waiting edges (set order) n))
     \<and> set (order @ ready) = {n \<in> set ids. waiting edges (set order) n = 0}
     \<and> (\<forall>xs n ys a. order = xs @ n # ys \<longrightarrow> (a, n) \<in> set edges \<longrightarrow> a \<in> set xs)"

lemma sort_state_step:
  assumes st: "sort_state ids edges deg (c # ready) order" and inside: "\<forall>(a, b) \<in> set edges. b \<in> set ids"
  shows "\<exists>deg' new. relax (sort (successors_of edges c)) deg = Inr (deg', new)
    \<and> sort_state ids edges deg' (ready @ new) (order @ [c])"
proof -
  let ?ss = "sort (successors_of edges c)"
  have cnt: "count_list ?ss n = count_list (successors_of edges c) n" for n
    by (metis count_mset mset_sort)
  have c: "c \<notin> set order" "c \<in> set ids" "waiting edges (set order) c = 0"
    and deg: "\<And>n. n \<in> set ids \<Longrightarrow> map_of deg n = Some (waiting edges (set order) n)"
    and keys: "map fst deg = ids" and dist: "distinct (order @ c # ready)"
    and ordered: "set (order @ c # ready) = {n \<in> set ids. waiting edges (set order) n = 0}"
    and preds: "\<And>xs n ys a. order = xs @ n # ys \<Longrightarrow> (a, n) \<in> set edges \<Longrightarrow> a \<in> set xs"
    using st unfolding sort_state_def by auto
  have after: "waiting edges (set (order @ [c])) n
      = waiting edges (set order) n - int (count_list (successors_of edges c) n)" for n
    using waiting_insert [OF c(1)] by simp
  have nonneg: "0 \<le> waiting edges D n" for D n by (simp add: waiting_def)
  have succ: "n \<in> set ids" if "n \<in> set ?ss" for n using that inside by (auto simp: set_successors_of)
  have "\<forall>s \<in> set ?ss. \<exists>d. map_of deg s = Some d \<and> int (count_list ?ss s) \<le> d"
    using deg succ after nonneg [of "set (order @ [c])"] unfolding cnt
    by (metis diff_ge_0_iff_ge)
  from relax_ok [OF this] obtain deg' new where r: "relax ?ss deg = Inr (deg', new)"
    "map fst deg' = map fst deg"
    "\<And>n d. map_of deg n = Some d \<Longrightarrow> map_of deg' n = Some (d - int (count_list ?ss n))"
    "distinct new" "set new = {n \<in> set ?ss. map_of deg n = Some (int (count_list ?ss n))}" by blast
  have deg': "map_of deg' n = Some (waiting edges (set (order @ [c])) n)" if "n \<in> set ids" for n
    using r(3) [OF deg [OF that]] after cnt by simp
  have new: "n \<in> set new \<longleftrightarrow> n \<in> set ids \<and> 0 < waiting edges (set order) n \<and> waiting edges (set (order @ [c])) n = 0" for n
  proof
    assume n: "n \<in> set new"
    then have s: "n \<in> set (successors_of edges c)" "n \<in> set ids" using r(5) succ by auto
    then have "0 < count_list (successors_of edges c) n" by (metis count_list_0_iff not_gr_zero)
    then show "n \<in> set ids \<and> 0 < waiting edges (set order) n \<and> waiting edges (set (order @ [c])) n = 0"
      using n s deg [OF s(2)] r(5) after cnt by simp
  next
    assume n: "n \<in> set ids \<and> 0 < waiting edges (set order) n \<and> waiting edges (set (order @ [c])) n = 0"
    then have "count_list (successors_of edges c) n \<noteq> 0" using after [of n] by simp
    then have "n \<in> set (successors_of edges c)" by (metis count_list_0_iff)
    then show "n \<in> set new" using n deg r(5) after [of n] cnt by simp
  qed
  have zero_mono: "waiting edges (set (order @ [c])) n = 0" if "waiting edges (set order) n = 0" for n
    using that by (auto simp: waiting_zero)
  have "set new \<inter> set (order @ c # ready) = {}" using new ordered by auto
  then have dist': "distinct ((order @ [c]) @ ready @ new)" using dist r(4) by auto
  have set': "set ((order @ [c]) @ ready @ new) = {n \<in> set ids. waiting edges (set (order @ [c])) n = 0}"
  proof (rule set_eqI)
    fix n
    have "n \<in> set ((order @ [c]) @ ready @ new) \<longleftrightarrow> n \<in> set (order @ c # ready) \<or> n \<in> set new" by auto
    also have "\<dots> \<longleftrightarrow> n \<in> set ids \<and> waiting edges (set order) n = 0 \<or> n \<in> set new"
      unfolding ordered by simp
    finally show "n \<in> set ((order @ [c]) @ ready @ new) \<longleftrightarrow> n \<in> {n \<in> set ids. waiting edges (set (order @ [c])) n = 0}"
      unfolding new [of n] mem_Collect_eq using zero_mono [of n] nonneg [of "set order" n]
      by (metis order_le_less)
  qed
  have preds': "a \<in> set xs" if "order @ [c] = xs @ n # ys" "(a, n) \<in> set edges" for xs n ys a
  proof (cases ys rule: rev_cases)
    case Nil
    then show ?thesis using that c(3) by (auto simp: waiting_zero)
  next
    case (snoc zs z)
    then show ?thesis using that preds by auto
  qed
  have "sort_state ids edges deg' (ready @ new) (order @ [c])"
    unfolding sort_state_def using r(2) keys dist' deg' set' preds' by blast
  then show ?thesis using r(1) by blast
qed

lemma kahn_ok:
  assumes "sort_state ids edges deg ready order" and "\<forall>(a, b) \<in> set edges. b \<in> set ids"
    and "\<And>n. outgoing_get out n = successors_of edges n"
  shows "\<exists>result deg'. kahn out deg ready order = Inr result \<and> sort_state ids edges deg' [] result"
  using assms
proof (induction out deg ready order rule: kahn.induct)
  case (2 out deg c ready order)
  from sort_state_step [OF 2(2,3)] obtain deg' new where
    r: "relax (sort (successors_of edges c)) deg = Inr (deg', new)"
    "sort_state ids edges deg' (ready @ new) (order @ [c])" by blast
  from 2(1) [of "(deg', new)" deg' new, OF _ refl r(2) 2(3,4)] r(1)
  show ?case by (simp add: 2(4))
qed auto

text \<open>In a finite graph in which every node of a set has a predecessor in it, there is a cycle.\<close>

lemma cycle_of_predecessors:
  assumes "finite A" and "A \<noteq> {}" and "\<And>n. n \<in> A \<Longrightarrow> \<exists>a \<in> A. (a, n) \<in> E"
  shows "\<not> acyclic E"
proof
  assume "acyclic E"
  let ?R = "E \<inter> A \<times> A"
  have "acyclic ?R" using \<open>acyclic E\<close> by (rule acyclic_subset) blast
  moreover have "finite ?R" using assms(1) by blast
  ultimately have "wf ?R" using finite_acyclic_wf by blast
  then obtain m where "m \<in> A" "\<And>y. (y, m) \<in> ?R \<Longrightarrow> y \<notin> A" using assms(2) by (metis wfE_min ex_in_conv)
  then show False using assms(3) by blast
qed

lemma ordered_acyclic:
  assumes "distinct order" and "\<And>a b. (a, b) \<in> E \<Longrightarrow> a \<in> set order \<and> b \<in> set order"
    and "\<And>xs n ys a. order = xs @ n # ys \<Longrightarrow> (a, n) \<in> E \<Longrightarrow> a \<in> set xs"
  shows "acyclic E"
proof -
  have pos: "\<exists>i j. i < j \<and> j < length order \<and> order ! i = a \<and> order ! j = b" if "(a, b) \<in> E" for a b
  proof -
    from assms(2) [OF that] obtain xs ys where b: "order = xs @ b # ys" by (meson split_list)
    from assms(3) [OF this that] obtain i where "i < length xs" "xs ! i = a" by (meson in_set_conv_nth)
    then show ?thesis using b by (intro exI [of _ i] exI [of _ "length xs"]) (simp add: nth_append)
  qed
  have "\<exists>i j. i < j \<and> j < length order \<and> order ! i = a \<and> order ! j = b" if "(a, b) \<in> E\<^sup>+" for a b
    using that
  proof (induction rule: trancl_induct)
    case (step y z)
    then obtain i j k l where "i < j" "j < length order" "order ! i = a" "order ! j = y"
      "k < l" "l < length order" "order ! k = y" "order ! l = z" using pos by metis
    moreover have "j = k" using calculation assms(1) by (metis nth_eq_iff_index_eq order.strict_trans)
    ultimately show ?case by (metis order.strict_trans)
  qed (use pos in blast)
  then show ?thesis
    using assms(1) unfolding acyclic_def by (metis nth_eq_iff_index_eq order.strict_trans order.irrefl)
qed

definition topological :: "py_str list \<Rightarrow> edge_list \<Rightarrow> py_str list \<Rightarrow> bool" where
  "topological ids edges order \<longleftrightarrow>
     distinct order \<and> set order = set ids
     \<and> (\<forall>(a, b) \<in> set edges. \<exists>xs ys zs. order = xs @ a # ys @ b # zs)"

lemma topological_sort_ok:
  assumes ids: "distinct ids" and inside: "\<forall>(a, b) \<in> set edges. a \<in> set ids \<and> b \<in> set ids"
  shows "case topological_sort ids edges of
      Inr order \<Rightarrow> topological ids edges order \<and> acyclic (set edges)
    | Inl e \<Rightarrow> e = PlanValidationError ''invalid_plan'' ''Plan graph must be acyclic'' \<and> \<not> acyclic (set edges)"
proof -
  let ?zero = "map (\<lambda>n. (n, 0)) ids"
  have zero: "map_of ?zero n = Some 0" if "n \<in> set ids" for n using that by (simp add: map_of_map_restrict)
  have b_in: "\<forall>(a, b) \<in> set edges. b \<in> set ids" using inside by auto
  then have "\<forall>(a, b) \<in> set edges. b \<in> fst ` set ?zero" by (auto simp: image_image)
  from count_in_degrees_ok [OF this] obtain deg where deg: "count_in_degrees ?zero edges = Inr deg"
    "map fst deg = ids" "\<And>n d. map_of ?zero n = Some d \<Longrightarrow> map_of deg n = Some (d + waiting edges {} n)"
    by (auto simp: comp_def)
  have deg_of: "map_of deg n = Some (waiting edges {} n)" if "n \<in> set ids" for n
    using deg(3) [OF zero [OF that]] by simp
  let ?ready = "sort (map fst (filter (\<lambda>(_, d). d = 0) deg))"
  have dd: "distinct (map fst deg)" using ids deg(2) by simp
  have "set ?ready = {n \<in> set ids. waiting edges {} n = 0}"
  proof (rule set_eqI)
    fix n
    have "n \<in> set ?ready \<longleftrightarrow> map_of deg n = Some 0" using dd by (force simp: map_of_eq_Some_iff)
    moreover have "map_of deg n = None" if "n \<notin> set ids"
      using that deg(2) by (metis list.set_map map_of_eq_None_iff)
    ultimately show "n \<in> set ?ready \<longleftrightarrow> n \<in> {n \<in> set ids. waiting edges {} n = 0}"
      using deg_of by (cases "n \<in> set ids") auto
  qed
  moreover have "distinct ?ready" using dd by (simp add: distinct_map_filter)
  ultimately have "sort_state ids edges deg ?ready []" using deg(2) deg_of by (simp add: sort_state_def)
  moreover have "outgoing_get (group_edges [] edges) n = successors_of edges n" for n
    unfolding outgoing_get_group by (simp add: outgoing_get_def)
  ultimately obtain order deg' where
    k: "kahn (group_edges [] edges) deg ?ready [] = Inr order" "sort_state ids edges deg' [] order"
    using kahn_ok [OF _ b_in] by blast
  have dist: "distinct order" and sub: "set order = {n \<in> set ids. waiting edges (set order) n = 0}"
    and preds: "\<And>xs n ys a. order = xs @ n # ys \<Longrightarrow> (a, n) \<in> set edges \<Longrightarrow> a \<in> set xs"
    using k(2) by (auto simp: sort_state_def)
  have len: "length order = length ids \<longleftrightarrow> set order = set ids"
    using dist ids sub by (metis (no_types, lifting) List.finite_set card_subset_eq distinct_card mem_Collect_eq subsetI)
  show ?thesis
  proof (cases "set order = set ids")
    case True
    have "\<exists>xs ys zs. order = xs @ a # ys @ b # zs" if "(a, b) \<in> set edges" for a b
    proof -
      have "b \<in> set order" using that inside True by auto
      then obtain xs zs where b: "order = xs @ b # zs" by (meson split_list)
      then have "a \<in> set xs" using preds that by blast
      then obtain us vs where "xs = us @ a # vs" by (meson split_list)
      then show ?thesis using b by auto
    qed
    then have "topological ids edges order" using dist True by (auto simp: topological_def)
    moreover have "acyclic (set edges)"
      by (rule ordered_acyclic [OF dist]) (use inside True preds in auto)
    ultimately show ?thesis using True len by (simp add: topological_sort_def deg(1) k(1))
  next
    case False
    let ?rest = "set ids - set order"
    have "\<exists>a \<in> ?rest. (a, n) \<in> set edges" if "n \<in> ?rest" for n
    proof -
      have "waiting edges (set order) n \<noteq> 0" using that sub by auto
      then show ?thesis using inside by (auto simp: waiting_zero)
    qed
    moreover have "?rest \<noteq> {}" using False sub by auto
    ultimately have "\<not> acyclic (set edges)" using cycle_of_predecessors [of ?rest] by blast
    then show ?thesis using False len by (simp add: topological_sort_def deg(1) k(1))
  qed
qed

section \<open>The order does not depend on how the plan lists its nodes and edges\<close>

lemma relax_cong:
  assumes "map_of deg1 = map_of deg2"
  shows "(case relax ss deg1 of
      Inl e \<Rightarrow> relax ss deg2 = Inl e
    | Inr (d1, new) \<Rightarrow> \<exists>d2. relax ss deg2 = Inr (d2, new) \<and> map_of d1 = map_of d2)"
  using assms
proof (induction ss arbitrary: deg1 deg2)
  case (Cons s ss)
  show ?case
  proof (cases "map_of deg2 s")
    case (Some d)
    have "map_of (dict_set s (d - 1) deg1) = map_of (dict_set s (d - 1) deg2)" using Cons.prems by simp
    from Cons.IH [OF this] show ?thesis
      using Some Cons.prems by (cases "relax ss (dict_set s (d - 1) deg1)") auto
  qed (simp add: Cons.prems)
qed simp

lemma kahn_cong:
  assumes "map_of deg1 = map_of deg2" and "\<And>n. sort (outgoing_get out1 n) = sort (outgoing_get out2 n)"
  shows "kahn out1 deg1 ready order = kahn out2 deg2 ready order"
  using assms
proof (induction out1 deg1 ready order arbitrary: deg2 rule: kahn.induct)
  case (2 out deg current ready order)
  let ?ss = "sort (outgoing_get out current)"
  show ?case
  proof (cases "relax ?ss deg")
    case (Inl e)
    then show ?thesis using relax_cong [OF 2(2), of ?ss] 2(3) [of current] by simp
  next
    case (Inr p)
    obtain d1 new where p: "p = (d1, new)" by (cases p)
    with relax_cong [OF 2(2), of ?ss] Inr obtain d2 where "relax ?ss deg2 = Inr (d2, new)" "map_of d1 = map_of d2"
      by auto
    moreover from this have "kahn out d1 (ready @ new) (order @ [current]) = kahn out2 d2 (ready @ new) (order @ [current])"
      using 2(1) [of p d1 new d2] Inr p 2(3) by blast
    ultimately show ?thesis using Inr p 2(3) [of current] by simp
  qed
qed simp

lemma waiting_mset: "mset edges1 = mset edges2 \<Longrightarrow> waiting edges1 D n = waiting edges2 D n"
  by (simp add: waiting_def) (metis mset_filter size_mset)

lemma successors_mset:
  "mset edges1 = mset edges2 \<Longrightarrow> sort (successors_of edges1 n) = sort (successors_of edges2 n)"
proof (rule properties_for_sort)
  assume "mset edges1 = mset edges2"
  then have "mset (successors_of edges1 n) = mset (successors_of edges2 n)"
    by (simp add: successors_of_def mset_filter)
  then show "mset (sort (successors_of edges2 n)) = mset (successors_of edges1 n)" by simp
qed simp

lemma topological_sort_stable:
  assumes ids: "distinct ids1" "mset ids1 = mset ids2" and edges: "mset edges1 = mset edges2"
    and inside: "\<forall>(a, b) \<in> set edges1. a \<in> set ids1 \<and> b \<in> set ids1"
  shows "topological_sort ids1 edges1 = topological_sort ids2 edges2"
proof -
  have same: "set ids1 = set ids2" "set edges1 = set edges2" "distinct ids2" "length ids1 = length ids2"
    using ids edges by (metis mset_eq_setD, metis mset_eq_setD edges, metis mset_eq_imp_distinct_iff,
      metis mset_eq_length)
  have count: "\<exists>deg. count_in_degrees (map (\<lambda>n. (n, 0)) ids) edges = Inr deg \<and> map fst deg = ids
      \<and> (\<forall>n. map_of deg n = (if n \<in> set ids then Some (waiting edges {} n) else None))"
    if in_ids: "\<forall>(a, b) \<in> set edges. a \<in> set ids \<and> b \<in> set ids" for ids edges
  proof -
    let ?zero = "map (\<lambda>n. (n, 0)) ids"
    have "\<forall>(a, b) \<in> set edges. b \<in> fst ` set ?zero" using in_ids by (force simp: image_image)
    from count_in_degrees_ok [OF this] obtain deg where deg: "count_in_degrees ?zero edges = Inr deg"
      "map fst deg = ids" "\<And>n d. map_of ?zero n = Some d \<Longrightarrow> map_of deg n = Some (d + waiting edges {} n)"
      by (auto simp: comp_def)
    have "map_of deg n = (if n \<in> set ids then Some (waiting edges {} n) else None)" for n
      using deg(2,3) by (auto simp: map_of_map_restrict map_of_eq_None_iff [symmetric])
    then show ?thesis using deg by blast
  qed
  obtain deg1 where d1: "count_in_degrees (map (\<lambda>n. (n, 0)) ids1) edges1 = Inr deg1" "map fst deg1 = ids1"
    "\<And>n. map_of deg1 n = (if n \<in> set ids1 then Some (waiting edges1 {} n) else None)"
    using count [OF inside] by blast
  have "\<forall>(a, b) \<in> set edges2. a \<in> set ids2 \<and> b \<in> set ids2" using inside same by simp
  from count [OF this] obtain deg2 where d2: "count_in_degrees (map (\<lambda>n. (n, 0)) ids2) edges2 = Inr deg2"
    "map fst deg2 = ids2" "\<And>n. map_of deg2 n = (if n \<in> set ids2 then Some (waiting edges2 {} n) else None)"
    by blast
  have maps: "map_of deg1 = map_of deg2"
    using d1(3) d2(3) same(1) waiting_mset [OF edges] by (intro ext) simp
  have dist: "distinct (map fst deg1)" "distinct (map fst deg2)" using d1(2) d2(2) ids(1) same(3) by simp_all
  let ?ready = "\<lambda>deg. map fst (filter (\<lambda>(_, d). d = 0) deg)"
  have "mset (map fst (filter P deg1)) = mset (map fst (filter P deg2))" for P :: "py_str \<times> int \<Rightarrow> bool"
  proof -
    have "set deg1 = set deg2" 
      using dist maps by (metis map_of_eq_Some_iff subrelI subset_antisym)
    moreover have "distinct deg1" "distinct deg2" using dist by (simp_all add: distinct_map)
    ultimately have "mset deg1 = mset deg2" by (simp add: set_eq_iff_mset_eq_distinct)
    then show ?thesis by (metis mset_filter mset_map)
  qed
  then have "sort (?ready deg1) = sort (?ready deg2)"
    by (metis properties_for_sort mset_sort sorted_sort)
  moreover have "sort (outgoing_get (group_edges [] edges1) n) = sort (outgoing_get (group_edges [] edges2) n)" for n
    unfolding outgoing_get_group using successors_mset [OF edges] by (simp add: outgoing_get_def)
  ultimately show ?thesis
    using kahn_cong [OF maps] same(4) by (simp add: topological_sort_def d1(1) d2(1))
qed

section \<open>The search\<close>

lemma search_escapes:
  assumes "(x, t) \<in> E\<^sup>+" and "x \<in> seen"
    and "\<And>s s'. s \<in> seen \<Longrightarrow> (s, s') \<in> E \<Longrightarrow> s' \<noteq> t \<and> (s' \<in> seen \<or> s' \<in> Q)"
  shows "\<exists>q \<in> Q - seen. (q, t) \<in> E\<^sup>+"
  using assms(1,2)
proof (induction rule: converse_trancl_induct)
  case (step y z)
  then show ?case using assms(3) by blast
qed (use assms(3) in blast)

lemma search_iff:
  assumes "\<And>s s'. s \<in> seen \<Longrightarrow> s' \<in> set (outgoing_get out s) \<Longrightarrow> s' \<noteq> t \<and> (s' \<in> seen \<or> s' \<in> set queue)"
    and "\<And>a b. (a, b) \<in> E \<longleftrightarrow> b \<in> set (outgoing_get out a)"
  shows "search out t queue seen \<longleftrightarrow> (\<exists>q \<in> set queue. (q, t) \<in> E\<^sup>+)"
  using assms
proof (induction out t queue seen rule: search.induct)
  case (2 out t node queue seen)
  show ?case
  proof (cases "node \<in> seen")
    case True
    have closed: "s' \<noteq> t \<and> (s' \<in> seen \<or> s' \<in> set queue)" if "s \<in> seen" "s' \<in> set (outgoing_get out s)" for s s'
      using 2(3) [OF that] True by auto
    have "search out t queue seen \<longleftrightarrow> (\<exists>q \<in> set queue. (q, t) \<in> E\<^sup>+)"
      using 2(1) [OF True closed 2(4)] .
    moreover have "\<exists>q \<in> set queue. (q, t) \<in> E\<^sup>+" if "(node, t) \<in> E\<^sup>+"
      using search_escapes [OF that True, of "set queue"] closed 2(4) by blast
    ultimately show ?thesis using True by auto
  next
    case new: False
    show ?thesis
    proof (cases "t \<in> set (outgoing_get out node)")
      case True
      then show ?thesis using new 2(4) by auto
    next
      case False
      have "search out t (queue @ outgoing_get out node) (insert node seen)
          \<longleftrightarrow> (\<exists>q \<in> set (queue @ outgoing_get out node). (q, t) \<in> E\<^sup>+)"
        by (rule 2(2) [OF new False _ 2(4)]) (use 2(3) False in force)
      moreover have "(node, t) \<in> E\<^sup>+ \<longleftrightarrow> (\<exists>q \<in> set (outgoing_get out node). (q, t) \<in> E\<^sup>+)"
      proof
        assume "(node, t) \<in> E\<^sup>+"
        then obtain s where "(node, s) \<in> E" "(s, t) \<in> E\<^sup>*" by (blast dest: tranclD)
        then show "\<exists>q \<in> set (outgoing_get out node). (q, t) \<in> E\<^sup>+" using False 2(4) by (metis rtranclD)
      qed (use 2(4) in \<open>auto intro: trancl_into_trancl2\<close>)
      ultimately show ?thesis using new False by auto
    qed
  qed
qed simp

lemma is_reachable_iff:
  "is_reachable a b (sorted_successors (group_edges [] edges)) \<longleftrightarrow> (a, b) \<in> (set edges)\<^sup>*"
proof -
  let ?out = "sorted_successors (group_edges [] edges)"
  have "(x, y) \<in> set edges \<longleftrightarrow> y \<in> set (outgoing_get ?out x)" for x y
    unfolding outgoing_get_sorted outgoing_get_group by (simp add: set_successors_of outgoing_get_def)
  then have "search ?out b [a] {} \<longleftrightarrow> (a, b) \<in> (set edges)\<^sup>+" using search_iff [of "{}" ?out b "[a]"] by simp
  then show ?thesis by (auto simp: is_reachable_def rtrancl_eq_or_trancl)
qed

section \<open>Correctness\<close>

text \<open>
  C21. The sort returns an order exactly for the graphs without a cycle and refuses every other; the
  order lists each node once with the source of every edge before its target, and it does not
  depend on the order in which the plan lists its nodes and edges.
\<close>

theorem topological_sort_correct:
  assumes "distinct ids" and "\<forall>(a, b) \<in> set edges. a \<in> set ids \<and> b \<in> set ids"
  shows "(case topological_sort ids edges of
       Inr order \<Rightarrow> topological ids edges order \<and> acyclic (set edges)
     | Inl e \<Rightarrow> e = PlanValidationError ''invalid_plan'' ''Plan graph must be acyclic'' \<and> \<not> acyclic (set edges))
   \<and> (mset ids' = mset ids \<longrightarrow> mset edges' = mset edges \<longrightarrow>
        topological_sort ids' edges' = topological_sort ids edges)"
  using topological_sort_ok [OF assms] topological_sort_stable [OF assms(1) _ _ assms(2), of ids' edges'] by auto

lemma topological_sort_correct_witness:
  "topological_sort [''c'', ''b'', ''a''] [(''a'', ''c''), (''a'', ''c'')] = Inr [''a'', ''b'', ''c'']
   \<and> topological_sort [''a'', ''b'', ''c''] [(''a'', ''c''), (''a'', ''c'')] = Inr [''a'', ''b'', ''c'']
   \<and> topological [''a'', ''b'', ''c''] [(''a'', ''c''), (''a'', ''c'')] [''a'', ''b'', ''c'']
   \<and> \<not> acyclic (set [(''a'', ''b''), (''b'', ''a'')])"
proof -
  have run: "topological_sort [''a'', ''b'', ''c''] [(''a'', ''c''), (''a'', ''c'')] = Inr [''a'', ''b'', ''c'']"
    "topological_sort [''a'', ''b''] [(''a'', ''b''), (''b'', ''a'')]
       = Inl (PlanValidationError ''invalid_plan'' ''Plan graph must be acyclic'')"
    by code_simp+
  have "topological [''a'', ''b'', ''c''] [(''a'', ''c''), (''a'', ''c'')] [''a'', ''b'', ''c'']"
    using topological_sort_correct [of "[''a'', ''b'', ''c'']" "[(''a'', ''c''), (''a'', ''c'')]"] run(1) by simp
  moreover have "topological_sort [''c'', ''b'', ''a''] [(''a'', ''c''), (''a'', ''c'')] = Inr [''a'', ''b'', ''c'']"
    using topological_sort_correct [of "[''a'', ''b'', ''c'']" "[(''a'', ''c''), (''a'', ''c'')]"
        "[''c'', ''b'', ''a'']" "[(''a'', ''c''), (''a'', ''c'')]"] run(1) by (simp add: add_mset_commute)
  moreover have "\<not> acyclic (set [(''a'', ''b''), (''b'', ''a'')])"
    using topological_sort_correct [of "[''a'', ''b'']" "[(''a'', ''b''), (''b'', ''a'')]"] run(2) by simp
  ultimately show ?thesis using run(1) by simp
qed

end
