(* ===== verification/Plan_Validation.thy ===== *)
theory Plan_Validation
  imports Plan_Contracts Plan_Graph
begin

text \<open>
  Validation of a plan against the pinned registry, \<^verbatim>\<open>moonmind/workflows/skills/plan_validation.py\<close>:
  schemas, inputs, the dependency graph and the references between nodes. The declarative
  counterpart of each check is a relation that mentions no path and no error, and the validator
  accepts exactly the plans that satisfy it.
\<close>

section \<open>Definitions\<close>

record validated_plan =
  vp_plan :: plan_definition
  vp_topological_order :: "py_str list"

text \<open>\<open>isinstance(d.get(k), Mapping)\<close> and the mapping.\<close>

definition dict_at :: "py_str \<Rightarrow> pydict \<Rightarrow> pydict option" where
  "dict_at k d = (case map_of d k of Some (PDict m) \<Rightarrow> Some m | _ \<Rightarrow> None)"

definition is_ref_object :: "pyval \<Rightarrow> bool" where
  "is_ref_object v =
     (case v of
        PDict d \<Rightarrow> fst ` set d = {''ref''} \<and> dict_at ''ref'' d \<noteq> None
      | _ \<Rightarrow> False)"

definition unescape_token :: "py_str \<Rightarrow> py_str" where
  "unescape_token t = py_replace ''~0'' ''~'' (py_replace ''~1'' ''/'' t)"

definition json_pointer_tokens :: "py_str \<Rightarrow> py_str list checked" where
  "json_pointer_tokens pointer =
     (if pointer = [] then Inr []
      else if \<not> py_starts_with ''/'' pointer
      then Inl (PlanValidationError ''invalid_reference'' (''json_pointer must start with '' @ quoted ''/'' @ '': '' @ pointer))
      else Inr (map unescape_token (tl (py_split (CHR ''/'') pointer))))"

definition schema_type :: "pydict \<Rightarrow> pyval" where
  "schema_type schema = option_or (map_of schema ''type'') PNone"

fun pointer_reaches :: "pydict option \<Rightarrow> py_str list \<Rightarrow> bool" where
  "pointer_reaches current [] = (current \<noteq> None)"
| "pointer_reaches None (token # tokens) = False"
| "pointer_reaches (Some schema) (token # tokens) =
     (if schema_type schema = PStr ''object''
         \<or> schema_type schema = PNone \<and> dict_at ''properties'' schema \<noteq> None
      then (case dict_at ''properties'' schema of
              Some properties \<Rightarrow>
                if token \<in> fst ` set properties
                then pointer_reaches (dict_at token properties) tokens
                else (case dict_at ''additionalProperties'' schema of
                        Some additional \<Rightarrow> pointer_reaches (Some additional) tokens
                      | None \<Rightarrow> False)
            | None \<Rightarrow>
                (case dict_at ''additionalProperties'' schema of
                   Some additional \<Rightarrow> pointer_reaches (Some additional) tokens
                 | None \<Rightarrow> False))
      else if schema_type schema = PStr ''array''
      then (case dict_at ''items'' schema of
              Some items \<Rightarrow> if py_isdigit token then pointer_reaches (Some items) tokens else False
            | None \<Rightarrow> False)
      else False)"

definition schema_pointer_exists :: "pydict \<Rightarrow> py_str \<Rightarrow> bool" where
  "schema_pointer_exists schema pointer =
     (case json_pointer_tokens pointer of
        Inl _ \<Rightarrow> False
      | Inr tokens \<Rightarrow> pointer_reaches (Some schema) tokens)"

definition SCHEMA_TYPES :: "py_str list" where
  "SCHEMA_TYPES = [''object'', ''string'', ''integer'', ''number'', ''boolean'', ''array'']"

definition invalid_schema :: "py_str \<Rightarrow> plan_error" where
  "invalid_schema message = PlanValidationError ''invalid_schema'' message"

definition invalid_input :: "py_str \<Rightarrow> plan_error" where
  "invalid_input message = PlanValidationError ''invalid_input'' message"

text \<open>The declared schema type: \<open>type not in allowed\<close> raises \<open>TypeError\<close> on a list or an object.\<close>

definition check_schema_type :: "pyval \<Rightarrow> py_str \<Rightarrow> unit checked" where
  "check_schema_type t path =
     (if \<not> py_hashable t then Inl PyTypeError
      else guard (\<exists>s \<in> set SCHEMA_TYPES. t = PStr s)
        (invalid_schema (''Unsupported schema type at '' @ path @ '': '' @ py_text t)))"

definition check_required_shape :: "pydict \<Rightarrow> py_str \<Rightarrow> unit checked" where
  "check_required_shape schema path =
     guard (case map_of schema ''required'' of
              None \<Rightarrow> True | Some PNone \<Rightarrow> True | Some (PList _) \<Rightarrow> True | _ \<Rightarrow> False)
       (invalid_schema (''required must be an array at '' @ path))"

abbreviation dict_size :: "pydict \<Rightarrow> nat" where
  "dict_size \<equiv> size_list (size_prod (\<lambda>_. 0) size)"

lemma dict_get_size: "map_of schema k = Some (PDict m) \<Longrightarrow> dict_size m < dict_size schema"
  using dict_value_size [of schema k "PDict m"] by simp

lemma dict_child_size:
  "map_of schema k = Some (PDict m) \<Longrightarrow> (key, PDict c) \<in> set m \<Longrightarrow> dict_size c < dict_size schema"
  using dict_get_size [of schema k m] dict_mem_size [of key "PDict c" m] by simp

lemma dict_at_Some [simp]: "dict_at k d = Some m \<longleftrightarrow> map_of d k = Some (PDict m)"
  by (auto simp: dict_at_def split: option.splits pyval.splits)

function validate_schema_shape :: "pydict \<Rightarrow> py_str \<Rightarrow> unit checked" where
  "validate_schema_shape schema path =
     (if schema_type schema = PNone then Inr ()
      else bind_result (check_schema_type (schema_type schema) path) (\<lambda>_.
       if schema_type schema = PStr ''object''
       then (case map_of schema ''properties'' of
               None \<Rightarrow> check_required_shape schema path
             | Some (PDict properties) \<Rightarrow>
                 bind_result (check_required_shape schema path) (\<lambda>_.
                 check_each (\<lambda>(key, child). case child of
                     PDict c \<Rightarrow> validate_schema_shape c (path @ ''/properties/'' @ key)
                   | _ \<Rightarrow> Inr ()) properties)
             | Some _ \<Rightarrow> Inl (invalid_schema (''properties must be an object at '' @ path)))
       else if schema_type schema = PStr ''array''
       then (case map_of schema ''items'' of
               None \<Rightarrow> Inr ()
             | Some PNone \<Rightarrow> Inr ()
             | Some (PDict items) \<Rightarrow> validate_schema_shape items (path @ ''/items'')
             | Some _ \<Rightarrow> Inl (invalid_schema (''items must be an object at '' @ path)))
       else Inr ()))"
  by pat_completeness auto
termination
  by (relation "measure (\<lambda>(schema, path). dict_size schema)") (auto intro: dict_get_size dict_child_size)

declare validate_schema_shape.simps [simp del]

text \<open>The checks on one value that need no recursion.\<close>

definition check_enum :: "pydict \<Rightarrow> pyval \<Rightarrow> py_str \<Rightarrow> unit checked" where
  "check_enum schema v path =
     (case map_of schema ''enum'' of
        None \<Rightarrow> Inr ()
      | Some allowed \<Rightarrow>
          bind_result (py_member v allowed) (\<lambda>found.
          guard found (invalid_input (''Value at '' @ path @ '' must match one of enum values''))))"

definition check_required :: "pydict \<Rightarrow> pydict \<Rightarrow> py_str \<Rightarrow> unit checked" where
  "check_required schema d path =
     (case map_of schema ''required'' of
        Some (PList keys) \<Rightarrow>
          check_each (\<lambda>key. bind_result (py_member key (PDict d)) (\<lambda>found.
            guard found (invalid_input (''Missing required field '' @ quoted (py_text key) @ '' at '' @ path)))) keys
      | _ \<Rightarrow> Inr ())"

definition check_additional :: "pydict \<Rightarrow> pydict \<Rightarrow> py_str \<Rightarrow> unit checked" where
  "check_additional schema d path =
     (case (map_of schema ''additionalProperties'', option_or (map_of schema ''properties'') (PDict [])) of
        (Some (PBool False), PDict properties) \<Rightarrow>
          check_each (\<lambda>(key, _). guard (key \<in> fst ` set properties)
            (invalid_input (''Unexpected field '' @ quoted key @ '' at '' @ path))) d
      | _ \<Rightarrow> Inr ())"

fun has_scalar_type :: "pyval \<Rightarrow> pyval \<Rightarrow> bool" where
  "has_scalar_type (PStr t) v =
     (if t = ''string'' then (case v of PStr _ \<Rightarrow> True | _ \<Rightarrow> False)
      else if t = ''integer'' then (case v of PInt _ \<Rightarrow> True | _ \<Rightarrow> False)
      else if t = ''number'' then (case v of PInt _ \<Rightarrow> True | PFloat _ _ \<Rightarrow> True | _ \<Rightarrow> False)
      else if t = ''boolean'' then (case v of PBool _ \<Rightarrow> True | _ \<Rightarrow> False)
      else True)"
| "has_scalar_type t v = True"

definition type_article :: "pyval \<Rightarrow> py_str" where
  "type_article t = (case t of PStr s \<Rightarrow> (if s = ''integer'' then ''an '' else ''a '') @ s | _ \<Rightarrow> [])"

function validate_json_value :: "bool \<Rightarrow> py_str \<Rightarrow> pydict \<Rightarrow> pyval \<Rightarrow> unit checked" where
  "validate_json_value allow_refs path schema v =
     (if allow_refs \<and> is_ref_object v then Inr ()
      else bind_result (check_enum schema v path) (\<lambda>_.
       if schema_type schema = PNone then Inr ()
       else if schema_type schema = PStr ''object''
       then (case v of
               PDict d \<Rightarrow>
                 bind_result (check_required schema d path) (\<lambda>_.
                 bind_result
                   (case map_of schema ''properties'' of
                      Some (PDict properties) \<Rightarrow>
                        check_each (\<lambda>(key, child). case child of
                            PDict c \<Rightarrow>
                              (case map_of d key of
                                 Some x \<Rightarrow> validate_json_value allow_refs (path @ ''/'' @ key) c x
                               | None \<Rightarrow> Inr ())
                          | _ \<Rightarrow> Inr ()) properties
                    | _ \<Rightarrow> Inr ()) (\<lambda>_.
                 check_additional schema d path))
             | _ \<Rightarrow> Inl (invalid_input (''Value at '' @ path @ '' must be an object'')))
       else if schema_type schema = PStr ''array''
       then (case v of
               PList xs \<Rightarrow>
                 (case map_of schema ''items'' of
                    Some (PDict items) \<Rightarrow>
                      check_each (\<lambda>(i, x). validate_json_value allow_refs (path @ ''/'' @ py_str_nat i) items x)
                        (zip [0..<length xs] xs)
                  | _ \<Rightarrow> Inr ())
             | _ \<Rightarrow> Inl (invalid_input (''Value at '' @ path @ '' must be an array'')))
       else guard (has_scalar_type (schema_type schema) v)
         (invalid_input (''Value at '' @ path @ '' must be '' @ type_article (schema_type schema)))))"
  by pat_completeness auto
termination
  by (relation "measure (\<lambda>(allow_refs, path, schema, v). dict_size schema)")
    (auto intro: dict_get_size dict_child_size)

declare validate_json_value.simps [simp del]

text \<open>References, each with its node, its pointer and the path at which it stands.\<close>

function (sequential) collect_refs :: "py_str \<Rightarrow> pyval \<Rightarrow> (py_str \<times> py_str \<times> py_str) list" where
  "collect_refs path (PDict d) =
     (if is_ref_object (PDict d)
      then (let ref = option_or (dict_at ''ref'' d) [] in
            [(text_field ''node'' ref, text_field ''json_pointer'' ref, path)])
      else concat (map (\<lambda>(key, item). collect_refs (path @ key @ ''/'') item) d))"
| "collect_refs path (PList xs) =
     concat (map (\<lambda>(i, item). collect_refs (path @ py_str_nat i @ ''/'') item) (zip [0..<length xs] xs))"
| "collect_refs path v = []"
  by pat_completeness auto
termination
  by (relation "measure (\<lambda>(path, v). size v)")
    (auto dest: dict_mem_size list_mem_size set_zip_rightD intro: less_SucI)

definition edge_pairs :: "plan_definition \<Rightarrow> edge_list" where
  "edge_pairs plan = map (\<lambda>e. (ed_from_node e, ed_to_node e)) (pd_edges plan)"

definition node_ids :: "plan_definition \<Rightarrow> py_str list" where
  "node_ids plan = map st_id (pd_nodes plan)"

definition invalid_plan :: "py_str \<Rightarrow> plan_error" where
  "invalid_plan message = PlanValidationError ''invalid_plan'' message"

definition check_pinned :: "plan_definition \<Rightarrow> tool_registry_snapshot \<Rightarrow> unit checked" where
  "check_pinned plan registry =
     (let expected = me_registry_snapshot (pd_metadata plan) in
      bind_result (guard (rg_digest registry = ps_digest expected) (invalid_plan
        ''Plan metadata registry snapshot digest does not match provided registry snapshot'')) (\<lambda>_.
      guard (rg_artifact_ref registry = ps_artifact_ref expected) (invalid_plan
        ''Plan metadata registry snapshot artifact_ref does not match provided registry snapshot'')))"

fun build_node_map :: "(py_str \<times> plan_step) list \<Rightarrow> plan_step list \<Rightarrow> (py_str \<times> plan_step) list checked" where
  "build_node_map seen [] = Inr seen"
| "build_node_map seen (n # ns) =
     bind_result (guard (st_id n \<notin> fst ` set seen) (invalid_plan (''Duplicate node id in plan: '' @ st_id n))) (\<lambda>_.
     build_node_map (seen @ [(st_id n, n)]) ns)"

definition check_edge :: "py_str list \<Rightarrow> plan_edge \<Rightarrow> unit checked" where
  "check_edge ids e =
     bind_result (guard (ed_from_node e \<in> set ids)
       (invalid_plan (''Edge references unknown source node '' @ quoted (ed_from_node e)))) (\<lambda>_.
     guard (ed_to_node e \<in> set ids)
       (invalid_plan (''Edge references unknown target node '' @ quoted (ed_to_node e))))"

definition invalid_reference :: "py_str \<Rightarrow> py_str \<Rightarrow> py_str \<Rightarrow> plan_error" where
  "invalid_reference node_id ref_path message =
     PlanValidationError ''invalid_reference'' (''Reference at '' @ node_id @ ref_path @ message)"

definition result_schema :: "tool_definition \<Rightarrow> pydict" where
  "result_schema tool =
     [(''type'', PStr ''object''),
      (''properties'', PDict
         [(''outputs'', PDict (td_output_schema tool)),
          (''output_artifacts'', PDict [(''type'', PStr ''array'')]),
          (''status'', PDict [(''type'', PStr ''string'')])])]"

definition check_reference ::
  "tool_registry_snapshot \<Rightarrow> (py_str \<times> plan_step) list \<Rightarrow> successors \<Rightarrow> py_str \<Rightarrow>
   py_str \<times> py_str \<times> py_str \<Rightarrow> unit checked" where
  "check_reference registry node_map outgoing node_id =
     (\<lambda>(ref_node, pointer, ref_path).
        bind_result (guard (ref_node \<noteq> []) (invalid_reference node_id ref_path '' is missing ref.node'')) (\<lambda>_.
        bind_result (guard (pointer \<noteq> []) (invalid_reference node_id ref_path '' is missing ref.json_pointer'')) (\<lambda>_.
        case map_of node_map ref_node of
          None \<Rightarrow> Inl (invalid_reference node_id ref_path ('' points to unknown node '' @ quoted ref_node))
        | Some referenced \<Rightarrow>
            bind_result (guard (ref_node \<noteq> node_id)
              (invalid_reference node_id ref_path '' cannot point to the same node'')) (\<lambda>_.
            bind_result (guard (is_reachable ref_node node_id outgoing)
              (invalid_reference node_id ref_path
                ('' requires dependency path '' @ ref_node @ '' -> '' @ node_id))) (\<lambda>_.
            case by_key registry (st_skill_name referenced) of
              None \<Rightarrow> Inl PyKeyError
            | Some tool \<Rightarrow>
                guard (schema_pointer_exists (result_schema tool) pointer)
                  (invalid_reference node_id ref_path ('' points to invalid output path '' @ quoted pointer
                     @ '' on node '' @ quoted ref_node)))))))"

definition check_node ::
  "tool_registry_snapshot \<Rightarrow> (py_str \<times> plan_step) list \<Rightarrow> successors \<Rightarrow> plan_step \<Rightarrow> unit checked" where
  "check_node registry node_map outgoing node =
     (case by_key registry (st_skill_name node) of
        None \<Rightarrow> Inl (invalid_plan (''Plan node '' @ quoted (st_id node) @ '' references unknown tool '' @
          quoted (st_skill_name node)))
      | Some tool \<Rightarrow>
          bind_result (validate_schema_shape (td_input_schema tool) (st_id node @ ''.inputs'')) (\<lambda>_.
          bind_result (validate_schema_shape (td_output_schema tool) (st_id node @ ''.outputs'')) (\<lambda>_.
          bind_result (validate_json_value True (st_id node @ ''.inputs'') (td_input_schema tool)
            (PDict (st_inputs node))) (\<lambda>_.
          check_each (check_reference registry node_map outgoing (st_id node))
            (collect_refs ''/'' (PDict (st_inputs node)))))))"

definition validate_plan :: "plan_definition \<Rightarrow> tool_registry_snapshot \<Rightarrow> validated_plan checked" where
  "validate_plan plan registry =
     bind_result (check_pinned plan registry) (\<lambda>_.
     bind_result (build_node_map [] (pd_nodes plan)) (\<lambda>node_map.
     bind_result (check_each (check_edge (map fst node_map)) (pd_edges plan)) (\<lambda>_.
     bind_result (topological_sort (map fst node_map) (edge_pairs plan)) (\<lambda>order.
     bind_result (check_each
         (check_node registry node_map (sorted_successors (group_edges [] (edge_pairs plan))))
         (pd_nodes plan)) (\<lambda>_.
     Inr \<lparr> vp_plan = plan, vp_topological_order = order \<rparr>)))))"

section \<open>What is accepted: schemas and values\<close>

inductive well_shaped :: "pydict \<Rightarrow> bool" where
  shape_untyped: "schema_type schema = PNone \<Longrightarrow> well_shaped schema"
| shape_object: "schema_type schema = PStr ''object'' \<Longrightarrow>
     map_of schema ''properties'' = None \<or>
     (\<exists>properties. map_of schema ''properties'' = Some (PDict properties)
        \<and> (\<forall>key c. (key, PDict c) \<in> set properties \<longrightarrow> well_shaped c)) \<Longrightarrow>
     map_of schema ''required'' \<in> {None, Some PNone} \<union> Some ` range PList \<Longrightarrow> well_shaped schema"
| shape_array: "schema_type schema = PStr ''array'' \<Longrightarrow>
     map_of schema ''items'' \<in> {None, Some PNone} \<or>
     (\<exists>items. map_of schema ''items'' = Some (PDict items) \<and> well_shaped items) \<Longrightarrow> well_shaped schema"
| shape_scalar: "schema_type schema \<in> PStr ` {''string'', ''integer'', ''number'', ''boolean''} \<Longrightarrow> well_shaped schema"

definition in_enum :: "pydict \<Rightarrow> pyval \<Rightarrow> bool" where
  "in_enum schema v \<longleftrightarrow> (\<forall>allowed. map_of schema ''enum'' = Some allowed \<longrightarrow> py_member v allowed = Inr True)"

definition has_required :: "pydict \<Rightarrow> pydict \<Rightarrow> bool" where
  "has_required schema d \<longleftrightarrow>
     (\<forall>keys key. map_of schema ''required'' = Some (PList keys) \<longrightarrow> key \<in> set keys \<longrightarrow> key \<in> PStr ` fst ` set d)"

definition only_declared :: "pydict \<Rightarrow> pydict \<Rightarrow> bool" where
  "only_declared schema d \<longleftrightarrow>
     (\<forall>properties. map_of schema ''additionalProperties'' = Some (PBool False) \<longrightarrow>
        option_or (map_of schema ''properties'') (PDict []) = PDict properties \<longrightarrow>
        fst ` set d \<subseteq> fst ` set properties)"

text \<open>
  A value conforms to a schema; where references are allowed, a reference conforms to every
  schema.
\<close>

inductive conforms :: "bool \<Rightarrow> pydict \<Rightarrow> pyval \<Rightarrow> bool" for refs where
  conforms_ref: "refs \<Longrightarrow> is_ref_object v \<Longrightarrow> conforms refs schema v"
| conforms_untyped: "in_enum schema v \<Longrightarrow> schema_type schema = PNone \<Longrightarrow> conforms refs schema v"
| conforms_object: "in_enum schema (PDict d) \<Longrightarrow> schema_type schema = PStr ''object'' \<Longrightarrow>
     has_required schema d \<Longrightarrow> only_declared schema d \<Longrightarrow>
     \<forall>properties key c x. map_of schema ''properties'' = Some (PDict properties) \<longrightarrow>
       (key, PDict c) \<in> set properties \<longrightarrow> map_of d key = Some x \<longrightarrow> conforms refs c x \<Longrightarrow>
     conforms refs schema (PDict d)"
| conforms_array: "in_enum schema (PList xs) \<Longrightarrow> schema_type schema = PStr ''array'' \<Longrightarrow>
     \<forall>items x. map_of schema ''items'' = Some (PDict items) \<longrightarrow> x \<in> set xs \<longrightarrow> conforms refs items x \<Longrightarrow>
     conforms refs schema (PList xs)"
| conforms_scalar: "in_enum schema v \<Longrightarrow> schema_type schema \<notin> {PNone, PStr ''object'', PStr ''array''} \<Longrightarrow>
     has_scalar_type (schema_type schema) v \<Longrightarrow> conforms refs schema v"

inductive_cases conforms_cases: "conforms refs schema v"

lemma check_enum_ok: "check_enum schema v path = Inr () \<longleftrightarrow> in_enum schema v"
  by (auto simp: check_enum_def in_enum_def bind_result_Inr_iff split: option.splits)

lemma py_member_key: "py_member key (PDict d) = Inr True \<longleftrightarrow> key \<in> PStr ` fst ` set d"
proof -
  have "py_eq key (PStr k) \<longleftrightarrow> key = PStr k" for k by (cases key) (simp_all add: py_eq_def)
  then have "list_ex (\<lambda>(k, _). py_eq key (PStr k)) d \<longleftrightarrow> key \<in> PStr ` fst ` set d"
    by (force simp: list_ex_iff)
  then show ?thesis by (cases key) (auto simp: py_member_def)
qed

lemma check_required_ok: "check_required schema d path = Inr () \<longleftrightarrow> has_required schema d"
proof -
  have "bind_result (py_member key (PDict d)) (\<lambda>found. guard found err) = Inr () \<longleftrightarrow> key \<in> PStr ` fst ` set d"
    for key err by (simp only: bind_result_Inr_iff guard_ok py_member_key [symmetric]) auto
  then show ?thesis
    by (auto simp: check_required_def has_required_def check_each_ok split: option.splits pyval.splits)
qed

lemma check_additional_ok: "check_additional schema d path = Inr () \<longleftrightarrow> only_declared schema d"
proof -
  have "check_each (\<lambda>(key, _). guard (key \<in> K) (err key)) d = Inr () \<longleftrightarrow> fst ` set d \<subseteq> K" for K err
    unfolding check_each_ok by force
  then show ?thesis
    by (simp add: check_additional_def only_declared_def split: option.split pyval.split bool.split)
qed

lemma set_enumerate: "snd ` set (zip [0..<length xs] xs) = set xs"
  by (metis length_map length_upt list.set_map map_nth map_snd_zip minus_nat.diff_0)

lemma conforms_object_iff:
  assumes "\<not> (refs \<and> is_ref_object v)" and "schema_type schema = PStr ''object''"
  shows "conforms refs schema v \<longleftrightarrow> in_enum schema v \<and> (\<exists>d. v = PDict d \<and> has_required schema d \<and> only_declared schema d
     \<and> (\<forall>properties key c x. map_of schema ''properties'' = Some (PDict properties) \<longrightarrow>
          (key, PDict c) \<in> set properties \<longrightarrow> map_of d key = Some x \<longrightarrow> conforms refs c x))"
  using assms by (auto elim!: conforms_cases intro: conforms_object)

lemma conforms_array_iff:
  assumes "\<not> (refs \<and> is_ref_object v)" and "schema_type schema = PStr ''array''"
  shows "conforms refs schema v \<longleftrightarrow> in_enum schema v \<and> (\<exists>xs. v = PList xs
     \<and> (\<forall>items x. map_of schema ''items'' = Some (PDict items) \<longrightarrow> x \<in> set xs \<longrightarrow> conforms refs items x))"
  using assms by (auto elim!: conforms_cases intro: conforms_array)

lemma conforms_scalar_iff:
  assumes "\<not> (refs \<and> is_ref_object v)" and "schema_type schema \<notin> {PStr ''object'', PStr ''array''}"
  shows "conforms refs schema v \<longleftrightarrow>
     in_enum schema v \<and> (schema_type schema = PNone \<or> has_scalar_type (schema_type schema) v)"
  using assms by (auto elim!: conforms_cases intro: conforms_scalar conforms_untyped)

lemma validate_json_value_iff: "validate_json_value refs path schema v = Inr () \<longleftrightarrow> conforms refs schema v"
proof (induction refs path schema v rule: validate_json_value.induct)
  case (1 refs path schema v)
  consider (ref) "refs \<and> is_ref_object v"
    | (object) "\<not> (refs \<and> is_ref_object v)" "schema_type schema = PStr ''object''"
    | (array) "\<not> (refs \<and> is_ref_object v)" "schema_type schema = PStr ''array''"
    | (scalar) "\<not> (refs \<and> is_ref_object v)" "schema_type schema \<notin> {PStr ''object'', PStr ''array''}" by blast
  then show ?case
  proof cases
    case ref
    then show ?thesis by (subst validate_json_value.simps) (auto intro: conforms_ref)
  next
    case object
    show ?thesis
    proof (cases "\<exists>d. v = PDict d \<and> in_enum schema v")
      case True
      then obtain d where d: "v = PDict d" and enum: "in_enum schema v" by blast
      have IH: "validate_json_value refs (path @ ''/'' @ key) c x = Inr () \<longleftrightarrow> conforms refs c x"
        if "map_of schema ''properties'' = Some (PDict ps)" "(key, PDict c) \<in> set ps" "map_of d key = Some x"
          "has_required schema d" for ps key c x
        by (rule 1(1) [OF object(1) check_enum_ok [THEN iffD2, OF enum] _ object(2) d
              check_required_ok [THEN iffD2, OF that(4)] that(1) refl that(2) refl refl that(3)])
          (simp add: object(2))
      have props: "(case map_of schema ''properties'' of
            Some (PDict properties) \<Rightarrow>
              check_each (\<lambda>(key, child). case child of
                  PDict c \<Rightarrow>
                    (case map_of d key of
                       Some x \<Rightarrow> validate_json_value refs (path @ ''/'' @ key) c x
                     | None \<Rightarrow> Inr ())
                | _ \<Rightarrow> Inr ()) properties
          | _ \<Rightarrow> Inr ()) = Inr () \<longleftrightarrow>
          (\<forall>properties key c x. map_of schema ''properties'' = Some (PDict properties) \<longrightarrow>
             (key, PDict c) \<in> set properties \<longrightarrow> map_of d key = Some x \<longrightarrow> conforms refs c x)"
        if req: "has_required schema d"
      proof (cases "\<exists>ps. map_of schema ''properties'' = Some (PDict ps)")
        case True
        then obtain ps where ps: "map_of schema ''properties'' = Some (PDict ps)" by blast
        show ?thesis using IH [OF ps _ _ req]
          by (auto simp: ps check_each_ok split: pyval.splits option.splits)
      qed (auto split: option.splits pyval.splits)
      show ?thesis
        by (subst validate_json_value.simps)
          (use object d enum props in \<open>auto simp: conforms_object_iff check_enum_ok check_required_ok
             check_additional_ok bind_result_Inr_iff\<close>)
    next
      case False
      then show ?thesis using object
        by (subst validate_json_value.simps)
          (auto simp: conforms_object_iff check_enum_ok bind_result_Inr_iff split: pyval.splits)
    qed
  next
    case array
    show ?thesis
    proof (cases "\<exists>xs. v = PList xs \<and> in_enum schema v")
      case True
      then obtain xs where xs: "v = PList xs" and enum: "in_enum schema v" by blast
      show ?thesis
      proof (cases "\<exists>items. map_of schema ''items'' = Some (PDict items)")
        case True
        then obtain items where items: "map_of schema ''items'' = Some (PDict items)" by blast
        have IH: "validate_json_value refs (path @ ''/'' @ py_str_nat i) items x = Inr () \<longleftrightarrow> conforms refs items x"
          if "(i, x) \<in> set (zip [0..<length xs] xs)" for i x
          by (rule 1(2) [OF array(1) check_enum_ok [THEN iffD2, OF enum] _ _ array(2) xs items refl that refl])
            (simp_all add: array(2))
        have "check_each (\<lambda>(i, x). validate_json_value refs (path @ ''/'' @ py_str_nat i) items x)
            (zip [0..<length xs] xs) = Inr () \<longleftrightarrow> (\<forall>x \<in> set xs. conforms refs items x)"
          using IH by (auto simp: check_each_ok set_enumerate [of xs, symmetric])
        then show ?thesis using array xs enum items
          by (subst validate_json_value.simps) (auto simp: conforms_array_iff check_enum_ok bind_result_Inr_iff)
      next
        case False
        then show ?thesis using array xs enum
          by (subst validate_json_value.simps)
            (auto simp: conforms_array_iff check_enum_ok bind_result_Inr_iff split: option.splits pyval.splits)
      qed
    next
      case False
      then show ?thesis using array
        by (subst validate_json_value.simps)
          (auto simp: conforms_array_iff check_enum_ok bind_result_Inr_iff split: pyval.splits)
    qed
  next
    case scalar
    then show ?thesis
      by (subst validate_json_value.simps)
        (auto simp: conforms_scalar_iff check_enum_ok bind_result_Inr_iff)
  qed
qed

lemma check_schema_type_ok: "check_schema_type t path = Inr () \<longleftrightarrow> (\<exists>s \<in> set SCHEMA_TYPES. t = PStr s)"
  by (auto simp: check_schema_type_def)

lemma check_required_shape_ok:
  "check_required_shape schema path = Inr () \<longleftrightarrow>
   map_of schema ''required'' \<in> {None, Some PNone} \<union> Some ` range PList"
  by (auto simp: check_required_shape_def split: option.splits pyval.splits)

lemma validate_schema_shape_iff: "validate_schema_shape schema path = Inr () \<longleftrightarrow> well_shaped schema"
proof (induction schema path rule: validate_schema_shape.induct)
  case (1 schema path)
  consider (untyped) "schema_type schema = PNone"
    | (object) "schema_type schema = PStr ''object''"
    | (array) "schema_type schema = PStr ''array''"
    | (scalar) "schema_type schema \<notin> {PNone, PStr ''object'', PStr ''array''}" by blast
  then show ?case
  proof cases
    case untyped
    then show ?thesis by (subst validate_schema_shape.simps) (auto intro: shape_untyped)
  next
    case object
    then have t: "check_schema_type (schema_type schema) path = Inr ()"
      by (simp add: check_schema_type_ok SCHEMA_TYPES_def)
    have inv: "well_shaped schema \<longleftrightarrow>
        (map_of schema ''properties'' = None \<or> (\<exists>properties. map_of schema ''properties'' = Some (PDict properties)
          \<and> (\<forall>key c. (key, PDict c) \<in> set properties \<longrightarrow> well_shaped c)))
        \<and> check_required_shape schema path = Inr ()"
      unfolding check_required_shape_ok
    proof
      assume "well_shaped schema"
      then show "(map_of schema ''properties'' = None \<or> (\<exists>properties. map_of schema ''properties'' = Some (PDict properties)
          \<and> (\<forall>key c. (key, PDict c) \<in> set properties \<longrightarrow> well_shaped c)))
        \<and> map_of schema ''required'' \<in> {None, Some PNone} \<union> Some ` range PList"
        by cases (use object in auto)
    qed (use object in \<open>blast intro: shape_object\<close>)
    show ?thesis
    proof (cases "check_required_shape schema path = Inr () \<and> (\<exists>ps. map_of schema ''properties'' = Some (PDict ps))")
      case True
      then obtain ps where ps: "map_of schema ''properties'' = Some (PDict ps)"
        and req: "check_required_shape schema path = Inr ()" by blast
      have IH: "validate_schema_shape c (path @ ''/properties/'' @ key) = Inr () \<longleftrightarrow> well_shaped c"
        if "(key, PDict c) \<in> set ps" for key c
        by (rule 1(1) [OF _ t object ps refl req that refl refl]) (simp add: object)
      have "check_each (\<lambda>(key, child). case child of
            PDict c \<Rightarrow> validate_schema_shape c (path @ ''/properties/'' @ key) | _ \<Rightarrow> Inr ()) ps = Inr ()
          \<longleftrightarrow> (\<forall>key c. (key, PDict c) \<in> set ps \<longrightarrow> well_shaped c)"
        using IH by (auto simp: check_each_ok split: pyval.splits)
      then show ?thesis unfolding inv using object t req ps
        by (subst validate_schema_shape.simps) (simp del: append_Cons)
    next
      case False
      then show ?thesis unfolding inv using object t
        by (subst validate_schema_shape.simps)
          (auto simp: bind_result_Inr_iff split: option.splits pyval.splits)
    qed
  next
    case array
    then have t: "check_schema_type (schema_type schema) path = Inr ()"
      by (simp add: check_schema_type_ok SCHEMA_TYPES_def)
    have inv: "well_shaped schema \<longleftrightarrow> map_of schema ''items'' \<in> {None, Some PNone} \<or>
        (\<exists>items. map_of schema ''items'' = Some (PDict items) \<and> well_shaped items)"
    proof
      assume "well_shaped schema"
      then show "map_of schema ''items'' \<in> {None, Some PNone} \<or>
        (\<exists>items. map_of schema ''items'' = Some (PDict items) \<and> well_shaped items)"
        by cases (use array in auto)
    qed (use array in \<open>blast intro: shape_array\<close>)
    have IH: "validate_schema_shape items (path @ ''/items'') = Inr () \<longleftrightarrow> well_shaped items"
      if "map_of schema ''items'' = Some (PDict items)" for items
      by (rule 1(2) [OF _ t _ array that refl]) (simp_all add: array)
    show ?thesis unfolding inv using array t IH
      by (subst validate_schema_shape.simps) (auto split: option.splits pyval.splits)
  next
    case scalar
    have "well_shaped schema \<longleftrightarrow> schema_type schema \<in> PStr ` {''string'', ''integer'', ''number'', ''boolean''}"
    proof
      assume "well_shaped schema"
      then show "schema_type schema \<in> PStr ` {''string'', ''integer'', ''number'', ''boolean''}"
        by cases (use scalar in auto)
    qed (rule shape_scalar)
    then show ?thesis using scalar
      by (subst validate_schema_shape.simps)
        (auto simp: bind_result_Inr_iff check_schema_type_ok SCHEMA_TYPES_def)
  qed
qed

section \<open>What is accepted: plans\<close>

text \<open>Every reference of a node names a node upstream and a path in the result of its tool.\<close>

definition refs_resolve :: "tool_registry_snapshot \<Rightarrow> plan_definition \<Rightarrow> plan_step \<Rightarrow> bool" where
  "refs_resolve registry plan node \<longleftrightarrow>
     (\<forall>(n, pointer, path) \<in> set (collect_refs ''/'' (PDict (st_inputs node))).
        n \<noteq> [] \<and> pointer \<noteq> [] \<and> (n, st_id node) \<in> (set (edge_pairs plan))\<^sup>+
        \<and> (\<exists>m \<in> set (pd_nodes plan). \<exists>tool. st_id m = n \<and> by_key registry (st_skill_name m) = Some tool
             \<and> schema_pointer_exists (result_schema tool) pointer))"

definition node_accepted :: "tool_registry_snapshot \<Rightarrow> plan_definition \<Rightarrow> plan_step \<Rightarrow> bool" where
  "node_accepted registry plan node \<longleftrightarrow>
     (\<exists>tool. by_key registry (st_skill_name node) = Some tool
        \<and> well_shaped (td_input_schema tool) \<and> well_shaped (td_output_schema tool)
        \<and> conforms True (td_input_schema tool) (PDict (st_inputs node)))
     \<and> refs_resolve registry plan node"

definition plan_accepted :: "tool_registry_snapshot \<Rightarrow> plan_definition \<Rightarrow> bool" where
  "plan_accepted registry plan \<longleftrightarrow>
     rg_digest registry = ps_digest (me_registry_snapshot (pd_metadata plan))
     \<and> rg_artifact_ref registry = ps_artifact_ref (me_registry_snapshot (pd_metadata plan))
     \<and> distinct (node_ids plan)
     \<and> set (edge_pairs plan) \<subseteq> set (node_ids plan) \<times> set (node_ids plan)
     \<and> acyclic (set (edge_pairs plan))
     \<and> (\<forall>node \<in> set (pd_nodes plan). node_accepted registry plan node)"

lemma build_node_map_ok:
  "build_node_map seen nodes = Inr m \<longleftrightarrow>
   distinct (map st_id nodes) \<and> fst ` set seen \<inter> st_id ` set nodes = {}
   \<and> m = seen @ map (\<lambda>n. (st_id n, n)) nodes"
  by (induction seen nodes rule: build_node_map.induct) (auto simp: bind_result_Inr_iff)

lemma check_edges_ok:
  "check_each (check_edge (node_ids plan)) (pd_edges plan) = Inr () \<longleftrightarrow>
   set (edge_pairs plan) \<subseteq> set (node_ids plan) \<times> set (node_ids plan)"
  by (auto simp: check_each_ok check_edge_def bind_result_Inr_iff edge_pairs_def)

lemma check_reference_ok:
  assumes "distinct (node_ids plan)" and "acyclic (set (edge_pairs plan))"
  shows "check_reference registry (map (\<lambda>n. (st_id n, n)) (pd_nodes plan))
       (sorted_successors (group_edges [] (edge_pairs plan))) i (n, pointer, path) = Inr () \<longleftrightarrow>
     n \<noteq> [] \<and> pointer \<noteq> [] \<and> (n, i) \<in> (set (edge_pairs plan))\<^sup>+
     \<and> (\<exists>m \<in> set (pd_nodes plan). \<exists>tool. st_id m = n \<and> by_key registry (st_skill_name m) = Some tool
          \<and> schema_pointer_exists (result_schema tool) pointer)"
proof -
  let ?m = "map (\<lambda>n. (st_id n, n)) (pd_nodes plan)"
  have "distinct (map fst ?m)" using assms(1) by (simp add: node_ids_def comp_def)
  then have look: "map_of ?m n = Some k \<longleftrightarrow> k \<in> set (pd_nodes plan) \<and> st_id k = n" for k
    by (auto simp: map_of_eq_Some_iff)
  have up: "n \<noteq> i \<and> (n, i) \<in> (set (edge_pairs plan))\<^sup>* \<longleftrightarrow> (n, i) \<in> (set (edge_pairs plan))\<^sup>+"
    using assms(2) by (auto simp: rtrancl_eq_or_trancl acyclic_def)
  show ?thesis
  proof (cases "map_of ?m n")
    case None
    then have "\<forall>m \<in> set (pd_nodes plan). st_id m \<noteq> n" using look by auto
    then show ?thesis using None by (auto simp: check_reference_def bind_result_Inr_iff)
  next
    case (Some k)
    then have k: "m \<in> set (pd_nodes plan) \<and> st_id m = n \<longleftrightarrow> m = k" for m using look [of m] by auto
    have one: "(\<exists>m \<in> set (pd_nodes plan). \<exists>tool. st_id m = n \<and> by_key registry (st_skill_name m) = Some tool
          \<and> schema_pointer_exists (result_schema tool) pointer) \<longleftrightarrow>
        (\<exists>tool. by_key registry (st_skill_name k) = Some tool \<and> schema_pointer_exists (result_schema tool) pointer)"
      by (metis k)
    show ?thesis unfolding one up [symmetric] using Some
      by (auto simp: check_reference_def bind_result_Inr_iff is_reachable_iff split: option.splits)
  qed
qed

lemma check_node_ok:
  assumes "distinct (node_ids plan)" and "acyclic (set (edge_pairs plan))"
  shows "check_node registry (map (\<lambda>n. (st_id n, n)) (pd_nodes plan))
     (sorted_successors (group_edges [] (edge_pairs plan))) node = Inr () \<longleftrightarrow> node_accepted registry plan node"
proof (cases "by_key registry (st_skill_name node)")
  case (Some tool)
  have "check_each (check_reference registry (map (\<lambda>n. (st_id n, n)) (pd_nodes plan))
         (sorted_successors (group_edges [] (edge_pairs plan))) (st_id node))
       (collect_refs ''/'' (PDict (st_inputs node))) = Inr () \<longleftrightarrow> refs_resolve registry plan node"
    unfolding check_each_ok refs_resolve_def
    by (intro ball_cong refl) (simp only: split_paired_all check_reference_ok [OF assms] prod.case)
  then show ?thesis
    by (simp add: check_node_def Some bind_result_Inr_iff validate_schema_shape_iff
        validate_json_value_iff node_accepted_def)
qed (simp add: check_node_def node_accepted_def)

lemma validate_plan_unfold:
  assumes dist: "distinct (node_ids plan)"
    and inside: "\<forall>(a, b) \<in> set (edge_pairs plan). a \<in> set (node_ids plan) \<and> b \<in> set (node_ids plan)"
  shows "validate_plan plan registry =
      bind_result (check_pinned plan registry) (\<lambda>_.
      bind_result (topological_sort (node_ids plan) (edge_pairs plan)) (\<lambda>order.
      bind_result (check_each (check_node registry (map (\<lambda>n. (st_id n, n)) (pd_nodes plan))
          (sorted_successors (group_edges [] (edge_pairs plan)))) (pd_nodes plan)) (\<lambda>_.
      Inr \<lparr> vp_plan = plan, vp_topological_order = order \<rparr>)))"
proof -
  let ?m = "map (\<lambda>n. (st_id n, n)) (pd_nodes plan)"
  have keys: "map fst ?m = node_ids plan" by (simp add: node_ids_def comp_def)
  have m: "build_node_map [] (pd_nodes plan) = Inr ?m"
    using build_node_map_ok [of "[]" "pd_nodes plan" ?m] dist by (simp add: node_ids_def)
  have e: "check_each (check_edge (node_ids plan)) (pd_edges plan) = Inr ()"
    unfolding check_edges_ok using inside by auto
  show ?thesis unfolding validate_plan_def m bind_result_simps keys e bind_result_simps ..
qed

lemma validate_plan_ok:
  "validate_plan plan registry = Inr v \<longleftrightarrow>
     plan_accepted registry plan
     \<and> (\<exists>order. topological_sort (node_ids plan) (edge_pairs plan) = Inr order
          \<and> v = \<lparr> vp_plan = plan, vp_topological_order = order \<rparr>)"
proof (cases "distinct (node_ids plan) \<and> set (edge_pairs plan) \<subseteq> set (node_ids plan) \<times> set (node_ids plan)")
  case True
  then have dist: "distinct (node_ids plan)"
    and inside: "\<forall>(a, b) \<in> set (edge_pairs plan). a \<in> set (node_ids plan) \<and> b \<in> set (node_ids plan)" by auto
  note run = validate_plan_unfold [OF dist inside]
  show ?thesis
  proof (cases "topological_sort (node_ids plan) (edge_pairs plan)")
    case (Inl err)
    then have "\<not> acyclic (set (edge_pairs plan))" using topological_sort_ok [OF dist inside] by simp
    then show ?thesis unfolding run Inl by (simp add: bind_result_Inr_iff plan_accepted_def)
  next
    case (Inr order)
    then have acyc: "acyclic (set (edge_pairs plan))" using topological_sort_ok [OF dist inside] by simp
    show ?thesis unfolding run Inr
      using True acyc
      by (auto simp: bind_result_Inr_iff plan_accepted_def check_pinned_def Let_def check_each_ok
          check_node_ok [OF dist acyc])
  qed
next
  case False
  have "\<not> plan_accepted registry plan" using False by (auto simp: plan_accepted_def)
  moreover have "validate_plan plan registry \<noteq> Inr v"
  proof
    assume "validate_plan plan registry = Inr v"
    then obtain m where m: "build_node_map [] (pd_nodes plan) = Inr m"
      "check_each (check_edge (map fst m)) (pd_edges plan) = Inr ()"
      by (auto simp: validate_plan_def bind_result_Inr_iff)
    have ids: "distinct (node_ids plan)" "map fst m = node_ids plan"
      using m(1) unfolding build_node_map_ok node_ids_def by (simp_all add: comp_def)
    then show False using m(2) False check_edges_ok [of plan] by metis
  qed
  ultimately show ?thesis by simp
qed

lemma validated_order:
  assumes "validate_plan plan registry = Inr v"
  shows "topological (node_ids plan) (edge_pairs plan) (vp_topological_order v)"
proof -
  obtain order where acc: "plan_accepted registry plan"
    and order: "topological_sort (node_ids plan) (edge_pairs plan) = Inr order"
    and v: "v = \<lparr> vp_plan = plan, vp_topological_order = order \<rparr>" using assms validate_plan_ok by blast
  have "topological (node_ids plan) (edge_pairs plan) order"
    using topological_sort_ok [of "node_ids plan" "edge_pairs plan"] acc order
    by (auto simp: plan_accepted_def)
  then show ?thesis using v by simp
qed

text \<open>
  C11. A plan is accepted exactly when it is pinned to the registry, its node names are distinct, its
  edges join known nodes without a cycle, every node names a known tool with well-formed schemas
  and gives inputs of the declared type, and every reference names a node upstream of its own and
  a path of that node's result; the accepted plan carries a topological order of its nodes.
\<close>

theorem validate_plan_exact:
  "case validate_plan plan registry of
     Inr v \<Rightarrow> plan_accepted registry plan \<and> vp_plan v = plan
       \<and> topological (node_ids plan) (edge_pairs plan) (vp_topological_order v)
   | Inl e \<Rightarrow> \<not> plan_accepted registry plan"
proof (cases "validate_plan plan registry")
  case (Inl e)
  have "\<not> plan_accepted registry plan"
  proof
    assume acc: "plan_accepted registry plan"
    then have "distinct (node_ids plan)" "acyclic (set (edge_pairs plan))"
      "\<forall>(a, b) \<in> set (edge_pairs plan). a \<in> set (node_ids plan) \<and> b \<in> set (node_ids plan)"
      by (auto simp: plan_accepted_def)
    then obtain order where "topological_sort (node_ids plan) (edge_pairs plan) = Inr order"
      using topological_sort_ok by (cases "topological_sort (node_ids plan) (edge_pairs plan)") fastforce+
    then show False using validate_plan_ok [of plan registry] acc Inl by auto
  qed
  then show ?thesis using Inl by simp
next
  case (Inr v)
  then show ?thesis using validated_order validate_plan_ok [of plan registry v] by auto
qed

section \<open>Examples\<close>

definition example_tool :: "py_str \<Rightarrow> pydict \<Rightarrow> pydict \<Rightarrow> tool_definition" where
  "example_tool name inputs outputs = \<lparr> td_name = name, td_description = [], td_input_schema = inputs,
     td_output_schema = outputs,
     td_executor = \<lparr> eb_activity_type = ''mm.tool.execute'', eb_selector_mode = ''by_capability'',
       eb_explicit_binding_reason = None \<rparr>,
     td_required_capabilities = [''sandbox''],
     td_policies = \<lparr> pl_timeouts = \<lparr> to_start_to_close_seconds = 60, to_schedule_to_close_seconds = 60 \<rparr>,
       pl_retries = \<lparr> re_max_attempts = 1, re_backoff = ''exponential'', re_non_retryable_error_codes = [] \<rparr> \<rparr>,
     td_allowed_roles = [], td_ops_runtime = None \<rparr>"

definition example_registry :: tool_registry_snapshot where
  "example_registry = \<lparr> rg_digest = ''reg:sha256:0'', rg_artifact_ref = ''art:sha256:0'',
     rg_skills =
       [example_tool ''fetch'' [(''type'', PStr ''object'')]
          [(''type'', PStr ''object''), (''properties'', PDict [(''count'', PDict [(''type'', PStr ''integer'')])])],
        example_tool ''report''
          [(''type'', PStr ''object''), (''required'', PList [PStr ''n'']),
           (''properties'', PDict [(''n'', PDict [(''type'', PStr ''integer'')])])]
          [(''type'', PStr ''object'')]] \<rparr>"

definition example_step :: "py_str \<Rightarrow> py_str \<Rightarrow> pydict \<Rightarrow> plan_step" where
  "example_step i tool inputs = \<lparr> st_id = i, st_skill_name = tool, st_inputs = inputs, st_options = [],
     st_tool_type = ''skill'', st_skills = None, st_source = None \<rparr>"

definition example_ref :: "py_str \<Rightarrow> py_str \<Rightarrow> pyval" where
  "example_ref node pointer =
     PDict [(''ref'', PDict [(''node'', PStr node), (''json_pointer'', PStr pointer)])]"

definition example_tool_plan :: "plan_policy \<Rightarrow> plan_step list \<Rightarrow> (py_str \<times> py_str) list \<Rightarrow> plan_definition" where
  "example_tool_plan policy nodes edges = \<lparr> pd_plan_version = ''1.0'',
     pd_metadata = \<lparr> me_title = ''t'', me_created_at = ''2025-01-01T00:00:00Z'',
       me_registry_snapshot = \<lparr> ps_digest = ''reg:sha256:0'', ps_artifact_ref = ''art:sha256:0'' \<rparr> \<rparr>,
     pd_policy = policy, pd_nodes = nodes,
     pd_edges = map (\<lambda>(a, b). \<lparr> ed_from_node = a, ed_to_node = b \<rparr>) edges \<rparr>"

definition example_policy :: "py_str \<Rightarrow> int \<Rightarrow> plan_policy" where
  "example_policy mode n = \<lparr> py_failure_mode = mode, py_max_concurrency = n, py_approval_policy = None \<rparr>"

definition example_nodes :: "py_str \<Rightarrow> plan_step list" where
  "example_nodes tool =
     [example_step ''b'' ''report'' [(''n'', example_ref ''a'' ''/outputs/count'')], example_step ''a'' tool []]"

section \<open>When the validator raises a KeyError\<close>

text \<open>None of the checks on schemas and values raises one.\<close>

definition no_key_error :: "'a checked \<Rightarrow> bool" where
  "no_key_error r \<longleftrightarrow> r \<noteq> Inl PyKeyError"

lemma no_key_error_simps [simp]:
  "no_key_error (Inr x)" "no_key_error (Inl e) \<longleftrightarrow> e \<noteq> PyKeyError" "no_key_error (guard ok err) \<longleftrightarrow> ok \<or> err \<noteq> PyKeyError"
  by (auto simp: no_key_error_def guard_def)

lemma no_key_error_bind:
  "no_key_error r \<Longrightarrow> (\<And>x. r = Inr x \<Longrightarrow> no_key_error (f x)) \<Longrightarrow> no_key_error (bind_result r f)"
  by (cases r) (auto simp: no_key_error_def)

lemma no_key_error_each: "(\<And>x. x \<in> set xs \<Longrightarrow> no_key_error (f x)) \<Longrightarrow> no_key_error (check_each f xs)"
  by (induction xs) (auto intro: no_key_error_bind)

lemma no_key_error_member: "no_key_error (py_member v allowed)"
  by (auto simp: py_member_def no_key_error_def split: pyval.splits)

lemma no_key_error_checks:
  "no_key_error (check_schema_type t path)" "no_key_error (check_required_shape schema path)"
  "no_key_error (check_enum schema v path)" "no_key_error (check_required schema d path)"
  "no_key_error (check_additional schema d path)"
  by (auto simp: check_schema_type_def check_required_shape_def check_enum_def check_required_def check_additional_def
      invalid_schema_def invalid_input_def no_key_error_member
      intro!: no_key_error_bind no_key_error_each split: option.split pyval.split bool.split)

lemma schema_shape_no_key_error: "no_key_error (validate_schema_shape schema path)"
proof (induction schema arbitrary: path rule: measure_induct_rule [of dict_size])
  case (less schema)
  show ?case
    by (subst validate_schema_shape.simps)
      (auto simp: no_key_error_checks invalid_schema_def
        intro!: no_key_error_bind no_key_error_each less.IH intro: dict_get_size dict_child_size
        split: option.split pyval.split)
qed

lemma json_value_no_key_error: "no_key_error (validate_json_value allow_refs path schema v)"
proof (induction schema arbitrary: allow_refs path v rule: measure_induct_rule [of dict_size])
  case (less schema)
  show ?case
    by (subst validate_json_value.simps)
      (auto simp: no_key_error_checks invalid_input_def
        intro!: no_key_error_bind no_key_error_each less.IH intro: dict_get_size dict_child_size
        split: option.split pyval.split)
qed

lemma check_each_error_iff:
  "check_each f xs = Inl e \<longleftrightarrow> (\<exists>ys x zs. xs = ys @ x # zs \<and> (\<forall>y \<in> set ys. f y = Inr ()) \<and> f x = Inl e)"
proof
  assume "\<exists>ys x zs. xs = ys @ x # zs \<and> (\<forall>y \<in> set ys. f y = Inr ()) \<and> f x = Inl e"
  then obtain ys x zs where "xs = ys @ x # zs" "\<forall>y \<in> set ys. f y = Inr ()" "f x = Inl e" by blast
  moreover from this(2,3) have "check_each f (ys @ x # zs) = Inl e" by (induction ys) simp_all
  ultimately show "check_each f xs = Inl e" by simp
qed (rule check_each_error)

lemma bind_result_Inl_iff: "bind_result r f = Inl e \<longleftrightarrow> r = Inl e \<or> (\<exists>x. r = Inr x \<and> f x = Inl e)"
  by (cases r) auto

text \<open>A reference that resolves, as the validator reads it, and one to a node whose tool is unknown.\<close>

definition ref_resolves :: "tool_registry_snapshot \<Rightarrow> plan_definition \<Rightarrow> py_str \<Rightarrow> py_str \<times> py_str \<times> py_str \<Rightarrow> bool" where
  "ref_resolves registry plan i = (\<lambda>(n, pointer, path).
     n \<noteq> [] \<and> pointer \<noteq> [] \<and> (n, i) \<in> (set (edge_pairs plan))\<^sup>+
     \<and> (\<exists>m \<in> set (pd_nodes plan). \<exists>tool. st_id m = n \<and> by_key registry (st_skill_name m) = Some tool
          \<and> schema_pointer_exists (result_schema tool) pointer))"

definition ref_to_unknown_tool :: "tool_registry_snapshot \<Rightarrow> plan_definition \<Rightarrow> py_str \<Rightarrow> py_str \<times> py_str \<times> py_str \<Rightarrow> bool" where
  "ref_to_unknown_tool registry plan i = (\<lambda>(n, pointer, path).
     n \<noteq> [] \<and> pointer \<noteq> [] \<and> (n, i) \<in> (set (edge_pairs plan))\<^sup>+
     \<and> (\<exists>m \<in> set (pd_nodes plan). st_id m = n \<and> by_key registry (st_skill_name m) = None))"

lemma check_reference_key_error:
  assumes "distinct (node_ids plan)" and "acyclic (set (edge_pairs plan))"
  shows "check_reference registry (map (\<lambda>n. (st_id n, n)) (pd_nodes plan))
       (sorted_successors (group_edges [] (edge_pairs plan))) i r = Inl PyKeyError \<longleftrightarrow>
     ref_to_unknown_tool registry plan i r"
proof -
  obtain n pointer path where r: "r = (n, pointer, path)" by (cases r)
  let ?m = "map (\<lambda>n. (st_id n, n)) (pd_nodes plan)"
  have "distinct (map fst ?m)" using assms(1) by (simp add: node_ids_def comp_def)
  then have look: "map_of ?m n = Some k \<longleftrightarrow> k \<in> set (pd_nodes plan) \<and> st_id k = n" for k
    by (auto simp: map_of_eq_Some_iff)
  have up: "n \<noteq> i \<and> (n, i) \<in> (set (edge_pairs plan))\<^sup>* \<longleftrightarrow> (n, i) \<in> (set (edge_pairs plan))\<^sup>+"
    using assms(2) by (auto simp: rtrancl_eq_or_trancl acyclic_def)
  show ?thesis
  proof (cases "map_of ?m n")
    case None
    then have "\<forall>m \<in> set (pd_nodes plan). st_id m \<noteq> n" using look by auto
    then show ?thesis using None
      by (auto simp: r check_reference_def ref_to_unknown_tool_def bind_result_Inl_iff guard_error invalid_reference_def)
  next
    case (Some k)
    then have "m \<in> set (pd_nodes plan) \<and> st_id m = n \<longleftrightarrow> m = k" for m using look [of m] by auto
    then have one: "(\<exists>m \<in> set (pd_nodes plan). st_id m = n \<and> by_key registry (st_skill_name m) = None) \<longleftrightarrow>
        by_key registry (st_skill_name k) = None"
      by metis
    show ?thesis unfolding r ref_to_unknown_tool_def prod.case one up [symmetric] using Some
      by (auto simp: check_reference_def bind_result_Inl_iff guard_error is_reachable_iff invalid_reference_def
          split: option.splits)
  qed
qed

text \<open>A node whose own tool and inputs are in order, before its references are looked at.\<close>

definition node_checked :: "tool_registry_snapshot \<Rightarrow> plan_step \<Rightarrow> bool" where
  "node_checked registry node \<longleftrightarrow>
     (\<exists>tool. by_key registry (st_skill_name node) = Some tool
        \<and> well_shaped (td_input_schema tool) \<and> well_shaped (td_output_schema tool)
        \<and> conforms True (td_input_schema tool) (PDict (st_inputs node)))"

lemma check_node_key_error:
  assumes "distinct (node_ids plan)" and "acyclic (set (edge_pairs plan))"
  shows "check_node registry (map (\<lambda>n. (st_id n, n)) (pd_nodes plan))
       (sorted_successors (group_edges [] (edge_pairs plan))) node = Inl PyKeyError \<longleftrightarrow>
     node_checked registry node
     \<and> (\<exists>rs r rs'. collect_refs ''/'' (PDict (st_inputs node)) = rs @ r # rs'
          \<and> (\<forall>x \<in> set rs. ref_resolves registry plan (st_id node) x) \<and> ref_to_unknown_tool registry plan (st_id node) r)"
proof (cases "by_key registry (st_skill_name node)")
  case (Some tool)
  let ?check = "check_reference registry (map (\<lambda>n. (st_id n, n)) (pd_nodes plan))
    (sorted_successors (group_edges [] (edge_pairs plan))) (st_id node)"
  have resolves: "?check x = Inr () \<longleftrightarrow> ref_resolves registry plan (st_id node) x" for x
    by (cases x) (simp only: check_reference_ok [OF assms] ref_resolves_def prod.case)
  have shapes: "validate_schema_shape schema path \<noteq> Inl PyKeyError"
    "validate_json_value allow_refs path schema v \<noteq> Inl PyKeyError" for schema path allow_refs v
    using schema_shape_no_key_error json_value_no_key_error unfolding no_key_error_def by blast+
  show ?thesis
    by (simp add: check_node_def Some bind_result_Inl_iff shapes validate_schema_shape_iff validate_json_value_iff
        node_checked_def check_each_error_iff resolves check_reference_key_error [OF assms])
qed (simp add: check_node_def node_checked_def invalid_plan_def)

lemma malformed_graph_no_key_error:
  assumes "\<not> (distinct (node_ids plan) \<and> set (edge_pairs plan) \<subseteq> set (node_ids plan) \<times> set (node_ids plan))"
  shows "validate_plan plan registry \<noteq> Inl PyKeyError"
proof
  assume raised: "validate_plan plan registry = Inl PyKeyError"
  have "no_key_error (build_node_map seen nodes)" for seen nodes
    by (induction seen nodes rule: build_node_map.induct) (auto simp: invalid_plan_def intro!: no_key_error_bind)
  then have "build_node_map [] (pd_nodes plan) \<noteq> Inl PyKeyError" by (simp add: no_key_error_def)
  moreover have "check_pinned plan registry \<noteq> Inl PyKeyError"
    by (simp add: check_pinned_def Let_def bind_result_Inl_iff guard_error invalid_plan_def)
  moreover have "no_key_error (check_each (check_edge ids) (pd_edges plan))" for ids
    by (auto simp: check_edge_def invalid_plan_def intro!: no_key_error_each no_key_error_bind)
  then have "check_each (check_edge ids) (pd_edges plan) \<noteq> Inl PyKeyError" for ids by (simp add: no_key_error_def)
  ultimately obtain m where m: "build_node_map [] (pd_nodes plan) = Inr m"
    "check_each (check_edge (map fst m)) (pd_edges plan) = Inr ()"
    using raised by (auto simp: validate_plan_def bind_result_Inl_iff)
  have "distinct (node_ids plan)" "map fst m = node_ids plan"
    using m(1) unfolding build_node_map_ok node_ids_def by (simp_all add: comp_def)
  then show False using m(2) assms check_edges_ok [of plan] by metis
qed

text \<open>
  C39. The validator reports an unknown tool as an invalid plan, but not always: it lets a KeyError
  escape, which is none of the errors its callers expect, exactly when a plan that is pinned and well
  formed as a graph has a node, itself in order and listed after nodes that are all accepted, one of
  whose references (the first that does not resolve) names a node upstream of it whose tool is unknown.
\<close>

theorem unknown_tool_behind_reference:
  "validate_plan plan registry = Inl PyKeyError \<longleftrightarrow>
     rg_digest registry = ps_digest (me_registry_snapshot (pd_metadata plan))
     \<and> rg_artifact_ref registry = ps_artifact_ref (me_registry_snapshot (pd_metadata plan))
     \<and> distinct (node_ids plan)
     \<and> set (edge_pairs plan) \<subseteq> set (node_ids plan) \<times> set (node_ids plan)
     \<and> acyclic (set (edge_pairs plan))
     \<and> (\<exists>before node after. pd_nodes plan = before @ node # after
          \<and> (\<forall>x \<in> set before. node_accepted registry plan x) \<and> node_checked registry node
          \<and> (\<exists>rs r rs'. collect_refs ''/'' (PDict (st_inputs node)) = rs @ r # rs'
               \<and> (\<forall>x \<in> set rs. ref_resolves registry plan (st_id node) x)
               \<and> ref_to_unknown_tool registry plan (st_id node) r))"
proof (cases "distinct (node_ids plan) \<and> set (edge_pairs plan) \<subseteq> set (node_ids plan) \<times> set (node_ids plan)")
  case True
  then have dist: "distinct (node_ids plan)"
    and inside: "\<forall>(a, b) \<in> set (edge_pairs plan). a \<in> set (node_ids plan) \<and> b \<in> set (node_ids plan)" by auto
  note run = validate_plan_unfold [OF dist inside]
  show ?thesis
  proof (cases "topological_sort (node_ids plan) (edge_pairs plan)")
    case (Inl err)
    then have "\<not> acyclic (set (edge_pairs plan))" "err \<noteq> PyKeyError"
      using topological_sort_ok [OF dist inside] by simp_all
    then show ?thesis unfolding run Inl
      by (simp add: bind_result_Inl_iff check_pinned_def Let_def guard_error invalid_plan_def)
  next
    case (Inr order)
    then have acyc: "acyclic (set (edge_pairs plan))" using topological_sort_ok [OF dist inside] by simp
    show ?thesis unfolding run Inr
      using True acyc
      by (simp add: bind_result_Inl_iff check_pinned_def Let_def guard_error invalid_plan_def
          bind_result_Inr_iff check_each_error_iff check_node_ok [OF dist acyc] check_node_key_error [OF dist acyc])
  qed
next
  case False
  have "validate_plan plan registry \<noteq> Inl PyKeyError" by (rule malformed_graph_no_key_error [OF False])
  then show ?thesis using False by blast
qed

text \<open>A report on the result of a tool that is gone, and the same two nodes listed in the other order.\<close>

theorem unknown_tool_behind_reference_witness:
  "validate_plan (example_tool_plan (example_policy ''FAIL_FAST'' 1) (example_nodes ''gone'') [(''a'', ''b'')])
     example_registry = Inl PyKeyError
   \<and> (\<exists>before node after. example_nodes ''gone'' = before @ node # after \<and> node_checked example_registry node)
   \<and> validate_plan (example_tool_plan (example_policy ''FAIL_FAST'' 1) (rev (example_nodes ''gone'')) [(''a'', ''b'')])
     example_registry
     = Inl (PlanValidationError ''invalid_plan''
         (''Plan node '' @ quoted ''a'' @ '' references unknown tool '' @ quoted ''gone''))"
proof -
  let ?plan = "example_tool_plan (example_policy ''FAIL_FAST'' 1) (example_nodes ''gone'') [(''a'', ''b'')]"
  have raised: "validate_plan ?plan example_registry = Inl PyKeyError" by code_simp
  then have "\<exists>before node after. pd_nodes ?plan = before @ node # after \<and> node_checked example_registry node"
    unfolding unknown_tool_behind_reference by blast
  then have "\<exists>before node after. example_nodes ''gone'' = before @ node # after \<and> node_checked example_registry node"
    by (simp add: example_tool_plan_def)
  moreover have "validate_plan (example_tool_plan (example_policy ''FAIL_FAST'' 1) (rev (example_nodes ''gone'')) [(''a'', ''b'')])
     example_registry
     = Inl (PlanValidationError ''invalid_plan''
         (''Plan node '' @ quoted ''a'' @ '' references unknown tool '' @ quoted ''gone''))" by code_simp
  ultimately show ?thesis using raised by blast
qed

end
