(* ===== verification/Plan_Executor.thy ===== *)
theory Plan_Executor
  imports Plan_Validation
begin

text \<open>
  The interpreter of \<^verbatim>\<open>moonmind/workflows/skills/plan_executor.py\<close>. Its coroutine \<open>run\<close> is a machine: the
  code between two \<open>await\<close>s is a function on the local state of the coroutine, and what an \<open>await\<close>
  returns is chosen by the environment. The injected artifact store is the answer it gives to a
  sequence of \<open>put_json\<close> calls, the clock the text of its n-th reading.
\<close>

section \<open>Data\<close>

record plan_progress =
  pg_total_nodes :: nat
  pg_pending :: nat
  pg_running :: nat
  pg_succeeded :: nat
  pg_failed :: nat
  pg_last_event :: py_str
  pg_updated_at :: py_str

definition progress_payload :: "plan_progress \<Rightarrow> pyval" where
  "progress_payload p = PDict [(''total_nodes'', PInt (int (pg_total_nodes p))),
     (''pending'', PInt (int (pg_pending p))), (''running'', PInt (int (pg_running p))),
     (''completed'', PInt (int (pg_succeeded p))), (''failed'', PInt (int (pg_failed p))),
     (''last_event'', PStr (pg_last_event p)), (''updated_at'', PStr (pg_updated_at p))]"

record plan_execution_summary =
  sm_status :: py_str
  sm_results :: "(py_str \<times> tool_result) list"
  sm_failures :: "(py_str \<times> tool_failure) list"
  sm_skipped :: "py_str list"
  sm_progress :: plan_progress
  sm_progress_artifact_ref :: "py_str option"
  sm_summary_artifact_ref :: "py_str option"

type_synonym artifact_calls = "(pyval \<times> pydict) list"

record run_context =
  cx_plan :: plan_definition
  cx_store :: "(artifact_calls \<Rightarrow> py_str) option"
  cx_write_progress :: bool
  cx_clock :: "nat \<Rightarrow> py_str"

text \<open>
  The locals of \<open>run\<close>. A running task is its node and the invocation it executes; the latest
  progress comes first.
\<close>

record plan_run_state =
  rs_pending :: "py_str list"
  rs_running :: "(py_str \<times> plan_step) list"
  rs_succeeded :: "(py_str \<times> tool_result) list"
  rs_failures :: "(py_str \<times> tool_failure) list"
  rs_skipped :: "py_str list"
  rs_progress :: "plan_progress list"
  rs_writes :: artifact_calls
  rs_progress_ref :: "py_str option"

text \<open>What the injected executor does with an invocation, and how its task ends.\<close>

datatype executor_outcome =
    ExecutorResult tool_result
  | ExecutorOther py_str
  | ExecutorFailure tool_failure
  | ExecutorException py_str
  | ExecutorCancelled

datatype task_outcome =
    TaskResult tool_result
  | TaskFailure tool_failure
  | TaskException py_str
  | TaskCancelled

section \<open>Resolution of inputs\<close>

definition bad_pointer :: "py_str \<Rightarrow> plan_error" where
  "bad_pointer message = PlanExecutionError ''invalid_reference'' message"

fun walk_pointer :: "pyval \<Rightarrow> py_str list \<Rightarrow> pyval checked" where
  "walk_pointer current [] = Inr current"
| "walk_pointer current (token # tokens) =
     (let decoded = unescape_token token in
      case current of
        PDict d \<Rightarrow>
          (case map_of d decoded of
             None \<Rightarrow> Inl (bad_pointer (''json_pointer segment '' @ quoted decoded @ '' not found in mapping''))
           | Some v \<Rightarrow> walk_pointer v tokens)
      | PList xs \<Rightarrow>
          (if \<not> py_isdigit decoded
           then Inl (bad_pointer (''json_pointer segment '' @ quoted decoded @ '' is not a list index''))
           else case py_int_str decoded of
             None \<Rightarrow> Inl PyValueError
           | Some index \<Rightarrow>
               if int (length xs) \<le> index
               then Inl (bad_pointer (''json_pointer list index out of range: '' @ py_str_int index))
               else walk_pointer (xs ! nat index) tokens)
      | _ \<Rightarrow> Inl (bad_pointer (''json_pointer segment '' @ quoted decoded @ '' cannot be applied to scalar value'')))"

definition resolve_json_pointer :: "pyval \<Rightarrow> py_str \<Rightarrow> pyval checked" where
  "resolve_json_pointer document pointer =
     (if pointer = [] then Inr document
      else if \<not> py_starts_with ''/'' pointer
      then Inl (bad_pointer (''json_pointer must start with '' @ quoted ''/'' @ '': '' @ pointer))
      else walk_pointer document (tl (py_split (CHR ''/'') pointer)))"

definition resolve_reference :: "(py_str \<times> tool_result) list \<Rightarrow> pydict \<Rightarrow> pyval checked" where
  "resolve_reference results ref =
     (let node_id = text_field ''node'' ref in
      case map_of results node_id of
        None \<Rightarrow> Inl (bad_pointer (''Referenced node '' @ quoted node_id @ '' has not produced results''))
      | Some r \<Rightarrow> resolve_json_pointer (PDict (result_payload r)) (text_field ''json_pointer'' ref))"

function (sequential) resolve_inputs :: "(py_str \<times> tool_result) list \<Rightarrow> pyval \<Rightarrow> pyval checked" where
  "resolve_inputs results (PDict d) =
     (if is_ref_object (PDict d) then resolve_reference results (option_or (dict_at ''ref'' d) [])
      else bind_result (map_checked (\<lambda>(key, item).
          bind_result (resolve_inputs results item) (\<lambda>v. Inr (key, v))) d) (\<lambda>kvs. Inr (PDict kvs)))"
| "resolve_inputs results (PList xs) =
     bind_result (map_checked (resolve_inputs results) xs) (\<lambda>ys. Inr (PList ys))"
| "resolve_inputs results v = Inr v"
  by pat_completeness auto
termination
  by (relation "measure (\<lambda>(results, v). size v)")
    (auto dest: dict_mem_size list_mem_size intro: less_SucI)

section \<open>Effects of the loop\<close>

definition plan_node :: "plan_definition \<Rightarrow> py_str \<Rightarrow> plan_step option" where
  "plan_node plan = map_of (rev (map (\<lambda>n. (st_id n, n)) (pd_nodes plan)))"

fun add_dependencies :: "successors \<Rightarrow> edge_list \<Rightarrow> successors checked" where
  "add_dependencies deps [] = Inr deps"
| "add_dependencies deps ((a, b) # edges) =
     (case map_of deps b of
        None \<Rightarrow> Inl PyKeyError
      | Some ds \<Rightarrow> add_dependencies (dict_set b (ds @ [a]) deps) edges)"

definition dependencies :: "plan_definition \<Rightarrow> successors checked" where
  "dependencies plan =
     bind_result (add_dependencies (map (\<lambda>n. (n, [])) (node_ids plan)) (edge_pairs plan)) (\<lambda>deps.
     Inr (sorted_successors deps))"

text \<open>The names of artifacts and their labels.\<close>

definition artifact_metadata :: "py_str \<Rightarrow> py_str \<Rightarrow> pydict" where
  "artifact_metadata name label =
     [(''name'', PStr name), (''producer'', PStr ''plan.interpreter''),
      (''labels'', str_list [''plan'', label])]"

definition set_progress :: "run_context \<Rightarrow> nat \<Rightarrow> nat \<Rightarrow> nat \<Rightarrow> nat \<Rightarrow> py_str \<Rightarrow> plan_run_state \<Rightarrow> plan_run_state" where
  "set_progress ctx pending running succeeded failed last_event st =
     (let progress = \<lparr> pg_total_nodes = length (pd_nodes (cx_plan ctx)), pg_pending = pending,
            pg_running = running, pg_succeeded = succeeded, pg_failed = failed,
            pg_last_event = last_event, pg_updated_at = cx_clock ctx (length (rs_progress st)) \<rparr>;
          st = st\<lparr> rs_progress := progress # rs_progress st \<rparr>
      in case cx_store ctx of
           Some store \<Rightarrow>
             if cx_write_progress ctx
             then let writes = rs_writes st @ [(progress_payload progress, artifact_metadata ''progress.json'' ''progress'')]
                  in st\<lparr> rs_writes := writes, rs_progress_ref := Some (store writes) \<rparr>
             else st
         | None \<Rightarrow> st)"

definition note_progress :: "run_context \<Rightarrow> py_str \<Rightarrow> plan_run_state \<Rightarrow> plan_run_state" where
  "note_progress ctx last_event st =
     set_progress ctx (length (rs_pending st)) (length (rs_running st)) (length (rs_succeeded st))
       (length (rs_failures st)) last_event st"

definition execute_node :: "executor_outcome \<Rightarrow> task_outcome" where
  "execute_node out =
     (case out of
        ExecutorResult r \<Rightarrow> TaskResult r
      | ExecutorOther t \<Rightarrow> TaskException (''Executor returned unsupported result type: '' @ t)
      | ExecutorFailure f \<Rightarrow> TaskFailure f
      | ExecutorException e \<Rightarrow> TaskException e
      | ExecutorCancelled \<Rightarrow> TaskCancelled)"

text \<open>The verdict on a node: the result it contributes, or the failure.\<close>

definition task_verdict :: "py_str \<Rightarrow> task_outcome \<Rightarrow> tool_failure + tool_result" where
  "task_verdict node_id out =
     (case out of
        TaskCancelled \<Rightarrow> Inl (ToolFailure ''CANCELLED'' (''Node '' @ quoted node_id @ '' was cancelled'') False [] None)
      | TaskFailure f \<Rightarrow> Inl f
      | TaskException e \<Rightarrow> Inl (ToolFailure ''INTERNAL'' (''Node '' @ quoted node_id @ '' raised: '' @ e) True [] None)
      | TaskResult r \<Rightarrow>
          if tr_status r = ''COMPLETED'' then Inr r
          else if tr_status r = ''CANCELLED''
          then Inl (ToolFailure ''CANCELLED'' (''Node '' @ quoted node_id @ '' returned CANCELLED'') False [] None)
          else Inl (ToolFailure ''EXTERNAL_FAILED'' (''Node '' @ quoted node_id @ '' returned status '' @ tr_status r)
                 False [(''status'', PStr (tr_status r))] None))"

definition record_task_outcome :: "py_str \<Rightarrow> task_outcome \<Rightarrow> plan_run_state \<Rightarrow> plan_run_state" where
  "record_task_outcome node_id out st =
     (if node_id \<in> fst ` set (rs_succeeded st) \<or> node_id \<in> fst ` set (rs_failures st) then st
      else case task_verdict node_id out of
        Inr r \<Rightarrow> st\<lparr> rs_succeeded := dict_set node_id r (rs_succeeded st) \<rparr>
      | Inl f \<Rightarrow> st\<lparr> rs_failures := dict_set node_id f (rs_failures st) \<rparr>)"

definition fail_unresolved :: "run_context \<Rightarrow> py_str \<Rightarrow> py_str \<Rightarrow> py_str \<Rightarrow> plan_run_state \<Rightarrow> plan_run_state" where
  "fail_unresolved ctx node_id code message st =
     note_progress ctx (''Failed to resolve inputs for '' @ node_id)
       (st\<lparr> rs_failures := dict_set node_id (ToolFailure (py_upper code) message False [] None) (rs_failures st),
            rs_pending := filter (\<lambda>n. n \<noteq> node_id) (rs_pending st) \<rparr>)"

definition start_task :: "run_context \<Rightarrow> py_str \<Rightarrow> plan_step \<Rightarrow> plan_run_state \<Rightarrow> plan_run_state" where
  "start_task ctx node_id invocation st =
     note_progress ctx (''Started '' @ node_id)
       (st\<lparr> rs_running := rs_running st @ [(node_id, invocation)],
            rs_pending := filter (\<lambda>n. n \<noteq> node_id) (rs_pending st) \<rparr>)"

definition invocation_of :: "plan_step \<Rightarrow> pyval \<Rightarrow> plan_step checked" where
  "invocation_of node inputs =
     new_step (st_id node) (st_skill_name node) inputs (st_options node) ''skill'' None None"

fun start_ready :: "run_context \<Rightarrow> py_str list \<Rightarrow> plan_run_state \<Rightarrow> plan_run_state checked" where
  "start_ready ctx [] st = Inr st"
| "start_ready ctx (node_id # ready) st =
     (if int (length (rs_running st)) < py_max_concurrency (pd_policy (cx_plan ctx))
      then (case plan_node (cx_plan ctx) node_id of
              None \<Rightarrow> Inl PyKeyError
            | Some node \<Rightarrow>
                (case resolve_inputs (rs_succeeded st) (PDict (st_inputs node)) of
                   Inl (PlanExecutionError code message) \<Rightarrow>
                     start_ready ctx ready (fail_unresolved ctx node_id code message st)
                 | Inl e \<Rightarrow> Inl e
                 | Inr inputs \<Rightarrow>
                     bind_result (invocation_of node inputs) (\<lambda>invocation.
                     start_ready ctx ready (start_task ctx node_id invocation st))))
      else Inr st)"

section \<open>The loop\<close>

datatype run_config =
    Looping plan_run_state
  | Awaiting plan_run_state
  | Cancelling plan_run_state
  | Finished plan_run_state
  | Crashed plan_error

definition fail_fast :: "run_context \<Rightarrow> bool" where
  "fail_fast ctx \<longleftrightarrow> py_failure_mode (pd_policy (cx_plan ctx)) = ''FAIL_FAST''"

definition skip_pending :: "plan_run_state \<Rightarrow> plan_run_state" where
  "skip_pending st = st\<lparr> rs_skipped := rs_skipped st @ sort (rs_pending st), rs_pending := [] \<rparr>"

definition ready_nodes :: "successors \<Rightarrow> plan_run_state \<Rightarrow> py_str list" where
  "ready_nodes deps st =
     sort (filter (\<lambda>n. \<forall>dep \<in> set (outgoing_get deps n). dep \<in> fst ` set (rs_succeeded st)) (rs_pending st))"

definition finish_cancelled :: "run_context \<Rightarrow> plan_run_state \<Rightarrow> plan_run_state" where
  "finish_cancelled ctx st =
     note_progress ctx ''Fail-fast cancelled in-flight nodes'' (skip_pending (st\<lparr> rs_running := [] \<rparr>))"

definition loop_iteration :: "run_context \<Rightarrow> successors \<Rightarrow> plan_run_state \<Rightarrow> run_config" where
  "loop_iteration ctx deps st =
     (if rs_pending st = [] \<and> rs_running st = [] then Finished st
      else if fail_fast ctx \<and> rs_failures st \<noteq> []
      then (if rs_running st = [] then Finished (finish_cancelled ctx st) else Cancelling st)
      else if ready_nodes deps st = [] \<and> rs_running st = [] then Finished (skip_pending st)
      else case start_ready ctx (ready_nodes deps st) st of
        Inl e \<Rightarrow> Crashed e
      | Inr st' \<Rightarrow> if rs_running st' = [] then Looping st' else Awaiting st')"

definition complete_task :: "run_context \<Rightarrow> py_str \<times> executor_outcome \<Rightarrow> plan_run_state \<Rightarrow> plan_run_state" where
  "complete_task ctx = (\<lambda>(node_id, out) st.
     note_progress ctx (''Completed '' @ node_id)
       (record_task_outcome node_id (execute_node out)
         (st\<lparr> rs_running := filter (\<lambda>(n, _). n \<noteq> node_id) (rs_running st) \<rparr>)))"

definition complete_tasks :: "run_context \<Rightarrow> (py_str \<times> executor_outcome) list \<Rightarrow> plan_run_state \<Rightarrow> plan_run_state" where
  "complete_tasks ctx outcomes st = fold (complete_task ctx) outcomes st"

definition cancel_tasks :: "run_context \<Rightarrow> (py_str \<times> executor_outcome) list \<Rightarrow> plan_run_state \<Rightarrow> plan_run_state" where
  "cancel_tasks ctx outcomes st =
     finish_cancelled ctx (fold (\<lambda>(n, out). record_task_outcome n (execute_node out)) outcomes st)"

definition initial_plan_run_state :: "run_context \<Rightarrow> plan_run_state" where
  "initial_plan_run_state ctx =
     note_progress ctx ''Plan execution started''
       \<lparr> rs_pending = remdups (node_ids (cx_plan ctx)), rs_running = [], rs_succeeded = [], rs_failures = [],
         rs_skipped = [], rs_progress = [], rs_writes = [], rs_progress_ref = None \<rparr>"

text \<open>
  The machine. At \<open>asyncio.wait\<close> some of the running tasks are done, each with an outcome the executor
  may have on its invocation, in any order; a cancelled task may still end in any way.
\<close>

inductive run_step ::
  "run_context \<Rightarrow> successors \<Rightarrow> (plan_step \<Rightarrow> executor_outcome \<Rightarrow> bool) \<Rightarrow> run_config \<Rightarrow> run_config \<Rightarrow> bool"
  for ctx deps may where
  iterate: "run_step ctx deps may (Looping st) (loop_iteration ctx deps st)"
| completed: "outcomes \<noteq> [] \<Longrightarrow> distinct (map fst outcomes) \<Longrightarrow>
     \<forall>(n, out) \<in> set outcomes. \<exists>invocation. (n, invocation) \<in> set (rs_running st) \<and> may invocation out \<Longrightarrow>
     run_step ctx deps may (Awaiting st) (Looping (complete_tasks ctx outcomes st))"
| cancelled: "map fst outcomes = map fst (rs_running st) \<Longrightarrow>
     run_step ctx deps may (Cancelling st) (Finished (cancel_tasks ctx outcomes st))"

definition start_run :: "run_context \<Rightarrow> run_config" where
  "start_run ctx = (case dependencies (cx_plan ctx) of Inl e \<Rightarrow> Crashed e | Inr _ \<Rightarrow> Looping (initial_plan_run_state ctx))"

definition run_status :: "run_context \<Rightarrow> plan_run_state \<Rightarrow> py_str" where
  "run_status ctx st =
     (if rs_failures st \<noteq> [] \<and> fail_fast ctx then ''FAILED''
      else if rs_failures st \<noteq> [] then ''PARTIAL''
      else if rs_skipped st \<noteq> [] then ''PARTIAL''
      else ''COMPLETED'')"

definition summary_payload :: "py_str \<Rightarrow> plan_run_state \<Rightarrow> plan_progress \<Rightarrow> pyval" where
  "summary_payload status st progress = PDict
     [(''status'', PStr status),
      (''results'', PDict (map (\<lambda>(n, r). (n, PDict (result_payload r))) (sort_key fst (rs_succeeded st)))),
      (''failures'', PDict (map (\<lambda>(n, f). (n, failure_payload f)) (sort_key fst (rs_failures st)))),
      (''skipped'', str_list (sort (rs_skipped st))),
      (''progress'', progress_payload progress)]"

definition summarize :: "run_context \<Rightarrow> plan_run_state \<Rightarrow> plan_execution_summary \<times> artifact_calls" where
  "summarize ctx st =
     (let progress = (case rs_progress st of
            p # _ \<Rightarrow> p
          | [] \<Rightarrow> \<lparr> pg_total_nodes = length (pd_nodes (cx_plan ctx)), pg_pending = 0, pg_running = 0,
                   pg_succeeded = length (rs_succeeded st), pg_failed = length (rs_failures st),
                   pg_last_event = ''Plan execution completed'', pg_updated_at = cx_clock ctx 0 \<rparr>);
          status = run_status ctx st;
          writes = (case cx_store ctx of
              None \<Rightarrow> rs_writes st
            | Some _ \<Rightarrow> rs_writes st @ [(summary_payload status st progress, artifact_metadata ''plan_summary.json'' ''summary'')])
      in (\<lparr> sm_status = status, sm_results = rs_succeeded st, sm_failures = rs_failures st,
            sm_skipped = sort (rs_skipped st), sm_progress = progress,
            sm_progress_artifact_ref = rs_progress_ref st,
            sm_summary_artifact_ref = map_option (\<lambda>store. store writes) (cx_store ctx) \<rparr>, writes))"

definition create_interpreter ::
  "plan_definition \<Rightarrow> tool_registry_snapshot \<Rightarrow> (artifact_calls \<Rightarrow> py_str) option \<Rightarrow> bool \<Rightarrow> (nat \<Rightarrow> py_str) \<Rightarrow>
   run_context checked" where
  "create_interpreter plan registry store write_progress clock =
     bind_result (validate_plan plan registry) (\<lambda>v.
     Inr \<lparr> cx_plan = vp_plan v, cx_store = store, cx_write_progress = write_progress, cx_clock = clock \<rparr>)"

definition validate_then_execute ::
  "plan_definition \<Rightarrow> tool_registry_snapshot \<Rightarrow> (artifact_calls \<Rightarrow> py_str) option \<Rightarrow> bool \<Rightarrow> (nat \<Rightarrow> py_str) \<Rightarrow>
   run_config checked" where
  "validate_then_execute plan registry store write_progress clock =
     (case create_interpreter plan registry store write_progress clock of
        Inr ctx \<Rightarrow> Inr (start_run ctx)
      | Inl (PlanValidationError code message) \<Rightarrow> Inl (PlanExecutionError ''validation_failed'' message)
      | Inl e \<Rightarrow> Inl e)"

section \<open>Frame rules\<close>

lemma set_progress_frame [simp]:
  "rs_pending (set_progress ctx p r s f e st) = rs_pending st"
  "rs_running (set_progress ctx p r s f e st) = rs_running st"
  "rs_succeeded (set_progress ctx p r s f e st) = rs_succeeded st"
  "rs_failures (set_progress ctx p r s f e st) = rs_failures st"
  "rs_skipped (set_progress ctx p r s f e st) = rs_skipped st"
  by (simp_all add: set_progress_def Let_def split: option.split)

lemma note_progress_frame [simp]:
  "rs_pending (note_progress ctx e st) = rs_pending st"
  "rs_running (note_progress ctx e st) = rs_running st"
  "rs_succeeded (note_progress ctx e st) = rs_succeeded st"
  "rs_failures (note_progress ctx e st) = rs_failures st"
  "rs_skipped (note_progress ctx e st) = rs_skipped st"
  by (simp_all add: note_progress_def)

lemma skip_pending_frame [simp]:
  "rs_pending (skip_pending st) = []"
  "rs_running (skip_pending st) = rs_running st"
  "rs_succeeded (skip_pending st) = rs_succeeded st"
  "rs_failures (skip_pending st) = rs_failures st"
  "rs_skipped (skip_pending st) = rs_skipped st @ sort (rs_pending st)"
  "rs_progress (skip_pending st) = rs_progress st"
  by (simp_all add: skip_pending_def)

lemma start_task_frame [simp]:
  "rs_pending (start_task ctx n i st) = filter (\<lambda>m. m \<noteq> n) (rs_pending st)"
  "rs_running (start_task ctx n i st) = rs_running st @ [(n, i)]"
  "rs_succeeded (start_task ctx n i st) = rs_succeeded st"
  "rs_failures (start_task ctx n i st) = rs_failures st"
  "rs_skipped (start_task ctx n i st) = rs_skipped st"
  by (simp_all add: start_task_def)

lemma fail_unresolved_frame [simp]:
  "rs_pending (fail_unresolved ctx n c m st) = filter (\<lambda>k. k \<noteq> n) (rs_pending st)"
  "rs_running (fail_unresolved ctx n c m st) = rs_running st"
  "rs_succeeded (fail_unresolved ctx n c m st) = rs_succeeded st"
  "rs_failures (fail_unresolved ctx n c m st) =
     dict_set n (ToolFailure (py_upper c) m False [] None) (rs_failures st)"
  "rs_skipped (fail_unresolved ctx n c m st) = rs_skipped st"
  by (simp_all add: fail_unresolved_def)

lemma finish_cancelled_frame [simp]:
  "rs_pending (finish_cancelled ctx st) = []"
  "rs_running (finish_cancelled ctx st) = []"
  "rs_succeeded (finish_cancelled ctx st) = rs_succeeded st"
  "rs_failures (finish_cancelled ctx st) = rs_failures st"
  "rs_skipped (finish_cancelled ctx st) = rs_skipped st @ sort (rs_pending st)"
  by (simp_all add: finish_cancelled_def)

text \<open>The latest progress states the counts of the state it was noted in.\<close>

definition counted :: "run_context \<Rightarrow> plan_run_state \<Rightarrow> bool" where
  "counted ctx st \<longleftrightarrow> (\<exists>p ps. rs_progress st = p # ps
     \<and> pg_total_nodes p = length (pd_nodes (cx_plan ctx))
     \<and> pg_pending p = length (rs_pending st) \<and> pg_running p = length (rs_running st)
     \<and> pg_succeeded p = length (rs_succeeded st) \<and> pg_failed p = length (rs_failures st))"

lemma note_progress_counted [simp]: "counted ctx (note_progress ctx e st)"
  by (simp add: counted_def note_progress_def set_progress_def Let_def split: option.split)

section \<open>Resolution\<close>

lemma resolve_reference_mono:
  assumes "resolve_reference results ref = Inr v" and "map_of results \<subseteq>\<^sub>m map_of results'"
  shows "resolve_reference results' ref = Inr v"
proof -
  obtain r where r: "map_of results (text_field ''node'' ref) = Some r"
    using assms(1) by (auto simp: resolve_reference_def Let_def split: option.splits)
  then have "map_of results' (text_field ''node'' ref) = Some r"
    using assms(2) by (metis domI map_le_def)
  then show ?thesis using assms(1) r by (simp add: resolve_reference_def)
qed

lemma map_checked_mono:
  assumes "map_checked f xs = Inr ys" and "\<And>x y. x \<in> set xs \<Longrightarrow> f x = Inr y \<Longrightarrow> g x = Inr y"
  shows "map_checked g xs = Inr ys"
  using assms unfolding map_checked_ok by (rule list.rel_mono_strong)

lemma resolve_inputs_mono:
  assumes "resolve_inputs results v = Inr w" and "map_of results \<subseteq>\<^sub>m map_of results'"
  shows "resolve_inputs results' v = Inr w"
  using assms
proof (induction results v arbitrary: w rule: resolve_inputs.induct)
  case (1 results d)
  show ?case
  proof (cases "is_ref_object (PDict d)")
    case True
    then have "resolve_reference results (option_or (dict_at ''ref'' d) []) = Inr w" using 1(2) by simp
    from resolve_reference_mono [OF this 1(3)] show ?thesis using True by simp
  next
    case False
    then obtain kvs where kvs: "map_checked (\<lambda>(key, item). bind_result (resolve_inputs results item) (\<lambda>v. Inr (key, v))) d = Inr kvs"
      "w = PDict kvs" using 1(2) by (auto simp: bind_result_Inr_iff)
    have "map_checked (\<lambda>(key, item). bind_result (resolve_inputs results' item) (\<lambda>v. Inr (key, v))) d = Inr kvs"
      by (rule map_checked_mono [OF kvs(1)])
        (use 1(1) [OF False] 1(3) in \<open>auto simp: bind_result_Inr_iff\<close>)
    then show ?thesis using False kvs(2) by simp
  qed
next
  case (2 results xs)
  then obtain ys where ys: "map_checked (resolve_inputs results) xs = Inr ys" "w = PList ys"
    by (auto simp: bind_result_Inr_iff)
  have "map_checked (resolve_inputs results') xs = Inr ys"
    by (rule map_checked_mono [OF ys(1)]) (use 2(1,3) in blast)
  then show ?case using ys(2) by simp
qed simp_all

text \<open>Only an input that is itself a reference resolves to something that is no object.\<close>

lemma resolve_inputs_object:
  "resolve_inputs results (PDict d) = Inr w \<Longrightarrow> \<not> is_ref_object (PDict d) \<Longrightarrow> \<exists>kvs. w = PDict kvs"
  by (auto simp: bind_result_Inr_iff)

lemma map_checked_error: "map_checked f xs = Inl e \<Longrightarrow> \<exists>x \<in> set xs. f x = Inl e"
proof (induction xs)
  case (Cons x xs)
  then show ?case
    by (cases "f x"; cases "map_checked f xs") auto
qed simp

lemma walk_pointer_error: "walk_pointer v tokens = Inl e \<Longrightarrow> e = PyValueError \<or> (\<exists>m. e = bad_pointer m)"
  by (induction v tokens rule: walk_pointer.induct)
    (auto simp: Let_def split: pyval.splits option.splits if_splits)

lemma resolve_inputs_error:
  "resolve_inputs results v = Inl e \<Longrightarrow> e = PyValueError \<or> (\<exists>m. e = bad_pointer m)"
proof (induction results v rule: resolve_inputs.induct)
  case (1 results d)
  show ?case
  proof (cases "is_ref_object (PDict d)")
    case True
    then show ?thesis using 1(2)
      by (auto simp: resolve_reference_def resolve_json_pointer_def Let_def
          dest: walk_pointer_error split: option.splits if_splits)
  next
    case False
    then have "map_checked (\<lambda>(key, item). bind_result (resolve_inputs results item) (\<lambda>v. Inr (key, v))) d = Inl e"
      using 1(2) by (auto simp: bind_result_def split: sum.splits)
    from map_checked_error [OF this] obtain key item where "(key, item) \<in> set d"
      "resolve_inputs results item = Inl e" by (auto simp: bind_result_def split: sum.splits)
    then show ?thesis using 1(1) [OF False] by blast
  qed
next
  case (2 results xs)
  then have "map_checked (resolve_inputs results) xs = Inl e" by (auto simp: bind_result_def split: sum.splits)
  from map_checked_error [OF this] show ?case using 2(1) by blast
qed simp_all

end
