(* ===== verification/Plan_Execution.thy ===== *)
theory Plan_Execution
  imports Plan_Executor Machines
begin

text \<open>
  Runs of the plan interpreter: the invariant of its states, the bound on the number of its steps,
  and what a finished run has done with every node.
\<close>

section \<open>Dependencies\<close>

text \<open>A plan whose node names are distinct and whose edges join its nodes, with its policy in range.\<close>

definition runnable :: "plan_definition \<Rightarrow> bool" where
  "runnable plan \<longleftrightarrow> distinct (node_ids plan)
     \<and> set (edge_pairs plan) \<subseteq> set (node_ids plan) \<times> set (node_ids plan)
     \<and> 0 < py_max_concurrency (pd_policy plan)"

definition needs :: "plan_definition \<Rightarrow> py_str \<Rightarrow> py_str set" where
  "needs plan n = {a. (a, n) \<in> set (edge_pairs plan)}"

lemma add_dependencies_ok:
  assumes "\<forall>(a, b) \<in> set edges. b \<in> fst ` set deps"
  shows "\<exists>deps'. add_dependencies deps edges = Inr deps'
     \<and> (\<forall>n. set (outgoing_get deps' n) = set (outgoing_get deps n) \<union> {a. (a, n) \<in> set edges})"
  using assms
proof (induction deps edges rule: add_dependencies.induct)
  case (2 deps a b edges)
  have "b \<in> fst ` set deps" using 2(2) by simp
  then obtain ds where ds: "map_of deps b = Some ds"
    using map_of_eq_None_iff [of deps b] by (cases "map_of deps b") blast+
  have "fst ` set (dict_set b (ds @ [a]) deps) = fst ` set deps"
    using \<open>b \<in> fst ` set deps\<close> by (simp add: dict_set_keys insert_absorb)
  then have "\<forall>(x, y) \<in> set edges. y \<in> fst ` set (dict_set b (ds @ [a]) deps)" using 2(2) by simp
  from 2(1) [OF ds this] obtain deps' where r: "add_dependencies (dict_set b (ds @ [a]) deps) edges = Inr deps'"
    "\<And>n. set (outgoing_get deps' n) = set (outgoing_get (dict_set b (ds @ [a]) deps) n) \<union> {x. (x, n) \<in> set edges}"
    by blast
  have "set (outgoing_get deps' n) = set (outgoing_get deps n) \<union> {x. (x, n) \<in> set ((a, b) # edges)}" for n
    unfolding r(2) using ds by (auto simp: outgoing_get_def)
  then show ?case using ds r(1) by simp
qed simp

lemma dependencies_ok:
  assumes "runnable plan"
  obtains deps where "dependencies plan = Inr deps" and "\<And>n. set (outgoing_get deps n) = needs plan n"
proof -
  have "\<forall>(a, b) \<in> set (edge_pairs plan). b \<in> fst ` set (map (\<lambda>n. (n, [] :: py_str list)) (node_ids plan))"
    using assms by (force simp: runnable_def)
  from add_dependencies_ok [OF this] obtain deps where
    d: "add_dependencies (map (\<lambda>n. (n, [])) (node_ids plan)) (edge_pairs plan) = Inr deps"
    "\<And>n. set (outgoing_get deps n) = set (outgoing_get (map (\<lambda>n. (n, [])) (node_ids plan)) n) \<union> needs plan n"
    unfolding needs_def by blast
  have "outgoing_get (map (\<lambda>n. (n, [] :: py_str list)) ids) n = []" for ids n
    by (induction ids) (auto simp: outgoing_get_def)
  then have "set (outgoing_get (sorted_successors deps) n) = needs plan n" for n
    by (simp add: outgoing_get_sorted d(2))
  then show ?thesis using that d(1) by (simp add: dependencies_def)
qed

section \<open>The invariant of a run\<close>

definition run_nodes :: "plan_run_state \<Rightarrow> py_str list" where
  "run_nodes st = rs_pending st @ map fst (rs_running st) @ map fst (rs_succeeded st)
     @ map fst (rs_failures st) @ rs_skipped st"

definition attempted :: "plan_run_state \<Rightarrow> py_str set" where
  "attempted st = fst ` set (rs_running st) \<union> fst ` set (rs_succeeded st) \<union> fst ` set (rs_failures st)"

definition invoked :: "plan_definition \<Rightarrow> (py_str \<times> tool_result) list \<Rightarrow> py_str \<Rightarrow> plan_step \<Rightarrow> bool" where
  "invoked plan results n i \<longleftrightarrow>
     (\<exists>node v. plan_node plan n = Some node \<and> resolve_inputs results (PDict (st_inputs node)) = Inr v
        \<and> invocation_of node v = Inr i)"

definition state_inv :: "plan_definition \<Rightarrow> plan_run_state \<Rightarrow> bool" where
  "state_inv plan st \<longleftrightarrow>
     mset (run_nodes st) = mset (node_ids plan)
     \<and> int (length (rs_running st)) \<le> py_max_concurrency (pd_policy plan)
     \<and> (\<forall>n \<in> attempted st. needs plan n \<subseteq> fst ` set (rs_succeeded st))
     \<and> (\<forall>(n, i) \<in> set (rs_running st). invoked plan (rs_succeeded st) n i)"

lemma state_inv_distinct: "distinct (node_ids plan) \<Longrightarrow> state_inv plan st \<Longrightarrow> distinct (run_nodes st)"
  by (metis mset_eq_imp_distinct_iff state_inv_def)

lemma state_inv_set: "state_inv plan st \<Longrightarrow> set (run_nodes st) = set (node_ids plan)"
  by (metis set_mset_mset state_inv_def)

lemma mset_filter_neq: "distinct xs \<Longrightarrow> mset (filter (\<lambda>m. m \<noteq> n) xs) = mset xs - {#n#}"
  by (induction xs) (auto simp: filter_id_conv)

lemma pending_moves: "distinct xs \<Longrightarrow> n \<in> set xs \<Longrightarrow> mset xs = add_mset n (mset (filter (\<lambda>m. m \<noteq> n) xs))"
  by (metis insert_DiffM mset_filter_neq set_mset_mset)

lemma start_task_inv:
  assumes "distinct (node_ids plan)" and inv: "state_inv plan st" and "n \<in> set (rs_pending st)"
    and "needs plan n \<subseteq> fst ` set (rs_succeeded st)" and "invoked plan (rs_succeeded st) n i"
    and "int (length (rs_running st)) < py_max_concurrency (pd_policy plan)"
  shows "state_inv plan (start_task ctx n i st)"
proof -
  have "distinct (rs_pending st)" using state_inv_distinct [OF assms(1) inv] by (simp add: run_nodes_def)
  then have "mset (run_nodes (start_task ctx n i st)) = mset (run_nodes st)"
    using pending_moves [of "rs_pending st" n] assms(3) by (simp add: run_nodes_def)
  then show ?thesis using assms by (auto simp: state_inv_def attempted_def)
qed

lemma fail_unresolved_inv:
  assumes "distinct (node_ids plan)" and inv: "state_inv plan st" and "n \<in> set (rs_pending st)"
    and "needs plan n \<subseteq> fst ` set (rs_succeeded st)"
  shows "state_inv plan (fail_unresolved ctx n c m st)"
proof -
  have d: "distinct (run_nodes st)" using state_inv_distinct [OF assms(1) inv] .
  then have "distinct (rs_pending st)" and fresh: "n \<notin> fst ` set (rs_failures st)"
    using assms(3) by (auto simp: run_nodes_def)
  then have "mset (run_nodes (fail_unresolved ctx n c m st)) = mset (run_nodes st)"
    using pending_moves [of "rs_pending st" n] assms(3) by (simp add: run_nodes_def dict_set_fresh)
  then show ?thesis using assms(2,4) fresh by (auto simp: state_inv_def attempted_def dict_set_keys)
qed

lemma record_task_outcome_frame [simp]:
  "rs_pending (record_task_outcome n out st) = rs_pending st"
  "rs_running (record_task_outcome n out st) = rs_running st"
  "rs_skipped (record_task_outcome n out st) = rs_skipped st"
  by (simp_all add: record_task_outcome_def split: sum.split)

lemma record_task_outcome_cases:
  assumes "n \<notin> fst ` set (rs_succeeded st)" and "n \<notin> fst ` set (rs_failures st)"
  obtains
    (succeeded) r where "task_verdict n out = Inr r" "rs_succeeded (record_task_outcome n out st) = rs_succeeded st @ [(n, r)]"
      "rs_failures (record_task_outcome n out st) = rs_failures st"
  | (failed) f where "task_verdict n out = Inl f" "rs_succeeded (record_task_outcome n out st) = rs_succeeded st"
      "rs_failures (record_task_outcome n out st) = rs_failures st @ [(n, f)]"
  using assms that by (cases "task_verdict n out") (simp_all add: record_task_outcome_def dict_set_fresh)

lemma needs_mono:
  "\<forall>n \<in> A. needs plan n \<subseteq> fst ` set xs \<Longrightarrow> set xs \<subseteq> set ys \<Longrightarrow> \<forall>n \<in> A. needs plan n \<subseteq> fst ` set ys"
  by blast

lemma invoked_mono:
  "invoked plan results n i \<Longrightarrow> map_of results \<subseteq>\<^sub>m map_of results' \<Longrightarrow> invoked plan results' n i"
  unfolding invoked_def using resolve_inputs_mono by blast

lemma pop_running:
  assumes "distinct (map fst rs)" and "(n, i) \<in> set rs"
  shows "mset (map fst rs) = add_mset n (mset (map fst (filter (\<lambda>(m, _). m \<noteq> n) rs)))"
proof -
  have "map fst (filter (\<lambda>(m, _). m \<noteq> n) rs) = filter (\<lambda>m. m \<noteq> n) (map fst rs)"
    by (induction rs) auto
  moreover have "n \<in> set (map fst rs)" using assms(2) by force
  ultimately show ?thesis using pending_moves [OF assms(1)] by metis
qed

lemma complete_task_inv:
  assumes dist: "distinct (node_ids plan)" and inv: "state_inv plan st" and run: "(n, i) \<in> set (rs_running st)"
  shows "state_inv plan (complete_task ctx (n, out) st)"
proof -
  let ?st = "st\<lparr> rs_running := filter (\<lambda>(m, _). m \<noteq> n) (rs_running st) \<rparr>"
  let ?st' = "record_task_outcome n (execute_node out) ?st"
  have d: "distinct (run_nodes st)" using state_inv_distinct [OF dist inv] .
  have n: "n \<in> fst ` set (rs_running st)" using run by force
  then have fresh: "n \<notin> fst ` set (rs_succeeded ?st)" "n \<notin> fst ` set (rs_failures ?st)"
    using d by (auto simp: run_nodes_def)
  have pop: "mset (map fst (rs_running st)) = add_mset n (mset (map fst (rs_running ?st)))"
    using pop_running [OF _ run] d by (simp add: run_nodes_def)
  have att: "needs plan m \<subseteq> fst ` set (rs_succeeded st)" if "m \<in> insert n (attempted ?st)" for m
    using inv n that by (auto simp: state_inv_def attempted_def)
  have "length (rs_running ?st) \<le> length (rs_running st)" by simp
  then have len: "int (length (rs_running ?st')) \<le> py_max_concurrency (pd_policy plan)"
    using inv unfolding state_inv_def record_task_outcome_frame by linarith
  have inv': "state_inv plan ?st'"
    using fresh
  proof (cases rule: record_task_outcome_cases [where out = "execute_node out"])
    case (succeeded r)
    have m: "mset (run_nodes ?st') = mset (run_nodes st)"
      unfolding run_nodes_def using pop by (simp add: succeeded)
    have le: "map_of (rs_succeeded st) \<subseteq>\<^sub>m map_of (rs_succeeded ?st')"
      by (simp add: succeeded(2))
    have "needs plan m \<subseteq> fst ` set (rs_succeeded ?st')" if "m \<in> attempted ?st'" for m
    proof -
      have "m \<in> insert n (attempted ?st)" using that succeeded by (auto simp: attempted_def)
      then show ?thesis using att [of m] succeeded(2) by auto
    qed
    moreover have "invoked plan (rs_succeeded ?st') m j" if "(m, j) \<in> set (rs_running ?st')" for m j
      using inv that invoked_mono [OF _ le, of plan m j] by (auto simp: state_inv_def)
    ultimately show ?thesis using m inv len unfolding state_inv_def [of plan] by force
  next
    case (failed f)
    have m: "mset (run_nodes ?st') = mset (run_nodes st)"
      unfolding run_nodes_def using pop by (simp add: failed)
    have "needs plan m \<subseteq> fst ` set (rs_succeeded ?st')" if "m \<in> attempted ?st'" for m
    proof -
      have "m \<in> insert n (attempted ?st)" using that failed by (auto simp: attempted_def)
      then show ?thesis using att [of m] failed(2) by auto
    qed
    moreover have "invoked plan (rs_succeeded ?st') m j" if "(m, j) \<in> set (rs_running ?st')" for m j
      using inv that failed(2) by (auto simp: state_inv_def)
    ultimately show ?thesis using m inv len unfolding state_inv_def [of plan] by force
  qed
  have "state_inv plan (note_progress ctx e s) = state_inv plan s" for e s
    by (simp add: state_inv_def run_nodes_def attempted_def)
  then show ?thesis using inv' by (simp add: complete_task_def)
qed

lemma complete_task_running [simp]:
  "rs_running (complete_task ctx (n, out) st) = filter (\<lambda>(m, _). m \<noteq> n) (rs_running st)"
  "rs_pending (complete_task ctx (n, out) st) = rs_pending st"
  "rs_skipped (complete_task ctx (n, out) st) = rs_skipped st"
  "counted ctx (complete_task ctx (n, out) st)"
  by (simp_all add: complete_task_def)

lemma complete_tasks_inv:
  assumes "distinct (node_ids plan)" and "state_inv plan st" and "distinct (map fst outcomes)"
    and "\<forall>(n, out) \<in> set outcomes. \<exists>i. (n, i) \<in> set (rs_running st)"
  shows "state_inv plan (complete_tasks ctx outcomes st)
    \<and> rs_running (complete_tasks ctx outcomes st) = filter (\<lambda>(m, _). m \<notin> fst ` set outcomes) (rs_running st)
    \<and> rs_pending (complete_tasks ctx outcomes st) = rs_pending st
    \<and> rs_skipped (complete_tasks ctx outcomes st) = rs_skipped st
    \<and> (outcomes \<noteq> [] \<longrightarrow> counted ctx (complete_tasks ctx outcomes st))"
  using assms(2-)
proof (induction outcomes arbitrary: st)
  case (Cons p outcomes)
  obtain n out where p: "p = (n, out)" by (cases p)
  let ?st = "complete_task ctx (n, out) st"
  obtain i where i: "(n, i) \<in> set (rs_running st)" using Cons.prems(3) p by auto
  have "state_inv plan ?st" using complete_task_inv [OF assms(1) Cons.prems(1) i] .
  moreover have "\<forall>(m, o') \<in> set outcomes. \<exists>i. (m, i) \<in> set (rs_running ?st)"
    using Cons.prems(2,3) p by force
  ultimately have IH: "state_inv plan (complete_tasks ctx outcomes ?st)
    \<and> rs_running (complete_tasks ctx outcomes ?st) = filter (\<lambda>(m, _). m \<notin> fst ` set outcomes) (rs_running ?st)
    \<and> rs_pending (complete_tasks ctx outcomes ?st) = rs_pending ?st
    \<and> rs_skipped (complete_tasks ctx outcomes ?st) = rs_skipped ?st
    \<and> (outcomes \<noteq> [] \<longrightarrow> counted ctx (complete_tasks ctx outcomes ?st))"
    using Cons.IH Cons.prems(2) by simp
  have run: "complete_tasks ctx (p # outcomes) st = complete_tasks ctx outcomes ?st"
    by (simp add: complete_tasks_def p)
  have "filter (\<lambda>(m, _). m \<notin> fst ` set outcomes) (filter (\<lambda>(m, _). m \<noteq> n) (rs_running st))
      = filter (\<lambda>(m, _). m \<notin> fst ` set (p # outcomes)) (rs_running st)"
    by (auto simp: p intro!: filter_cong)
  moreover have "counted ctx (complete_tasks ctx outcomes ?st)"
    using IH by (cases "outcomes = []") (simp_all add: complete_tasks_def)
  ultimately show ?case using IH by (simp add: run)
qed (auto simp: complete_tasks_def)

lemma start_ready_Cons:
  assumes "start_ready ctx (n # ready) st = Inr st'"
    and "int (length (rs_running st)) < py_max_concurrency (pd_policy (cx_plan ctx))"
  obtains (started) i where "invoked (cx_plan ctx) (rs_succeeded st) n i"
      "start_ready ctx ready (start_task ctx n i st) = Inr st'"
    | (unresolved) node message where "plan_node (cx_plan ctx) n = Some node"
      "resolve_inputs (rs_succeeded st) (PDict (st_inputs node)) = Inl (bad_pointer message)"
      "start_ready ctx ready (fail_unresolved ctx n ''invalid_reference'' message st) = Inr st'"
proof -
  obtain node where node: "plan_node (cx_plan ctx) n = Some node" using assms by (auto split: option.splits)
  show thesis
  proof (cases "resolve_inputs (rs_succeeded st) (PDict (st_inputs node))")
    case (Inl e)
    then obtain message where "e = bad_pointer message"
      using resolve_inputs_error [OF Inl] assms node by auto
    then show thesis using unresolved [OF node] Inl assms node by (simp add: bad_pointer_def)
  next
    case (Inr v)
    then obtain i where "invocation_of node v = Inr i" "start_ready ctx ready (start_task ctx n i st) = Inr st'"
      using assms node by (auto simp: bind_result_Inr_iff)
    then show thesis using started node Inr by (auto simp: invoked_def)
  qed
qed

lemma filter_neq_length: "n \<in> set xs \<Longrightarrow> length (filter (\<lambda>m. m \<noteq> n) xs) < length xs"
  by (rule length_filter_less) simp_all

text \<open>What starting the ready nodes keeps, and by how much it shortens the work.\<close>

definition starts_from :: "run_context \<Rightarrow> plan_run_state \<Rightarrow> plan_run_state \<Rightarrow> bool" where
  "starts_from ctx st st' \<longleftrightarrow>
     state_inv (cx_plan ctx) st' \<and> counted ctx st'
     \<and> rs_succeeded st' = rs_succeeded st \<and> rs_skipped st' = rs_skipped st
     \<and> length (rs_pending st') + length (rs_running st') \<le> length (rs_pending st) + length (rs_running st)
     \<and> length (rs_running st) \<le> length (rs_running st')"

lemma start_ready_inv:
  assumes run: "runnable (cx_plan ctx)"
    and "state_inv (cx_plan ctx) st" and "counted ctx st" and "start_ready ctx ready st = Inr st'"
    and "distinct ready" and "set ready \<subseteq> set (rs_pending st)"
    and "\<forall>n \<in> set ready. needs (cx_plan ctx) n \<subseteq> fst ` set (rs_succeeded st)"
  shows "starts_from ctx st st' \<and> (ready \<noteq> [] \<longrightarrow> rs_running st = [] \<longrightarrow> length (rs_pending st') < length (rs_pending st))"
  using assms(2-)
proof (induction ready arbitrary: st)
  case (Cons n ready)
  let ?plan = "cx_plan ctx"
  have dist: "distinct (node_ids ?plan)" and pos: "0 < py_max_concurrency (pd_policy ?plan)"
    using run by (auto simp: runnable_def)
  have pend: "n \<in> set (rs_pending st)" and need: "needs ?plan n \<subseteq> fst ` set (rs_succeeded st)"
    using Cons.prems by auto
  have shorter: "length (filter (\<lambda>m. m \<noteq> n) (rs_pending st)) < length (rs_pending st)"
    using filter_neq_length [OF pend] .
  have rest: "set ready \<subseteq> set (filter (\<lambda>m. m \<noteq> n) (rs_pending st))" using Cons.prems(4,5) by auto
  show ?case
  proof (cases "int (length (rs_running st)) < py_max_concurrency (pd_policy ?plan)")
    case True
    from Cons.prems(3) True show ?thesis
    proof (cases rule: start_ready_Cons)
      case (started i)
      have st1: "state_inv ?plan (start_task ctx n i st)" "counted ctx (start_task ctx n i st)"
        using start_task_inv [OF dist Cons.prems(1) pend need started(1) True] by (simp_all add: start_task_def)
      have "starts_from ctx (start_task ctx n i st) st'"
        using Cons.IH [OF st1 started(2)] Cons.prems(4,6) rest by simp
      then show ?thesis using shorter unfolding starts_from_def by simp
    next
      case (unresolved node message)
      let ?st = "fail_unresolved ctx n ''invalid_reference'' message st"
      have st1: "state_inv ?plan ?st" "counted ctx ?st"
        using fail_unresolved_inv [OF dist Cons.prems(1) pend need] by (simp_all add: fail_unresolved_def)
      have "starts_from ctx ?st st' \<and> (ready \<noteq> [] \<longrightarrow> rs_running ?st = [] \<longrightarrow> length (rs_pending st') < length (rs_pending ?st))"
        using Cons.IH [OF st1 unresolved(3)] Cons.prems(4,6) rest by simp
      then show ?thesis using shorter unfolding starts_from_def by fastforce
    qed
  next
    case False
    then have "st' = st" "rs_running st \<noteq> []" using Cons.prems(3) pos by auto
    then show ?thesis using Cons.prems(1,2) by (simp add: starts_from_def)
  qed
qed (simp add: starts_from_def)

lemma skip_pending_inv: "state_inv plan st \<Longrightarrow> state_inv plan (skip_pending st)"
  by (auto simp: state_inv_def run_nodes_def attempted_def ac_simps)

lemma finish_cancelled_inv:
  assumes "state_inv plan st" and "rs_running st = []"
  shows "state_inv plan (finish_cancelled ctx st)"
  using assms by (auto simp: state_inv_def run_nodes_def attempted_def ac_simps)

text \<open>
  A cancelled task is recorded while it still counts as running; the nodes of the tasks left to
  record are those of the outcomes that follow.
\<close>

lemma cancel_records:
  assumes "distinct (map fst outcomes @ map fst (rs_succeeded st) @ map fst (rs_failures st))"
    and "\<forall>n \<in> fst ` set outcomes \<union> fst ` set (rs_succeeded st) \<union> fst ` set (rs_failures st).
           needs plan n \<subseteq> fst ` set (rs_succeeded st)"
  shows "let st' = fold (\<lambda>(n, out). record_task_outcome n (execute_node out)) outcomes st in
    mset (map fst (rs_succeeded st') @ map fst (rs_failures st'))
      = mset (map fst outcomes @ map fst (rs_succeeded st) @ map fst (rs_failures st))
    \<and> (\<forall>n \<in> fst ` set (rs_succeeded st') \<union> fst ` set (rs_failures st'). needs plan n \<subseteq> fst ` set (rs_succeeded st'))
    \<and> rs_pending st' = rs_pending st \<and> rs_skipped st' = rs_skipped st
    \<and> set (rs_failures st) \<subseteq> set (rs_failures st')"
  using assms
proof (induction outcomes arbitrary: st)
  case (Cons p outcomes)
  obtain n out where p: "p = (n, out)" by (cases p)
  let ?st = "record_task_outcome n (execute_node out) st"
  have fresh: "n \<notin> fst ` set (rs_succeeded st)" "n \<notin> fst ` set (rs_failures st)" using Cons.prems(1) p by auto
  then show ?case
  proof (cases rule: record_task_outcome_cases [where out = "execute_node out"])
    case (succeeded r)
    have "distinct (map fst outcomes @ map fst (rs_succeeded ?st) @ map fst (rs_failures ?st))"
      using Cons.prems(1) by (auto simp: succeeded p)
    moreover have "\<forall>m \<in> fst ` set outcomes \<union> fst ` set (rs_succeeded ?st) \<union> fst ` set (rs_failures ?st).
           needs plan m \<subseteq> fst ` set (rs_succeeded ?st)"
      using Cons.prems(2) by (auto simp: succeeded p)
    ultimately show ?thesis using Cons.IH [of ?st] by (simp add: Let_def p succeeded)
  next
    case (failed f)
    have "distinct (map fst outcomes @ map fst (rs_succeeded ?st) @ map fst (rs_failures ?st))"
      using Cons.prems(1) by (auto simp: failed p)
    moreover have "\<forall>m \<in> fst ` set outcomes \<union> fst ` set (rs_succeeded ?st) \<union> fst ` set (rs_failures ?st).
           needs plan m \<subseteq> fst ` set (rs_succeeded ?st)"
      using Cons.prems(2) by (auto simp: failed p)
    ultimately show ?thesis using Cons.IH [of ?st] by (simp add: Let_def p failed)
  qed
qed simp

lemma cancel_tasks_inv:
  assumes dist: "distinct (node_ids plan)" and inv: "state_inv plan st"
    and out: "map fst outcomes = map fst (rs_running st)"
  shows "state_inv plan (cancel_tasks ctx outcomes st)
    \<and> set (rs_failures st) \<subseteq> set (rs_failures (cancel_tasks ctx outcomes st))"
proof -
  let ?st = "fold (\<lambda>(n, out). record_task_outcome n (execute_node out)) outcomes st"
  have keys: "fst ` set outcomes = fst ` set (rs_running st)" using out by (metis list.set_map)
  have d: "distinct (map fst outcomes @ map fst (rs_succeeded st) @ map fst (rs_failures st))"
    using state_inv_distinct [OF dist inv] by (auto simp: run_nodes_def out keys)
  have "\<forall>n \<in> fst ` set outcomes \<union> fst ` set (rs_succeeded st) \<union> fst ` set (rs_failures st).
      needs plan n \<subseteq> fst ` set (rs_succeeded st)"
    using inv by (simp add: keys state_inv_def attempted_def)
  from cancel_records [OF d this] have r:
    "mset (map fst (rs_succeeded ?st) @ map fst (rs_failures ?st))
      = mset (map fst outcomes @ map fst (rs_succeeded st) @ map fst (rs_failures st))"
    "\<forall>n \<in> fst ` set (rs_succeeded ?st) \<union> fst ` set (rs_failures ?st). needs plan n \<subseteq> fst ` set (rs_succeeded ?st)"
    "rs_pending ?st = rs_pending st" "rs_skipped ?st = rs_skipped st" "set (rs_failures st) \<subseteq> set (rs_failures ?st)"
    unfolding Let_def by blast+
  have "mset (run_nodes (cancel_tasks ctx outcomes st)) = mset (run_nodes st)"
    unfolding run_nodes_def cancel_tasks_def using r(1) by (simp add: r(3,4) out union_assoc)
  moreover have "0 \<le> py_max_concurrency (pd_policy plan)"
    using inv unfolding state_inv_def by (meson of_nat_0_le_iff order_trans)
  ultimately show ?thesis
    using inv r(2,5) unfolding state_inv_def by (simp add: cancel_tasks_def attempted_def)
qed

section \<open>Runs\<close>

text \<open>
  A finished run has tried, or skipped, every node; without fail-fast it has skipped only nodes that
  miss a dependency.
\<close>

definition finished_inv :: "run_context \<Rightarrow> plan_run_state \<Rightarrow> bool" where
  "finished_inv ctx st \<longleftrightarrow>
     state_inv (cx_plan ctx) st \<and> rs_pending st = [] \<and> rs_running st = []
     \<and> (\<not> fail_fast ctx \<longrightarrow> (\<forall>n \<in> set (rs_skipped st). \<not> needs (cx_plan ctx) n \<subseteq> fst ` set (rs_succeeded st)))
     \<and> (fail_fast ctx \<longrightarrow> rs_skipped st \<noteq> [] \<longrightarrow> rs_failures st \<noteq> []
          \<or> (\<forall>n \<in> set (rs_skipped st). \<not> needs (cx_plan ctx) n \<subseteq> fst ` set (rs_succeeded st)))"

fun config_inv :: "run_context \<Rightarrow> run_config \<Rightarrow> bool" where
  "config_inv ctx (Looping st) \<longleftrightarrow> state_inv (cx_plan ctx) st \<and> rs_skipped st = [] \<and> counted ctx st"
| "config_inv ctx (Awaiting st) \<longleftrightarrow>
     state_inv (cx_plan ctx) st \<and> rs_skipped st = [] \<and> counted ctx st \<and> rs_running st \<noteq> []"
| "config_inv ctx (Cancelling st) \<longleftrightarrow>
     state_inv (cx_plan ctx) st \<and> rs_skipped st = [] \<and> counted ctx st \<and> fail_fast ctx \<and> rs_failures st \<noteq> []"
| "config_inv ctx (Finished st) \<longleftrightarrow> finished_inv ctx st"
| "config_inv ctx (Crashed e) \<longleftrightarrow> True"

fun run_weight :: "run_config \<Rightarrow> nat" where
  "run_weight (Looping st) = 3 * length (rs_pending st) + 2 * length (rs_running st) + 2"
| "run_weight (Awaiting st) = 3 * length (rs_pending st) + 2 * length (rs_running st) + 1"
| "run_weight (Cancelling st) = 1"
| "run_weight c = 0"

fun run_over :: "run_config \<Rightarrow> bool" where
  "run_over (Finished st) = True"
| "run_over (Crashed e) = True"
| "run_over c = False"

definition run_ok :: "run_context \<Rightarrow> successors \<Rightarrow> run_config \<Rightarrow> bool" where
  "run_ok ctx deps c \<longleftrightarrow>
     runnable (cx_plan ctx) \<and> (\<forall>n. set (outgoing_get deps n) = needs (cx_plan ctx) n) \<and> config_inv ctx c"

lemma ready_nodes_props:
  assumes "run_ok ctx deps (Looping st)"
  shows "distinct (ready_nodes deps st)" and "set (ready_nodes deps st) \<subseteq> set (rs_pending st)"
    and "\<forall>n \<in> set (ready_nodes deps st). needs (cx_plan ctx) n \<subseteq> fst ` set (rs_succeeded st)"
    and "\<forall>n \<in> set (rs_pending st). n \<in> set (ready_nodes deps st) \<or> \<not> needs (cx_plan ctx) n \<subseteq> fst ` set (rs_succeeded st)"
proof -
  have "distinct (rs_pending st)"
    using assms state_inv_distinct [of "cx_plan ctx" st] by (auto simp: run_ok_def runnable_def run_nodes_def)
  then show "distinct (ready_nodes deps st)" by (simp add: ready_nodes_def)
  have "set (outgoing_get deps n) = needs (cx_plan ctx) n" for n using assms by (simp add: run_ok_def)
  then show "set (ready_nodes deps st) \<subseteq> set (rs_pending st)"
    and "\<forall>n \<in> set (ready_nodes deps st). needs (cx_plan ctx) n \<subseteq> fst ` set (rs_succeeded st)"
    and "\<forall>n \<in> set (rs_pending st). n \<in> set (ready_nodes deps st) \<or> \<not> needs (cx_plan ctx) n \<subseteq> fst ` set (rs_succeeded st)"
    by (auto simp: ready_nodes_def)
qed

lemma loop_iteration_ok:
  assumes ok: "run_ok ctx deps (Looping st)"
  shows "config_inv ctx (loop_iteration ctx deps st)
    \<and> run_weight (loop_iteration ctx deps st) < run_weight (Looping st)"
proof -
  have run: "runnable (cx_plan ctx)" and inv: "state_inv (cx_plan ctx) st" "counted ctx st" "rs_skipped st = []"
    using ok by (auto simp: run_ok_def)
  consider (none) "rs_pending st = []" "rs_running st = []"
    | (cancel) "\<not> (rs_pending st = [] \<and> rs_running st = [])" "fail_fast ctx" "rs_failures st \<noteq> []"
    | (blocked) "\<not> (rs_pending st = [] \<and> rs_running st = [])" "\<not> (fail_fast ctx \<and> rs_failures st \<noteq> [])"
        "ready_nodes deps st = []" "rs_running st = []"
    | (start) "\<not> (rs_pending st = [] \<and> rs_running st = [])" "\<not> (fail_fast ctx \<and> rs_failures st \<noteq> [])"
        "\<not> (ready_nodes deps st = [] \<and> rs_running st = [])"
    by blast
  then show ?thesis
  proof cases
    case none
    then show ?thesis using inv by (simp add: loop_iteration_def finished_inv_def)
  next
    case cancel
    then show ?thesis using inv finish_cancelled_inv [of "cx_plan ctx" st ctx]
      by (auto simp: loop_iteration_def finished_inv_def)
  next
    case blocked
    have "finished_inv ctx (skip_pending st)"
      using ready_nodes_props(4) [OF ok] blocked inv skip_pending_inv [OF inv(1)]
      by (auto simp: finished_inv_def)
    then show ?thesis using blocked by (auto simp: loop_iteration_def)
  next
    case start
    show ?thesis
    proof (cases "start_ready ctx (ready_nodes deps st) st")
      case (Inl e)
      then show ?thesis using start by (auto simp: loop_iteration_def)
    next
      case (Inr st')
      have s: "starts_from ctx st st'"
        "ready_nodes deps st \<noteq> [] \<Longrightarrow> rs_running st = [] \<Longrightarrow> length (rs_pending st') < length (rs_pending st)"
        using start_ready_inv [OF run inv(1,2) Inr ready_nodes_props(1-3) [OF ok]] by auto
      show ?thesis
      proof (cases "rs_running st' = []")
        case True
        then have "rs_running st = []" using s(1) by (simp add: starts_from_def)
        then show ?thesis using s start(3) True inv(3) Inr start
          by (auto simp: loop_iteration_def starts_from_def)
      next
        case False
        then show ?thesis using s inv(3) Inr start
          by (auto simp: loop_iteration_def starts_from_def)
      qed
    qed
  qed
qed

lemma completed_ok:
  assumes "run_ok ctx deps (Awaiting st)" and "outcomes \<noteq> []" and "distinct (map fst outcomes)"
    and "\<forall>(n, out) \<in> set outcomes. \<exists>i. (n, i) \<in> set (rs_running st)"
  shows "run_ok ctx deps (Looping (complete_tasks ctx outcomes st))
    \<and> run_weight (Looping (complete_tasks ctx outcomes st)) < run_weight (Awaiting st)"
proof -
  have dist: "distinct (node_ids (cx_plan ctx))" and inv: "state_inv (cx_plan ctx) st"
    using assms(1) by (auto simp: run_ok_def runnable_def)
  note r = complete_tasks_inv [OF dist inv assms(3,4), of ctx]
  obtain n out i where n: "(n, out) \<in> set outcomes" "(n, i) \<in> set (rs_running st)"
    using assms(2,4) by (cases outcomes) auto
  have "length (filter (\<lambda>(m, _). m \<notin> fst ` set outcomes) (rs_running st)) < length (rs_running st)"
    by (rule length_filter_less [OF n(2)]) (use n(1) in force)
  then show ?thesis using r assms(1,2) by (auto simp: run_ok_def)
qed

lemma cancelled_ok:
  assumes "run_ok ctx deps (Cancelling st)" and "map fst outcomes = map fst (rs_running st)"
  shows "run_ok ctx deps (Finished (cancel_tasks ctx outcomes st))"
proof -
  have dist: "distinct (node_ids (cx_plan ctx))" and inv: "state_inv (cx_plan ctx) st"
    and f: "fail_fast ctx" "rs_failures st \<noteq> []" using assms(1) by (auto simp: run_ok_def runnable_def)
  have "rs_failures (cancel_tasks ctx outcomes st) \<noteq> []"
    using cancel_tasks_inv [OF dist inv assms(2), of ctx] f(2) by auto
  then show ?thesis using cancel_tasks_inv [OF dist inv assms(2), of ctx] f(1) assms(1)
    by (auto simp: run_ok_def finished_inv_def cancel_tasks_def)
qed

lemma run_step_ok:
  assumes "run_ok ctx deps c" and "run_step ctx deps may c c'"
  shows "run_ok ctx deps c' \<and> run_weight c' < run_weight c"
  using assms(2)
proof cases
  case (iterate st)
  then show ?thesis using loop_iteration_ok assms(1) by (auto simp: run_ok_def)
next
  case (completed outcomes st)
  moreover have "\<forall>(n, out) \<in> set outcomes. \<exists>i. (n, i) \<in> set (rs_running st)" using completed(5) by auto
  ultimately show ?thesis using completed_ok assms(1) by blast
next
  case (cancelled outcomes st)
  then show ?thesis using cancelled_ok assms(1) by simp
qed

interpretation plan_run: measured_machine "run_step ctx deps may" "run_ok ctx deps" run_weight for ctx deps may
  by unfold_locales (use run_step_ok in blast)+

lemma run_not_stuck:
  assumes "run_ok ctx deps c" and "\<And>i. \<exists>out. may i out" and "\<not> run_over c"
  shows "\<exists>c'. run_step ctx deps may c c'"
proof (cases c)
  case (Looping st)
  then show ?thesis using iterate by blast
next
  case (Awaiting st)
  then obtain n i rest where r: "rs_running st = (n, i) # rest"
    using assms(1) by (cases "rs_running st") (auto simp: run_ok_def)
  obtain out where "may i out" using assms(2) by blast
  then have "run_step ctx deps may c (Looping (complete_tasks ctx [(n, out)] st))"
    unfolding Awaiting by (intro completed) (use r in auto)
  then show ?thesis by blast
next
  case (Cancelling st)
  have "run_step ctx deps may c (Finished (cancel_tasks ctx (map (\<lambda>(n, i). (n, ExecutorCancelled)) (rs_running st)) st))"
    unfolding Cancelling by (rule cancelled) (simp add: case_prod_beta)
  then show ?thesis by blast
qed (use assms(3) in simp_all)

interpretation plan_live: stopping_machine "run_step ctx deps may"
  "\<lambda>c. run_ok ctx deps c \<and> (\<forall>i. \<exists>out. may i out)" run_weight run_over for ctx deps may
  by unfold_locales (use run_step_ok run_not_stuck in blast)+

text \<open>The configurations an interpreter reaches from its start.\<close>

definition reaches :: "run_context \<Rightarrow> (plan_step \<Rightarrow> executor_outcome \<Rightarrow> bool) \<Rightarrow> run_config \<Rightarrow> bool" where
  "reaches ctx may c \<longleftrightarrow>
     (\<exists>deps. dependencies (cx_plan ctx) = Inr deps \<and> (run_step ctx deps may)\<^sup>*\<^sup>* (start_run ctx) c)"

lemma initial_ok:
  assumes "runnable (cx_plan ctx)"
  shows "state_inv (cx_plan ctx) (initial_plan_run_state ctx) \<and> counted ctx (initial_plan_run_state ctx)
    \<and> rs_skipped (initial_plan_run_state ctx) = []"
  using assms
  by (auto simp: initial_plan_run_state_def state_inv_def run_nodes_def attempted_def runnable_def distinct_remdups_id)

lemma start_ok:
  assumes "runnable (cx_plan ctx)" and "dependencies (cx_plan ctx) = Inr deps"
  shows "run_ok ctx deps (start_run ctx)"
proof -
  obtain deps' where "dependencies (cx_plan ctx) = Inr deps'" "\<And>n. set (outgoing_get deps' n) = needs (cx_plan ctx) n"
    using dependencies_ok [OF assms(1)] by blast
  then show ?thesis using assms initial_ok by (simp add: run_ok_def start_run_def)
qed

lemma reaches_ok:
  assumes "runnable (cx_plan ctx)" and "reaches ctx may c"
  obtains deps where "dependencies (cx_plan ctx) = Inr deps" and "run_ok ctx deps c"
  using assms start_ok plan_run.run_keeps unfolding reaches_def by metis

lemma created_runnable:
  assumes "create_interpreter plan registry store wp clock = Inr ctx" and "policy_post_init (pd_policy plan) = Inr ()"
  shows "cx_plan ctx = plan" and "plan_accepted registry plan" and "runnable plan"
proof -
  obtain v where v: "validate_plan plan registry = Inr v" "cx_plan ctx = vp_plan v"
    using assms(1) by (auto simp: create_interpreter_def bind_result_Inr_iff)
  then show plan: "cx_plan ctx = plan" and acc: "plan_accepted registry plan"
    using validate_plan_ok [of plan registry] by auto
  have "0 < py_max_concurrency (pd_policy plan)"
    using assms(2) by (auto simp: policy_post_init_def ensure_positive_int_def bind_result_Inr_iff)
  then show "runnable plan" using acc by (auto simp: runnable_def plan_accepted_def)
qed

section \<open>Properties of runs\<close>

fun config_state :: "run_config \<Rightarrow> plan_run_state option" where
  "config_state (Looping st) = Some st"
| "config_state (Awaiting st) = Some st"
| "config_state (Cancelling st) = Some st"
| "config_state (Finished st) = Some st"
| "config_state (Crashed e) = None"

lemma config_state_inv: "config_inv ctx c \<Longrightarrow> config_state c = Some st \<Longrightarrow> state_inv (cx_plan ctx) st"
  by (cases c) (auto simp: finished_inv_def)

lemma config_counted: "config_inv ctx c \<Longrightarrow> config_state c = Some st \<Longrightarrow> \<not> run_over c \<Longrightarrow> counted ctx st"
  by (cases c) auto

text \<open>
  C5. At every moment of every run of a validated plan each node is in exactly one of pending,
  running, succeeded, failed and skipped; no more nodes run than the policy allows; a node is
  tried only after all its dependencies have succeeded, on the inputs their results give; and until
  the run is over the progress object reports the actual counts.
\<close>

theorem plan_run_safe:
  assumes "create_interpreter plan registry store wp clock = Inr ctx" and "policy_post_init (pd_policy plan) = Inr ()"
    and "reaches ctx may c" and "config_state c = Some st"
  shows "distinct (run_nodes st) \<and> set (run_nodes st) = set (node_ids plan)
    \<and> int (length (rs_running st)) \<le> py_max_concurrency (pd_policy plan)
    \<and> (\<forall>n \<in> attempted st. needs plan n \<subseteq> fst ` set (rs_succeeded st))
    \<and> (\<forall>(n, i) \<in> set (rs_running st). invoked plan (rs_succeeded st) n i)
    \<and> (\<not> run_over c \<longrightarrow> counted ctx st)"
proof -
  note plan = created_runnable [OF assms(1,2)]
  obtain deps where ok: "run_ok ctx deps c" using reaches_ok [OF _ assms(3)] plan by auto
  then have inv: "state_inv plan st" using config_state_inv [OF _ assms(4)] plan(1) by (auto simp: run_ok_def)
  have "distinct (node_ids plan)" using plan(3) by (simp add: runnable_def)
  then have "distinct (run_nodes st)" using state_inv_distinct inv by blast
  moreover have "\<not> run_over c \<longrightarrow> counted ctx st" using ok config_counted [OF _ assms(4)] by (auto simp: run_ok_def)
  ultimately show ?thesis using state_inv_set [OF inv] inv unfolding state_inv_def by blast
qed

text \<open>
  C12. Every run of a validated plan ends: it takes at most three steps for each node and two more,
  whatever the executor does and however the tasks are scheduled, and until it is over it can
  continue, provided the executor ends every task in some way.
\<close>

theorem plan_run_terminates:
  assumes "create_interpreter plan registry store wp clock = Inr ctx" and "policy_post_init (pd_policy plan) = Inr ()"
    and "\<And>i. \<exists>out. may i out" and "dependencies plan = Inr deps"
    and "(run_step ctx deps may ^^ k) (start_run ctx) c"
  shows "k \<le> 3 * length (pd_nodes plan) + 2
    \<and> (run_over c \<or> (\<exists>c'. run_step ctx deps may c c'))
    \<and> (\<exists>c'. (run_step ctx deps may)\<^sup>*\<^sup>* c c' \<and> run_over c')"
proof -
  note plan = created_runnable [OF assms(1,2)]
  have start: "run_ok ctx deps (start_run ctx)" using start_ok plan assms(4) by simp
  have "run_weight (start_run ctx) = 3 * length (pd_nodes plan) + 2"
    using plan assms(4)
    by (simp add: start_run_def initial_plan_run_state_def runnable_def distinct_remdups_id node_ids_def)
  then have "k \<le> 3 * length (pd_nodes plan) + 2" using plan_run.run_bounded [OF assms(5) start] by simp
  moreover have ok: "run_ok ctx deps c" using plan_run.run_keeps start assms(5) relpowp_imp_rtranclp by metis
  moreover have "run_over c \<or> (\<exists>c'. run_step ctx deps may c c')" using run_not_stuck [OF ok, of may] assms(3) by blast
  moreover have "\<exists>c'. (run_step ctx deps may)\<^sup>*\<^sup>* c c' \<and> run_over c'"
    by (rule plan_live.run_ends) (use ok assms(3) in blast)
  ultimately show ?thesis by blast
qed

lemma finished_reached:
  assumes "create_interpreter plan registry store wp clock = Inr ctx" and "policy_post_init (pd_policy plan) = Inr ()"
    and "reaches ctx may (Finished st)"
  shows "finished_inv ctx st" and "state_inv plan st" and "distinct (run_nodes st)"
    and "set (node_ids plan) = fst ` set (rs_succeeded st) \<union> fst ` set (rs_failures st) \<union> set (rs_skipped st)"
proof -
  note plan = created_runnable [OF assms(1,2)]
  obtain deps where "run_ok ctx deps (Finished st)" using reaches_ok [OF _ assms(3)] plan by auto
  then show fin: "finished_inv ctx st" by (simp add: run_ok_def)
  then show inv: "state_inv plan st" using plan(1) by (simp add: finished_inv_def)
  then show "distinct (run_nodes st)" using state_inv_distinct plan(3) by (auto simp: runnable_def)
  show "set (node_ids plan) = fst ` set (rs_succeeded st) \<union> fst ` set (rs_failures st) \<union> set (rs_skipped st)"
    using state_inv_set [OF inv] fin by (auto simp: run_nodes_def finished_inv_def)
qed

text \<open>A node that misses a dependency has a failed node upstream.\<close>

lemma blocked_by_failure:
  assumes acyc: "acyclic (set (edge_pairs plan))"
    and inside: "set (edge_pairs plan) \<subseteq> set (node_ids plan) \<times> set (node_ids plan)"
    and nodes: "set (node_ids plan) = S \<union> F \<union> K"
    and blocked: "\<And>n. n \<in> K \<Longrightarrow> \<not> needs plan n \<subseteq> S"
    and n: "n \<in> K"
  shows "\<exists>f \<in> F. (f, n) \<in> (set (edge_pairs plan))\<^sup>+"
proof -
  have "wf (set (edge_pairs plan))" using acyc finite_acyclic_wf by blast
  then show ?thesis using n
  proof (induction n rule: wf_induct_rule)
    case (less n)
    obtain p where p: "(p, n) \<in> set (edge_pairs plan)" "p \<notin> S" using blocked [OF less(2)] by (auto simp: needs_def)
    then have "p \<in> F \<or> p \<in> K" using inside nodes by blast
    then show ?case using less(1) [OF p(1)] p(1) by (meson r_into_trancl' trancl_into_trancl)
  qed
qed

lemma downstream_not_attempted:
  assumes inv: "state_inv plan st" and dist: "distinct (run_nodes st)"
    and path: "(f, n) \<in> (set (edge_pairs plan))\<^sup>+" and f: "f \<in> fst ` set (rs_failures st)"
  shows "n \<notin> attempted st"
  using path
proof (induction rule: trancl_induct)
  case (base y)
  have "f \<notin> fst ` set (rs_succeeded st)" using f dist by (auto simp: run_nodes_def)
  then show ?case using inv base by (auto simp: state_inv_def needs_def)
next
  case (step y z)
  then have "y \<notin> fst ` set (rs_succeeded st)" by (auto simp: attempted_def)
  then show ?case using inv step(2) by (auto simp: state_inv_def needs_def)
qed

text \<open>
  C23. The verdict of a finished run: it is completed exactly when every node succeeded; otherwise some
  node failed and it is failed under fail-fast and partial else; and without fail-fast the skipped
  nodes are exactly those downstream of a failed one.
\<close>

theorem plan_run_verdict:
  assumes "create_interpreter plan registry store wp clock = Inr ctx" and "policy_post_init (pd_policy plan) = Inr ()"
    and "reaches ctx may (Finished st)"
  shows "(run_status ctx st = ''COMPLETED'' \<longleftrightarrow> fst ` set (rs_succeeded st) = set (node_ids plan))
    \<and> (run_status ctx st \<noteq> ''COMPLETED'' \<longrightarrow> rs_failures st \<noteq> []
         \<and> run_status ctx st = (if fail_fast ctx then ''FAILED'' else ''PARTIAL''))
    \<and> (\<not> fail_fast ctx \<longrightarrow>
         set (rs_skipped st) = {n \<in> set (node_ids plan). \<exists>f \<in> fst ` set (rs_failures st). (f, n) \<in> (set (edge_pairs plan))\<^sup>+})"
proof -
  note plan = created_runnable [OF assms(1,2)]
  note fin = finished_reached [OF assms]
  have acyc: "acyclic (set (edge_pairs plan))"
    and inside: "set (edge_pairs plan) \<subseteq> set (node_ids plan) \<times> set (node_ids plan)"
    using plan(2) by (auto simp: plan_accepted_def)
  have blocked: "rs_failures st \<noteq> []" if skip: "rs_skipped st \<noteq> []"
  proof (rule ccontr)
    assume none: "\<not> rs_failures st \<noteq> []"
    then have "\<And>n. n \<in> set (rs_skipped st) \<Longrightarrow> \<not> needs plan n \<subseteq> fst ` set (rs_succeeded st)"
      using fin(1) skip plan(1) by (cases "fail_fast ctx") (auto simp: finished_inv_def)
    moreover obtain n where "n \<in> set (rs_skipped st)" using skip by (cases "rs_skipped st") auto
    ultimately have "\<exists>f \<in> fst ` set (rs_failures st). (f, n) \<in> (set (edge_pairs plan))\<^sup>+"
      using blocked_by_failure [OF acyc inside fin(4)] by blast
    then show False using none by simp
  qed
  have "run_status ctx st = ''COMPLETED'' \<longleftrightarrow> rs_failures st = []"
    using blocked by (auto simp: run_status_def)
  moreover have "rs_failures st = [] \<longleftrightarrow> fst ` set (rs_succeeded st) = set (node_ids plan)"
  proof
    assume "rs_failures st = []"
    then show "fst ` set (rs_succeeded st) = set (node_ids plan)"
      using blocked fin(4) by (cases "rs_skipped st") auto
  next
    assume "fst ` set (rs_succeeded st) = set (node_ids plan)"
    moreover have "fst ` set (rs_succeeded st) \<inter> fst ` set (rs_failures st) = {}"
      using fin(3) by (auto simp: run_nodes_def)
    moreover have "fst ` set (rs_failures st) \<subseteq> set (node_ids plan)" unfolding fin(4) by auto
    ultimately have "fst ` set (rs_failures st) = {}" by (metis Int_absorb1)
    then show "rs_failures st = []" by simp
  qed
  moreover have "set (rs_skipped st)
      = {n \<in> set (node_ids plan). \<exists>f \<in> fst ` set (rs_failures st). (f, n) \<in> (set (edge_pairs plan))\<^sup>+}"
    if mode: "\<not> fail_fast ctx"
  proof -
    have "\<And>n. n \<in> set (rs_skipped st) \<Longrightarrow> \<not> needs plan n \<subseteq> fst ` set (rs_succeeded st)"
      using fin(1) mode plan(1) by (auto simp: finished_inv_def)
    then have "\<exists>f \<in> fst ` set (rs_failures st). (f, n) \<in> (set (edge_pairs plan))\<^sup>+" if "n \<in> set (rs_skipped st)" for n
      using blocked_by_failure [OF acyc inside fin(4) _ that] by blast
    moreover have "n \<in> set (rs_skipped st)"
      if "n \<in> set (node_ids plan)" "f \<in> fst ` set (rs_failures st)" "(f, n) \<in> (set (edge_pairs plan))\<^sup>+" for n f
      using downstream_not_attempted [OF fin(2,3) that(3,2)] that(1) fin(4) by (auto simp: attempted_def)
    ultimately show ?thesis using fin(4) by blast
  qed
  ultimately show ?thesis by (auto simp: run_status_def)
qed

section \<open>Examples\<close>

text \<open>A schedule that always completes the task started first.\<close>

fun drive :: "run_context \<Rightarrow> successors \<Rightarrow> (plan_step \<Rightarrow> executor_outcome) \<Rightarrow> nat \<Rightarrow> run_config \<Rightarrow> run_config" where
  "drive ctx deps ex 0 c = c"
| "drive ctx deps ex (Suc k) (Looping st) = drive ctx deps ex k (loop_iteration ctx deps st)"
| "drive ctx deps ex (Suc k) (Awaiting st) =
     (case rs_running st of
        (n, i) # _ \<Rightarrow> drive ctx deps ex k (Looping (complete_tasks ctx [(n, ex i)] st))
      | [] \<Rightarrow> Awaiting st)"
| "drive ctx deps ex (Suc k) (Cancelling st) =
     Finished (cancel_tasks ctx (map (\<lambda>(n, _). (n, ExecutorCancelled)) (rs_running st)) st)"
| "drive ctx deps ex (Suc k) c = c"

lemma drive_runs: "(run_step ctx deps (\<lambda>i out. out = ex i))\<^sup>*\<^sup>* c (drive ctx deps ex k c)"
proof (induction ctx deps ex k c rule: drive.induct)
  case (2 ctx deps ex k st)
  then show ?case using iterate by (metis converse_rtranclp_into_rtranclp drive.simps(2))
next
  case (3 ctx deps ex k st)
  show ?case
  proof (cases "rs_running st")
    case (Cons p rest)
    obtain n i where p: "p = (n, i)" by (cases p)
    have "run_step ctx deps (\<lambda>i out. out = ex i) (Awaiting st) (Looping (complete_tasks ctx [(n, ex i)] st))"
      by (rule completed) (use Cons p in auto)
    then show ?thesis using 3 [OF Cons p [symmetric]] Cons p by (simp add: converse_rtranclp_into_rtranclp)
  qed simp
next
  case (4 ctx deps ex k st)
  have "run_step ctx deps (\<lambda>i out. out = ex i) (Cancelling st)
      (Finished (cancel_tasks ctx (map (\<lambda>(n, _). (n, ExecutorCancelled)) (rs_running st)) st))"
    by (rule cancelled) (simp add: case_prod_beta)
  then show ?case by simp
qed simp_all

definition example_run_plan :: plan_definition where
  "example_run_plan = example_tool_plan (example_policy ''CONTINUE'' 2) (example_nodes ''fetch'') [(''a'', ''b'')]"

definition example_context :: "plan_definition \<Rightarrow> run_context" where
  "example_context plan = \<lparr> cx_plan = plan, cx_store = None, cx_write_progress = False, cx_clock = (\<lambda>_. []) \<rparr>"

definition example_executor :: "plan_step \<Rightarrow> executor_outcome" where
  "example_executor i = ExecutorResult \<lparr> tr_status = ''COMPLETED'', tr_outputs = [(''count'', PInt 3)],
     tr_output_artifacts = [], tr_progress = [] \<rparr>"

lemma example_created:
  "create_interpreter example_run_plan example_registry None False (\<lambda>_. []) = Inr (example_context example_run_plan)"
  "policy_post_init (pd_policy example_run_plan) = Inr ()"
  "dependencies example_run_plan = Inr [(''b'', [''a'']), (''a'', [])]"
proof -
  have "validate_plan example_run_plan example_registry
      = Inr \<lparr> vp_plan = example_run_plan, vp_topological_order = [''a'', ''b''] \<rparr>" by code_simp
  then show "create_interpreter example_run_plan example_registry None False (\<lambda>_. []) = Inr (example_context example_run_plan)"
    by (simp add: create_interpreter_def example_context_def)
  show "policy_post_init (pd_policy example_run_plan) = Inr ()" by code_simp
  show "dependencies example_run_plan = Inr [(''b'', [''a'']), (''a'', [])]" by code_simp
qed

abbreviation example_driven :: "nat \<Rightarrow> run_config" where
  "example_driven k \<equiv> drive (example_context example_run_plan) [(''b'', [''a'']), (''a'', [])] example_executor k
     (start_run (example_context example_run_plan))"

lemma example_reaches: "reaches (example_context example_run_plan) (\<lambda>i out. out = example_executor i) (example_driven k)"
  using drive_runs example_created(3) by (auto simp: reaches_def example_context_def)

lemma example_final:
  "case example_driven 5 of Finished st \<Rightarrow> map fst (rs_succeeded st) = [''a'', ''b''] | _ \<Rightarrow> False"
  by code_simp

lemma example_finished:
  obtains st where "example_driven 5 = Finished st" and "map fst (rs_succeeded st) = [''a'', ''b'']"
  using example_final by (auto split: run_config.splits)

lemma plan_run_safe_witness:
  "\<exists>st. config_state (example_driven 2) = Some st \<and> set (run_nodes st) = {''b'', ''a''}
     \<and> int (length (rs_running st)) \<le> 2 \<and> counted (example_context example_run_plan) st"
proof -
  have "case example_driven 2 of Looping st \<Rightarrow> True | _ \<Rightarrow> False" by code_simp
  then obtain st where st: "example_driven 2 = Looping st" by (auto split: run_config.splits)
  have "set (node_ids example_run_plan) = {''b'', ''a''}" "py_max_concurrency (pd_policy example_run_plan) = 2"
    by code_simp+
  then show ?thesis
    using plan_run_safe [OF example_created(1,2) example_reaches [of 2], of st] st by simp
qed

lemma plan_run_terminates_witness:
  "\<exists>c. (run_step (example_context example_run_plan) [(''b'', [''a'']), (''a'', [])] (\<lambda>i out. out = example_executor i))\<^sup>*\<^sup>*
     (start_run (example_context example_run_plan)) c \<and> run_over c"
  using plan_run_terminates [OF example_created(1,2) _ example_created(3), of "\<lambda>i out. out = example_executor i" 0
      "start_run (example_context example_run_plan)"] by auto

lemma plan_run_verdict_witness:
  "\<exists>st. reaches (example_context example_run_plan) (\<lambda>i out. out = example_executor i) (Finished st)
     \<and> run_status (example_context example_run_plan) st = ''COMPLETED''"
proof -
  obtain st where st: "example_driven 5 = Finished st" "map fst (rs_succeeded st) = [''a'', ''b'']"
    by (rule example_finished)
  have r: "reaches (example_context example_run_plan) (\<lambda>i out. out = example_executor i) (Finished st)"
    using example_reaches [of 5] st(1) by simp
  have "fst ` set (rs_succeeded st) = set (node_ids example_run_plan)"
    using arg_cong [OF st(2), of set]
    by (auto simp: example_run_plan_def example_tool_plan_def node_ids_def example_nodes_def example_step_def)
  then show ?thesis using plan_run_verdict [OF example_created(1,2) r] r by blast
qed

end
