(* ===== verification/Plan_Determinism.thy ===== *)
theory Plan_Determinism
  imports Plan_Execution
begin

text \<open>
  The validator and the interpreter together: in a validated plan a reference always finds its
  result, a concurrent run that does not fail fast has the verdicts of the sequential run in
  topological order, and a run raises only on inputs that are themselves a reference and on an
  index that is no decimal number.
\<close>

section \<open>The sequential reference\<close>

text \<open>The verdict on one node, given the results its references may read.\<close>

definition attempt ::
  "plan_definition \<Rightarrow> (plan_step \<Rightarrow> executor_outcome) \<Rightarrow> (py_str \<times> tool_result) list \<Rightarrow> py_str \<Rightarrow>
   (tool_failure + tool_result) checked" where
  "attempt plan ex results n =
     (case plan_node plan n of
        None \<Rightarrow> Inl PyKeyError
      | Some node \<Rightarrow>
          (case resolve_inputs results (PDict (st_inputs node)) of
             Inl (PlanExecutionError code message) \<Rightarrow> Inr (Inl (ToolFailure (py_upper code) message False [] None))
           | Inl e \<Rightarrow> Inl e
           | Inr inputs \<Rightarrow>
               bind_result (invocation_of node inputs) (\<lambda>i. Inr (task_verdict n (execute_node (ex i))))))"

fun sequential_run ::
  "plan_definition \<Rightarrow> (plan_step \<Rightarrow> executor_outcome) \<Rightarrow> py_str list \<Rightarrow>
   (py_str \<times> tool_result) list \<Rightarrow> (py_str \<times> tool_failure) list \<Rightarrow>
   ((py_str \<times> tool_result) list \<times> (py_str \<times> tool_failure) list) checked" where
  "sequential_run plan ex [] S F = Inr (S, F)"
| "sequential_run plan ex (n # ns) S F =
     (if needs plan n \<subseteq> fst ` set S
      then bind_result (attempt plan ex S n) (\<lambda>verdict.
        case verdict of
          Inr r \<Rightarrow> sequential_run plan ex ns (S @ [(n, r)]) F
        | Inl f \<Rightarrow> sequential_run plan ex ns S (F @ [(n, f)]))
      else sequential_run plan ex ns S F)"

section \<open>References read results of upstream nodes\<close>

lemma enumerated: "x \<in> set xs \<Longrightarrow> \<exists>i. (i, x) \<in> set (zip [0..<length xs] xs)"
  by (metis image_iff prod.collapse set_enumerate)

lemma resolve_inputs_agree:
  assumes "\<And>m p q. (m, p, q) \<in> set (collect_refs path v) \<Longrightarrow> map_of R m = map_of R' m"
  shows "resolve_inputs R v = resolve_inputs R' v"
  using assms
proof (induction R v arbitrary: path rule: resolve_inputs.induct)
  case (1 R d)
  show ?case
  proof (cases "is_ref_object (PDict d)")
    case True
    then have "map_of R (text_field ''node'' (option_or (dict_at ''ref'' d) []))
        = map_of R' (text_field ''node'' (option_or (dict_at ''ref'' d) []))"
      using 1(2) by (simp add: Let_def)
    then show ?thesis using True by (simp add: resolve_reference_def)
  next
    case False
    have "resolve_inputs R item = resolve_inputs R' item" if "(key, item) \<in> set d" for key item
    proof (rule 1(1) [OF False that refl, of "path @ key @ ''/''"])
      fix m p q
      assume "(m, p, q) \<in> set (collect_refs (path @ key @ ''/'') item)"
      then have "(m, p, q) \<in> set (collect_refs path (PDict d))" using False that by force
      then show "map_of R m = map_of R' m" using 1(2) by blast
    qed
    then have "map_checked (\<lambda>(key, item). bind_result (resolve_inputs R item) (\<lambda>v. Inr (key, v))) d
        = map_checked (\<lambda>(key, item). bind_result (resolve_inputs R' item) (\<lambda>v. Inr (key, v))) d"
      by (intro map_checked_cong) auto
    then show ?thesis using False by simp
  qed
next
  case (2 R xs)
  have "resolve_inputs R item = resolve_inputs R' item" if x: "item \<in> set xs" for item
  proof -
    obtain i where i: "(i, item) \<in> set (zip [0..<length xs] xs)" using enumerated [OF x] by blast
    show ?thesis
    proof (rule 2(1) [OF x, of "path @ py_str_nat i @ ''/''"])
      fix m p q
      assume "(m, p, q) \<in> set (collect_refs (path @ py_str_nat i @ ''/'') item)"
      then have "(m, p, q) \<in> set (collect_refs path (PList xs))" using i by force
      then show "map_of R m = map_of R' m" using 2(2) by blast
    qed
  qed
  then have "map_checked (resolve_inputs R) xs = map_checked (resolve_inputs R') xs"
    by (intro map_checked_cong) auto
  then show ?case by simp
qed simp_all

lemma upstream_succeeded:
  assumes "state_inv plan st" and "(a, n) \<in> (set (edge_pairs plan))\<^sup>+"
    and "needs plan n \<subseteq> fst ` set (rs_succeeded st)"
  shows "a \<in> fst ` set (rs_succeeded st)"
  using assms(2)
proof (induction rule: converse_trancl_induct)
  case (base y)
  then show ?case using assms(3) by (auto simp: needs_def)
next
  case (step y z)
  then have "needs plan z \<subseteq> fst ` set (rs_succeeded st)" using assms(1) by (auto simp: state_inv_def attempted_def)
  then show ?case using step(1) by (auto simp: needs_def)
qed

lemma plan_node_mem:
  assumes "plan_node plan n = Some node"
  shows "node \<in> set (pd_nodes plan) \<and> st_id node = n"
  using assms by (auto simp: plan_node_def dest!: map_of_SomeD)

lemma plan_node_known: "n \<in> set (node_ids plan) \<Longrightarrow> \<exists>node. plan_node plan n = Some node"
  by (auto simp: plan_node_def node_ids_def map_of_eq_None_iff image_iff simp flip: not_None_eq)

lemma refs_upstream:
  assumes "plan_accepted registry plan" and "plan_node plan n = Some node"
    and "(m, p, q) \<in> set (collect_refs ''/'' (PDict (st_inputs node)))"
  shows "(m, n) \<in> (set (edge_pairs plan))\<^sup>+"
proof -
  have "refs_resolve registry plan node" and "st_id node = n"
    using assms(1) plan_node_mem [OF assms(2)] by (auto simp: plan_accepted_def node_accepted_def)
  then show ?thesis using assms(3) unfolding refs_resolve_def by fastforce
qed

lemma refs_succeeded:
  assumes "plan_accepted registry plan" and "state_inv plan st" and "needs plan n \<subseteq> fst ` set (rs_succeeded st)"
    and "plan_node plan n = Some node" and "(m, p, q) \<in> set (collect_refs ''/'' (PDict (st_inputs node)))"
  shows "m \<in> fst ` set (rs_succeeded st)"
  using upstream_succeeded [OF assms(2) refs_upstream [OF assms(1,4,5)] assms(3)] .

lemma attempt_agree:
  assumes "\<And>node m p q. plan_node plan n = Some node \<Longrightarrow>
      (m, p, q) \<in> set (collect_refs ''/'' (PDict (st_inputs node))) \<Longrightarrow> map_of R m = map_of R' m"
  shows "attempt plan ex R n = attempt plan ex R' n"
proof (cases "plan_node plan n")
  case (Some node)
  have "resolve_inputs R (PDict (st_inputs node)) = resolve_inputs R' (PDict (st_inputs node))"
    by (rule resolve_inputs_agree [of "''/''"]) (rule assms [OF Some])
  then show ?thesis by (simp add: attempt_def Some)
qed (simp add: attempt_def)

lemma attempt_stable:
  assumes "plan_accepted registry plan" and "state_inv plan st" and "needs plan n \<subseteq> fst ` set (rs_succeeded st)"
    and "map_of (rs_succeeded st) \<subseteq>\<^sub>m map_of R"
  shows "attempt plan ex R n = attempt plan ex (rs_succeeded st) n"
proof (rule attempt_agree)
  fix node m p q
  assume "plan_node plan n = Some node" and "(m, p, q) \<in> set (collect_refs ''/'' (PDict (st_inputs node)))"
  then have "m \<in> fst ` set (rs_succeeded st)" using refs_succeeded [OF assms(1-3)] by blast
  then have "m \<in> dom (map_of (rs_succeeded st))" by (simp add: dom_map_of_conv_image_fst)
  then show "map_of R m = map_of (rs_succeeded st) m" using assms(4) by (simp add: map_le_def)
qed

section \<open>The verdicts of a run\<close>

definition verdicts_ok :: "plan_definition \<Rightarrow> (plan_step \<Rightarrow> executor_outcome) \<Rightarrow> plan_run_state \<Rightarrow> bool" where
  "verdicts_ok plan ex st \<longleftrightarrow>
     (\<forall>(n, r) \<in> set (rs_succeeded st). attempt plan ex (rs_succeeded st) n = Inr (Inr r))
     \<and> (\<forall>(n, f) \<in> set (rs_failures st). attempt plan ex (rs_succeeded st) n = Inr (Inl f))"

lemma verdicts_frame:
  "rs_succeeded st' = rs_succeeded st \<Longrightarrow> rs_failures st' = rs_failures st \<Longrightarrow>
   verdicts_ok plan ex st' = verdicts_ok plan ex st"
  by (simp add: verdicts_ok_def)

lemma attempted_needs:
  "state_inv plan st \<Longrightarrow> n \<in> attempted st \<Longrightarrow> needs plan n \<subseteq> fst ` set (rs_succeeded st)"
  by (simp add: state_inv_def)

lemma verdicts_grow:
  assumes acc: "plan_accepted registry plan" and inv: "state_inv plan st" and ok: "verdicts_ok plan ex st"
    and needs: "needs plan n \<subseteq> fst ` set (rs_succeeded st)"
    and verdict: "attempt plan ex (rs_succeeded st) n = Inr (Inr r)"
    and st': "rs_succeeded st' = rs_succeeded st @ [(n, r)]" "rs_failures st' = rs_failures st"
  shows "verdicts_ok plan ex st'"
proof -
  have le: "map_of (rs_succeeded st) \<subseteq>\<^sub>m map_of (rs_succeeded st')" by (simp add: st')
  have same: "attempt plan ex (rs_succeeded st') m = attempt plan ex (rs_succeeded st) m"
    if "m \<in> attempted st \<or> m = n" for m
    using attempt_stable [OF acc inv _ le] attempted_needs [OF inv] needs that by blast
  have "attempt plan ex (rs_succeeded st') m = Inr (Inr x)" if "(m, x) \<in> set (rs_succeeded st')" for m x
  proof (cases "(m, x) \<in> set (rs_succeeded st)")
    case True
    then have "m \<in> attempted st" by (force simp: attempted_def)
    then show ?thesis using same ok True by (auto simp: verdicts_ok_def)
  next
    case False
    then show ?thesis using that st' same verdict by simp
  qed
  moreover have "attempt plan ex (rs_succeeded st') m = Inr (Inl f)" if "(m, f) \<in> set (rs_failures st')" for m f
  proof -
    have "m \<in> attempted st" using that st' by (force simp: attempted_def)
    then show ?thesis using same ok that st' by (auto simp: verdicts_ok_def)
  qed
  ultimately show ?thesis by (auto simp: verdicts_ok_def)
qed

lemma verdicts_fail:
  assumes "verdicts_ok plan ex st" and "attempt plan ex (rs_succeeded st) n = Inr (Inl f)"
    and "rs_succeeded st' = rs_succeeded st" and "rs_failures st' = rs_failures st @ [(n, f)]"
  shows "verdicts_ok plan ex st'"
  using assms by (auto simp: verdicts_ok_def)

lemma invoked_attempt:
  "invoked plan results n i \<Longrightarrow> attempt plan ex results n = Inr (task_verdict n (execute_node (ex i)))"
  by (auto simp: invoked_def attempt_def)

lemma complete_task_verdicts:
  assumes acc: "plan_accepted registry plan" and inv: "state_inv plan st" and ok: "verdicts_ok plan ex st"
    and run: "(n, i) \<in> set (rs_running st)"
  shows "verdicts_ok plan ex (complete_task ctx (n, ex i) st)"
proof -
  have dist: "distinct (run_nodes st)" using state_inv_distinct [OF _ inv] acc by (auto simp: plan_accepted_def)
  let ?st = "st\<lparr> rs_running := filter (\<lambda>(m, _). m \<noteq> n) (rs_running st) \<rparr>"
  have n: "n \<in> fst ` set (rs_running st)" using run by force
  then have fresh: "n \<notin> fst ` set (rs_succeeded ?st)" "n \<notin> fst ` set (rs_failures ?st)"
    using dist by (auto simp: run_nodes_def)
  have verdict: "attempt plan ex (rs_succeeded st) n = Inr (task_verdict n (execute_node (ex i)))"
    by (rule invoked_attempt) (use inv run in \<open>auto simp: state_inv_def\<close>)
  have needs: "needs plan n \<subseteq> fst ` set (rs_succeeded st)"
    by (rule attempted_needs [OF inv]) (use n in \<open>simp add: attempted_def\<close>)
  have "verdicts_ok plan ex (record_task_outcome n (execute_node (ex i)) ?st)"
    using fresh
  proof (cases rule: record_task_outcome_cases [where out = "execute_node (ex i)"])
    case (succeeded r)
    show ?thesis
      by (rule verdicts_grow [OF acc inv ok needs]) (use verdict succeeded in simp_all)
  next
    case (failed f)
    show ?thesis by (rule verdicts_fail [OF ok]) (use verdict failed in simp_all)
  qed
  then show ?thesis unfolding complete_task_def prod.case
    using verdicts_frame [OF note_progress_frame(3,4)] by blast
qed

lemma complete_tasks_verdicts:
  assumes acc: "plan_accepted registry plan" and "state_inv plan st" and "verdicts_ok plan ex st"
    and "distinct (map fst outcomes)"
    and "\<forall>(n, out) \<in> set outcomes. \<exists>i. (n, i) \<in> set (rs_running st) \<and> out = ex i"
  shows "verdicts_ok plan ex (complete_tasks ctx outcomes st)"
  using assms(2-)
proof (induction outcomes arbitrary: st)
  case (Cons p outcomes)
  obtain n out where p: "p = (n, out)" by (cases p)
  let ?st = "complete_task ctx (n, out) st"
  obtain i where i: "(n, i) \<in> set (rs_running st)" "out = ex i" using Cons.prems(4) p by auto
  have dist: "distinct (node_ids plan)" using acc by (simp add: plan_accepted_def)
  have "\<forall>(m, o') \<in> set outcomes. \<exists>i. (m, i) \<in> set (rs_running ?st) \<and> o' = ex i"
    using Cons.prems(3,4) p by force
  then have "verdicts_ok plan ex (complete_tasks ctx outcomes ?st)"
    using Cons.IH [OF complete_task_inv [OF dist Cons.prems(1) i(1)]]
      complete_task_verdicts [OF acc Cons.prems(1,2) i(1), of ctx] Cons.prems(3) i(2) by simp
  then show ?case by (simp add: complete_tasks_def p)
qed (simp add: complete_tasks_def)

lemma start_ready_verdicts:
  assumes acc: "plan_accepted registry (cx_plan ctx)"
    and "state_inv (cx_plan ctx) st" and "verdicts_ok (cx_plan ctx) ex st" and "start_ready ctx ready st = Inr st'"
    and "distinct ready" and "set ready \<subseteq> set (rs_pending st)"
    and "\<forall>n \<in> set ready. needs (cx_plan ctx) n \<subseteq> fst ` set (rs_succeeded st)"
  shows "verdicts_ok (cx_plan ctx) ex st'"
  using assms(2-)
proof (induction ready arbitrary: st)
  case (Cons n ready)
  let ?plan = "cx_plan ctx"
  have dist: "distinct (node_ids ?plan)" using acc by (simp add: plan_accepted_def)
  have pend: "n \<in> set (rs_pending st)" and need: "needs ?plan n \<subseteq> fst ` set (rs_succeeded st)"
    and rest: "set ready \<subseteq> set (filter (\<lambda>m. m \<noteq> n) (rs_pending st))"
    using Cons.prems by auto
  show ?case
  proof (cases "int (length (rs_running st)) < py_max_concurrency (pd_policy ?plan)")
    case True
    from Cons.prems(3) True show ?thesis
    proof (cases rule: start_ready_Cons)
      case (started i)
      have "verdicts_ok ?plan ex (start_task ctx n i st)"
        using Cons.prems(2) verdicts_frame [OF start_task_frame(3,4)] by blast
      then show ?thesis
        using Cons.IH [OF start_task_inv [OF dist Cons.prems(1) pend need started(1) True] _ started(2)]
          Cons.prems(4,6) rest by simp
    next
      case (unresolved node message)
      let ?st = "fail_unresolved ctx n ''invalid_reference'' message st"
      have fresh: "n \<notin> fst ` set (rs_failures st)"
        using state_inv_distinct [OF dist Cons.prems(1)] pend by (auto simp: run_nodes_def)
      have "verdicts_ok ?plan ex ?st"
        by (rule verdicts_fail [OF Cons.prems(2), where n = n])
          (use unresolved(1,2) fresh in \<open>simp_all add: attempt_def bad_pointer_def dict_set_fresh\<close>)
      then show ?thesis
        using Cons.IH [OF fail_unresolved_inv [OF dist Cons.prems(1) pend need] _ unresolved(3)]
          Cons.prems(4,6) rest by simp
    qed
  qed (use Cons.prems in simp)
qed simp

definition determined ::
  "tool_registry_snapshot \<Rightarrow> run_context \<Rightarrow> successors \<Rightarrow> (plan_step \<Rightarrow> executor_outcome) \<Rightarrow> run_config \<Rightarrow> bool" where
  "determined registry ctx deps ex c \<longleftrightarrow>
     run_ok ctx deps c \<and> plan_accepted registry (cx_plan ctx) \<and> \<not> fail_fast ctx
     \<and> (\<forall>st. config_state c = Some st \<longrightarrow> verdicts_ok (cx_plan ctx) ex st)"

lemma loop_iteration_verdicts:
  assumes "determined registry ctx deps ex (Looping st)"
  shows "\<forall>st'. config_state (loop_iteration ctx deps st) = Some st' \<longrightarrow> verdicts_ok (cx_plan ctx) ex st'"
proof (intro allI impI)
  fix st'
  assume st': "config_state (loop_iteration ctx deps st) = Some st'"
  have ok: "run_ok ctx deps (Looping st)" and acc: "plan_accepted registry (cx_plan ctx)"
    and ff: "\<not> fail_fast ctx" and v: "verdicts_ok (cx_plan ctx) ex st"
    using assms by (auto simp: determined_def)
  have inv: "state_inv (cx_plan ctx) st" using ok by (simp add: run_ok_def)
  consider "st' = st" | "st' = skip_pending st" | "start_ready ctx (ready_nodes deps st) st = Inr st'"
    using st' ff by (auto simp: loop_iteration_def split: if_splits sum.splits)
  then show "verdicts_ok (cx_plan ctx) ex st'"
  proof cases
    case 1
    then show ?thesis using v by simp
  next
    case 2
    then show ?thesis using v verdicts_frame [OF skip_pending_frame(3,4)] by blast
  next
    case 3
    then show ?thesis using start_ready_verdicts [OF acc inv v _ ready_nodes_props(1-3) [OF ok]] by blast
  qed
qed

lemma determined_step:
  assumes "determined registry ctx deps ex c" and "run_step ctx deps (\<lambda>i out. out = ex i) c c'"
  shows "determined registry ctx deps ex c'"
proof -
  have ok: "run_ok ctx deps c" using assms(1) by (simp add: determined_def)
  have "\<forall>st. config_state c' = Some st \<longrightarrow> verdicts_ok (cx_plan ctx) ex st"
    using assms(2)
  proof cases
    case (iterate st)
    then show ?thesis using loop_iteration_verdicts assms(1) by blast
  next
    case (completed outcomes st)
    then show ?thesis
      using complete_tasks_verdicts [of registry "cx_plan ctx" st ex outcomes ctx] assms(1) ok
      by (auto simp: determined_def run_ok_def)
  next
    case (cancelled outcomes st)
    then show ?thesis using assms(1) ok by (auto simp: determined_def run_ok_def)
  qed
  then show ?thesis using run_step_ok [OF ok assms(2)] assms(1) by (simp add: determined_def)
qed

interpretation determined_run:
  invariant_machine "run_step ctx deps (\<lambda>i out. out = ex i)" "determined registry ctx deps ex" for registry ctx deps ex
  by unfold_locales (rule determined_step)

section \<open>The sequential run agrees\<close>

lemma topological_before:
  assumes "topological ids edges order" and "order = xs @ n # ys" and "(a, n) \<in> set edges"
  shows "a \<in> set xs"
proof -
  obtain us vs ws where o: "order = us @ a # vs @ n # ws" and d: "distinct order"
    using assms(1,3) by (auto simp: topological_def)
  then have "xs @ n # ys = (us @ a # vs) @ n # ws" using assms(2) by simp
  moreover have "n \<notin> set xs" "n \<notin> set ys" using d assms(2) by simp_all
  ultimately have "xs = us @ a # vs" using append_Cons_eq_iff [of n xs ys] by blast
  then show ?thesis by simp
qed

lemma topological_upstream:
  assumes top: "topological ids edges order" and n: "order = xs @ n # ys" and "(a, n) \<in> (set edges)\<^sup>+"
  shows "a \<in> set xs"
  using assms(3)
proof (induction rule: converse_trancl_induct)
  case (base y)
  then show ?case using topological_before [OF top n] by blast
next
  case (step y z)
  then obtain us vs where "xs = us @ z # vs" by (meson split_list)
  then show ?case using topological_before [OF top, of us z "vs @ n # ys" y] n step(1) by simp
qed

lemma sequential_agrees:
  assumes acc: "plan_accepted registry plan" and top: "topological (node_ids plan) (edge_pairs plan) order"
    and inv: "state_inv plan st" and ok: "verdicts_ok plan ex st"
    and nodes: "set (node_ids plan) = fst ` set (rs_succeeded st) \<union> fst ` set (rs_failures st) \<union> K"
    and blocked: "\<And>n. n \<in> K \<Longrightarrow> \<not> needs plan n \<subseteq> fst ` set (rs_succeeded st)"
    and "order = xs @ ys" and "map_of S = map_of (rs_succeeded st) |` set xs"
    and "map_of F = map_of (rs_failures st) |` set xs"
  shows "\<exists>S' F'. sequential_run plan ex ys S F = Inr (S', F')
    \<and> map_of S' = map_of (rs_succeeded st) \<and> map_of F' = map_of (rs_failures st)"
  using assms(7-)
proof (induction ys arbitrary: xs S F)
  case Nil
  have "fst ` set (rs_succeeded st) \<subseteq> set xs" "fst ` set (rs_failures st) \<subseteq> set xs"
    using top nodes Nil(1) by (auto simp: topological_def)
  then have "map_of (rs_succeeded st) |` set xs = map_of (rs_succeeded st)"
    "map_of (rs_failures st) |` set xs = map_of (rs_failures st)"
    by (auto simp: restrict_map_def fun_eq_iff) (metis domIff dom_map_of_conv_image_fst subsetD)+
  then show ?case using Nil by simp
next
  case (Cons n ys)
  let ?succ = "rs_succeeded st" and ?fail = "rs_failures st"
  have dist: "distinct (run_nodes st)" using state_inv_distinct [OF _ inv] acc by (auto simp: plan_accepted_def)
  have sep: "distinct (map fst ?succ)" "distinct (map fst ?fail)" "fst ` set ?succ \<inter> fst ` set ?fail = {}"
    using dist by (auto simp: run_nodes_def)
  have n: "n \<in> set (node_ids plan)" "n \<notin> set xs" using top Cons.prems(1) by (auto simp: topological_def)
  have more: "order = (xs @ [n]) @ ys" using Cons.prems(1) by simp
  have "fst ` set S = fst ` set ?succ \<inter> set xs"
    using arg_cong [OF Cons.prems(2), of dom] by (simp add: dom_map_of_conv_image_fst)
  moreover have "needs plan n \<subseteq> set xs"
    using topological_before [OF top Cons.prems(1)] by (auto simp: needs_def)
  ultimately have needs: "needs plan n \<subseteq> fst ` set S \<longleftrightarrow> needs plan n \<subseteq> fst ` set ?succ" by blast
  have grow: "map_of ?succ |` set (xs @ [n]) = (map_of ?succ |` set xs)(n := map_of ?succ n)"
    "map_of ?fail |` set (xs @ [n]) = (map_of ?fail |` set xs)(n := map_of ?fail n)"
    by (auto simp: restrict_map_def)
  have free: "map_of S n = None" "map_of F n = None" using Cons.prems(2,3) n(2) by simp_all
  show ?case
  proof (cases "needs plan n \<subseteq> fst ` set ?succ")
    case True
    have "attempt plan ex S n = attempt plan ex ?succ n"
    proof (rule attempt_agree)
      fix node m p q
      assume "plan_node plan n = Some node" and "(m, p, q) \<in> set (collect_refs ''/'' (PDict (st_inputs node)))"
      then have "m \<in> set xs" using refs_upstream [OF acc] topological_upstream [OF top Cons.prems(1)] by blast
      then show "map_of S m = map_of ?succ m" using Cons.prems(2) by simp
    qed
    moreover have "n \<notin> K" using blocked True by blast
    then consider r where "(n, r) \<in> set ?succ" | f where "(n, f) \<in> set ?fail" using nodes n(1) by auto
    then show ?thesis
    proof cases
      case (1 r)
      then have "n \<notin> fst ` set ?fail" using sep(3) by force
      then have "map_of ?succ n = Some r" "map_of ?fail n = None"
        using 1 sep(1) by (simp_all add: map_of_eq_None_iff)
      moreover have "attempt plan ex S n = Inr (Inr r)" using \<open>attempt plan ex S n = _\<close> ok 1 by (auto simp: verdicts_ok_def)
      moreover have "map_of (S @ [(n, r)]) = (map_of S)(n \<mapsto> r)" using free by (auto simp: map_add_def fun_eq_iff split: option.split)
      ultimately show ?thesis using Cons.IH [OF more, of "S @ [(n, r)]" F] Cons.prems(2,3) grow True needs free n(2)
        by (simp add: fun_upd_idem)
    next
      case (2 f)
      then have "n \<notin> fst ` set ?succ" using sep(3) by force
      then have "map_of ?fail n = Some f" "map_of ?succ n = None"
        using 2 sep(2) by (simp_all add: map_of_eq_None_iff)
      moreover have "attempt plan ex S n = Inr (Inl f)" using \<open>attempt plan ex S n = _\<close> ok 2 by (auto simp: verdicts_ok_def)
      moreover have "map_of (F @ [(n, f)]) = (map_of F)(n \<mapsto> f)" using free by (auto simp: map_add_def fun_eq_iff split: option.split)
      ultimately show ?thesis using Cons.IH [OF more, of S "F @ [(n, f)]"] Cons.prems(2,3) grow True needs free n(2)
        by (simp add: fun_upd_idem)
    qed
  next
    case False
    then have "n \<notin> attempted st" using attempted_needs [OF inv] by blast
    then have "map_of ?succ n = None" "map_of ?fail n = None" by (auto simp: attempted_def map_of_eq_None_iff)
    then show ?thesis using Cons.IH [OF more, of S F] Cons.prems(2,3) grow False needs free n(2)
        by (simp add: fun_upd_idem)
  qed
qed

section \<open>Properties\<close>

lemma plan_node_of:
  assumes "distinct (node_ids plan)" and "node \<in> set (pd_nodes plan)"
  shows "plan_node plan (st_id node) = Some node"
proof -
  have "distinct (map fst (rev (map (\<lambda>n. (st_id n, n)) (pd_nodes plan))))"
    using assms(1) by (simp add: node_ids_def comp_def rev_map [symmetric])
  then show ?thesis using assms(2) by (simp add: plan_node_def map_of_eq_Some_iff)
qed

text \<open>
  C24. A reference never reads a missing result: in every state of every run of a validated plan, a node
  whose dependencies have succeeded refers only to nodes that have a result.
\<close>

theorem references_available:
  assumes "create_interpreter plan registry store wp clock = Inr ctx" and "policy_post_init (pd_policy plan) = Inr ()"
    and "reaches ctx may c" and "config_state c = Some st"
    and "node \<in> set (pd_nodes plan)" and "needs plan (st_id node) \<subseteq> fst ` set (rs_succeeded st)"
    and "(m, pointer, path) \<in> set (collect_refs ''/'' (PDict (st_inputs node)))"
  shows "\<exists>r. map_of (rs_succeeded st) m = Some r"
proof -
  note plan = created_runnable [OF assms(1,2)]
  obtain deps where "run_ok ctx deps c" using reaches_ok [OF _ assms(3)] plan by auto
  then have inv: "state_inv plan st" using config_state_inv [OF _ assms(4)] plan(1) by (auto simp: run_ok_def)
  have "distinct (node_ids plan)" using plan(2) by (simp add: plan_accepted_def)
  then have "m \<in> fst ` set (rs_succeeded st)"
    using refs_succeeded [OF plan(2) inv assms(6) plan_node_of assms(7)] assms(5) by blast
  then show ?thesis by (metis domD dom_map_of_conv_image_fst)
qed

text \<open>
  C3. The interpreter is deterministic: when the executor is a function of the invocation and the plan
  does not fail fast, every finished run, whatever the schedule and the concurrency, has exactly the
  results and failures of executing the nodes one by one in the topological order of the validator.
\<close>

theorem plan_run_deterministic:
  assumes "validate_plan plan registry = Inr v" and "create_interpreter plan registry store wp clock = Inr ctx"
    and "policy_post_init (pd_policy plan) = Inr ()"
    and "py_failure_mode (pd_policy plan) = ''CONTINUE''" and "reaches ctx (\<lambda>i out. out = ex i) (Finished st)"
  shows "\<exists>S F. sequential_run plan ex (vp_topological_order v) [] [] = Inr (S, F)
    \<and> map_of (rs_succeeded st) = map_of S \<and> map_of (rs_failures st) = map_of F"
proof -
  note plan = created_runnable [OF assms(2,3)]
  note fin = finished_reached [OF assms(2,3,5)]
  have ff: "\<not> fail_fast ctx" using assms(4) plan(1) by (simp add: fail_fast_def)
  obtain deps where deps: "dependencies (cx_plan ctx) = Inr deps"
    "(run_step ctx deps (\<lambda>i out. out = ex i))\<^sup>*\<^sup>* (start_run ctx) (Finished st)"
    using assms(5) by (auto simp: reaches_def)
  have "verdicts_ok plan ex (initial_plan_run_state ctx)" by (simp add: verdicts_ok_def initial_plan_run_state_def)
  then have "determined registry ctx deps ex (start_run ctx)"
    using start_ok [OF _ deps(1)] plan ff deps(1) by (simp add: determined_def start_run_def)
  then have "determined registry ctx deps ex (Finished st)" using determined_run.run_keeps [OF deps(2)] by blast
  then have ok: "verdicts_ok plan ex st" using plan(1) by (simp add: determined_def)
  have "\<not> needs plan n \<subseteq> fst ` set (rs_succeeded st)" if "n \<in> set (rs_skipped st)" for n
    using fin(1) ff plan(1) that by (auto simp: finished_inv_def)
  then have "\<exists>S F. sequential_run plan ex (vp_topological_order v) [] [] = Inr (S, F)
    \<and> map_of S = map_of (rs_succeeded st) \<and> map_of F = map_of (rs_failures st)"
    using sequential_agrees [OF plan(2) validated_order [OF assms(1)] fin(2) ok fin(4), of "[]" "vp_topological_order v" "[]" "[]"]
    by (simp add: restrict_map_def)
  then show ?thesis by metis
qed

section \<open>What a run raises\<close>

lemma invocation_of_object:
  "invocation_of node (PDict d) = Inl e \<Longrightarrow> py_strip (st_id node) = [] \<or> py_strip (st_skill_name node) = []"
  by (auto simp: invocation_of_def new_step_def ensure_non_empty_def guard_def split: if_splits)

lemma invocation_of_error:
  assumes "invocation_of node v = Inl e" and "py_strip (st_id node) \<noteq> []" and "py_strip (st_skill_name node) \<noteq> []"
  shows "e = ContractValidationError ''invalid_plan'' ''node.inputs must be an object'' \<and> (\<forall>d. v \<noteq> PDict d)"
  using assms by (auto simp: invocation_of_def new_step_def ensure_non_empty_def guard_def split: pyval.splits)

lemma start_ready_error:
  assumes "start_ready ctx ready st = Inl e" and "set ready \<subseteq> set (node_ids (cx_plan ctx))"
    and named: "\<forall>node \<in> set (pd_nodes (cx_plan ctx)). py_strip (st_id node) \<noteq> [] \<and> py_strip (st_skill_name node) \<noteq> []"
  shows "e = PyValueError \<or> e = ContractValidationError ''invalid_plan'' ''node.inputs must be an object''
    \<and> (\<exists>node \<in> set (pd_nodes (cx_plan ctx)). is_ref_object (PDict (st_inputs node)))"
  using assms(1,2)
proof (induction ready arbitrary: st)
  case (Cons n ready)
  obtain node where node: "plan_node (cx_plan ctx) n = Some node" using plan_node_known Cons.prems(2) by fastforce
  have mem: "node \<in> set (pd_nodes (cx_plan ctx))" using plan_node_mem [OF node] by blast
  have room: "int (length (rs_running st)) < py_max_concurrency (pd_policy (cx_plan ctx))"
    using Cons.prems(1) by (auto split: if_splits)
  show ?case
  proof (cases "resolve_inputs (rs_succeeded st) (PDict (st_inputs node))")
    case (Inl err)
    then show ?thesis using resolve_inputs_error [OF Inl] Cons.IH Cons.prems room node by (auto simp: bad_pointer_def)
  next
    case (Inr v)
    show ?thesis
    proof (cases "invocation_of node v")
      case (Inl err)
      then have "e = err" using Cons.prems(1) room node Inr by simp
      moreover have "err = ContractValidationError ''invalid_plan'' ''node.inputs must be an object'' \<and> (\<forall>d. v \<noteq> PDict d)"
        using invocation_of_error [OF Inl] named mem by blast
      moreover from this have "is_ref_object (PDict (st_inputs node))" using resolve_inputs_object [OF Inr] by blast
      ultimately show ?thesis using mem by blast
    next
      case inv: (Inr i)
      then show ?thesis using Cons.IH [of "start_task ctx n i st"] Cons.prems room node Inr by simp
    qed
  qed
qed simp

lemma invocation_of_no_object:
  "py_strip (st_id node) \<noteq> [] \<Longrightarrow> py_strip (st_skill_name node) \<noteq> [] \<Longrightarrow> \<forall>d. v \<noteq> PDict d \<Longrightarrow>
     invocation_of node v = Inl (ContractValidationError ''invalid_plan'' ''node.inputs must be an object'')"
  by (cases v) (auto simp: invocation_of_def new_step_def ensure_non_empty_def guard_def)

lemma start_ready_raises:
  assumes "start_ready ctx before st = Inr st'"
    and "int (length (rs_running st')) < py_max_concurrency (pd_policy (cx_plan ctx))"
    and "plan_node (cx_plan ctx) n = Some node" and "resolve_inputs (rs_succeeded st) (PDict (st_inputs node)) = Inr v"
    and "\<forall>d. v \<noteq> PDict d" and "py_strip (st_id node) \<noteq> [] \<and> py_strip (st_skill_name node) \<noteq> []"
  shows "start_ready ctx (before @ n # after) st
    = Inl (ContractValidationError ''invalid_plan'' ''node.inputs must be an object'')"
  using assms
proof (induction before arbitrary: st)
  case Nil
  then show ?case using invocation_of_no_object [of node v] by simp
next
  case (Cons m before)
  have room: "int (length (rs_running st)) < py_max_concurrency (pd_policy (cx_plan ctx))"
    using Cons.prems(1,2) by (auto split: if_splits)
  from Cons.prems(1) room show ?case
  proof (cases rule: start_ready_Cons)
    case (started i)
    then show ?thesis using Cons.IH [OF started(2) Cons.prems(2,3)] Cons.prems(4-6) room by (auto simp: invoked_def)
  next
    case (unresolved k message)
    then show ?thesis using Cons.IH [OF unresolved(3) Cons.prems(2,3)] Cons.prems(4-6) room by (simp add: bad_pointer_def)
  qed
qed

lemma start_ready_no_object:
  assumes "start_ready ctx ready st = Inl (ContractValidationError ''invalid_plan'' ''node.inputs must be an object'')"
    and "set ready \<subseteq> set (node_ids (cx_plan ctx))"
    and "\<forall>node \<in> set (pd_nodes (cx_plan ctx)). py_strip (st_id node) \<noteq> [] \<and> py_strip (st_skill_name node) \<noteq> []"
  shows "\<exists>before n after st' node v. ready = before @ n # after \<and> start_ready ctx before st = Inr st'
    \<and> int (length (rs_running st')) < py_max_concurrency (pd_policy (cx_plan ctx))
    \<and> plan_node (cx_plan ctx) n = Some node \<and> is_ref_object (PDict (st_inputs node))
    \<and> resolve_inputs (rs_succeeded st) (PDict (st_inputs node)) = Inr v \<and> (\<forall>d. v \<noteq> PDict d)"
  using assms(1,2)
proof (induction ready arbitrary: st)
  case (Cons n ready)
  obtain node where node: "plan_node (cx_plan ctx) n = Some node" using plan_node_known Cons.prems(2) by fastforce
  have room: "int (length (rs_running st)) < py_max_concurrency (pd_policy (cx_plan ctx))"
    using Cons.prems(1) by (auto split: if_splits)
  have later: ?case if head: "\<And>ready. start_ready ctx (n # ready) st = start_ready ctx ready st1" "rs_succeeded st1 = rs_succeeded st" for st1
  proof -
    have "start_ready ctx ready st1 = Inl (ContractValidationError ''invalid_plan'' ''node.inputs must be an object'')"
      using Cons.prems(1) head(1) by simp
    with Cons.IH [OF this] Cons.prems(2) obtain before k after st' node v where
      found: "ready = before @ k # after" "start_ready ctx before st1 = Inr st'"
      "int (length (rs_running st')) < py_max_concurrency (pd_policy (cx_plan ctx))"
      "plan_node (cx_plan ctx) k = Some node" "is_ref_object (PDict (st_inputs node))"
      "resolve_inputs (rs_succeeded st) (PDict (st_inputs node)) = Inr v" "\<forall>d. v \<noteq> PDict d"
      using head(2) by auto
    then have "n # ready = (n # before) @ k # after" "start_ready ctx (n # before) st = Inr st'" using head(1) by simp_all
    with found(3-7) show ?thesis by blast
  qed
  show ?case
  proof (cases "resolve_inputs (rs_succeeded st) (PDict (st_inputs node))")
    case (Inl err)
    then obtain message where "err = bad_pointer message"
      using resolve_inputs_error [OF Inl] Cons.prems(1) room node by (auto simp: bad_pointer_def)
    then show ?thesis
      using Inl room node by (intro later [of "fail_unresolved ctx n ''invalid_reference'' message st"]) (simp_all add: bad_pointer_def)
  next
    case (Inr v)
    show ?thesis
    proof (cases "invocation_of node v")
      case (Inl err)
      have no_object: "\<forall>d. v \<noteq> PDict d"
        using invocation_of_error [OF Inl] assms(3) plan_node_mem [OF node] by blast
      then have "is_ref_object (PDict (st_inputs node))" using resolve_inputs_object [OF Inr] by blast
      then show ?thesis using Inr node room no_object
        by (intro exI [of _ "[]"] exI [of _ n] exI [of _ ready] exI [of _ st] exI [of _ node] exI [of _ v]) simp
    next
      case (Inr i)
      then show ?thesis using \<open>resolve_inputs (rs_succeeded st) (PDict (st_inputs node)) = Inr v\<close> room node
        by (intro later [of "start_task ctx n i st"]) simp_all
    qed
  qed
qed simp

text \<open>A run that raises does so while it starts the ready nodes of a state it has reached.\<close>

lemma crash_reached:
  assumes "create_interpreter plan registry store wp clock = Inr ctx" and "policy_post_init (pd_policy plan) = Inr ()"
    and "reaches ctx may (Crashed e)"
  shows "\<exists>deps st. dependencies plan = Inr deps \<and> reaches ctx may (Looping st) \<and> \<not> (fail_fast ctx \<and> rs_failures st \<noteq> [])
    \<and> start_ready ctx (ready_nodes deps st) st = Inl e \<and> set (ready_nodes deps st) \<subseteq> set (node_ids plan)"
proof -
  note plan = created_runnable [OF assms(1,2)]
  obtain deps where deps: "dependencies (cx_plan ctx) = Inr deps"
    "(run_step ctx deps may)\<^sup>*\<^sup>* (start_run ctx) (Crashed e)"
    using assms(3) by (auto simp: reaches_def)
  have start: "run_ok ctx deps (start_run ctx)" using start_ok plan deps(1) by simp
  have "start_run ctx \<noteq> Crashed e" using deps(1) by (simp add: start_run_def)
  then obtain c where c: "(run_step ctx deps may)\<^sup>*\<^sup>* (start_run ctx) c" "run_step ctx deps may c (Crashed e)"
    using deps(2) by (metis rtranclp.cases)
  have ok: "run_ok ctx deps c" using plan_run.run_keeps [OF c(1) start] .
  from c(2) obtain st where st: "c = Looping st" "loop_iteration ctx deps st = Crashed e"
    by cases auto
  then have "start_ready ctx (ready_nodes deps st) st = Inl e" "\<not> (fail_fast ctx \<and> rs_failures st \<noteq> [])"
    by (auto simp: loop_iteration_def split: if_splits sum.splits)
  moreover have "set (ready_nodes deps st) \<subseteq> set (node_ids (cx_plan ctx))"
    using ready_nodes_props(2) [of ctx deps st] ok st(1) state_inv_set [of "cx_plan ctx" st]
    by (auto simp: run_ok_def run_nodes_def)
  moreover have "reaches ctx may (Looping st)" using c(1) st(1) deps(1) unfolding reaches_def by blast
  ultimately show ?thesis using plan(1) deps(1) by metis
qed

text \<open>
  A run of a validated plan whose nodes are named raises only in two ways: an index made of
  superscript digits, which isdigit accepts and int does not, and the inputs of a node that are as
  a whole a reference to something that is no object.
\<close>

theorem plan_run_raises:
  assumes "create_interpreter plan registry store wp clock = Inr ctx" and "policy_post_init (pd_policy plan) = Inr ()"
    and "\<forall>node \<in> set (pd_nodes plan). py_strip (st_id node) \<noteq> [] \<and> py_strip (st_skill_name node) \<noteq> []"
    and "reaches ctx may (Crashed e)"
  shows "e = PyValueError \<or> e = ContractValidationError ''invalid_plan'' ''node.inputs must be an object''
    \<and> (\<exists>node \<in> set (pd_nodes plan). is_ref_object (PDict (st_inputs node)))"
proof -
  note plan = created_runnable [OF assms(1,2)]
  obtain deps st where "start_ready ctx (ready_nodes deps st) st = Inl e" "set (ready_nodes deps st) \<subseteq> set (node_ids plan)"
    using crash_reached [OF assms(1,2,4)] by blast
  then show ?thesis using start_ready_error [of ctx] assms(3) plan(1) by blast
qed

text \<open>
  C40. A plan that passes validation can still make its run raise instead of failing a node: with named
  nodes a run ends in the exception for inputs that are no object exactly when in some state it reaches,
  not stopped by a failure, the nodes that are ready before some node have been started and left room
  for it, and the inputs of that node are as a whole a reference, which the validator accepts for every
  schema, that resolves to something that is no object.
\<close>

theorem validated_plan_raises:
  assumes "create_interpreter plan registry store wp clock = Inr ctx" and "policy_post_init (pd_policy plan) = Inr ()"
    and "\<forall>node \<in> set (pd_nodes plan). py_strip (st_id node) \<noteq> [] \<and> py_strip (st_skill_name node) \<noteq> []"
  shows "reaches ctx may (Crashed (ContractValidationError ''invalid_plan'' ''node.inputs must be an object'')) \<longleftrightarrow>
    (\<exists>deps st before n after st' node v.
       dependencies plan = Inr deps \<and> reaches ctx may (Looping st) \<and> \<not> (fail_fast ctx \<and> rs_failures st \<noteq> [])
       \<and> ready_nodes deps st = before @ n # after \<and> start_ready ctx before st = Inr st'
       \<and> int (length (rs_running st')) < py_max_concurrency (pd_policy plan)
       \<and> plan_node plan n = Some node \<and> is_ref_object (PDict (st_inputs node))
       \<and> resolve_inputs (rs_succeeded st) (PDict (st_inputs node)) = Inr v \<and> (\<forall>d. v \<noteq> PDict d))"
    (is "?crash \<longleftrightarrow> ?cause")
proof
  note plan = created_runnable [OF assms(1,2)]
  assume ?crash
  then obtain deps st where st: "dependencies plan = Inr deps" "reaches ctx may (Looping st)"
    "\<not> (fail_fast ctx \<and> rs_failures st \<noteq> [])"
    "start_ready ctx (ready_nodes deps st) st = Inl (ContractValidationError ''invalid_plan'' ''node.inputs must be an object'')"
    "set (ready_nodes deps st) \<subseteq> set (node_ids plan)"
    using crash_reached [OF assms(1,2)] by metis
  show ?cause
    using start_ready_no_object [OF st(4)] st plan(1) assms(3) by metis
next
  note plan = created_runnable [OF assms(1,2)]
  assume ?cause
  then obtain deps st before n after st' node v where
    st: "dependencies plan = Inr deps" "reaches ctx may (Looping st)" "\<not> (fail_fast ctx \<and> rs_failures st \<noteq> [])"
      "ready_nodes deps st = before @ n # after"
    and ready: "start_ready ctx before st = Inr st'" "int (length (rs_running st')) < py_max_concurrency (pd_policy plan)"
      "plan_node plan n = Some node" "resolve_inputs (rs_succeeded st) (PDict (st_inputs node)) = Inr v" "\<forall>d. v \<noteq> PDict d"
    by metis
  have "py_strip (st_id node) \<noteq> [] \<and> py_strip (st_skill_name node) \<noteq> []"
    using plan_node_mem [OF ready(3)] assms(3) by blast
  then have "start_ready ctx (ready_nodes deps st) st
      = Inl (ContractValidationError ''invalid_plan'' ''node.inputs must be an object'')"
    using start_ready_raises [OF ready(1)] ready(2-5) plan(1) st(4) by metis
  moreover have "rs_pending st \<noteq> []" using st(4) by (auto simp: ready_nodes_def)
  ultimately have crash: "loop_iteration ctx deps st
      = Crashed (ContractValidationError ''invalid_plan'' ''node.inputs must be an object'')"
    using st(3,4) by (simp add: loop_iteration_def)
  have "(run_step ctx deps may)\<^sup>*\<^sup>* (start_run ctx) (Looping st)"
    using st(1,2) plan(1) by (auto simp: reaches_def)
  then have "(run_step ctx deps may)\<^sup>*\<^sup>* (start_run ctx) (loop_iteration ctx deps st)"
    by (rule rtranclp.rtrancl_into_rtrancl) (rule run_step.iterate)
  then show ?crash using st(1) plan(1) unfolding reaches_def crash by blast
qed

section \<open>Examples\<close>

text \<open>A plan whose second node takes as its inputs, as a whole, a number the first one returns.\<close>

definition example_raising_plan :: plan_definition where
  "example_raising_plan = example_tool_plan (example_policy ''CONTINUE'' 2)
     [example_step ''a'' ''fetch'' [],
      example_step ''b'' ''report'' [(''ref'', PDict [(''node'', PStr ''a''), (''json_pointer'', PStr ''/outputs/count'')])]]
     [(''a'', ''b'')]"

lemma example_raises:
  "create_interpreter example_raising_plan example_registry None False (\<lambda>_. []) = Inr (example_context example_raising_plan)"
  "policy_post_init (pd_policy example_raising_plan) = Inr ()"
  "reaches (example_context example_raising_plan) (\<lambda>i out. out = example_executor i)
     (Crashed (ContractValidationError ''invalid_plan'' ''node.inputs must be an object''))"
proof -
  have "validate_plan example_raising_plan example_registry
      = Inr \<lparr> vp_plan = example_raising_plan, vp_topological_order = [''a'', ''b''] \<rparr>" by code_simp
  then show "create_interpreter example_raising_plan example_registry None False (\<lambda>_. []) = Inr (example_context example_raising_plan)"
    by (simp add: create_interpreter_def example_context_def)
  show "policy_post_init (pd_policy example_raising_plan) = Inr ()" by code_simp
  have deps: "dependencies example_raising_plan = Inr [(''a'', []), (''b'', [''a''])]" by code_simp
  have "drive (example_context example_raising_plan) [(''a'', []), (''b'', [''a''])] example_executor 3
      (start_run (example_context example_raising_plan))
      = Crashed (ContractValidationError ''invalid_plan'' ''node.inputs must be an object'')" by code_simp
  then show "reaches (example_context example_raising_plan) (\<lambda>i out. out = example_executor i)
       (Crashed (ContractValidationError ''invalid_plan'' ''node.inputs must be an object''))"
    using drive_runs [of "example_context example_raising_plan" "[(''a'', []), (''b'', [''a''])]" example_executor
        "start_run (example_context example_raising_plan)" 3] deps
    by (auto simp: reaches_def example_context_def)
qed

lemma references_available_witness:
  "\<exists>st r. config_state (example_driven 2) = Some st \<and> map_of (rs_succeeded st) ''a'' = Some r"
proof -
  have "case example_driven 2 of Looping st \<Rightarrow> map fst (rs_succeeded st) = [''a''] | _ \<Rightarrow> False" by code_simp
  then obtain st where st: "example_driven 2 = Looping st" "map fst (rs_succeeded st) = [''a'']"
    by (auto split: run_config.splits)
  let ?b = "example_step ''b'' ''report'' [(''n'', example_ref ''a'' ''/outputs/count'')]"
  have b: "?b \<in> set (pd_nodes example_run_plan)"
    by (simp add: example_run_plan_def example_tool_plan_def example_nodes_def)
  have "needs example_run_plan (st_id ?b) = {''a''}"
    by (auto simp: needs_def edge_pairs_def example_run_plan_def example_tool_plan_def example_step_def)
  then have needs: "needs example_run_plan (st_id ?b) \<subseteq> fst ` set (rs_succeeded st)"
    using arg_cong [OF st(2), of set] by simp
  have "collect_refs ''/'' (PDict (st_inputs ?b)) = [(''a'', ''/outputs/count'', ''/n/'')]" by code_simp
  then have refs: "(''a'', ''/outputs/count'', ''/n/'') \<in> set (collect_refs ''/'' (PDict (st_inputs ?b)))" by simp
  show ?thesis
    using references_available [OF example_created(1,2) example_reaches [of 2] _ b needs refs] st(1) by simp
qed

lemma plan_run_deterministic_witness:
  "\<exists>st S F. reaches (example_context example_run_plan) (\<lambda>i out. out = example_executor i) (Finished st)
     \<and> sequential_run example_run_plan example_executor [''a'', ''b''] [] [] = Inr (S, F)
     \<and> map_of (rs_succeeded st) = map_of S \<and> map_of (rs_failures st) = map_of F"
proof -
  obtain st where "example_driven 5 = Finished st" by (rule example_finished)
  then have r: "reaches (example_context example_run_plan) (\<lambda>i out. out = example_executor i) (Finished st)"
    using example_reaches [of 5] by simp
  have v: "validate_plan example_run_plan example_registry
      = Inr \<lparr> vp_plan = example_run_plan, vp_topological_order = [''a'', ''b''] \<rparr>" by code_simp
  have "py_failure_mode (pd_policy example_run_plan) = ''CONTINUE''" by code_simp
  from plan_run_deterministic [OF v example_created(1,2) this r] show ?thesis
    using r unfolding validated_plan.select_convs by blast
qed

lemma validated_plan_raises_witness:
  "reaches (example_context example_raising_plan) (\<lambda>i out. out = example_executor i)
     (Crashed (ContractValidationError ''invalid_plan'' ''node.inputs must be an object''))
   \<and> (\<exists>st node v. reaches (example_context example_raising_plan) (\<lambda>i out. out = example_executor i) (Looping st)
        \<and> node \<in> set (pd_nodes example_raising_plan) \<and> is_ref_object (PDict (st_inputs node))
        \<and> resolve_inputs (rs_succeeded st) (PDict (st_inputs node)) = Inr v \<and> (\<forall>d. v \<noteq> PDict d))"
proof -
  have "\<forall>node \<in> set (pd_nodes example_raising_plan). py_strip (st_id node) \<noteq> [] \<and> py_strip (st_skill_name node) \<noteq> []"
    by code_simp
  note cause = iffD1 [OF validated_plan_raises [OF example_raises(1,2) this] example_raises(3)]
  then show ?thesis using example_raises(3) plan_node_mem by blast
qed

lemma plan_run_raises_witness:
  "\<exists>node \<in> set (pd_nodes example_raising_plan). is_ref_object (PDict (st_inputs node))"
proof -
  have "\<forall>node \<in> set (pd_nodes example_raising_plan). py_strip (st_id node) \<noteq> [] \<and> py_strip (st_skill_name node) \<noteq> []"
    by code_simp
  from plan_run_raises [OF example_raises(1,2) this example_raises(3)] show ?thesis by simp
qed

end
