(* ===== verification/Pr_Resolver_Core.thy ===== *)
theory Pr_Resolver_Core
  imports Plan_Values
begin

text \<open>
  The host-neutral core of the pull-request resolver (\<^verbatim>\<open>pr_resolver_core/\<close>): provider snapshots are
  normalized into one canonical record, classified into a decision, and a reducer charges the
  decision against the budgets of the policy. A raw snapshot is a JSON mapping.
\<close>

section \<open>Models\<close>

datatype resolver_action = READ_SNAPSHOT | WAIT | RUN_REMEDIATION | ATTEMPT_MERGE | PUBLISH_TERMINAL
  | STOP_MANUAL_REVIEW

record canonical_snapshot =
  cs_repository :: py_str
  cs_pr_number :: "int option"
  cs_pr_url :: py_str
  cs_head_sha :: py_str
  cs_base_sha :: py_str
  cs_merged :: bool
  cs_open :: bool
  cs_draft :: bool
  cs_merge_conflict :: bool
  cs_mergeability_unknown :: bool
  cs_checks_complete :: bool
  cs_checks_passing :: bool
  cs_checks_failed :: bool
  cs_checks_degraded :: bool
  cs_checks_signal_available :: bool
  cs_actionable_comments :: bool
  cs_comments_available :: bool
  cs_comment_policy_enforced :: bool
  cs_automated_review_pending :: bool
  cs_publish_available :: bool
  cs_malformed :: bool
  cs_unknown_blocker :: bool
  cs_blocker_kinds :: "py_str list"
  cs_blocker_summaries :: "py_str list"

record resolver_decision =
  rd_classification :: py_str
  rd_reason_code :: py_str
  rd_action :: resolver_action
  rd_remediation_skill :: "py_str option"
  rd_terminal_status :: "py_str option"

record resolver_policy =
  rp_max_finalize_attempts :: int
  rp_max_remediations_per_type :: int
  rp_max_identical_blockers :: int

record resolver_state =
  rv_finalize_attempts :: int
  rv_remediation_counts :: "(py_str \<times> int) list"
  rv_identical_blocker_count :: int
  rv_last_progress_signature :: "py_str option"

record resolver_transition =
  rx_state :: resolver_state
  rx_decision :: resolver_decision
  rx_action :: resolver_action
  rx_metadata :: pydict

text \<open>\<open>dict(pairs)\<close>: the last pair of a key counts, at the place of its first.\<close>

definition dict_of :: "('k \<times> 'v) list \<Rightarrow> ('k \<times> 'v) list" where
  "dict_of kvs = fold (\<lambda>(k, v). dict_set k v) kvs []"

definition remediation_count :: "resolver_state \<Rightarrow> py_str \<Rightarrow> int" where
  "remediation_count s skill = option_or (map_of (dict_of (rv_remediation_counts s)) skill) 0"

section \<open>Normalization\<close>

text \<open>\<open>_bool(d.get(k))\<close>, \<open>d.get(k) is True\<close> and \<open>d.get(k) is False\<close>.\<close>

definition bool_field :: "py_str \<Rightarrow> pydict \<Rightarrow> bool" where
  "bool_field k d = (case map_of d k of Some (PBool b) \<Rightarrow> b | _ \<Rightarrow> False)"

definition is_bool_field :: "py_str \<Rightarrow> pydict \<Rightarrow> bool" where
  "is_bool_field k d = (case map_of d k of Some (PBool b) \<Rightarrow> True | _ \<Rightarrow> False)"

definition is_false :: "py_str \<Rightarrow> pydict \<Rightarrow> bool" where
  "is_false k d \<longleftrightarrow> map_of d k = Some (PBool False)"

text \<open>An \<open>int\<close> of Python; a \<open>bool\<close> is one.\<close>

definition int_field :: "py_str \<Rightarrow> pydict \<Rightarrow> int option" where
  "int_field k d = (case map_of d k of Some (PInt i) \<Rightarrow> Some i | Some (PBool b) \<Rightarrow> Some (of_bool b) | _ \<Rightarrow> None)"

text \<open>The mappings among the items of \<open>d.get(k) or ()\<close>; iterating over a number raises.\<close>

definition mapping_items :: "py_str \<Rightarrow> pydict \<Rightarrow> pydict list checked" where
  "mapping_items k d =
     (case map_of d k of
        None \<Rightarrow> Inr []
      | Some v \<Rightarrow>
          if \<not> py_truthy v then Inr []
          else case v of
            PList xs \<Rightarrow> Inr (concat (map (\<lambda>x. case x of PDict m \<Rightarrow> [m] | _ \<Rightarrow> []) xs))
          | PStr s \<Rightarrow> Inr []
          | PDict m \<Rightarrow> Inr []
          | _ \<Rightarrow> Inl PyTypeError)"

definition sub_mapping :: "py_str \<Rightarrow> pydict \<Rightarrow> pydict" where
  "sub_mapping k d = (case map_of d k of Some (PDict m) \<Rightarrow> m | _ \<Rightarrow> [])"

definition blocker_kind :: "pydict \<Rightarrow> py_str" where
  "blocker_kind b = py_lower (text_field ''kind'' b)"

definition DEGRADED_KINDS :: "py_str set" where
  "DEGRADED_KINDS = {''checks_unavailable'', ''readiness_evidence_unavailable'', ''comments_unavailable'',
     ''authentication_unavailable'', ''publish_unavailable''}"

definition KNOWN_KINDS :: "py_str set" where
  "KNOWN_KINDS = {''merge_conflict'', ''merge_conflicts'', ''checks_failed'', ''checks_running'',
     ''automated_review_pending'', ''actionable_comments'', ''mergeability_unknown'', ''mergeability_transient'',
     ''external_state_unavailable'', ''checks_unavailable'', ''readiness_evidence_unavailable'',
     ''comments_unavailable'', ''authentication_unavailable'', ''publish_unavailable'', ''draft''}"

definition requests_changes :: "py_str \<Rightarrow> bool" where
  "requests_changes summary \<longleftrightarrow>
     py_in ''requested changes'' (py_lower summary) \<or> py_in ''changes requested'' (py_lower summary)"

definition temporal_snapshot :: "pydict \<Rightarrow> pydict list \<Rightarrow> canonical_snapshot" where
  "temporal_snapshot raw blockers =
     (let kinds = map blocker_kind blockers;
          summaries = map (text_field ''summary'') blockers;
          non_retryable_external_state =
            (\<exists>b \<in> set blockers. blocker_kind b = ''external_state_unavailable'' \<and> is_false ''retryable'' b);
          ready = bool_field ''ready'' raw
      in \<lparr> cs_repository = text_field ''repository'' raw,
           cs_pr_number = int_field ''prNumber'' raw,
           cs_pr_url = text_field ''prUrl'' raw,
           cs_head_sha = text_field ''headSha'' raw,
           cs_base_sha = text_field ''baseSha'' raw,
           cs_merged = bool_field ''pullRequestMerged'' raw,
           cs_open = (\<not> is_false ''pullRequestOpen'' raw),
           cs_draft = (bool_field ''draft'' raw \<or> ''draft'' \<in> set kinds),
           cs_merge_conflict = ({''merge_conflict'', ''merge_conflicts''} \<inter> set kinds \<noteq> {}),
           cs_mergeability_unknown =
             ({''mergeability_unknown'', ''mergeability_transient''} \<inter> set kinds \<noteq> {}
              \<or> ''external_state_unavailable'' \<in> set kinds \<and> \<not> non_retryable_external_state),
           cs_checks_complete = (ready \<or> ''checks_failed'' \<in> set kinds \<or> bool_field ''checksComplete'' raw),
           cs_checks_passing = (ready \<or> ''checks_failed'' \<notin> set kinds \<and> bool_field ''checksPassing'' raw),
           cs_checks_failed = (''checks_failed'' \<in> set kinds
              \<or> \<not> ready \<and> bool_field ''checksComplete'' raw \<and> \<not> bool_field ''checksPassing'' raw),
           cs_checks_degraded = (DEGRADED_KINDS \<inter> set kinds \<noteq> {}),
           cs_checks_signal_available = is_bool_field ''checksComplete'' raw,
           cs_actionable_comments = (''actionable_comments'' \<in> set kinds \<or> (\<exists>s \<in> set summaries. requests_changes s)),
           cs_comments_available = (''comments_unavailable'' \<notin> set kinds),
           cs_comment_policy_enforced = True,
           cs_automated_review_pending = (''automated_review_pending'' \<in> set kinds),
           cs_publish_available = ({''authentication_unavailable'', ''publish_unavailable''} \<inter> set kinds = {}),
           cs_malformed = (\<not> (bool_field ''pullRequestMerged'' raw \<or> is_false ''pullRequestOpen'' raw \<or> kinds \<noteq> []
              \<or> is_bool_field ''checksComplete'' raw \<or> ready)),
           cs_unknown_blocker = (set kinds - KNOWN_KINDS \<noteq> {} \<or> non_retryable_external_state),
           cs_blocker_kinds = kinds,
           cs_blocker_summaries = summaries \<rparr>)"

definition normalize_temporal_snapshot :: "pydict \<Rightarrow> canonical_snapshot checked" where
  "normalize_temporal_snapshot raw =
     bind_result (mapping_items ''blockers'' raw) (\<lambda>blockers. Inr (temporal_snapshot raw blockers))"

text \<open>\<open>_text(a.get(k) or b.get(l))\<close>.\<close>

definition text_field_or :: "py_str \<Rightarrow> pydict \<Rightarrow> py_str \<Rightarrow> pydict \<Rightarrow> py_str" where
  "text_field_or k a l b =
     (case map_of a k of
        Some v \<Rightarrow> if py_truthy v then py_strip (py_text v) else text_field l b
      | None \<Rightarrow> text_field l b)"

definition normalize_portable_snapshot :: "pydict \<Rightarrow> canonical_snapshot" where
  "normalize_portable_snapshot raw =
     (let pr = sub_mapping ''pr'' raw;
          ci = sub_mapping ''ci'' raw;
          comments_fetch = sub_mapping ''commentsFetch'' raw;
          comments_summary = sub_mapping ''commentsSummary'' raw;
          state = py_upper (text_field ''state'' pr);
          merge_state = py_upper (text_field ''mergeStateStatus'' pr);
          mergeable_text = py_upper (text_field ''mergeable'' pr);
          signal_quality = py_lower (text_field ''signalQuality'' ci);
          authoritative_failures = (bool_field ''hasAuthoritativeFailures'' ci
            \<or> bool_field ''hasFailures'' ci \<and> signal_quality \<in> {'''', ''ok''});
          grace_active = bool_field ''active'' (sub_mapping ''codexReviewGrace'' comments_summary);
          required_shapes_present = (pr \<noteq> [] \<and> ci \<noteq> [] \<and> comments_fetch \<noteq> [])
      in \<lparr> cs_repository = text_field ''repository'' raw,
           cs_pr_number = int_field ''number'' pr,
           cs_pr_url = text_field ''url'' pr,
           cs_head_sha = text_field_or ''headRefOid'' pr ''headSha'' raw,
           cs_base_sha = text_field_or ''baseRefOid'' pr ''baseSha'' raw,
           cs_merged = (state = ''MERGED''),
           cs_open = (state \<notin> {''CLOSED'', ''MERGED''}),
           cs_draft = bool_field ''isDraft'' pr,
           cs_merge_conflict = (merge_state \<in> {''BEHIND'', ''DIRTY''} \<or> is_false ''mergeable'' pr
              \<or> mergeable_text \<in> {''CONFLICTING'', ''DIRTY'', ''CONFLICT''}),
           cs_mergeability_unknown = (merge_state \<in> {''UNKNOWN'', ''UNSTABLE'', ''BLOCKED''}
              \<or> mergeable_text \<in> {''UNKNOWN'', ''UNSTABLE''}),
           cs_checks_complete = (\<not> bool_field ''isRunning'' ci),
           cs_checks_passing = (\<not> bool_field ''hasFailures'' ci \<and> \<not> bool_field ''isRunning'' ci
              \<and> signal_quality \<in> {'''', ''ok''}),
           cs_checks_failed = authoritative_failures,
           cs_checks_degraded = (signal_quality \<notin> {'''', ''ok''}),
           cs_checks_signal_available = (ci \<noteq> []),
           cs_actionable_comments = bool_field ''hasActionableComments'' comments_summary,
           cs_comments_available = bool_field ''succeeded'' comments_fetch,
           cs_comment_policy_enforced = bool_field ''includeBotReviewComments'' comments_summary,
           cs_automated_review_pending = grace_active,
           cs_publish_available = (\<not> is_false ''publishAvailable'' raw),
           cs_malformed = (\<not> required_shapes_present),
           cs_unknown_blocker = False,
           cs_blocker_kinds = [],
           cs_blocker_summaries = [] \<rparr>)"

section \<open>Classification\<close>

definition REMEDIATIONS :: "(py_str \<times> py_str) list" where
  "REMEDIATIONS = [(''actionable_comments'', ''fix-comments''), (''ci_failures'', ''fix-ci''),
     (''merge_conflicts'', ''fix-merge-conflicts'')]"

definition resolver_decision_of :: "py_str \<Rightarrow> py_str \<Rightarrow> resolver_action \<Rightarrow> py_str option \<Rightarrow> resolver_decision" where
  "resolver_decision_of classification reason_code action terminal_status =
     \<lparr> rd_classification = classification, rd_reason_code = reason_code, rd_action = action,
       rd_remediation_skill = map_of REMEDIATIONS classification, rd_terminal_status = terminal_status \<rparr>"

definition manual_review :: "py_str \<Rightarrow> resolver_decision" where
  "manual_review reason_code = resolver_decision_of ''manual_review'' reason_code STOP_MANUAL_REVIEW None"

definition classify_snapshot :: "canonical_snapshot \<Rightarrow> bool \<Rightarrow> resolver_decision" where
  "classify_snapshot snapshot known_ci_failures_precede_degraded =
     (if cs_merged snapshot
      then resolver_decision_of ''already_merged'' ''already_merged'' PUBLISH_TERMINAL (Some ''already_merged'')
      else if \<not> cs_open snapshot
      then resolver_decision_of ''manual_review'' ''pull_request_closed'' STOP_MANUAL_REVIEW (Some ''manual_review'')
      else if cs_draft snapshot then manual_review ''draft''
      else if \<not> cs_publish_available snapshot then manual_review ''publish_unavailable''
      else if cs_merge_conflict snapshot
      then resolver_decision_of ''merge_conflicts'' ''merge_conflicts'' RUN_REMEDIATION None
      else if \<not> cs_comments_available snapshot then manual_review ''comments_unavailable''
      else if \<not> cs_comment_policy_enforced snapshot then manual_review ''comment_policy_not_enforced''
      else if cs_checks_degraded snapshot
              \<and> (\<not> cs_checks_failed snapshot \<or> \<not> known_ci_failures_precede_degraded)
      then manual_review ''ci_signal_degraded''
      else if cs_unknown_blocker snapshot then manual_review ''unknown_blocker''
      else if cs_malformed snapshot then manual_review ''snapshot_malformed''
      else if cs_actionable_comments snapshot
      then resolver_decision_of ''actionable_comments'' ''actionable_comments'' RUN_REMEDIATION None
      else if cs_checks_failed snapshot
      then resolver_decision_of ''ci_failures'' ''ci_failures'' RUN_REMEDIATION None
      else if cs_automated_review_pending snapshot
      then resolver_decision_of ''review_grace'' ''review_grace'' WAIT None
      else if cs_checks_signal_available snapshot \<and> \<not> cs_checks_complete snapshot
      then resolver_decision_of ''ci_running'' ''ci_running'' WAIT None
      else if cs_mergeability_unknown snapshot
      then resolver_decision_of ''mergeability_transient'' ''external_state_transient'' WAIT None
      else if \<not> cs_checks_complete snapshot
      then resolver_decision_of ''ci_running'' ''ci_running'' WAIT None
      else if cs_checks_passing snapshot
      then resolver_decision_of ''ready_to_merge'' ''ready_to_merge'' ATTEMPT_MERGE None
      else manual_review ''unknown_blocker'')"

section \<open>The reducer\<close>

definition exhausted :: "py_str \<Rightarrow> resolver_decision" where
  "exhausted reason_code =
     \<lparr> rd_classification = ''manual_review'', rd_reason_code = reason_code, rd_action = STOP_MANUAL_REVIEW,
       rd_remediation_skill = None, rd_terminal_status = Some ''manual_review'' \<rparr>"

definition identical_blockers :: "resolver_state \<Rightarrow> py_str option \<Rightarrow> int" where
  "identical_blockers previous signature =
     (if signature \<noteq> None \<and> signature \<noteq> Some [] \<and> signature = rv_last_progress_signature previous
      then rv_identical_blocker_count previous + 1 else 0)"

definition reduce_resolver_state ::
  "resolver_state \<Rightarrow> canonical_snapshot \<Rightarrow> resolver_policy \<Rightarrow> py_str option \<Rightarrow> bool \<Rightarrow> resolver_transition" where
  "reduce_resolver_state previous snapshot policy signature precedence =
     (let decision = classify_snapshot snapshot precedence;
          result = (\<lambda>state decision metadata.
            \<lparr> rx_state = state, rx_decision = decision, rx_action = rd_action decision, rx_metadata = metadata \<rparr>)
      in if rd_action decision = ATTEMPT_MERGE
         then (if rv_finalize_attempts previous \<ge> rp_max_finalize_attempts policy
               then result previous (exhausted ''finalize_budget_exhausted'') []
               else result (previous\<lparr> rv_finalize_attempts := rv_finalize_attempts previous + 1 \<rparr>) decision [])
         else if rd_action decision = RUN_REMEDIATION
         then (let skill = option_or (rd_remediation_skill decision) '''';
                   identical = identical_blockers previous signature;
                   current_count = remediation_count previous skill
               in if identical \<ge> rp_max_identical_blockers policy
                     \<or> current_count \<ge> rp_max_remediations_per_type policy
                  then result previous (exhausted ''repeated_blocker_without_progress'') []
                  else result
                    (previous\<lparr> rv_remediation_counts :=
                         sort_key fst (dict_set skill (current_count + 1) (dict_of (rv_remediation_counts previous))),
                       rv_identical_blocker_count := identical,
                       rv_last_progress_signature := signature \<rparr>)
                    decision
                    [(''remediationSkill'', PStr skill), (''remediationAttempt'', PInt (current_count + 1))])
         else result previous decision [])"

section \<open>Terminal evidence\<close>

definition IMPLEMENTATION_CONTRACT :: py_str where
  "IMPLEMENTATION_CONTRACT = ''pr-resolver-core/v1''"

definition RESOLVER_CORE_VERSION :: py_str where
  "RESOLVER_CORE_VERSION = ''1.0.0''"

definition RESOLVER_CORE_DIGEST :: py_str where
  "RESOLVER_CORE_DIGEST = ''sha256:f750e88697a446f0c1a43696e89b04c7d40b85cbc53f6a3190bd0a6db95c3536''"

text \<open>Dumping a JSON document and loading it again gives the document back.\<close>

definition portable_terminal_evidence ::
  "py_str \<Rightarrow> py_str \<Rightarrow> py_str \<Rightarrow> int \<Rightarrow> py_str \<Rightarrow> py_str option \<Rightarrow> py_str option \<Rightarrow> pydict \<Rightarrow> pydict" where
  "portable_terminal_evidence status reason_code repository pr_number pr_url head_sha merge_sha extensions =
     [(''schemaVersion'', PInt 4), (''implementationContract'', PStr IMPLEMENTATION_CONTRACT),
      (''resolverCoreVersion'', PStr RESOLVER_CORE_VERSION), (''resolverCoreDigest'', PStr RESOLVER_CORE_DIGEST),
      (''status'', PStr status), (''reasonCode'', PStr reason_code), (''repository'', PStr repository),
      (''prNumber'', PInt pr_number), (''prUrl'', PStr pr_url),
      (''verifiedHeadSha'', (case head_sha of None \<Rightarrow> PNone | Some t \<Rightarrow> PStr t)),
      (''verifiedMergeSha'', (case merge_sha of None \<Rightarrow> PNone | Some t \<Rightarrow> PStr t))]
     @ (if extensions = [] then [] else [(''extensions'', PDict extensions)])"

section \<open>Facts\<close>

lemma dict_of_distinct: "distinct (map fst kvs) \<Longrightarrow> dict_of kvs = kvs"
proof -
  have "distinct (map fst (acc @ kvs)) \<Longrightarrow> fold (\<lambda>(k, v). dict_set k v) kvs acc = acc @ kvs" for acc
  proof (induction kvs arbitrary: acc)
    case (Cons kv kvs)
    then have "dict_set (fst kv) (snd kv) acc = acc @ [kv]" by (subst dict_set_fresh) auto
    then show ?case using Cons by (simp add: case_prod_unfold)
  qed simp
  from this [of "[]"] show "distinct (map fst kvs) \<Longrightarrow> dict_of kvs = kvs" by (simp add: dict_of_def)
qed

lemma resolver_decision_of_simps [simp]:
  "rd_classification (resolver_decision_of c r a t) = c"
  "rd_reason_code (resolver_decision_of c r a t) = r"
  "rd_action (resolver_decision_of c r a t) = a"
  "rd_remediation_skill (resolver_decision_of c r a t) = map_of REMEDIATIONS c"
  by (simp_all add: resolver_decision_of_def)

lemma manual_review_simps [simp]:
  "rd_classification (manual_review r) = ''manual_review''"
  "rd_reason_code (manual_review r) = r"
  "rd_action (manual_review r) = STOP_MANUAL_REVIEW"
  "rd_remediation_skill (manual_review r) = None"
  by (simp_all add: manual_review_def REMEDIATIONS_def)

lemma exhausted_simps [simp]:
  "rd_classification (exhausted r) = ''manual_review''"
  "rd_reason_code (exhausted r) = r"
  "rd_action (exhausted r) = STOP_MANUAL_REVIEW"
  "rd_remediation_skill (exhausted r) = None"
  by (simp_all add: exhausted_def)

text \<open>The classification of a decision determines its action.\<close>

definition CLASSIFIED :: "(py_str \<times> resolver_action) list" where
  "CLASSIFIED = [(''already_merged'', PUBLISH_TERMINAL), (''manual_review'', STOP_MANUAL_REVIEW),
     (''merge_conflicts'', RUN_REMEDIATION), (''actionable_comments'', RUN_REMEDIATION),
     (''ci_failures'', RUN_REMEDIATION), (''review_grace'', WAIT), (''ci_running'', WAIT),
     (''mergeability_transient'', WAIT), (''ready_to_merge'', ATTEMPT_MERGE)]"

lemma classify_snapshot_action:
  "map_of CLASSIFIED (rd_classification (classify_snapshot s p)) = Some (rd_action (classify_snapshot s p))"
  by (simp add: classify_snapshot_def CLASSIFIED_def)

lemma classify_snapshot_skill:
  "rd_remediation_skill (classify_snapshot s p) = map_of REMEDIATIONS (rd_classification (classify_snapshot s p))"
  by (simp add: classify_snapshot_def REMEDIATIONS_def)

lemma classified_cases:
  assumes "map_of CLASSIFIED c = Some a"
  shows "c \<in> fst ` set CLASSIFIED" and "a = ATTEMPT_MERGE \<longleftrightarrow> c = ''ready_to_merge''"
    and "a = RUN_REMEDIATION \<longleftrightarrow> c \<in> fst ` set REMEDIATIONS"
    and "a = WAIT \<longleftrightarrow> c \<in> {''ci_running'', ''review_grace'', ''mergeability_transient''}"
    and "a = PUBLISH_TERMINAL \<longleftrightarrow> c = ''already_merged''"
    and "a = STOP_MANUAL_REVIEW \<longleftrightarrow> c = ''manual_review''"
  using assms by (auto simp: CLASSIFIED_def REMEDIATIONS_def split: if_splits)

lemma classify_merge_iff:
  "rd_action (classify_snapshot s p) = ATTEMPT_MERGE \<longleftrightarrow>
     \<not> cs_merged s \<and> cs_open s \<and> \<not> cs_draft s \<and> cs_publish_available s \<and> \<not> cs_merge_conflict s
     \<and> cs_comments_available s \<and> cs_comment_policy_enforced s \<and> \<not> cs_checks_degraded s
     \<and> \<not> cs_unknown_blocker s \<and> \<not> cs_malformed s \<and> \<not> cs_actionable_comments s \<and> \<not> cs_checks_failed s
     \<and> \<not> cs_automated_review_pending s \<and> cs_checks_complete s \<and> \<not> cs_mergeability_unknown s
     \<and> cs_checks_passing s"
  by (simp add: classify_snapshot_def)

lemma temporal_snapshot_fields:
  fixes blockers :: "pydict list" and raw :: pydict
  defines "K \<equiv> set (map blocker_kind blockers)"
  shows "cs_merged (temporal_snapshot raw blockers) = bool_field ''pullRequestMerged'' raw"
    and "cs_open (temporal_snapshot raw blockers) = (\<not> is_false ''pullRequestOpen'' raw)"
    and "cs_draft (temporal_snapshot raw blockers) = (bool_field ''draft'' raw \<or> ''draft'' \<in> K)"
    and "cs_merge_conflict (temporal_snapshot raw blockers) = ({''merge_conflict'', ''merge_conflicts''} \<inter> K \<noteq> {})"
    and "cs_checks_complete (temporal_snapshot raw blockers)
      = (bool_field ''ready'' raw \<or> ''checks_failed'' \<in> K \<or> bool_field ''checksComplete'' raw)"
    and "cs_checks_passing (temporal_snapshot raw blockers)
      = (bool_field ''ready'' raw \<or> ''checks_failed'' \<notin> K \<and> bool_field ''checksPassing'' raw)"
    and "cs_checks_failed (temporal_snapshot raw blockers) = (''checks_failed'' \<in> K
      \<or> \<not> bool_field ''ready'' raw \<and> bool_field ''checksComplete'' raw \<and> \<not> bool_field ''checksPassing'' raw)"
    and "cs_checks_degraded (temporal_snapshot raw blockers) = (DEGRADED_KINDS \<inter> K \<noteq> {})"
    and "cs_comments_available (temporal_snapshot raw blockers) = (''comments_unavailable'' \<notin> K)"
    and "cs_comment_policy_enforced (temporal_snapshot raw blockers)"
    and "cs_automated_review_pending (temporal_snapshot raw blockers) = (''automated_review_pending'' \<in> K)"
    and "cs_publish_available (temporal_snapshot raw blockers)
      = ({''authentication_unavailable'', ''publish_unavailable''} \<inter> K = {})"
    and "cs_actionable_comments (temporal_snapshot raw blockers)
      = (''actionable_comments'' \<in> K \<or> (\<exists>s \<in> set (cs_blocker_summaries (temporal_snapshot raw blockers)). requests_changes s))"
    and "cs_malformed (temporal_snapshot raw blockers)
      = (\<not> (bool_field ''pullRequestMerged'' raw \<or> is_false ''pullRequestOpen'' raw \<or> K \<noteq> {}
            \<or> is_bool_field ''checksComplete'' raw \<or> bool_field ''ready'' raw))"
    and "set (cs_blocker_kinds (temporal_snapshot raw blockers)) = K"
    and "\<not> cs_unknown_blocker (temporal_snapshot raw blockers) \<Longrightarrow> K \<subseteq> KNOWN_KINDS"
    and "\<not> cs_unknown_blocker (temporal_snapshot raw blockers) \<Longrightarrow> \<not> cs_mergeability_unknown (temporal_snapshot raw blockers)
      \<Longrightarrow> {''mergeability_unknown'', ''mergeability_transient'', ''external_state_unavailable''} \<inter> K = {}"
    and "K \<subseteq> {''checks_running''} \<Longrightarrow>
      \<not> cs_unknown_blocker (temporal_snapshot raw blockers) \<and> \<not> cs_mergeability_unknown (temporal_snapshot raw blockers)"
  unfolding K_def temporal_snapshot_def Let_def canonical_snapshot.simps by (auto simp: KNOWN_KINDS_def image_iff)

lemma temporal_merge_iff:
  "rd_action (classify_snapshot (temporal_snapshot raw blockers) p) = ATTEMPT_MERGE \<longleftrightarrow>
     \<not> bool_field ''pullRequestMerged'' raw \<and> \<not> is_false ''pullRequestOpen'' raw \<and> \<not> bool_field ''draft'' raw
     \<and> set (cs_blocker_kinds (temporal_snapshot raw blockers)) \<subseteq> {''checks_running''}
     \<and> list_all (\<lambda>t. \<not> requests_changes t) (cs_blocker_summaries (temporal_snapshot raw blockers))
     \<and> (bool_field ''ready'' raw \<or> bool_field ''checksComplete'' raw \<and> bool_field ''checksPassing'' raw)"
    (is "?L \<longleftrightarrow> ?R")
proof
  let ?K = "set (map blocker_kind blockers)" and ?s = "temporal_snapshot raw blockers"
  assume ?L
  then have L: "\<not> cs_merged ?s" "cs_open ?s" "\<not> cs_draft ?s" "\<not> cs_merge_conflict ?s" "\<not> cs_checks_degraded ?s"
    "\<not> cs_unknown_blocker ?s" "\<not> cs_actionable_comments ?s" "\<not> cs_checks_failed ?s" "\<not> cs_automated_review_pending ?s"
    "cs_checks_complete ?s" "\<not> cs_mergeability_unknown ?s" "cs_checks_passing ?s"
    unfolding classify_merge_iff by blast+
  have "k = ''checks_running''" if k: "k \<in> ?K" for k
  proof -
    have "k \<in> KNOWN_KINDS" using k temporal_snapshot_fields(16) [OF L(6)] by blast
    moreover have "k \<notin> DEGRADED_KINDS" using k L(5) [unfolded temporal_snapshot_fields] by blast
    moreover have "k \<notin> {''merge_conflict'', ''merge_conflicts''}" using k L(4) [unfolded temporal_snapshot_fields] by blast
    moreover have "k \<notin> {''mergeability_unknown'', ''mergeability_transient'', ''external_state_unavailable''}"
      using k temporal_snapshot_fields(17) [OF L(6) L(11)] by blast
    moreover have "k \<noteq> ''draft''" "k \<noteq> ''actionable_comments''" using k L(3,7) [unfolded temporal_snapshot_fields] by blast+
    moreover have "k \<noteq> ''checks_failed''" "k \<noteq> ''automated_review_pending''"
      using k L(8,9) [unfolded temporal_snapshot_fields] by blast+
    ultimately show ?thesis by (auto simp: KNOWN_KINDS_def DEGRADED_KINDS_def)
  qed
  then have "?K \<subseteq> {''checks_running''}" by blast
  then show ?R
    using L by (simp only: temporal_snapshot_fields list_all_iff) blast
next
  let ?K = "set (map blocker_kind blockers)" and ?s = "temporal_snapshot raw blockers"
  assume R: ?R
  then have K: "?K \<subseteq> {''checks_running''}" by (simp only: temporal_snapshot_fields)
  then have out: "''checks_failed'' \<notin> ?K" "''draft'' \<notin> ?K" "''actionable_comments'' \<notin> ?K" "''comments_unavailable'' \<notin> ?K"
    "''automated_review_pending'' \<notin> ?K" "DEGRADED_KINDS \<inter> ?K = {}" "{''merge_conflict'', ''merge_conflicts''} \<inter> ?K = {}"
    "{''authentication_unavailable'', ''publish_unavailable''} \<inter> ?K = {}"
    by (auto simp: DEGRADED_KINDS_def)
  have "bool_field ''checksComplete'' raw \<Longrightarrow> is_bool_field ''checksComplete'' raw"
    by (auto simp: is_bool_field_def bool_field_def split: option.splits pyval.splits)
  then show ?L
    using R out temporal_snapshot_fields(18) [OF K, of raw]
    by (simp only: classify_merge_iff temporal_snapshot_fields list_all_iff) blast
qed

lemma portable_merge_iff:
  defines "pr \<equiv> \<lambda>raw. sub_mapping ''pr'' raw" and "ci \<equiv> \<lambda>raw. sub_mapping ''ci'' raw"
    and "fetch \<equiv> \<lambda>raw. sub_mapping ''commentsFetch'' raw" and "summary \<equiv> \<lambda>raw. sub_mapping ''commentsSummary'' raw"
  shows "rd_action (classify_snapshot (normalize_portable_snapshot raw) p) = ATTEMPT_MERGE \<longleftrightarrow>
     pr raw \<noteq> [] \<and> ci raw \<noteq> [] \<and> py_upper (text_field ''state'' (pr raw)) \<notin> {''CLOSED'', ''MERGED''}
     \<and> \<not> bool_field ''isDraft'' (pr raw) \<and> \<not> is_false ''publishAvailable'' raw
     \<and> py_upper (text_field ''mergeStateStatus'' (pr raw)) \<notin> {''BEHIND'', ''DIRTY'', ''UNKNOWN'', ''UNSTABLE'', ''BLOCKED''}
     \<and> \<not> is_false ''mergeable'' (pr raw)
     \<and> py_upper (text_field ''mergeable'' (pr raw)) \<notin> {''CONFLICTING'', ''DIRTY'', ''CONFLICT'', ''UNKNOWN'', ''UNSTABLE''}
     \<and> \<not> bool_field ''isRunning'' (ci raw) \<and> \<not> bool_field ''hasFailures'' (ci raw)
     \<and> \<not> bool_field ''hasAuthoritativeFailures'' (ci raw)
     \<and> py_lower (text_field ''signalQuality'' (ci raw)) \<in> {'''', ''ok''}
     \<and> bool_field ''succeeded'' (fetch raw) \<and> bool_field ''includeBotReviewComments'' (summary raw)
     \<and> \<not> bool_field ''hasActionableComments'' (summary raw)
     \<and> \<not> bool_field ''active'' (sub_mapping ''codexReviewGrace'' (summary raw))"
proof -
  have fetch: "bool_field ''succeeded'' (fetch raw) \<Longrightarrow> fetch raw \<noteq> []"
    by (auto simp: bool_field_def)
  have merged: "py_upper (text_field ''state'' (pr raw)) \<notin> {''CLOSED'', ''MERGED''} \<Longrightarrow>
      py_upper (text_field ''state'' (pr raw)) \<noteq> ''MERGED''" by blast
  show ?thesis
    unfolding classify_merge_iff normalize_portable_snapshot_def Let_def canonical_snapshot.simps
      pr_def [symmetric] ci_def [symmetric] fetch_def [symmetric] summary_def [symmetric]
    using fetch merged by (intro iffI conjI; (elim conjE)?; (assumption | blast)?)
qed

text \<open>
  C14. A merge is attempted exactly on a snapshot that shows nothing against it. For the snapshot of
  the workflow host: an open, unmerged pull request that is no draft, with no blocker other than
  running checks and no request for changes, that is reported ready or whose checks are reported
  complete and passing. For the portable host: an open pull request that is no draft, mergeable in
  every field, publishable, with finished checks without failures and a sound signal, and with
  comments that were fetched under the review policy and hold nothing actionable.
\<close>

theorem merge_attempt_exact:
  "(case normalize_temporal_snapshot raw of
      Inl e \<Rightarrow> e = PyTypeError
    | Inr s \<Rightarrow>
        rd_action (classify_snapshot s p) = ATTEMPT_MERGE \<longleftrightarrow>
          \<not> bool_field ''pullRequestMerged'' raw \<and> \<not> is_false ''pullRequestOpen'' raw \<and> \<not> bool_field ''draft'' raw
          \<and> set (cs_blocker_kinds s) \<subseteq> {''checks_running''}
          \<and> list_all (\<lambda>t. \<not> requests_changes t) (cs_blocker_summaries s)
          \<and> (bool_field ''ready'' raw \<or> bool_field ''checksComplete'' raw \<and> bool_field ''checksPassing'' raw))
   \<and> (let pr = sub_mapping ''pr'' raw; ci = sub_mapping ''ci'' raw;
          fetch = sub_mapping ''commentsFetch'' raw; summary = sub_mapping ''commentsSummary'' raw in
      rd_action (classify_snapshot (normalize_portable_snapshot raw) p) = ATTEMPT_MERGE \<longleftrightarrow>
        pr \<noteq> [] \<and> ci \<noteq> [] \<and> py_upper (text_field ''state'' pr) \<notin> {''CLOSED'', ''MERGED''}
        \<and> \<not> bool_field ''isDraft'' pr \<and> \<not> is_false ''publishAvailable'' raw
        \<and> py_upper (text_field ''mergeStateStatus'' pr) \<notin> {''BEHIND'', ''DIRTY'', ''UNKNOWN'', ''UNSTABLE'', ''BLOCKED''}
        \<and> \<not> is_false ''mergeable'' pr
        \<and> py_upper (text_field ''mergeable'' pr) \<notin> {''CONFLICTING'', ''DIRTY'', ''CONFLICT'', ''UNKNOWN'', ''UNSTABLE''}
        \<and> \<not> bool_field ''isRunning'' ci \<and> \<not> bool_field ''hasFailures'' ci
        \<and> \<not> bool_field ''hasAuthoritativeFailures'' ci \<and> py_lower (text_field ''signalQuality'' ci) \<in> {'''', ''ok''}
        \<and> bool_field ''succeeded'' fetch \<and> bool_field ''includeBotReviewComments'' summary
        \<and> \<not> bool_field ''hasActionableComments'' summary
        \<and> \<not> bool_field ''active'' (sub_mapping ''codexReviewGrace'' summary))"
proof (rule conjI)
  have "mapping_items ''blockers'' raw = Inl e \<Longrightarrow> e = PyTypeError" for e
    by (auto simp: mapping_items_def split: option.splits pyval.splits if_splits)
  then show "case normalize_temporal_snapshot raw of
      Inl e \<Rightarrow> e = PyTypeError
    | Inr s \<Rightarrow>
        rd_action (classify_snapshot s p) = ATTEMPT_MERGE \<longleftrightarrow>
          \<not> bool_field ''pullRequestMerged'' raw \<and> \<not> is_false ''pullRequestOpen'' raw \<and> \<not> bool_field ''draft'' raw
          \<and> set (cs_blocker_kinds s) \<subseteq> {''checks_running''}
          \<and> list_all (\<lambda>t. \<not> requests_changes t) (cs_blocker_summaries s)
          \<and> (bool_field ''ready'' raw \<or> bool_field ''checksComplete'' raw \<and> bool_field ''checksPassing'' raw)"
    by (cases "mapping_items ''blockers'' raw") (simp_all add: normalize_temporal_snapshot_def temporal_merge_iff)
  show "let pr = sub_mapping ''pr'' raw; ci = sub_mapping ''ci'' raw;
          fetch = sub_mapping ''commentsFetch'' raw; summary = sub_mapping ''commentsSummary'' raw in
      rd_action (classify_snapshot (normalize_portable_snapshot raw) p) = ATTEMPT_MERGE \<longleftrightarrow>
        pr \<noteq> [] \<and> ci \<noteq> [] \<and> py_upper (text_field ''state'' pr) \<notin> {''CLOSED'', ''MERGED''}
        \<and> \<not> bool_field ''isDraft'' pr \<and> \<not> is_false ''publishAvailable'' raw
        \<and> py_upper (text_field ''mergeStateStatus'' pr) \<notin> {''BEHIND'', ''DIRTY'', ''UNKNOWN'', ''UNSTABLE'', ''BLOCKED''}
        \<and> \<not> is_false ''mergeable'' pr
        \<and> py_upper (text_field ''mergeable'' pr) \<notin> {''CONFLICTING'', ''DIRTY'', ''CONFLICT'', ''UNKNOWN'', ''UNSTABLE''}
        \<and> \<not> bool_field ''isRunning'' ci \<and> \<not> bool_field ''hasFailures'' ci
        \<and> \<not> bool_field ''hasAuthoritativeFailures'' ci \<and> py_lower (text_field ''signalQuality'' ci) \<in> {'''', ''ok''}
        \<and> bool_field ''succeeded'' fetch \<and> bool_field ''includeBotReviewComments'' summary
        \<and> \<not> bool_field ''hasActionableComments'' summary
        \<and> \<not> bool_field ''active'' (sub_mapping ''codexReviewGrace'' summary)"
    unfolding Let_def by (rule portable_merge_iff)
qed

end
