(* ===== verification/Pr_Resolver_Workflow.thy ===== *)
theory Pr_Resolver_Workflow
  imports Pr_Resolver_Core
begin

text \<open>
  The workflow around the resolver core (\<^verbatim>\<open>moonmind/workflows/temporal/workflows/pr_resolver.py\<close>). The
  workflow service answers the activities, child workflows and sleeps that the code awaits: an
  environment gives the reply to a call, and the time, as functions of the calls made and answered
  so far, since the clock of a workflow stands still between two awaits. Whether a patch is active
  is fixed for a run. A call carries what varies in its payload; the rest is the start input.
\<close>

section \<open>Data\<close>

record pr_policy =
  pp_poll_interval_seconds :: int
  pp_max_elapsed_seconds :: int
  pp_max_finalize_attempts :: int
  pp_max_remediations_per_type :: int
  pp_max_identical_blockers :: int

text \<open>The bounds of the declared fields.\<close>

definition policy_in_bounds :: "pr_policy \<Rightarrow> bool" where
  "policy_in_bounds p \<longleftrightarrow>
     1 \<le> pp_poll_interval_seconds p \<and> pp_poll_interval_seconds p \<le> 3600
     \<and> 1 \<le> pp_max_elapsed_seconds p \<and> pp_max_elapsed_seconds p \<le> 86400
     \<and> 1 \<le> pp_max_finalize_attempts p \<and> pp_max_finalize_attempts p \<le> 500
     \<and> 1 \<le> pp_max_remediations_per_type p \<and> pp_max_remediations_per_type p \<le> 20
     \<and> 1 \<le> pp_max_identical_blockers p \<and> pp_max_identical_blockers p \<le> 20"

record start_input =
  si_repository :: py_str
  si_pr_number :: int
  si_pr_url :: py_str
  si_head_sha :: "py_str option"
  si_base_sha :: "py_str option"
  si_step_id :: py_str
  si_correlation_id :: py_str
  si_base_agent_request :: pydict
  si_policy :: pr_policy
  si_shadow_mode :: bool
  si_owned_by_merge_automation_gate :: bool
  si_implementation_identity :: pydict
  si_worker_capability :: pydict
  si_canary_mode :: bool

record timeline_entry =
  te_event :: py_str
  te_at :: datetime
  te_head_sha :: "py_str option"
  te_classification :: pyval
  te_details :: pydict

record remediation_request =
  rq_instruction :: py_str
  rq_idempotency_key :: py_str
  rq_skill :: py_str
  rq_pr :: py_str
  rq_head_sha :: "py_str option"
  rq_blocker_classification :: pyval
  rq_remediation_attempt :: int

record terminal_result =
  tm_status :: py_str
  tm_disposition :: py_str
  tm_reason :: py_str
  tm_reason_code :: py_str
  tm_next_step :: py_str
  tm_verified_head_sha :: "py_str option"
  tm_verified_merge_sha :: "py_str option"
  tm_finalize_attempt_count :: int
  tm_remediation_counts :: "(py_str \<times> int) list"
  tm_latest_snapshot :: pydict
  tm_timeline :: "timeline_entry list"
  tm_identity :: pydict

datatype resolver_call =
    ReadSnapshot py_str py_str
  | ClassifyGate pydict py_str
  | VerifyMerged py_str py_str
  | FinalizeMerge py_str int py_str
  | RunAgent py_str remediation_request
  | VerifyRemoteHead py_str py_str
  | Sleep int
  | WriteTerminal terminal_result py_str

datatype reply = Returned pyval | Raised | Cancelled

type_synonym call_log = "(resolver_call \<times> reply) list"

record resolver_env =
  ev_reply :: "call_log \<Rightarrow> resolver_call \<Rightarrow> reply"
  ev_now :: "call_log \<Rightarrow> datetime"
  ev_workflow_id :: py_str
  ev_shared_core :: bool
  ev_ci_precedence :: bool
  ev_identity :: bool
  ev_request_valid :: "pydict \<Rightarrow> bool"

record resolver_run =
  rw_state :: py_str
  rw_head_sha :: "py_str option"
  rw_base_sha :: "py_str option"
  rw_classification :: pyval
  rw_finalize_attempts :: int
  rw_remediation_counts :: "(py_str \<times> int) list"
  rw_last_progress_signature :: "py_str option"
  rw_identical_no_progress_count :: int
  rw_active_remediation_child_id :: "py_str option"
  rw_latest_snapshot :: pydict
  rw_timeline :: "timeline_entry list"
  rw_log :: call_log

record resolver_output =
  ro_result :: terminal_result
  ro_failure_class :: "py_str option"
  ro_result_ref :: py_str
  ro_publish_evidence :: pyval

definition WAIT_CLASSIFICATIONS :: "py_str list" where
  "WAIT_CLASSIFICATIONS = [''ci_running'', ''review_grace'', ''mergeability_transient'']"

definition REMEDIATION_SKILLS :: "(py_str \<times> py_str) list" where
  "REMEDIATION_SKILLS = [(''actionable_comments'', ''fix-comments''), (''ci_failures'', ''fix-ci''),
     (''merge_conflicts'', ''fix-merge-conflicts'')]"

section \<open>Steps of the coroutine\<close>

text \<open>A step changes the state of the workflow and gives a value or is left by an exception.\<close>

datatype interruption = Interrupted | Failure

type_synonym 'a wf_step = "resolver_run \<Rightarrow> (interruption + 'a) \<times> resolver_run"

definition give :: "'a \<Rightarrow> 'a wf_step" where
  "give a s = (Inr a, s)"

definition raise_failure :: "'a wf_step" where
  "raise_failure s = (Inl Failure, s)"

definition modify :: "(resolver_run \<Rightarrow> resolver_run) \<Rightarrow> unit wf_step" where
  "modify f s = (Inr (), f s)"

definition then_step :: "'a wf_step \<Rightarrow> ('a \<Rightarrow> 'b wf_step) \<Rightarrow> 'b wf_step" where
  "then_step m f s = (case m s of (Inl e, s') \<Rightarrow> (Inl e, s') | (Inr a, s') \<Rightarrow> f a s')"

definition reading :: "(resolver_run \<Rightarrow> 'a wf_step) \<Rightarrow> 'a wf_step" where
  "reading f s = f s s"

definition checked_step :: "'a checked \<Rightarrow> 'a wf_step" where
  "checked_step r s = (case r of Inl e \<Rightarrow> (Inl Failure, s) | Inr a \<Rightarrow> (Inr a, s))"

definition call :: "resolver_env \<Rightarrow> resolver_call \<Rightarrow> pyval wf_step" where
  "call env c s =
     (let r = ev_reply env (rw_log s) c; s' = s\<lparr> rw_log := rw_log s @ [(c, r)] \<rparr>
      in case r of Returned v \<Rightarrow> (Inr v, s') | Raised \<Rightarrow> (Inl Failure, s') | Cancelled \<Rightarrow> (Inl Interrupted, s'))"

definition set_state :: "py_str \<Rightarrow> unit wf_step" where
  "set_state name = modify (rw_state_update (\<lambda>_. name))"

text \<open>\<open>dict(v) if isinstance(v, Mapping) else {}\<close>, and \<open>text or default\<close>.\<close>

definition mapping_or_empty :: "pyval \<Rightarrow> pydict" where
  "mapping_or_empty v = (case v of PDict d \<Rightarrow> d | _ \<Rightarrow> [])"

definition text_or :: "py_str option \<Rightarrow> py_str \<Rightarrow> py_str" where
  "text_or t other = (case t of Some x \<Rightarrow> if x = [] then other else x | None \<Rightarrow> other)"

definition record_timeline :: "resolver_env \<Rightarrow> py_str \<Rightarrow> pydict \<Rightarrow> unit wf_step" where
  "record_timeline env event details = modify (\<lambda>s.
     let entries = rw_timeline s @ [\<lparr> te_event = event, te_at = ev_now env (rw_log s), te_head_sha = rw_head_sha s,
           te_classification = rw_classification s, te_details = details \<rparr>]
     in s\<lparr> rw_timeline := drop (length entries - 100) entries \<rparr>)"

definition call_key :: "resolver_env \<Rightarrow> py_str \<Rightarrow> py_str option \<Rightarrow> int \<Rightarrow> py_str" where
  "call_key env kind head attempt =
     ev_workflow_id env @ '':'' @ kind @ '':'' @ text_or head ''unknown'' @ '':'' @ py_str_int attempt"

definition read_snapshot :: "resolver_env \<Rightarrow> start_input \<Rightarrow> int \<Rightarrow> pydict wf_step" where
  "read_snapshot env inp attempt = reading (\<lambda>s.
     then_step (call env (ReadSnapshot (text_or (rw_head_sha s) (text_or (si_head_sha inp) []))
                 (call_key env ''snapshot'' (rw_head_sha s) attempt))) (\<lambda>result.
     let snapshot = mapping_or_empty result; head = text_field ''headSha'' snapshot;
         base = text_field ''baseSha'' snapshot in
     then_step (modify (\<lambda>s. s\<lparr> rw_latest_snapshot := snapshot,
         rw_head_sha := if head = [] then rw_head_sha s else Some head,
         rw_base_sha := if base = [] then rw_base_sha s else Some base \<rparr>)) (\<lambda>_.
     then_step (record_timeline env ''github_snapshot''
         [(''transition'', PStr ''snapshot''), (''attempt'', PInt attempt)]) (\<lambda>_.
     give snapshot))))"

section \<open>Classification and progress\<close>

definition classify_pr_resolver_snapshot :: "pydict \<Rightarrow> pydict checked" where
  "classify_pr_resolver_snapshot snapshot =
     bind_result (normalize_temporal_snapshot snapshot) (\<lambda>c.
     let d = classify_snapshot c True in
     Inr [(''classification'', PStr (rd_classification d)), (''reasonCode'', PStr (rd_reason_code d))])"

definition text_of :: "pyval \<Rightarrow> py_str" where
  "text_of v = (if py_truthy v then py_strip (py_text v) else [])"

text \<open>Iterating over a null or a number raises, also where an empty list of blockers is meant.\<close>

definition blocker_parts :: "pydict \<Rightarrow> py_str list checked" where
  "blocker_parts snapshot =
     (case map_of snapshot ''blockers'' of
        None \<Rightarrow> Inr []
      | Some (PList xs) \<Rightarrow> Inr (concat (map (\<lambda>x. case x of
            PDict b \<Rightarrow> [text_field ''kind'' b, text_field ''summary'' b] | _ \<Rightarrow> []) xs))
      | Some (PStr t) \<Rightarrow> Inr []
      | Some (PDict m) \<Rightarrow> Inr []
      | Some _ \<Rightarrow> Inl PyTypeError)"

definition blocker_progress_signature :: "pydict \<Rightarrow> pyval \<Rightarrow> py_str checked" where
  "blocker_progress_signature snapshot classification =
     bind_result (blocker_parts snapshot) (\<lambda>parts.
     Inr (sha256_hex (utf8 (py_join [CHR 0x1F] ([text_field ''headSha'' snapshot, text_field ''baseSha'' snapshot,
       text_of classification] @ parts)))))"

definition core_policy :: "pr_policy \<Rightarrow> resolver_policy" where
  "core_policy p = \<lparr> rp_max_finalize_attempts = pp_max_finalize_attempts p,
     rp_max_remediations_per_type = pp_max_remediations_per_type p,
     rp_max_identical_blockers = pp_max_identical_blockers p \<rparr>"

definition core_state :: "resolver_run \<Rightarrow> resolver_state" where
  "core_state s = \<lparr> rv_finalize_attempts = rw_finalize_attempts s,
     rv_remediation_counts = sort_key fst (rw_remediation_counts s),
     rv_identical_blocker_count = rw_identical_no_progress_count s,
     rv_last_progress_signature = rw_last_progress_signature s \<rparr>"

definition core_transition ::
  "resolver_env \<Rightarrow> start_input \<Rightarrow> pydict \<Rightarrow> py_str \<Rightarrow> resolver_run \<Rightarrow> resolver_transition option checked" where
  "core_transition env inp snapshot signature s =
     (if ev_shared_core env
      then bind_result (normalize_temporal_snapshot snapshot) (\<lambda>c.
        Inr (Some (reduce_resolver_state (core_state s) c (core_policy (si_policy inp)) (Some signature)
          (ev_ci_precedence env))))
      else Inr None)"

section \<open>Publication\<close>

definition IDENTITY_FIELDS :: "(py_str \<times> bool \<times> py_str) list" where
  "IDENTITY_FIELDS = [(''resolvedSkillContentDigest'', True, ''contentDigest''),
     (''resolvedSkillSource'', True, ''sourceKind''), (''workerBuildSha'', False, ''buildSha''),
     (''workerImageDigest'', False, ''imageDigest''), (''workerDeploymentId'', False, ''deploymentId''),
     (''workflowRegistryFingerprint'', False, ''registryFingerprint''), (''taskQueue'', False, ''taskQueue'')]"

definition identity_payload :: "resolver_env \<Rightarrow> start_input \<Rightarrow> pydict" where
  "identity_payload env inp =
     (if ev_identity env
      then [(''implementationContract'', PStr IMPLEMENTATION_CONTRACT), (''resolverCoreVersion'', PStr RESOLVER_CORE_VERSION),
            (''resolverCoreDigest'', PStr RESOLVER_CORE_DIGEST), (''workflowType'', PStr ''MoonMind.PRResolver'')]
        @ map (\<lambda>(field, own, key). (field, option_or (map_of (if own then si_implementation_identity inp
             else si_worker_capability inp) key) PNone)) IDENTITY_FIELDS
      else [])"

definition is_text_or_none :: "pyval \<Rightarrow> bool" where
  "is_text_or_none v = (case v of PNone \<Rightarrow> True | PStr t \<Rightarrow> True | _ \<Rightarrow> False)"

definition disposition_of :: "py_str \<Rightarrow> py_str" where
  "disposition_of status = (if status \<in> {''manual_review'', ''canceled''} then ''manual_review'' else status)"

text \<open>The declared types are checked before the result is written; a wrong one raises.\<close>

definition terminal_payload ::
  "resolver_env \<Rightarrow> start_input \<Rightarrow> py_str \<Rightarrow> pyval \<Rightarrow> py_str \<Rightarrow> py_str option \<Rightarrow> resolver_run \<Rightarrow> terminal_result checked" where
  "terminal_payload env inp status reason_code reason merge_sha s =
     (case reason_code of
        PStr code \<Rightarrow>
          bind_result (guard (list_all (\<lambda>(_, v). is_text_or_none v) (identity_payload env inp)) PyTypeError) (\<lambda>_.
          Inr \<lparr> tm_status = status, tm_disposition = disposition_of status, tm_reason = reason,
                tm_reason_code = code,
                tm_next_step = (if status \<in> {''merged'', ''already_merged''} then ''done'' else ''manual_review''),
                tm_verified_head_sha = rw_head_sha s, tm_verified_merge_sha = merge_sha,
                tm_finalize_attempt_count = rw_finalize_attempts s,
                tm_remediation_counts = rw_remediation_counts s, tm_latest_snapshot = rw_latest_snapshot s,
                tm_timeline = drop (length (rw_timeline s) - 20) (rw_timeline s),
                tm_identity = identity_payload env inp \<rparr>)
      | _ \<Rightarrow> Inl PyTypeError)"

definition failure_class :: "start_input \<Rightarrow> py_str \<Rightarrow> py_str option" where
  "failure_class inp status =
     (if status = ''failed'' \<or> status \<in> {''manual_review'', ''canceled''} \<and> \<not> si_owned_by_merge_automation_gate inp
      then Some ''execution_error'' else None)"

definition publish_terminal ::
  "resolver_env \<Rightarrow> start_input \<Rightarrow> py_str \<Rightarrow> pyval \<Rightarrow> py_str \<Rightarrow> py_str option \<Rightarrow> resolver_output wf_step" where
  "publish_terminal env inp status reason_code reason merge_sha = reading (\<lambda>s.
     then_step (checked_step (terminal_payload env inp status reason_code reason merge_sha s)) (\<lambda>result.
     then_step (call env (WriteTerminal result
         (ev_workflow_id env @ '':terminal:'' @ status @ '':'' @ tm_reason_code result))) (\<lambda>v.
     let publication = mapping_or_empty v in
     give \<lparr> ro_result = result, ro_failure_class = failure_class inp status,
            ro_result_ref = text_field ''resultRef'' publication,
            ro_publish_evidence = option_or (map_of publication ''publishEvidenceRef'') PNone \<rparr>)))"

definition finish ::
  "resolver_env \<Rightarrow> start_input \<Rightarrow> py_str \<Rightarrow> py_str \<Rightarrow> pyval \<Rightarrow> py_str \<Rightarrow> py_str option \<Rightarrow> resolver_output option wf_step" where
  "finish env inp state status reason_code reason merge_sha =
     then_step (set_state state) (\<lambda>_.
     then_step (publish_terminal env inp status reason_code reason merge_sha) (\<lambda>out. give (Some out)))"

section \<open>The loop\<close>

definition merged_reply :: "pyval \<Rightarrow> bool" where
  "merged_reply v = bool_field ''merged'' (mapping_or_empty v)"

definition merge_sha_of :: "pyval \<Rightarrow> py_str option" where
  "merge_sha_of v = (let t = text_field ''mergeSha'' (mapping_or_empty v) in if t = [] then None else Some t)"

definition pause :: "resolver_env \<Rightarrow> start_input \<Rightarrow> resolver_output option wf_step" where
  "pause env inp =
     then_step (call env (Sleep (pp_poll_interval_seconds (si_policy inp)))) (\<lambda>_. give None)"

text \<open>An already merged pull request is verified; when it is not confirmed the gate waits.\<close>

definition verify_already_merged :: "resolver_env \<Rightarrow> start_input \<Rightarrow> resolver_output option wf_step" where
  "verify_already_merged env inp =
     then_step (set_state ''verify_remote_merge'') (\<lambda>_. reading (\<lambda>s.
     then_step (call env (VerifyMerged (text_or (rw_head_sha s) []) (ev_workflow_id env @ '':verify:already-merged'')))
       (\<lambda>verified.
     if merged_reply verified
     then finish env inp ''completed'' ''already_merged'' (PStr ''already_merged'')
       ''Pull request was independently verified as already merged.'' (merge_sha_of verified)
     else then_step (modify (rw_classification_update (\<lambda>_. PStr ''mergeability_transient''))) (\<lambda>_. give None))))"

definition charge_finalize ::
  "resolver_env \<Rightarrow> start_input \<Rightarrow> resolver_transition option \<Rightarrow> resolver_output option wf_step" where
  "charge_finalize env inp transition = reading (\<lambda>s.
     case transition of
       None \<Rightarrow>
         if rw_finalize_attempts s \<ge> pp_max_finalize_attempts (si_policy inp)
         then finish env inp ''failed'' ''failed'' (PStr ''finalize_budget_exhausted'')
           ''PR merge finalize-attempt budget was exhausted.'' None
         else then_step (modify (\<lambda>s. s\<lparr> rw_finalize_attempts := rw_finalize_attempts s + 1 \<rparr>)) (\<lambda>_. give None)
     | Some t \<Rightarrow>
         then_step (modify (\<lambda>s. s\<lparr> rw_finalize_attempts := rv_finalize_attempts (rx_state t) \<rparr>)) (\<lambda>_. give None))"

definition finalize_merge :: "resolver_env \<Rightarrow> start_input \<Rightarrow> resolver_output option wf_step" where
  "finalize_merge env inp =
     then_step (set_state ''finalize_merge'') (\<lambda>_. reading (\<lambda>s.
     then_step (record_timeline env ''finalize_started'' [(''attempt'', PInt (rw_finalize_attempts s))]) (\<lambda>_.
     then_step (call env (FinalizeMerge (text_or (rw_head_sha s) []) (rw_finalize_attempts s)
         (call_key env ''merge'' (rw_head_sha s) (rw_finalize_attempts s)))) (\<lambda>merge.
     then_step (set_state ''verify_remote_merge'') (\<lambda>_.
     then_step (call env (VerifyMerged (text_or (rw_head_sha s) [])
         (call_key env ''verify'' (rw_head_sha s) (rw_finalize_attempts s)))) (\<lambda>verified.
     if merged_reply verified
     then finish env inp ''completed'' ''merged'' (PStr ''merged'')
       ''Pull request merge was independently verified on GitHub.''
       (if merge_sha_of verified \<noteq> None then merge_sha_of verified else merge_sha_of merge)
     else pause env inp))))))"

definition merge_branch ::
  "resolver_env \<Rightarrow> start_input \<Rightarrow> resolver_transition option \<Rightarrow> resolver_output option wf_step" where
  "merge_branch env inp transition =
     (if si_shadow_mode inp
      then finish env inp ''shadow_complete'' ''manual_review'' (PStr ''shadow_ready_to_merge'')
        ''Shadow resolver classified the pull request as ready; mutations were disabled.'' None
      else then_step (charge_finalize env inp transition) (\<lambda>ended.
        if ended \<noteq> None then give ended else finalize_merge env inp))"

definition remediation_request_of :: "resolver_env \<Rightarrow> start_input \<Rightarrow> py_str \<Rightarrow> resolver_run \<Rightarrow> remediation_request checked" where
  "remediation_request_of env inp skill s =
     (if \<not> ev_request_valid env (si_base_agent_request inp) then Inl PyValueError
      else case map_of (rw_remediation_counts s) skill of
        None \<Rightarrow> Inl PyKeyError
      | Some count \<Rightarrow> Inr \<lparr>
          rq_instruction = ''Use the '' @ skill @ '' skill for exactly one bounded remediation action on ''
            @ si_pr_url inp @ '' at head '' @ text_or (rw_head_sha s) ''unknown'' @ ''. ''
            @ ''Commit and push only when that skill requires it. Do not poll, merge, ''
            @ ''or run the outer PR resolver loop. Return structured evidence of the ''
            @ ''remote change or blocker.'',
          rq_idempotency_key = call_key env (''remediation:'' @ skill) (rw_head_sha s) count,
          rq_skill = skill, rq_pr = py_str_int (si_pr_number inp), rq_head_sha = rw_head_sha s,
          rq_blocker_classification = rw_classification s, rq_remediation_attempt = count \<rparr>)"

text \<open>The budget for remediations, charged by the code itself or by the shared core.\<close>

definition charge_remediation ::
  "resolver_env \<Rightarrow> start_input \<Rightarrow> resolver_transition option \<Rightarrow> py_str \<Rightarrow> py_str \<Rightarrow> resolver_output option wf_step" where
  "charge_remediation env inp transition signature skill =
     (case transition of
        None \<Rightarrow>
          then_step (modify (\<lambda>s.
            if Some signature = rw_last_progress_signature s
            then s\<lparr> rw_identical_no_progress_count := rw_identical_no_progress_count s + 1 \<rparr>
            else s\<lparr> rw_last_progress_signature := Some signature, rw_identical_no_progress_count := 0 \<rparr>)) (\<lambda>_.
          reading (\<lambda>s.
          case map_of (rw_remediation_counts s) skill of
            None \<Rightarrow> raise_failure
          | Some count \<Rightarrow>
              if rw_identical_no_progress_count s \<ge> pp_max_identical_blockers (si_policy inp)
                 \<or> count \<ge> pp_max_remediations_per_type (si_policy inp)
              then finish env inp ''manual_review'' ''manual_review'' (PStr ''repeated_blocker_without_progress'')
                ''The same actionable blocker repeated without a remote head change.'' None
              else then_step (modify (\<lambda>s. s\<lparr> rw_remediation_counts :=
                     dict_set skill (count + 1) (rw_remediation_counts s) \<rparr>)) (\<lambda>_. give None)))
      | Some t \<Rightarrow>
          then_step (modify (\<lambda>s. s\<lparr> rw_remediation_counts := dict_of (rv_remediation_counts (rx_state t)),
            rw_identical_no_progress_count := rv_identical_blocker_count (rx_state t),
            rw_last_progress_signature := rv_last_progress_signature (rx_state t) \<rparr>)) (\<lambda>_. give None))"

definition child_failed :: "pyval \<Rightarrow> bool" where
  "child_failed v =
     (case v of
        PDict d \<Rightarrow> py_truthy (option_or (map_of d ''failureClass'') PNone)
                   \<or> py_truthy (option_or (map_of d ''failure_class'') PNone)
      | _ \<Rightarrow> False)"

definition verify_remote_head :: "resolver_env \<Rightarrow> py_str \<Rightarrow> resolver_output option wf_step" where
  "verify_remote_head env child_id =
     then_step (set_state ''verify_remote_head'') (\<lambda>_. reading (\<lambda>s.
     then_step (call env (VerifyRemoteHead (text_or (rw_head_sha s) []) (child_id @ '':verify-head''))) (\<lambda>verified.
     let observed = text_field ''headSha'' (mapping_or_empty verified) in
     then_step (modify (\<lambda>s.
       if observed \<noteq> [] \<and> Some observed \<noteq> rw_head_sha s
       then s\<lparr> rw_head_sha := Some observed, rw_last_progress_signature := None, rw_identical_no_progress_count := 0 \<rparr>
       else s)) (\<lambda>_. give None))))"

text \<open>The child of a remediation is forgotten however it ends.\<close>

definition run_child :: "resolver_env \<Rightarrow> py_str \<Rightarrow> remediation_request \<Rightarrow> pyval wf_step" where
  "run_child env child_id request s =
     (case call env (RunAgent child_id request) s of (r, s') \<Rightarrow> (r, s'\<lparr> rw_active_remediation_child_id := None \<rparr>))"

definition remediate :: "resolver_env \<Rightarrow> start_input \<Rightarrow> py_str \<Rightarrow> resolver_output option wf_step" where
  "remediate env inp skill = reading (\<lambda>s.
     then_step (checked_step (remediation_request_of env inp skill s)) (\<lambda>request.
     let child_id = rq_idempotency_key request;
         details = [(''skill'', PStr skill), (''childWorkflowId'', PStr child_id)] in
     then_step (modify (\<lambda>s. s\<lparr> rw_active_remediation_child_id := Some child_id, rw_state := ''run_'' @ skill \<rparr>)) (\<lambda>_.
     then_step (record_timeline env ''remediation_started'' details) (\<lambda>_.
     then_step (run_child env child_id request) (\<lambda>child_result.
     then_step (record_timeline env ''remediation_completed'' details) (\<lambda>_.
     if child_failed child_result
     then finish env inp ''failed'' ''failed'' (PStr ''remediation_child_failed'')
       (''Bounded '' @ skill @ '' remediation child failed.'') None
     else verify_remote_head env child_id))))))"

definition remediation_branch ::
  "resolver_env \<Rightarrow> start_input \<Rightarrow> resolver_transition option \<Rightarrow> py_str \<Rightarrow> py_str \<Rightarrow> resolver_output option wf_step" where
  "remediation_branch env inp transition signature skill = reading (\<lambda>s.
     if si_shadow_mode inp
     then finish env inp ''shadow_complete'' ''manual_review'' (PStr (''shadow_'' @ py_text (rw_classification s)))
       (''Shadow resolver selected '' @ skill @ ''; child dispatch was disabled.'') None
     else then_step (charge_remediation env inp transition signature skill) (\<lambda>ended.
       if ended \<noteq> None then give ended else remediate env inp skill))"

text \<open>What follows the classification; a classification that cannot be hashed raises at the set test.\<close>

definition act_on_gate ::
  "resolver_env \<Rightarrow> start_input \<Rightarrow> resolver_transition option \<Rightarrow> pydict \<Rightarrow> py_str \<Rightarrow> resolver_output option wf_step" where
  "act_on_gate env inp transition decision signature = reading (\<lambda>s.
     if rw_classification s = PStr ''ready_to_merge'' then merge_branch env inp transition
     else if \<not> py_hashable (rw_classification s) then raise_failure
     else if rw_classification s \<in> PStr ` set WAIT_CLASSIFICATIONS
     then then_step (set_state ''durable_wait'') (\<lambda>_. pause env inp)
     else case (case rw_classification s of PStr c \<Rightarrow> map_of REMEDIATION_SKILLS c | _ \<Rightarrow> None) of
       Some skill \<Rightarrow> remediation_branch env inp transition signature skill
     | None \<Rightarrow>
         then_step (set_state ''manual_review'') (\<lambda>_.
         case map_of decision ''reasonCode'' of
           None \<Rightarrow> raise_failure
         | Some code \<Rightarrow> finish env inp ''manual_review'' ''manual_review'' code
             ''PR resolver encountered a non-retryable or unknown blocker.'' None))"

definition gate_decision :: "resolver_env \<Rightarrow> start_input \<Rightarrow> int \<Rightarrow> pydict \<Rightarrow> pydict wf_step" where
  "gate_decision env inp iteration snapshot =
     then_step (set_state ''classify_gate'') (\<lambda>_. reading (\<lambda>s.
     then_step (call env (ClassifyGate snapshot (call_key env ''classify'' (rw_head_sha s) iteration))) (\<lambda>classified.
     case classified of
       PDict d \<Rightarrow> give d
     | _ \<Rightarrow> checked_step (classify_pr_resolver_snapshot snapshot))))"

definition after_gate ::
  "resolver_env \<Rightarrow> start_input \<Rightarrow> resolver_transition option \<Rightarrow> py_str \<Rightarrow> pydict \<Rightarrow> py_str \<Rightarrow> resolver_output option wf_step" where
  "after_gate env inp transition transition_reason decision signature = reading (\<lambda>s.
     then_step (if rw_classification s = PStr ''already_merged'' then verify_already_merged env inp else give None) (\<lambda>ended.
     if ended \<noteq> None then give ended
     else if transition_reason = ''finalize_budget_exhausted''
     then finish env inp ''failed'' ''failed'' (PStr ''finalize_budget_exhausted'')
       ''PR merge finalize-attempt budget was exhausted.'' None
     else if transition_reason = ''repeated_blocker_without_progress''
     then finish env inp ''manual_review'' ''manual_review'' (PStr ''repeated_blocker_without_progress'')
       ''The same actionable blocker repeated without a remote head change.'' None
     else act_on_gate env inp transition decision signature))"

definition judge_gate :: "resolver_env \<Rightarrow> start_input \<Rightarrow> pydict \<Rightarrow> pydict \<Rightarrow> resolver_output option wf_step" where
  "judge_gate env inp snapshot decision =
     (case map_of decision ''classification'' of
        None \<Rightarrow> raise_failure
      | Some c \<Rightarrow>
          then_step (modify (rw_classification_update (\<lambda>_. c))) (\<lambda>_.
          then_step (checked_step (blocker_progress_signature snapshot c)) (\<lambda>signature. reading (\<lambda>s.
          then_step (checked_step (core_transition env inp snapshot signature s)) (\<lambda>transition.
          then_step (modify (rw_classification_update (\<lambda>old.
            case transition of None \<Rightarrow> old | Some t \<Rightarrow> PStr (rd_classification (rx_decision t))))) (\<lambda>_.
          let transition_reason = (case transition of
                Some t \<Rightarrow> rd_reason_code (rx_decision t) | None \<Rightarrow> text_field ''reasonCode'' decision) in
          then_step (record_timeline env ''gate_classified'' [(''reasonCode'', PStr transition_reason)]) (\<lambda>_.
          after_gate env inp transition transition_reason decision signature)))))))"

definition iteration ::
  "resolver_env \<Rightarrow> start_input \<Rightarrow> datetime \<Rightarrow> int \<Rightarrow> resolver_output option wf_step" where
  "iteration env inp started_at n = reading (\<lambda>s.
     if ev_now env (rw_log s) - started_at \<ge> pp_max_elapsed_seconds (si_policy inp) * 1000000
     then finish env inp ''failed'' ''failed'' (PStr ''elapsed_budget_exhausted'')
       ''PR resolver elapsed-time budget was exhausted.'' None
     else
       then_step (set_state ''read_pr_snapshot'') (\<lambda>_.
       then_step (read_snapshot env inp n) (\<lambda>snapshot.
       then_step (gate_decision env inp n snapshot) (\<lambda>decision.
       judge_gate env inp snapshot decision))))"

text \<open>
  The end of a run: the value returned, or an exception that leaves it. With no rounds left the
  loop is still going.
\<close>

datatype run_end = RunReturned resolver_output | RunCanary | RunCancelled | RunRaised

definition hard_failure :: "resolver_env \<Rightarrow> start_input \<Rightarrow> resolver_run \<Rightarrow> run_end \<times> resolver_run" where
  "hard_failure env inp s =
     (case publish_terminal env inp ''failed'' (PStr ''hard_execution_failure'')
        ''PR resolver stopped after a non-retryable execution failure.'' None (s\<lparr> rw_state := ''failed'' \<rparr>) of
        (Inr out, s') \<Rightarrow> (RunReturned out, s')
      | (Inl Interrupted, s') \<Rightarrow> (RunCancelled, s')
      | (Inl Failure, s') \<Rightarrow> (RunRaised, s'))"

fun resolver_loop ::
  "resolver_env \<Rightarrow> start_input \<Rightarrow> datetime \<Rightarrow> nat \<Rightarrow> int \<Rightarrow> resolver_run \<Rightarrow> run_end option \<times> resolver_run" where
  "resolver_loop env inp started_at 0 n s = (None, s)"
| "resolver_loop env inp started_at (Suc rounds) n s =
     (case iteration env inp started_at (n + 1) s of
        (Inr None, s') \<Rightarrow> resolver_loop env inp started_at rounds (n + 1) s'
      | (Inr (Some out), s') \<Rightarrow> (Some (RunReturned out), s')
      | (Inl Interrupted, s') \<Rightarrow> (Some RunCancelled, s'\<lparr> rw_state := ''canceled'' \<rparr>)
      | (Inl Failure, s') \<Rightarrow> (case hard_failure env inp s' of (e, s'') \<Rightarrow> (Some e, s'')))"

definition initial_run :: "start_input \<Rightarrow> resolver_run" where
  "initial_run inp = \<lparr> rw_state = ''initialize'', rw_head_sha = si_head_sha inp, rw_base_sha = si_base_sha inp,
     rw_classification = PNone, rw_finalize_attempts = 0,
     rw_remediation_counts = map (\<lambda>(_, skill). (skill, 0)) REMEDIATION_SKILLS,
     rw_last_progress_signature = None, rw_identical_no_progress_count = 0,
     rw_active_remediation_child_id = None, rw_latest_snapshot = [], rw_timeline = [], rw_log = [] \<rparr>"

definition resolver_run_for :: "resolver_env \<Rightarrow> start_input \<Rightarrow> nat \<Rightarrow> run_end option \<times> resolver_run" where
  "resolver_run_for env inp rounds =
     (if si_canary_mode inp then (Some RunCanary, (initial_run inp)\<lparr> rw_base_sha := None \<rparr>)
      else resolver_loop env inp (ev_now env []) rounds 0 (initial_run inp))"

end
