(* ===== verification/Pr_Resolver_Runs.thy ===== *)
theory Pr_Resolver_Runs
  imports Pr_Resolver_Workflow Machines
begin

text \<open>
  Runs of the resolver workflow: weakest preconditions for its steps, the budgets it keeps, what
  justifies its merges and remediations, and that it ends.
\<close>

section \<open>Weakest preconditions\<close>

text \<open>What holds when a step gives a value, and when an exception leaves it.\<close>

definition wp :: "'a wf_step \<Rightarrow> ('a \<Rightarrow> resolver_run \<Rightarrow> bool) \<Rightarrow> (resolver_run \<Rightarrow> bool) \<Rightarrow> resolver_run \<Rightarrow> bool" where
  "wp m Q E s = (case m s of (Inr a, s') \<Rightarrow> Q a s' | (Inl e, s') \<Rightarrow> E s')"

named_theorems wp_rules \<open>weakest preconditions of the steps of the workflow\<close>

lemma wp_basic [wp_rules]:
  "wp (give x) P E s = P x s"
  "wp raise_failure P E s = E s"
  "wp (modify h) R E s = R () (h s)"
  "wp (set_state name) R E s = R () (s\<lparr> rw_state := name \<rparr>)"
  "wp (then_step m f) Q E s = wp m (\<lambda>a. wp (f a) Q E) E s"
  "wp (reading g) Q E s = wp (g s) Q E s"
  "wp (checked_step r) P E s = (case r of Inl e \<Rightarrow> E s | Inr x \<Rightarrow> P x s)"
  by (auto simp: wp_def give_def raise_failure_def modify_def set_state_def then_step_def reading_def
      checked_step_def split: sum.splits prod.splits)

lemma wp_call [wp_rules]:
  "wp (call env c) Q E s =
     (case ev_reply env (rw_log s) c of
        Returned v \<Rightarrow> Q v (s\<lparr> rw_log := rw_log s @ [(c, Returned v)] \<rparr>)
      | r \<Rightarrow> E (s\<lparr> rw_log := rw_log s @ [(c, r)] \<rparr>))"
  by (auto simp: wp_def call_def Let_def split: reply.splits)

lemma wp_run_child [wp_rules]:
  "wp (run_child env child_id request) Q E s =
     wp (call env (RunAgent child_id request)) (\<lambda>v s. Q v (s\<lparr> rw_active_remediation_child_id := None \<rparr>))
       (\<lambda>s. E (s\<lparr> rw_active_remediation_child_id := None \<rparr>)) s"
  by (auto simp: wp_def run_child_def split: sum.splits prod.splits)

lemma wp_mono:
  assumes "wp m Q E s" and "\<And>a s'. Q a s' \<Longrightarrow> Q' a s'" and "\<And>s'. E s' \<Longrightarrow> E' s'"
  shows "wp m Q' E' s"
  using assms by (auto simp: wp_def split: sum.splits prod.splits)

lemma wp_if [wp_rules]: "wp (if b then m else m') Q E s = (if b then wp m Q E s else wp m' Q E s)"
  by simp

lemma wpD: "wp m Q E s \<Longrightarrow> m s = (Inr a, s') \<Longrightarrow> Q a s'" "wp m Q E s \<Longrightarrow> m s = (Inl e, s') \<Longrightarrow> E s'"
  by (auto simp: wp_def)

section \<open>What the log says\<close>

fun is_merge :: "resolver_call \<Rightarrow> bool" where
  "is_merge (FinalizeMerge h a k) = True"
| "is_merge c = False"

fun runs_skill :: "py_str \<Rightarrow> resolver_call \<Rightarrow> bool" where
  "runs_skill skill (RunAgent i r) = (rq_skill r = skill)"
| "runs_skill skill c = False"

definition calls_of :: "(resolver_call \<Rightarrow> bool) \<Rightarrow> call_log \<Rightarrow> int" where
  "calls_of P l = int (length (filter (\<lambda>(c, r). P c) l))"

lemma calls_of_simps [simp]:
  "calls_of P [] = 0"
  "calls_of P (l @ [(c, r)]) = calls_of P l + of_bool (P c)"
  by (simp_all add: calls_of_def)

lemma calls_of_nonneg [simp]: "0 \<le> calls_of P l"
  by (simp add: calls_of_def)

text \<open>Seconds slept, the latest snapshot read, and a merge confirmed by the last call.\<close>

fun slept_by :: "resolver_call \<times> reply \<Rightarrow> int" where
  "slept_by (Sleep d, Returned v) = d"
| "slept_by _ = 0"

definition slept :: "call_log \<Rightarrow> int" where
  "slept l = sum_list (map slept_by l)"

lemma slept_simps [simp]: "slept [] = 0" "slept (l @ [x]) = slept l + slept_by x"
  by (simp_all add: slept_def)

fun snapshot_after :: "pydict \<Rightarrow> resolver_call \<times> reply \<Rightarrow> pydict" where
  "snapshot_after old (ReadSnapshot h k, Returned v) = mapping_or_empty v"
| "snapshot_after old _ = old"

definition last_snapshot :: "call_log \<Rightarrow> pydict" where
  "last_snapshot l = foldl snapshot_after [] l"

lemma last_snapshot_simps [simp]:
  "last_snapshot [] = []" "last_snapshot (l @ [x]) = snapshot_after (last_snapshot l) x"
  by (simp_all add: last_snapshot_def)

fun confirms :: "resolver_call \<times> reply \<Rightarrow> bool" where
  "confirms (VerifyMerged h k, Returned v) = merged_reply v"
| "confirms _ = False"

definition confirmed :: "call_log \<Rightarrow> bool" where
  "confirmed l \<longleftrightarrow> l \<noteq> [] \<and> confirms (last l)"

lemma confirmed_snoc [simp]: "confirmed (l @ [x]) = confirms x"
  by (simp add: confirmed_def)

text \<open>
  The classification the gate activity gave since the latest snapshot was read: the one of its answer,
  or the one the workflow computes itself when the answer is not a mapping.
\<close>

fun verdict_after :: "pyval option \<Rightarrow> resolver_call \<times> reply \<Rightarrow> pyval option" where
  "verdict_after old (ReadSnapshot h k, r) = None"
| "verdict_after old (ClassifyGate d k, Returned v) =
     (case v of
        PDict answer \<Rightarrow> map_of answer ''classification''
      | _ \<Rightarrow> (case classify_pr_resolver_snapshot d of Inl e \<Rightarrow> None | Inr answer \<Rightarrow> map_of answer ''classification''))"
| "verdict_after old _ = old"

definition last_verdict :: "call_log \<Rightarrow> pyval option" where
  "last_verdict l = foldl verdict_after None l"

lemma last_verdict_simps [simp]:
  "last_verdict [] = None" "last_verdict (l @ [x]) = verdict_after (last_verdict l) x"
  by (simp_all add: last_verdict_def)

text \<open>
  What allows a call after the calls before it. With the shared core a merge needs a clean latest
  snapshot and a remediation a snapshot that asks for its skill; without it the verdict of the gate
  decides. The gate is asked about the latest snapshot, and a terminal result that claims a merge
  needs its confirmation.
\<close>

definition gate_of :: "resolver_env \<Rightarrow> call_log \<Rightarrow> resolver_decision option" where
  "gate_of env l = (case normalize_temporal_snapshot (last_snapshot l) of
     Inl e \<Rightarrow> None | Inr c \<Rightarrow> Some (classify_snapshot c (ev_ci_precedence env)))"

definition merge_allowed :: "resolver_env \<Rightarrow> call_log \<Rightarrow> bool" where
  "merge_allowed env l \<longleftrightarrow>
     (if ev_shared_core env then \<exists>d. gate_of env l = Some d \<and> rd_action d = ATTEMPT_MERGE
      else last_verdict l = Some (PStr ''ready_to_merge''))"

definition skill_allowed :: "resolver_env \<Rightarrow> call_log \<Rightarrow> py_str \<Rightarrow> bool" where
  "skill_allowed env l skill \<longleftrightarrow>
     (if ev_shared_core env
      then \<exists>d. gate_of env l = Some d \<and> rd_action d = RUN_REMEDIATION \<and> rd_remediation_skill d = Some skill
      else \<exists>k. last_verdict l = Some (PStr k) \<and> map_of REMEDIATION_SKILLS k = Some skill)"

fun allowed :: "resolver_env \<Rightarrow> call_log \<Rightarrow> resolver_call \<Rightarrow> bool" where
  "allowed env l (FinalizeMerge h a k) = merge_allowed env l"
| "allowed env l (RunAgent i r) = skill_allowed env l (rq_skill r)"
| "allowed env l (ClassifyGate d k) = (d = last_snapshot l)"
| "allowed env l (WriteTerminal t k) = (tm_status t \<in> {''merged'', ''already_merged''} \<longrightarrow> confirmed l)"
| "allowed env l c = True"

definition all_allowed :: "resolver_env \<Rightarrow> call_log \<Rightarrow> bool" where
  "all_allowed env l \<longleftrightarrow> (\<forall>i < length l. allowed env (take i l) (fst (l ! i)))"

lemma all_allowed_simps [simp]:
  "all_allowed env []"
  "all_allowed env (l @ [(c, r)]) \<longleftrightarrow> all_allowed env l \<and> allowed env l c"
proof -
  have "all_allowed env (l @ [x]) \<longleftrightarrow> all_allowed env l \<and> allowed env l (fst x)" for x
    unfolding all_allowed_def by (auto simp: less_Suc_eq nth_append)
  then show "all_allowed env (l @ [(c, r)]) \<longleftrightarrow> all_allowed env l \<and> allowed env l c" by simp
qed (simp add: all_allowed_def)

section \<open>The invariant\<close>

definition tried :: "resolver_run \<Rightarrow> py_str \<Rightarrow> int" where
  "tried s skill = option_or (map_of (rw_remediation_counts s) skill) 0"

definition kept :: "resolver_env \<Rightarrow> start_input \<Rightarrow> resolver_run \<Rightarrow> bool" where
  "kept env inp s \<longleftrightarrow>
     calls_of is_merge (rw_log s) \<le> rw_finalize_attempts s
     \<and> rw_finalize_attempts s \<le> pp_max_finalize_attempts (si_policy inp)
     \<and> distinct (map fst (rw_remediation_counts s))
     \<and> fst ` set (rw_remediation_counts s) = snd ` set REMEDIATION_SKILLS
     \<and> (\<forall>skill. calls_of (runs_skill skill) (rw_log s) \<le> tried s skill
          \<and> tried s skill \<le> pp_max_remediations_per_type (si_policy inp))
     \<and> (si_shadow_mode inp \<longrightarrow> calls_of is_merge (rw_log s) = 0 \<and> (\<forall>skill. calls_of (runs_skill skill) (rw_log s) = 0))
     \<and> all_allowed env (rw_log s)
     \<and> rw_latest_snapshot s = last_snapshot (rw_log s)"

lemma tried_frame [simp]:
  "tried (s\<lparr> rw_state := a \<rparr>) = tried s"
  "tried (s\<lparr> rw_head_sha := b \<rparr>) = tried s"
  "tried (s\<lparr> rw_base_sha := b \<rparr>) = tried s"
  "tried (rw_classification_update h s) = tried s"
  "tried (s\<lparr> rw_finalize_attempts := d \<rparr>) = tried s"
  "tried (s\<lparr> rw_last_progress_signature := b \<rparr>) = tried s"
  "tried (s\<lparr> rw_identical_no_progress_count := d \<rparr>) = tried s"
  "tried (s\<lparr> rw_active_remediation_child_id := b \<rparr>) = tried s"
  "tried (s\<lparr> rw_latest_snapshot := e \<rparr>) = tried s"
  "tried (s\<lparr> rw_timeline := f \<rparr>) = tried s"
  "tried (s\<lparr> rw_log := g \<rparr>) = tried s"
  by (simp_all add: tried_def fun_eq_iff)

lemma kept_frame [simp]:
  "kept env inp (s\<lparr> rw_state := a \<rparr>) = kept env inp s"
  "kept env inp (s\<lparr> rw_head_sha := b \<rparr>) = kept env inp s"
  "kept env inp (s\<lparr> rw_base_sha := b \<rparr>) = kept env inp s"
  "kept env inp (rw_classification_update h s) = kept env inp s"
  "kept env inp (s\<lparr> rw_last_progress_signature := b \<rparr>) = kept env inp s"
  "kept env inp (s\<lparr> rw_identical_no_progress_count := d \<rparr>) = kept env inp s"
  "kept env inp (s\<lparr> rw_active_remediation_child_id := b \<rparr>) = kept env inp s"
  "kept env inp (s\<lparr> rw_timeline := f \<rparr>) = kept env inp s"
  by (simp_all add: kept_def)

fun silent :: "resolver_call \<Rightarrow> bool" where
  "silent (VerifyMerged h k) = True"
| "silent (VerifyRemoteHead h k) = True"
| "silent (Sleep d) = True"
| "silent c = False"

lemma kept_silent [simp]:
  "silent c \<Longrightarrow> l = rw_log s \<Longrightarrow> kept env inp (s\<lparr> rw_log := l @ [(c, r)] \<rparr>) = kept env inp s"
  by (cases c) (simp_all add: kept_def)

lemma kept_classify [simp]:
  "d = last_snapshot (rw_log s) \<Longrightarrow> l = rw_log s \<Longrightarrow>
     kept env inp (s\<lparr> rw_log := l @ [(ClassifyGate d k, r)] \<rparr>) = kept env inp s"
  by (simp add: kept_def)

lemma kept_write:
  "kept env inp s \<Longrightarrow> allowed env (rw_log s) (WriteTerminal t k) \<Longrightarrow>
     kept env inp (s\<lparr> rw_log := rw_log s @ [(WriteTerminal t k, r)] \<rparr>)"
  by (simp add: kept_def del: allowed.simps)

definition timeline_after :: "resolver_env \<Rightarrow> py_str \<Rightarrow> pydict \<Rightarrow> resolver_run \<Rightarrow> timeline_entry list" where
  "timeline_after env event details s = rw_timeline (snd (record_timeline env event details s))"

lemma wp_record_timeline [wp_rules]:
  "wp (record_timeline env event details) Q E s = Q () (s\<lparr> rw_timeline := timeline_after env event details s \<rparr>)"
  by (simp add: timeline_after_def record_timeline_def wp_basic Let_def) (simp add: modify_def)

lemma wp_publish_terminal:
  assumes "kept env inp s" and "status \<in> {''merged'', ''already_merged''} \<Longrightarrow> confirmed (rw_log s)"
  shows "wp (publish_terminal env inp status code reason sha) (\<lambda>_. kept env inp) (kept env inp) s"
proof -
  have "tm_status t = status" if "terminal_payload env inp status code reason sha s = Inr t" for t
    using that by (auto simp: terminal_payload_def guard_def split: pyval.splits if_splits)
  then have "allowed env (rw_log s) (WriteTerminal t k)" if "terminal_payload env inp status code reason sha s = Inr t" for t k
    using that assms(2) by auto
  then show ?thesis
    using assms(1) by (auto simp: publish_terminal_def wp_rules Let_def kept_write simp del: allowed.simps split: sum.split reply.split)
qed

lemma wp_finish:
  assumes "kept env inp s" and "status \<in> {''merged'', ''already_merged''} \<longrightarrow> confirmed (rw_log s)"
    and "\<And>r s'. kept env inp s' \<Longrightarrow> Q (Some r) s'"
  shows "wp (finish env inp state status code reason sha) Q (kept env inp) s"
  unfolding finish_def wp_rules
  by (rule wp_mono [OF wp_publish_terminal [where s = "s\<lparr> rw_state := state \<rparr>"]]) (use assms in simp_all)

section \<open>Progress\<close>

text \<open>The seconds slept, with one poll interval for each remediation that was charged.\<close>

definition total_tried :: "resolver_run \<Rightarrow> int" where
  "total_tried s = (\<Sum>skill \<in> snd ` set REMEDIATION_SKILLS. tried s skill)"

definition spent :: "start_input \<Rightarrow> resolver_run \<Rightarrow> int" where
  "spent inp s = slept (rw_log s) + pp_poll_interval_seconds (si_policy inp) * total_tried s"

abbreviation poll :: "start_input \<Rightarrow> int" where
  "poll inp \<equiv> pp_poll_interval_seconds (si_policy inp)"

lemma spent_frame [simp]:
  "spent inp (s\<lparr> rw_state := a \<rparr>) = spent inp s"
  "spent inp (s\<lparr> rw_head_sha := b \<rparr>) = spent inp s"
  "spent inp (s\<lparr> rw_base_sha := b \<rparr>) = spent inp s"
  "spent inp (rw_classification_update h s) = spent inp s"
  "spent inp (s\<lparr> rw_finalize_attempts := d \<rparr>) = spent inp s"
  "spent inp (s\<lparr> rw_last_progress_signature := b \<rparr>) = spent inp s"
  "spent inp (s\<lparr> rw_identical_no_progress_count := d \<rparr>) = spent inp s"
  "spent inp (s\<lparr> rw_active_remediation_child_id := b \<rparr>) = spent inp s"
  "spent inp (s\<lparr> rw_latest_snapshot := e \<rparr>) = spent inp s"
  "spent inp (s\<lparr> rw_timeline := f \<rparr>) = spent inp s"
  "l = rw_log s \<Longrightarrow> spent inp (s\<lparr> rw_log := l @ [x] \<rparr>) = spent inp s + slept_by x"
  by (simp_all add: spent_def total_tried_def)

lemma wp_pause:
  assumes "kept env inp s" and "\<And>s'. kept env inp s' \<Longrightarrow> spent inp s' = spent inp s + poll inp \<Longrightarrow> Q None s'"
  shows "wp (pause env inp) Q (kept env inp) s"
  using assms by (simp add: pause_def wp_rules split: reply.split)

lemma wp_verify_already_merged:
  assumes "kept env inp s"
    and "\<And>r s'. kept env inp s' \<Longrightarrow> Q (Some r) s'"
    and "\<And>s'. kept env inp s' \<Longrightarrow> rw_classification s' = PStr ''mergeability_transient'' \<Longrightarrow> spent inp s' = spent inp s \<Longrightarrow> Q None s'"
  shows "wp (verify_already_merged env inp) Q (kept env inp) s"
  using assms by (simp add: verify_already_merged_def wp_rules wp_finish split: reply.split)

definition gate_context ::
  "resolver_env \<Rightarrow> start_input \<Rightarrow> resolver_transition option \<Rightarrow> py_str \<Rightarrow> resolver_run \<Rightarrow> bool" where
  "gate_context env inp transition signature s \<longleftrightarrow>
     (case transition of
        None \<Rightarrow> \<not> ev_shared_core env \<and> last_verdict (rw_log s) = Some (rw_classification s)
      | Some t \<Rightarrow> ev_shared_core env \<and> (\<exists>c. normalize_temporal_snapshot (rw_latest_snapshot s) = Inr c
          \<and> t = reduce_resolver_state (core_state s) c (core_policy (si_policy inp)) (Some signature) (ev_ci_precedence env)))"

lemma wp_merge_call:
  assumes "kept env inp s" and "\<not> si_shadow_mode inp" and "calls_of is_merge (rw_log s) < rw_finalize_attempts s"
    and "merge_allowed env (rw_log s)"
    and "\<And>v s'. kept env inp s' \<Longrightarrow> spent inp s' = spent inp s \<Longrightarrow> Q v s'"
  shows "wp (call env (FinalizeMerge h a k)) Q (kept env inp) s"
proof -
  have "kept env inp (s\<lparr> rw_log := rw_log s @ [(FinalizeMerge h a k, r)] \<rparr>)" for r
    using assms(1-4) by (simp add: kept_def)
  then show ?thesis using assms(5) by (auto simp: wp_rules split: reply.split)
qed

lemma wp_finalize_merge:
  assumes "kept env inp s" and "\<not> si_shadow_mode inp" and "calls_of is_merge (rw_log s) < rw_finalize_attempts s"
    and "merge_allowed env (rw_log s)"
    and "\<And>r s'. kept env inp s' \<Longrightarrow> Q (Some r) s'"
    and "\<And>s'. kept env inp s' \<Longrightarrow> spent inp s' = spent inp s + poll inp \<Longrightarrow> Q None s'"
  shows "wp (finalize_merge env inp) Q (kept env inp) s"
  unfolding finalize_merge_def wp_basic wp_record_timeline
proof (rule wp_merge_call)
  fix v s'
  assume "kept env inp s'"
    and "spent inp s' = spent inp (s\<lparr> rw_state := ''finalize_merge'', rw_timeline := timeline_after env ''finalize_started''
      [(''attempt'', PInt (rw_finalize_attempts (s\<lparr> rw_state := ''finalize_merge'' \<rparr>)))] (s\<lparr> rw_state := ''finalize_merge'' \<rparr>) \<rparr>)"
  then show "wp (call env (VerifyMerged (text_or (rw_head_sha (s\<lparr> rw_state := ''finalize_merge'' \<rparr>)) [])
        (call_key env ''verify'' (rw_head_sha (s\<lparr> rw_state := ''finalize_merge'' \<rparr>))
          (rw_finalize_attempts (s\<lparr> rw_state := ''finalize_merge'' \<rparr>)))))
      (\<lambda>a. wp (if merged_reply a
        then finish env inp ''completed'' ''merged'' (PStr ''merged'')
          ''Pull request merge was independently verified on GitHub.''
          (if merge_sha_of a \<noteq> None then merge_sha_of a else merge_sha_of v)
        else pause env inp) Q (kept env inp)) (kept env inp) (s'\<lparr> rw_state := ''verify_remote_merge'' \<rparr>)"
    using assms(5,6) by (simp add: wp_rules wp_finish wp_pause split: reply.split)
qed (use assms in simp_all)

section \<open>Branches\<close>

lemma reduce_merge:
  assumes "rd_action (rx_decision (reduce_resolver_state previous c policy signature p)) = ATTEMPT_MERGE"
  shows "rd_action (classify_snapshot c p) = ATTEMPT_MERGE"
    and "rv_finalize_attempts previous < rp_max_finalize_attempts policy"
    and "rv_finalize_attempts (rx_state (reduce_resolver_state previous c policy signature p))
      = rv_finalize_attempts previous + 1"
  using assms by (auto simp: reduce_resolver_state_def Let_def split: if_splits)

lemma reduce_remediation:
  assumes "rd_action (rx_decision (reduce_resolver_state previous c policy signature p)) = RUN_REMEDIATION"
  shows "rd_action (classify_snapshot c p) = RUN_REMEDIATION"
    and "rx_decision (reduce_resolver_state previous c policy signature p) = classify_snapshot c p"
    and "remediation_count previous (option_or (rd_remediation_skill (classify_snapshot c p)) [])
      < rp_max_remediations_per_type policy"
    and "rv_remediation_counts (rx_state (reduce_resolver_state previous c policy signature p)) =
      sort_key fst (dict_set (option_or (rd_remediation_skill (classify_snapshot c p)) [])
        (remediation_count previous (option_or (rd_remediation_skill (classify_snapshot c p)) []) + 1)
        (dict_of (rv_remediation_counts previous)))"
  using assms by (auto simp: reduce_resolver_state_def Let_def split: if_splits)

lemma gate_of_context:
  assumes "kept env inp s" and "gate_context env inp (Some t) signature s"
  obtains c where "ev_shared_core env" and "gate_of env (rw_log s) = Some (classify_snapshot c (ev_ci_precedence env))"
    and "t = reduce_resolver_state (core_state s) c (core_policy (si_policy inp)) (Some signature) (ev_ci_precedence env)"
  using assms by (auto simp: gate_context_def gate_of_def kept_def)

lemma wp_merge_branch:
  assumes kept: "kept env inp s" and gate: "gate_context env inp tr signature s"
    and cls: "rw_classification s = PStr ''ready_to_merge''"
    and act: "\<And>t. tr = Some t \<Longrightarrow> rd_action (rx_decision t) = ATTEMPT_MERGE"
    and post: "\<And>r s'. kept env inp s' \<Longrightarrow> Q (Some r) s'"
      "\<And>s'. kept env inp s' \<Longrightarrow> spent inp s' = spent inp s + poll inp \<Longrightarrow> Q None s'"
  shows "wp (merge_branch env inp tr) Q (kept env inp) s"
proof (cases "si_shadow_mode inp")
  case True
  then show ?thesis using kept post by (simp add: merge_branch_def wp_finish)
next
  case shadow: False
  have charged: "wp (finalize_merge env inp) Q (kept env inp) (s\<lparr> rw_finalize_attempts := rw_finalize_attempts s + 1 \<rparr>)"
    if "rw_finalize_attempts s < pp_max_finalize_attempts (si_policy inp)"
      and "merge_allowed env (rw_log s)"
  proof (rule wp_finalize_merge)
    show "kept env inp (s\<lparr> rw_finalize_attempts := rw_finalize_attempts s + 1 \<rparr>)"
      using kept that by (simp add: kept_def)
  qed (use kept that shadow post in \<open>simp_all add: kept_def\<close>)
  show ?thesis
  proof (cases tr)
    case None
    then have "merge_allowed env (rw_log s)" using gate cls by (simp add: gate_context_def merge_allowed_def)
    then show ?thesis using None shadow kept charged post
      by (simp add: merge_branch_def charge_finalize_def wp_rules wp_finish)
  next
    case (Some t)
    obtain c where c: "gate_of env (rw_log s) = Some (classify_snapshot c (ev_ci_precedence env))" "ev_shared_core env"
      "t = reduce_resolver_state (core_state s) c (core_policy (si_policy inp)) (Some signature) (ev_ci_precedence env)"
      using gate_of_context [OF kept] gate Some by blast
    have "rd_action (classify_snapshot c (ev_ci_precedence env)) = ATTEMPT_MERGE"
      "rw_finalize_attempts s < pp_max_finalize_attempts (si_policy inp)"
      "rv_finalize_attempts (rx_state t) = rw_finalize_attempts s + 1"
      using reduce_merge [of "core_state s" c "core_policy (si_policy inp)" "Some signature" "ev_ci_precedence env"]
        act [OF Some] c(3) by (simp_all add: core_state_def core_policy_def)
    then show ?thesis using Some shadow charged c(1,2)
      by (simp add: merge_branch_def charge_finalize_def wp_rules merge_allowed_def)
  qed
qed

lemma sort_key_map_of: "distinct (map fst kvs) \<Longrightarrow> map_of (sort_key fst kvs) = map_of kvs"
  for kvs :: "('k :: linorder \<times> 'v) list"
proof -
  assume d: "distinct (map fst kvs)"
  have "distinct (map fst (sort_key fst kvs))"
    using d by (simp add: distinct_map)
  then show ?thesis using d by (simp add: map_of_inject_set)
qed

lemma sort_key_keys_distinct: "distinct (map fst kvs) \<Longrightarrow> distinct (map fst (sort_key fst kvs))"
  for kvs :: "('k :: linorder \<times> 'v) list"
  by (simp add: distinct_map)

lemma finite_skills [simp]: "finite (snd ` set REMEDIATION_SKILLS)"
  by simp

text \<open>A remediation that is charged to its skill.\<close>

lemma charged_skill:
  assumes "kept env inp s" and "skill \<in> snd ` set REMEDIATION_SKILLS"
    and "tried s skill < pp_max_remediations_per_type (si_policy inp)"
    and "distinct (map fst counts)" and "map_of counts = (map_of (rw_remediation_counts s))(skill \<mapsto> tried s skill + 1)"
  shows "kept env inp (s\<lparr> rw_remediation_counts := counts \<rparr>)"
    and "tried (s\<lparr> rw_remediation_counts := counts \<rparr>) = (tried s)(skill := tried s skill + 1)"
    and "spent inp (s\<lparr> rw_remediation_counts := counts \<rparr>) = spent inp s + poll inp"
proof -
  show tried: "tried (s\<lparr> rw_remediation_counts := counts \<rparr>) = (tried s)(skill := tried s skill + 1)"
    using assms(5) by (auto simp: tried_def fun_eq_iff)
  have "dom (map_of counts) = insert skill (dom (map_of (rw_remediation_counts s)))" using assms(5) by simp
  then have "fst ` set counts = snd ` set REMEDIATION_SKILLS"
    using assms(1,2) by (auto simp: dom_map_of_conv_image_fst kept_def)
  then show "kept env inp (s\<lparr> rw_remediation_counts := counts \<rparr>)"
    using assms(1,3,4) by (auto simp: kept_def tried add_increasing2)
  have "total_tried (s\<lparr> rw_remediation_counts := counts \<rparr>) = total_tried s + 1"
    unfolding total_tried_def tried using assms(2)
    by (subst (1 2) sum.remove [of _ skill]) (auto intro!: sum.cong)
  then show "spent inp (s\<lparr> rw_remediation_counts := counts \<rparr>) = spent inp s + poll inp"
    by (simp add: spent_def distrib_left)
qed

lemma wp_run_call:
  assumes "kept env inp s" and "\<not> si_shadow_mode inp" and "calls_of (runs_skill (rq_skill q)) (rw_log s) < tried s (rq_skill q)"
    and "skill_allowed env (rw_log s) (rq_skill q)"
    and "\<And>v s'. kept env inp s' \<Longrightarrow> spent inp s' = spent inp s \<Longrightarrow> Q v s'"
  shows "wp (call env (RunAgent i q)) Q (kept env inp) s"
proof -
  have "kept env inp (s\<lparr> rw_log := rw_log s @ [(RunAgent i q, r)] \<rparr>)" for r
    using assms(1-4) by (auto simp: kept_def)
  then show ?thesis using assms(5) by (auto simp: wp_rules split: reply.split)
qed

lemma wp_verify_remote_head:
  assumes "kept env inp s" and "\<And>s'. kept env inp s' \<Longrightarrow> spent inp s' = spent inp s \<Longrightarrow> Q None s'"
  shows "wp (verify_remote_head env child_id) Q (kept env inp) s"
  using assms by (simp add: verify_remote_head_def wp_rules Let_def split: reply.split)

lemma wp_remediate:
  assumes "kept env inp s" and "\<not> si_shadow_mode inp" and "calls_of (runs_skill skill) (rw_log s) < tried s skill"
    and "skill_allowed env (rw_log s) skill"
    and "\<And>r s'. kept env inp s' \<Longrightarrow> Q (Some r) s'"
    and "\<And>s'. kept env inp s' \<Longrightarrow> spent inp s' = spent inp s \<Longrightarrow> Q None s'"
  shows "wp (remediate env inp skill) Q (kept env inp) s"
proof (cases "remediation_request_of env inp skill s")
  case (Inr q)
  then have skill: "rq_skill q = skill"
    by (auto simp: remediation_request_of_def split: option.splits if_splits)
  show ?thesis
    unfolding remediate_def wp_basic Inr sum.case Let_def wp_record_timeline wp_run_child kept_frame
    by (rule wp_run_call) (use assms skill in \<open>simp_all add: wp_rules wp_finish wp_verify_remote_head\<close>)
qed (use assms(1) in \<open>simp add: remediate_def wp_rules\<close>)

lemma core_counts:
  assumes "kept env inp s"
  defines "counts \<equiv> \<lambda>skill n. dict_of (sort_key fst (dict_set skill n (dict_of (rv_remediation_counts (core_state s)))))"
  shows "remediation_count (core_state s) skill = tried s skill"
    and "distinct (map fst (counts skill n))"
    and "map_of (counts skill n) = (map_of (rw_remediation_counts s))(skill \<mapsto> n)"
proof -
  let ?kvs = "rw_remediation_counts s"
  have d: "distinct (map fst ?kvs)" using assms(1) by (simp add: kept_def)
  have inner: "dict_of (rv_remediation_counts (core_state s)) = sort_key fst ?kvs"
    using sort_key_keys_distinct [OF d] by (simp add: core_state_def dict_of_distinct)
  show "remediation_count (core_state s) skill = tried s skill"
    by (simp add: remediation_count_def inner sort_key_map_of [OF d] tried_def)
  have set: "distinct (map fst (dict_set skill n (sort_key fst ?kvs)))"
    by (rule dict_set_distinct) (rule sort_key_keys_distinct [OF d])
  then have outer: "counts skill n = sort_key fst (dict_set skill n (sort_key fst ?kvs))"
    by (simp add: counts_def inner dict_of_distinct sort_key_keys_distinct)
  show "distinct (map fst (counts skill n))" unfolding outer by (rule sort_key_keys_distinct [OF set])
  show "map_of (counts skill n) = (map_of ?kvs)(skill \<mapsto> n)"
    unfolding outer by (simp add: sort_key_map_of [OF set] sort_key_map_of [OF d])
qed

text \<open>After the charge the child runs.\<close>

lemma wp_charged_remediate:
  assumes "kept env inp s" and "\<not> si_shadow_mode inp" and "skill \<in> snd ` set REMEDIATION_SKILLS"
    and "tried s skill < pp_max_remediations_per_type (si_policy inp)"
    and "distinct (map fst counts)" and "map_of counts = (map_of (rw_remediation_counts s))(skill \<mapsto> tried s skill + 1)"
    and "skill_allowed env (rw_log s) skill"
    and "\<And>r s'. kept env inp s' \<Longrightarrow> Q (Some r) s'"
    and "\<And>s'. kept env inp s' \<Longrightarrow> spent inp s' = spent inp s + poll inp \<Longrightarrow> Q None s'"
  shows "wp (remediate env inp skill) Q (kept env inp) (s\<lparr> rw_remediation_counts := counts \<rparr>)"
proof (rule wp_remediate)
  note charged = charged_skill [OF assms(1,3-6)]
  show "kept env inp (s\<lparr> rw_remediation_counts := counts \<rparr>)" by (rule charged(1))
  have "calls_of (runs_skill skill) (rw_log s) \<le> tried s skill" using assms(1) by (simp add: kept_def)
  then show "calls_of (runs_skill skill) (rw_log (s\<lparr> rw_remediation_counts := counts \<rparr>))
      < tried (s\<lparr> rw_remediation_counts := counts \<rparr>) skill"
    by (simp add: charged(2))
  show "Q None s'" if "kept env inp s'" "spent inp s' = spent inp (s\<lparr> rw_remediation_counts := counts \<rparr>)" for s'
    using that assms(9) by (simp add: charged(3))
qed (use assms(2,7,8) in simp_all)

lemma wp_remediation_branch:
  assumes kept: "kept env inp s" and gate: "gate_context env inp tr signature s"
    and cls: "rw_classification s = PStr k" and skill: "map_of REMEDIATION_SKILLS k = Some skill"
    and act: "\<And>t. tr = Some t \<Longrightarrow>
        rd_action (rx_decision t) = RUN_REMEDIATION \<and> rd_remediation_skill (rx_decision t) = Some skill"
    and post: "\<And>r s'. kept env inp s' \<Longrightarrow> Q (Some r) s'"
      "\<And>s'. kept env inp s' \<Longrightarrow> spent inp s' = spent inp s + poll inp \<Longrightarrow> Q None s'"
  shows "wp (remediation_branch env inp tr signature skill) Q (kept env inp) s"
proof (cases "si_shadow_mode inp")
  case True
  then show ?thesis using kept post by (simp add: remediation_branch_def wp_rules wp_finish)
next
  case shadow: False
  have mem: "skill \<in> snd ` set REMEDIATION_SKILLS"
    using map_of_SomeD [OF skill] by force
  show ?thesis
  proof (cases tr)
    case None
    then have allow: "skill_allowed env (rw_log s) skill"
      using gate cls skill by (simp add: gate_context_def skill_allowed_def)
    define s1 where "s1 = (if Some signature = rw_last_progress_signature s
      then s\<lparr> rw_identical_no_progress_count := rw_identical_no_progress_count s + 1 \<rparr>
      else s\<lparr> rw_last_progress_signature := Some signature, rw_identical_no_progress_count := 0 \<rparr>)"
    have s1: "kept env inp s1" "spent inp s1 = spent inp s" "tried s1 = tried s" "rw_log s1 = rw_log s"
      using kept by (simp_all add: s1_def)
    obtain n where n: "map_of (rw_remediation_counts s1) skill = Some n"
      using s1(1) mem by (metis kept_def map_of_eq_None_iff option.exhaust)
    then have tried: "tried s1 skill = n" by (simp add: tried_def)
    have "wp (remediate env inp skill) Q (kept env inp)
        (s1\<lparr> rw_remediation_counts := dict_set skill (n + 1) (rw_remediation_counts s1) \<rparr>)"
      if "n < pp_max_remediations_per_type (si_policy inp)"
      using that s1 shadow mem allow post tried
      by (intro wp_charged_remediate) (simp_all add: dict_set_distinct kept_def)
    then show ?thesis using None shadow s1 n post unfolding s1_def [symmetric]
      by (simp add: remediation_branch_def charge_remediation_def wp_rules wp_finish s1_def [symmetric])
  next
    case (Some t)
    obtain c where c: "gate_of env (rw_log s) = Some (classify_snapshot c (ev_ci_precedence env))" "ev_shared_core env"
      "t = reduce_resolver_state (core_state s) c (core_policy (si_policy inp)) (Some signature) (ev_ci_precedence env)"
      using gate_of_context [OF kept] gate Some by blast
    note red = reduce_remediation [of "core_state s" c "core_policy (si_policy inp)" "Some signature" "ev_ci_precedence env",
        folded c(3)]
    have red1: "rd_action (rx_decision t) = RUN_REMEDIATION" using act [OF Some] by simp
    have decision: "rx_decision t = classify_snapshot c (ev_ci_precedence env)" using red(2) red1 by blast
    have sk: "rd_remediation_skill (classify_snapshot c (ev_ci_precedence env)) = Some skill"
      using act [OF Some] decision by simp
    have budget: "tried s skill < pp_max_remediations_per_type (si_policy inp)"
      using red(3) red1 by (simp add: sk core_counts(1) [OF kept] core_policy_def)
    have counts: "dict_of (rv_remediation_counts (rx_state t)) =
        dict_of (sort_key fst (dict_set skill (tried s skill + 1) (dict_of (rv_remediation_counts (core_state s)))))"
      using red(4) red1 by (simp add: sk core_counts(1) [OF kept])
    define s1 where "s1 = s\<lparr> rw_identical_no_progress_count := rv_identical_blocker_count (rx_state t),
      rw_last_progress_signature := rv_last_progress_signature (rx_state t) \<rparr>"
    have "wp (remediate env inp skill) Q (kept env inp)
        (s1\<lparr> rw_remediation_counts := dict_of (rv_remediation_counts (rx_state t)) \<rparr>)"
    proof (rule wp_charged_remediate)
      show "distinct (map fst (dict_of (rv_remediation_counts (rx_state t))))"
        unfolding counts by (rule core_counts(2) [OF kept])
      show "map_of (dict_of (rv_remediation_counts (rx_state t))) = (map_of (rw_remediation_counts s1))(skill \<mapsto> tried s1 skill + 1)"
        unfolding counts core_counts(3) [OF kept] by (simp add: s1_def)
    qed (use kept shadow mem budget c(1,2) red(1) red1 sk post in \<open>simp_all add: s1_def skill_allowed_def\<close>)
    moreover have "s1\<lparr> rw_remediation_counts := dict_of (rv_remediation_counts (rx_state t)) \<rparr> =
        s\<lparr> rw_remediation_counts := dict_of (rv_remediation_counts (rx_state t)),
           rw_identical_no_progress_count := rv_identical_blocker_count (rx_state t),
           rw_last_progress_signature := rv_last_progress_signature (rx_state t) \<rparr>"
      by (rule resolver_run.equality) (simp_all add: s1_def)
    ultimately show ?thesis using Some shadow
      by (simp add: remediation_branch_def charge_remediation_def wp_rules)
  qed
qed

section \<open>One round\<close>

lemma skills_agree: "REMEDIATION_SKILLS = REMEDIATIONS"
  by (simp add: REMEDIATION_SKILLS_def REMEDIATIONS_def)

text \<open>The classification of the core decides the branch, and the branch the action of the core.\<close>

lemma reduce_classified:
  "map_of CLASSIFIED (rd_classification (rx_decision (reduce_resolver_state previous c policy signature p)))
     = Some (rd_action (rx_decision (reduce_resolver_state previous c policy signature p)))"
  "rd_remediation_skill (rx_decision (reduce_resolver_state previous c policy signature p))
     = map_of REMEDIATIONS (rd_classification (rx_decision (reduce_resolver_state previous c policy signature p)))"
  using classify_snapshot_action [of c p] classify_snapshot_skill [of c p]
  by (simp_all add: reduce_resolver_state_def Let_def) (auto simp: CLASSIFIED_def REMEDIATIONS_def)

lemma wp_act_wait:
  assumes "kept env inp s" and "rw_classification s \<in> PStr ` set WAIT_CLASSIFICATIONS"
    and "\<And>s'. kept env inp s' \<Longrightarrow> spent inp s' = spent inp s + poll inp \<Longrightarrow> Q None s'"
  shows "wp (act_on_gate env inp tr decision signature) Q (kept env inp) s"
  using assms by (auto simp: act_on_gate_def wp_rules WAIT_CLASSIFICATIONS_def intro!: wp_pause)

lemma wp_act_on_gate:
  assumes kept: "kept env inp s" and gate: "gate_context env inp tr signature s"
    and cls: "\<And>t. tr = Some t \<Longrightarrow> rw_classification s = PStr (rd_classification (rx_decision t))"
    and post: "\<And>r s'. kept env inp s' \<Longrightarrow> Q (Some r) s'"
      "\<And>s'. kept env inp s' \<Longrightarrow> spent inp s' = spent inp s + poll inp \<Longrightarrow> Q None s'"
  shows "wp (act_on_gate env inp tr decision signature) Q (kept env inp) s"
proof -
  have red: "map_of CLASSIFIED (rd_classification (rx_decision t)) = Some (rd_action (rx_decision t))
      \<and> rd_remediation_skill (rx_decision t) = map_of REMEDIATIONS (rd_classification (rx_decision t))"
    if "tr = Some t" for t
    using that gate by (auto simp: gate_context_def reduce_classified)
  consider "rw_classification s = PStr ''ready_to_merge''"
    | "rw_classification s \<in> PStr ` set WAIT_CLASSIFICATIONS"
    | k skill where "rw_classification s = PStr k" "map_of REMEDIATION_SKILLS k = Some skill"
    | "rw_classification s \<noteq> PStr ''ready_to_merge''" "rw_classification s \<notin> PStr ` set WAIT_CLASSIFICATIONS"
      "(case rw_classification s of PStr c \<Rightarrow> map_of REMEDIATION_SKILLS c | _ \<Rightarrow> None) = None"
    by (cases "rw_classification s"; cases "case rw_classification s of PStr c \<Rightarrow> map_of REMEDIATION_SKILLS c | _ \<Rightarrow> None") auto
  then show ?thesis
  proof cases
    case 1
    have "rd_action (rx_decision t) = ATTEMPT_MERGE" if "tr = Some t" for t
      using cls [OF that] 1 classified_cases(2) [OF conjunct1 [OF red [OF that]]] by simp
    then have "wp (merge_branch env inp tr) Q (kept env inp) s"
      using wp_merge_branch [OF kept gate 1] post by blast
    then show ?thesis using 1 by (simp add: act_on_gate_def wp_rules)
  next
    case 2
    then show ?thesis using wp_act_wait [OF kept] post by blast
  next
    case (3 k skill)
    then have k: "k \<in> {''actionable_comments'', ''ci_failures'', ''merge_conflicts''}"
      by (auto simp: REMEDIATION_SKILLS_def split: if_splits)
    have "rd_action (rx_decision t) = RUN_REMEDIATION \<and> rd_remediation_skill (rx_decision t) = Some skill"
      if "tr = Some t" for t
      using cls [OF that] red [OF that] 3 k classified_cases(3) [OF conjunct1 [OF red [OF that]]]
      by (auto simp: skills_agree REMEDIATIONS_def)
    then have "wp (remediation_branch env inp tr signature skill) Q (kept env inp) s"
      using wp_remediation_branch [OF kept gate 3] post by blast
    then show ?thesis using 3 k by (auto simp: act_on_gate_def wp_rules WAIT_CLASSIFICATIONS_def)
  next
    case 4
    then show ?thesis using kept post
      by (auto simp: act_on_gate_def wp_rules wp_finish split: option.split)
  qed
qed


lemma wp_after_gate:
  assumes kept: "kept env inp s" and gate: "gate_context env inp tr signature s"
    and cls: "\<And>t. tr = Some t \<Longrightarrow> rw_classification s = PStr (rd_classification (rx_decision t))"
    and post: "\<And>r s'. kept env inp s' \<Longrightarrow> Q (Some r) s'"
      "\<And>s'. kept env inp s' \<Longrightarrow> spent inp s' = spent inp s + poll inp \<Longrightarrow> Q None s'"
  shows "wp (after_gate env inp tr reason decision signature) Q (kept env inp) s"
proof (cases "rw_classification s = PStr ''already_merged''")
  case True
  have "wp (act_on_gate env inp tr decision signature) Q (kept env inp) s'"
    if "kept env inp s'" "rw_classification s' = PStr ''mergeability_transient''" "spent inp s' = spent inp s" for s'
    using that post by (intro wp_act_wait) (simp_all add: WAIT_CLASSIFICATIONS_def)
  then show ?thesis using True kept post
    by (simp add: after_gate_def wp_rules wp_verify_already_merged wp_finish)
next
  case False
  then show ?thesis using kept post wp_act_on_gate [OF kept gate cls]
    by (simp add: after_gate_def wp_rules wp_finish)
qed

lemma wp_read_snapshot:
  assumes "kept env inp s"
    and "\<And>s'. kept env inp s' \<Longrightarrow> spent inp s' = spent inp s \<Longrightarrow> Q (rw_latest_snapshot s') s'"
  shows "wp (read_snapshot env inp n) Q (kept env inp) s"
proof -
  have raised: "kept env inp (s\<lparr> rw_log := rw_log s @ [(ReadSnapshot h k, r)] \<rparr>)" if "r \<in> {Raised, Cancelled}" for h k r
    using assms(1) that by (auto simp: kept_def)
  have returned: "kept env inp (s\<lparr> rw_log := rw_log s @ [(ReadSnapshot h k, Returned v)], rw_latest_snapshot := mapping_or_empty v \<rparr>)"
    for h k v
    using assms(1) by (simp add: kept_def)
  have post: "Q d s'" if "kept env inp s'" "spent inp s' = spent inp s" "rw_latest_snapshot s' = d" for d s'
    using that assms(2) by blast
  show ?thesis
    unfolding read_snapshot_def wp_basic wp_call Let_def wp_record_timeline
    using raised returned by (auto split: reply.split intro!: post)
qed

definition next_round ::
  "resolver_env \<Rightarrow> start_input \<Rightarrow> datetime \<Rightarrow> resolver_run \<Rightarrow> resolver_output option \<Rightarrow> resolver_run \<Rightarrow> bool" where
  "next_round env inp started s r s' \<longleftrightarrow> kept env inp s'
     \<and> (r = None \<longrightarrow> ev_now env (rw_log s) - started < pp_max_elapsed_seconds (si_policy inp) * 1000000
          \<and> spent inp s' = spent inp s + poll inp)"

lemma core_state_frame [simp]:
  "core_state (s\<lparr> rw_state := a \<rparr>) = core_state s"
  "core_state (rw_classification_update h s) = core_state s"
  "core_state (s\<lparr> rw_timeline := f \<rparr>) = core_state s"
  "core_state (s\<lparr> rw_log := g \<rparr>) = core_state s"
  by (simp_all add: core_state_def)

text \<open>From the decision of the gate to the end of the round.\<close>

lemma wp_judge_gate:
  assumes "kept env inp s" and "\<And>r s'. kept env inp s' \<Longrightarrow> Q (Some r) s'"
    and "\<And>s'. kept env inp s' \<Longrightarrow> spent inp s' = spent inp s + poll inp \<Longrightarrow> Q None s'"
    and "last_verdict (rw_log s) = map_of decision ''classification''"
  shows "wp (judge_gate env inp (rw_latest_snapshot s) decision) Q (kept env inp) s"
proof (cases "map_of decision ''classification''")
  case (Some c)
  show ?thesis
  proof (cases "blocker_progress_signature (rw_latest_snapshot s) c")
    case sig: (Inr signature)
    let ?s1 = "s\<lparr> rw_classification := c \<rparr>"
    show ?thesis
    proof (cases "core_transition env inp (rw_latest_snapshot s) signature ?s1")
      case tr: (Inr tr)
      have gate: "gate_context env inp tr signature ?s1"
        using tr Some assms(4) by (cases "normalize_temporal_snapshot (rw_latest_snapshot s)")
          (auto simp: core_transition_def gate_context_def split: if_splits)
      let ?s2 = "rw_classification_update
        ((\<lambda>old. case tr of None \<Rightarrow> old | Some t \<Rightarrow> PStr (rd_classification (rx_decision t))) \<circ> (\<lambda>_. c)) s"
      have "wp (after_gate env inp tr reason decision signature) Q (kept env inp) (?s2\<lparr> rw_timeline := entries \<rparr>)"
        for reason entries
      proof (rule wp_after_gate)
        show "gate_context env inp tr signature (?s2\<lparr> rw_timeline := entries \<rparr>)"
          using gate by (simp add: gate_context_def split: option.splits)
      qed (use assms in simp_all)
      then show ?thesis using Some sig tr by (simp add: judge_gate_def wp_rules Let_def)
    qed (use Some sig assms in \<open>simp add: judge_gate_def wp_rules\<close>)
  qed (use Some assms in \<open>simp add: judge_gate_def wp_rules\<close>)
qed (use assms in \<open>simp add: judge_gate_def wp_rules\<close>)

lemma wp_iteration:
  assumes "kept env inp s"
  shows "wp (iteration env inp started n) (next_round env inp started s) (kept env inp) s"
proof (cases "ev_now env (rw_log s) - started \<ge> pp_max_elapsed_seconds (si_policy inp) * 1000000")
  case True
  then show ?thesis using assms by (simp add: iteration_def wp_rules wp_finish next_round_def)
next
  case False
  have decided: "wp (then_step (gate_decision env inp n (rw_latest_snapshot s1)) (\<lambda>decision.
      judge_gate env inp (rw_latest_snapshot s1) decision)) (next_round env inp started s) (kept env inp) s1"
    if s1: "kept env inp s1" "spent inp s1 = spent inp s" for s1
  proof -
    have judged: "wp (judge_gate env inp (rw_latest_snapshot s2) decision) (next_round env inp started s) (kept env inp) s2"
      if "kept env inp s2" "spent inp s2 = spent inp s" "last_verdict (rw_log s2) = map_of decision ''classification''"
      for s2 decision
      using that False by (intro wp_judge_gate) (simp_all add: next_round_def)
    have latest: "rw_latest_snapshot s1 = last_snapshot (rw_log s1)" using s1(1) by (simp add: kept_def)
    have "wp (gate_decision env inp n (rw_latest_snapshot s1)) (\<lambda>decision s2. kept env inp s2 \<and> spent inp s2 = spent inp s1
        \<and> rw_latest_snapshot s2 = rw_latest_snapshot s1 \<and> last_verdict (rw_log s2) = map_of decision ''classification'')
        (kept env inp) s1"
      using s1 latest by (auto simp: gate_decision_def wp_rules split: reply.split pyval.split sum.split)
    then show ?thesis unfolding wp_basic by (rule wp_mono) (use judged s1 in force)+
  qed
  have "wp (read_snapshot env inp n) (\<lambda>snapshot. wp (then_step (gate_decision env inp n snapshot) (\<lambda>decision.
      judge_gate env inp snapshot decision)) (next_round env inp started s) (kept env inp)) (kept env inp)
      (s\<lparr> rw_state := ''read_pr_snapshot'' \<rparr>)"
    by (rule wp_read_snapshot) (use assms decided in simp_all)
  then show ?thesis using False by (simp add: iteration_def wp_basic)
qed

section \<open>Whole runs\<close>

text \<open>A round that continues, as a step of a machine on the number of rounds and the state.\<close>

definition resolver_round ::
  "resolver_env \<Rightarrow> start_input \<Rightarrow> datetime \<Rightarrow> int \<times> resolver_run \<Rightarrow> int \<times> resolver_run \<Rightarrow> bool" where
  "resolver_round env inp started c c' \<longleftrightarrow>
     iteration env inp started (fst c + 1) (snd c) = (Inr None, snd c') \<and> fst c' = fst c + 1"

text \<open>The documented clock of a workflow: it never goes back, and a sleep that returns takes its time.\<close>

definition clock_ok :: "resolver_env \<Rightarrow> bool" where
  "clock_ok env \<longleftrightarrow> (\<forall>l x. ev_now env l + slept_by x * 1000000 \<le> ev_now env (l @ [x]))"

lemma clock_slept: "clock_ok env \<Longrightarrow> ev_now env [] + slept l * 1000000 \<le> ev_now env l"
proof (induction l rule: rev_induct)
  case (snoc x l)
  have "ev_now env l + slept_by x * 1000000 \<le> ev_now env (l @ [x])"
    using snoc.prems unfolding clock_ok_def by blast
  then show ?case using snoc by (simp add: distrib_right)
qed simp

definition round_limit :: "start_input \<Rightarrow> int" where
  "round_limit inp = 3 * pp_max_remediations_per_type (si_policy inp) * poll inp + pp_max_elapsed_seconds (si_policy inp)"

lemma total_tried_le: "kept env inp s \<Longrightarrow> total_tried s \<le> 3 * pp_max_remediations_per_type (si_policy inp)"
proof -
  assume k: "kept env inp s"
  have "total_tried s \<le> (\<Sum>skill \<in> snd ` set REMEDIATION_SKILLS. pp_max_remediations_per_type (si_policy inp))"
    unfolding total_tried_def using k by (intro sum_mono) (simp add: kept_def)
  also have "\<dots> = 3 * pp_max_remediations_per_type (si_policy inp)"
    by (simp add: REMEDIATION_SKILLS_def)
  finally show ?thesis .
qed

interpretation resolver_rounds: invariant_machine "resolver_round env inp started" "\<lambda>c. kept env inp (snd c)"
proof
  fix c c'
  assume "kept env inp (snd c)" and "resolver_round env inp started c c'"
  then show "kept env inp (snd c')"
    using wpD(1) [OF wp_iteration] by (fastforce simp: resolver_round_def next_round_def)
qed

definition resolver_rounds_left :: "start_input \<Rightarrow> resolver_run \<Rightarrow> int" where
  "resolver_rounds_left inp s = (round_limit inp - spent inp s + poll inp - 1) div poll inp"

lemma resolver_round_spent:
  assumes "kept env inp (snd c)" and "clock_ok env" and "1 \<le> poll inp" and "resolver_round env inp (ev_now env []) c c'"
  shows "1 \<le> resolver_rounds_left inp (snd c)" and "resolver_rounds_left inp (snd c') = resolver_rounds_left inp (snd c) - 1"
proof -
  let ?s = "snd c" and ?s' = "snd c'"
  have n: "next_round env inp (ev_now env []) ?s None ?s'"
    using assms(1,4) wpD(1) [OF wp_iteration] by (force simp: resolver_round_def)
  have "slept (rw_log ?s) < pp_max_elapsed_seconds (si_policy inp)"
    using n clock_slept [OF assms(2), of "rw_log ?s"] by (simp add: next_round_def)
  moreover have "poll inp * total_tried ?s \<le> poll inp * (3 * pp_max_remediations_per_type (si_policy inp))"
    using total_tried_le [OF assms(1)] assms(3) by (intro mult_left_mono) simp_all
  ultimately have "spent inp ?s < round_limit inp"
    by (simp add: spent_def round_limit_def algebra_simps)
  then have "poll inp div poll inp \<le> resolver_rounds_left inp ?s"
    unfolding resolver_rounds_left_def using assms(3) by (intro zdiv_mono1) simp_all
  then show "1 \<le> resolver_rounds_left inp ?s" using assms(3) by simp
  have "round_limit inp - spent inp ?s' + poll inp - 1 = (round_limit inp - spent inp ?s + poll inp - 1) + (- 1) * poll inp"
    using n by (simp add: next_round_def)
  then show "resolver_rounds_left inp ?s' = resolver_rounds_left inp ?s - 1"
    unfolding resolver_rounds_left_def using assms(3) by (simp only: div_mult_self1)
qed

interpretation resolver_clocked: measured_machine "resolver_round env inp started"
  "\<lambda>c. kept env inp (snd c) \<and> clock_ok env \<and> 1 \<le> poll inp \<and> started = ev_now env []"
  "\<lambda>c. nat (resolver_rounds_left inp (snd c))"
proof
  fix c c'
  assume "kept env inp (snd c) \<and> clock_ok env \<and> 1 \<le> poll inp \<and> started = ev_now env []"
    and "resolver_round env inp started c c'"
  then show "kept env inp (snd c') \<and> clock_ok env \<and> 1 \<le> poll inp \<and> started = ev_now env []"
    and "nat (resolver_rounds_left inp (snd c')) < nat (resolver_rounds_left inp (snd c))"
    using resolver_rounds.inv_step [of env inp c started c'] resolver_round_spent [of env inp c c'] by auto
qed

lemma resolver_loop_continues:
  "resolver_loop env inp started rounds n s = (None, s') \<Longrightarrow>
     (resolver_round env inp started ^^ rounds) (n, s) (n + int rounds, s')"
proof (induction rounds arbitrary: n s)
  case (Suc rounds)
  then obtain s1 where s1: "iteration env inp started (n + 1) s = (Inr None, s1)"
    "resolver_loop env inp started rounds (n + 1) s1 = (None, s')"
    by (auto split: prod.splits sum.splits option.splits interruption.splits)
  then have "resolver_round env inp started (n, s) (n + 1, s1)" by (simp add: resolver_round_def)
  moreover have "(resolver_round env inp started ^^ rounds) (n + 1, s1) (n + int (Suc rounds), s')"
    using Suc.IH [OF s1(2)] by (simp add: algebra_simps)
  ultimately show ?case using relpowp_Suc_I2 by metis
qed simp

lemma hard_failure_kept:
  assumes "kept env inp s" and "hard_failure env inp s = (e, s')"
  shows "kept env inp s'"
proof -
  have "wp (publish_terminal env inp ''failed'' (PStr ''hard_execution_failure'')
      ''PR resolver stopped after a non-retryable execution failure.'' None) (\<lambda>_. kept env inp) (kept env inp)
      (s\<lparr> rw_state := ''failed'' \<rparr>)"
    using assms(1) by (intro wp_publish_terminal) simp_all
  then show ?thesis using assms(2)
    by (auto simp: hard_failure_def wp_def split: prod.splits sum.splits interruption.splits)
qed

lemma resolver_loop_kept:
  "kept env inp s \<Longrightarrow> resolver_loop env inp started rounds n s = (e, s') \<Longrightarrow> kept env inp s'"
proof (induction rounds arbitrary: n s)
  case (Suc rounds)
  note it = wp_iteration [OF Suc.prems(1), of started "n + 1"]
  show ?case
    using Suc.prems(2) Suc.IH wpD(1) [OF it] wpD(2) [OF it] hard_failure_kept
    by (auto simp: next_round_def split: prod.splits sum.splits option.splits interruption.splits)
qed simp

lemma kept_initial: "policy_in_bounds (si_policy inp) \<Longrightarrow> kept env inp (initial_run inp)"
  by (auto simp: kept_def initial_run_def policy_in_bounds_def REMEDIATION_SKILLS_def tried_def)

lemma resolver_run_kept:
  assumes "policy_in_bounds (si_policy inp)" and "resolver_run_for env inp rounds = (e, s)"
  shows "kept env inp s"
  using assms kept_initial resolver_loop_kept unfolding resolver_run_for_def
  by (metis Pair_inject kept_frame(3))

section \<open>An example\<close>

text \<open>A pull request that is reported ready, is merged, and whose merge is confirmed.\<close>

definition example_input :: start_input where
  "example_input = \<lparr> si_repository = ''o/r'', si_pr_number = 7, si_pr_url = ''u'', si_head_sha = None, si_base_sha = None,
     si_step_id = ''s'', si_correlation_id = ''c'', si_base_agent_request = [],
     si_policy = \<lparr> pp_poll_interval_seconds = 60, pp_max_elapsed_seconds = 7200, pp_max_finalize_attempts = 60,
       pp_max_remediations_per_type = 2, pp_max_identical_blockers = 2 \<rparr>,
     si_shadow_mode = False, si_owned_by_merge_automation_gate = False, si_implementation_identity = [],
     si_worker_capability = [], si_canary_mode = False \<rparr>"

fun example_reply :: "resolver_call \<Rightarrow> reply" where
  "example_reply (ReadSnapshot h k) = Returned (PDict [(''ready'', PBool True), (''headSha'', PStr ''abc'')])"
| "example_reply (VerifyMerged h k) = Returned (PDict [(''merged'', PBool True)])"
| "example_reply c = Returned PNone"

definition example_env :: resolver_env where
  "example_env = \<lparr> ev_reply = (\<lambda>l. example_reply), ev_now = (\<lambda>l. slept l * 1000000), ev_workflow_id = ''w'',
     ev_shared_core = True, ev_ci_precedence = True, ev_identity = True, ev_request_valid = (\<lambda>_. True) \<rparr>"

definition legacy_env :: resolver_env where
  "legacy_env = example_env\<lparr> ev_shared_core := False \<rparr>"

lemma example_clock: "clock_ok example_env"
  by (simp add: clock_ok_def example_env_def distrib_right)

definition call_names :: "call_log \<Rightarrow> py_str list" where
  "call_names l = map (\<lambda>(c, r). case c of ReadSnapshot h k \<Rightarrow> ''read'' | ClassifyGate d k \<Rightarrow> ''classify''
     | VerifyMerged h k \<Rightarrow> ''verify'' | FinalizeMerge h a k \<Rightarrow> ''merge'' | WriteTerminal t k \<Rightarrow> ''terminal '' @ tm_status t
     | _ \<Rightarrow> ''other'') l"

lemmas resolver_evaluation =
  resolver_run_for_def iteration_def judge_gate_def after_gate_def act_on_gate_def merge_branch_def charge_finalize_def
  finalize_merge_def finish_def publish_terminal_def terminal_payload_def read_snapshot_def gate_decision_def
  give_def modify_def then_step_def reading_def checked_step_def call_def set_state_def record_timeline_def

lemmas resolver_facts =
  example_input_def initial_run_def call_names_def Let_def mapping_or_empty_def text_field_def py_truthy_def py_text_def
  classify_pr_resolver_snapshot_def normalize_temporal_snapshot_def mapping_items_def temporal_snapshot_def
  classify_snapshot_def bool_field_def is_bool_field_def is_false_def DEGRADED_KINDS_def KNOWN_KINDS_def
  blocker_progress_signature_def blocker_parts_def core_transition_def reduce_resolver_state_def core_state_def
  core_policy_def merged_reply_def identity_payload_def IDENTITY_FIELDS_def is_text_or_none_def guard_def manual_review_def

lemma ready_stripped: "py_strip ''ready_to_merge'' = ''ready_to_merge''"
  by code_simp

lemma example_runs:
  "call_names (rw_log (snd (resolver_run_for example_env example_input 1)))
     = [''read'', ''classify'', ''merge'', ''verify'', ''terminal merged'']"
  "call_names (rw_log (snd (resolver_run_for legacy_env example_input 1)))
     = [''read'', ''classify'', ''merge'', ''verify'', ''terminal merged'']"
  by (simp_all add: resolver_evaluation resolver_facts example_env_def legacy_env_def ready_stripped)

lemma named_merge:
  assumes "call_names l = before @ ''merge'' # after"
  shows "\<exists>pre c r post. l = pre @ (c, r) # post \<and> is_merge c"
proof -
  obtain pre x post where l: "l = pre @ x # post" and "call_names [x] = [''merge'']"
    using assms unfolding call_names_def by (auto simp: map_eq_append_conv map_eq_Cons_conv)
  then have "is_merge (fst x)" by (cases x; cases "fst x") (simp_all add: call_names_def)
  then show ?thesis using l by (metis prod.collapse)
qed

lemma example_merges:
  "\<exists>pre c r post. rw_log (snd (resolver_run_for example_env example_input 1)) = pre @ (c, r) # post \<and> is_merge c"
  "\<exists>pre c r post. rw_log (snd (resolver_run_for legacy_env example_input 1)) = pre @ (c, r) # post \<and> is_merge c"
  by (rule named_merge [of _ "[''read'', ''classify'']" "[''verify'', ''terminal merged'']"], unfold example_runs, simp)+

section \<open>Properties\<close>

text \<open>
  C13. The resolver ends: when the clock of the workflow advances by every sleep it completes, the loop
  ends after at most the remediations the policy allows per kind, for each of the three kinds, and the
  polls that fit into the elapsed-time budget, whatever the remote host and the child workflows answer.
\<close>

theorem resolver_terminates:
  assumes "policy_in_bounds (si_policy inp)" and "clock_ok env"
    and "3 * pp_max_remediations_per_type (si_policy inp)
      + (pp_max_elapsed_seconds (si_policy inp) + poll inp - 1) div poll inp < int rounds"
  shows "\<exists>e s. resolver_run_for env inp rounds = (Some e, s)"
proof (rule ccontr)
  assume "\<nexists>e s. resolver_run_for env inp rounds = (Some e, s)"
  then obtain s where loop: "resolver_loop env inp (ev_now env []) rounds 0 (initial_run inp) = (None, s)"
    unfolding resolver_run_for_def by (metis not_Some_eq surj_pair)
  have poll: "1 \<le> poll inp" using assms(1) by (simp add: policy_in_bounds_def)
  have "rounds \<le> nat (resolver_rounds_left inp (initial_run inp))"
    using resolver_clocked.run_bounded [OF resolver_loop_continues [OF loop]] kept_initial assms(1,2) poll by force
  moreover have "spent inp (initial_run inp) = 0"
    by (simp add: spent_def initial_run_def total_tried_def tried_def REMEDIATION_SKILLS_def)
  then have "resolver_rounds_left inp (initial_run inp) = (pp_max_elapsed_seconds (si_policy inp) + poll inp - 1
      + 3 * pp_max_remediations_per_type (si_policy inp) * poll inp) div poll inp"
    by (simp add: resolver_rounds_left_def round_limit_def algebra_simps)
  moreover have "0 \<le> (pp_max_elapsed_seconds (si_policy inp) + poll inp - 1) div poll inp"
    using assms(1) poll by (simp add: pos_imp_zdiv_nonneg_iff policy_in_bounds_def)
  ultimately have "int rounds \<le> 3 * pp_max_remediations_per_type (si_policy inp)
      + (pp_max_elapsed_seconds (si_policy inp) + poll inp - 1) div poll inp"
    using assms(1) poll by (simp add: policy_in_bounds_def le_nat_iff)
  then show False using assms(3) by simp
qed

theorem resolver_terminates_witness:
  "\<exists>e s. resolver_run_for example_env example_input 127 = (Some e, s)"
  using resolver_terminates [of example_input example_env 127] example_clock
  by (simp add: example_input_def policy_in_bounds_def)

text \<open>
  C22. A run keeps its budgets, whatever is answered: no more merges are attempted and no more children
  of a skill are started than the policy allows, and in shadow mode there are none at all.
\<close>

theorem resolver_within_budgets:
  assumes "policy_in_bounds (si_policy inp)" and "resolver_run_for env inp rounds = (e, s)"
  shows "calls_of is_merge (rw_log s) \<le> pp_max_finalize_attempts (si_policy inp)
    \<and> (\<forall>skill. calls_of (runs_skill skill) (rw_log s) \<le> pp_max_remediations_per_type (si_policy inp))
    \<and> (si_shadow_mode inp \<longrightarrow> calls_of is_merge (rw_log s) = 0 \<and> (\<forall>skill. calls_of (runs_skill skill) (rw_log s) = 0))"
proof -
  have "kept env inp s" by (rule resolver_run_kept [OF assms])
  then show ?thesis unfolding kept_def by (meson order_trans)
qed

theorem resolver_within_budgets_witness:
  "calls_of is_merge (rw_log (snd (resolver_run_for example_env example_input 1))) \<le> 60
   \<and> (\<forall>skill. calls_of (runs_skill skill) (rw_log (snd (resolver_run_for example_env example_input 1))) \<le> 2)"
  using resolver_within_budgets [of example_input example_env 1 "fst (resolver_run_for example_env example_input 1)"
      "snd (resolver_run_for example_env example_input 1)"]
  by (simp add: example_input_def policy_in_bounds_def)

text \<open>
  C7. A run acts on evidence, whatever is answered. With the shared decision core, when it attempts a
  merge the snapshot it read last shows nothing against one, and when it starts a child that snapshot
  asks for its skill; without the core, the verdict that the gate gave on that very snapshot is that the
  pull request is ready to merge, or names the blocker the skill is for. The gate is always asked about
  the snapshot read last, and on both paths a merged pull request is reported only right after the
  remote host has confirmed the merge.
\<close>

theorem resolver_acts_on_evidence:
  assumes "policy_in_bounds (si_policy inp)" and "resolver_run_for env inp rounds = (e, s)"
    and "rw_log s = pre @ (c, r) # post"
  shows "(is_merge c \<longrightarrow>
      (if ev_shared_core env then \<exists>d. gate_of env pre = Some d \<and> rd_action d = ATTEMPT_MERGE
       else last_verdict pre = Some (PStr ''ready_to_merge'')))
    \<and> (\<forall>skill. runs_skill skill c \<longrightarrow>
      (if ev_shared_core env then \<exists>d. gate_of env pre = Some d \<and> rd_action d = RUN_REMEDIATION \<and> rd_remediation_skill d = Some skill
       else \<exists>k. last_verdict pre = Some (PStr k) \<and> map_of REMEDIATION_SKILLS k = Some skill))
    \<and> (\<forall>d k. c = ClassifyGate d k \<longrightarrow> d = last_snapshot pre)
    \<and> (\<forall>t k. c = WriteTerminal t k \<longrightarrow> tm_status t \<in> {''merged'', ''already_merged''} \<longrightarrow> confirmed pre)"
proof -
  have "all_allowed env (pre @ (c, r) # post)"
    using resolver_run_kept [OF assms(1,2)] assms(3) by (simp add: kept_def)
  then have "\<forall>i < length (pre @ (c, r) # post). allowed env (take i (pre @ (c, r) # post)) (fst ((pre @ (c, r) # post) ! i))"
    unfolding all_allowed_def .
  then have "allowed env pre c" by (force dest: spec [of _ "length pre"])
  then show ?thesis by (cases c) (simp_all add: merge_allowed_def skill_allowed_def)
qed

theorem resolver_acts_on_evidence_witness:
  "(\<exists>pre c r post. rw_log (snd (resolver_run_for example_env example_input 1)) = pre @ (c, r) # post \<and> is_merge c
     \<and> (\<exists>d. gate_of example_env pre = Some d \<and> rd_action d = ATTEMPT_MERGE))
   \<and> (\<exists>pre c r post. rw_log (snd (resolver_run_for legacy_env example_input 1)) = pre @ (c, r) # post \<and> is_merge c
     \<and> last_verdict pre = Some (PStr ''ready_to_merge''))"
proof -
  have policy: "policy_in_bounds (si_policy example_input)" by (simp add: example_input_def policy_in_bounds_def)
  obtain pre c r post where "rw_log (snd (resolver_run_for example_env example_input 1)) = pre @ (c, r) # post" "is_merge c"
    using example_merges(1) by blast
  moreover obtain pre' c' r' post' where
    "rw_log (snd (resolver_run_for legacy_env example_input 1)) = pre' @ (c', r') # post'" "is_merge c'"
    using example_merges(2) by blast
  moreover have "ev_shared_core example_env" "\<not> ev_shared_core legacy_env" by (simp_all add: example_env_def legacy_env_def)
  ultimately show ?thesis
    using resolver_acts_on_evidence [OF policy surjective_pairing [of "resolver_run_for example_env example_input 1"]]
      resolver_acts_on_evidence [OF policy surjective_pairing [of "resolver_run_for legacy_env example_input 1"]]
    by metis
qed

end
