(* ===== verification/Calendar.thy ===== *)
theory Calendar
  imports Prelude
begin

text \<open>
  The dates and time zones of Python's standard library that schedules are computed with: the
  proleptic Gregorian calendar of \<open>datetime\<close> as days since 0001-01-01, and \<open>zoneinfo\<close> as a first
  offset and a list of transitions. A moment is a number of microseconds since 0001-01-01T00:00.
\<close>

section \<open>Dates\<close>

definition is_leap :: "int \<Rightarrow> bool" where
  "is_leap y \<longleftrightarrow> y mod 4 = 0 \<and> (y mod 100 \<noteq> 0 \<or> y mod 400 = 0)"

definition days_before_year :: "int \<Rightarrow> int" where
  "days_before_year y = (y - 1) * 365 + (y - 1) div 4 - (y - 1) div 100 + (y - 1) div 400"

definition month_lengths :: "int list" where
  "month_lengths = [31, 28, 31, 30, 31, 30, 31, 31, 30, 31, 30, 31]"

definition days_in_month :: "bool \<Rightarrow> int \<Rightarrow> int" where
  "days_in_month leap m = month_lengths ! nat (m - 1) + of_bool (m = 2 \<and> leap)"

definition days_before_month :: "bool \<Rightarrow> int \<Rightarrow> int" where
  "days_before_month leap m = sum_list (take (nat (m - 1)) month_lengths) + of_bool (m > 2 \<and> leap)"

definition valid_date :: "int \<Rightarrow> int \<Rightarrow> int \<Rightarrow> bool" where
  "valid_date y m d \<longleftrightarrow> 1 \<le> y \<and> 1 \<le> m \<and> m \<le> 12 \<and> 1 \<le> d \<and> d \<le> days_in_month (is_leap y) m"

text \<open>The number of a date, counted from zero, and the date of a number (\<open>_ymd2ord\<close>, \<open>_ord2ymd\<close>).\<close>

definition date_number :: "int \<Rightarrow> int \<Rightarrow> int \<Rightarrow> int" where
  "date_number y m d = days_before_year y + days_before_month (is_leap y) m + d - 1"

definition month_day :: "bool \<Rightarrow> int \<Rightarrow> int \<times> int" where
  "month_day leap n =
     (let month = (n + 50) div 32;
          preceding = days_before_month leap month
      in if n < preceding
         then (month - 1, n - (preceding - days_in_month leap (month - 1)) + 1)
         else (month, n - preceding + 1))"

definition date_of :: "int \<Rightarrow> int \<times> int \<times> int" where
  "date_of n0 =
     (let n400 = n0 div 146097; n = n0 mod 146097;
          n100 = n div 36524; n = n mod 36524;
          n4 = n div 1461; n = n mod 1461;
          n1 = n div 365; n = n mod 365;
          year = n400 * 400 + 1 + n100 * 100 + n4 * 4 + n1
      in if n1 = 4 \<or> n100 = 4 then (year - 1, 12, 31)
         else (year, month_day (n1 = 3 \<and> (n4 \<noteq> 24 \<or> n100 = 3)) n))"

section \<open>Time zones\<close>

text \<open>
  A zone has an offset in seconds before its first transition, and its transitions: the second, in
  UTC, of each and the offset from then on. \<open>zoneinfo\<close> reads a time of the local clock against the
  transitions moved to local time: by the larger of the two offsets, or, with \<open>fold\<close> set, by the smaller.
\<close>

record zone =
  zn_base :: int
  zn_transitions :: "(int \<times> int) list"

fun in_force :: "int \<Rightarrow> (int \<times> int) list \<Rightarrow> int \<Rightarrow> int" where
  "in_force off [] ts = off"
| "in_force off ((u, off') # tr) ts = (if u \<le> ts then in_force off' tr ts else off)"

fun wall_transitions :: "bool \<Rightarrow> int \<Rightarrow> (int \<times> int) list \<Rightarrow> (int \<times> int) list" where
  "wall_transitions second off [] = []"
| "wall_transitions second off ((u, off') # tr) =
     (u + (if second then min off off' else max off off'), off') # wall_transitions second off' tr"

text \<open>The last transition before a moment, and whether that moment repeats an hour of the local clock.\<close>

fun last_transition :: "int \<Rightarrow> (int \<times> int) list \<Rightarrow> int \<Rightarrow> int" where
  "last_transition u0 [] ts = u0"
| "last_transition u0 ((u, off') # tr) ts = (if u \<le> ts then last_transition u tr ts else u0)"

fun fold_at :: "int \<Rightarrow> (int \<times> int) list \<Rightarrow> int \<Rightarrow> bool" where
  "fold_at off [] ts = False"
| "fold_at off ((u, off') # tr) ts =
     (if ts < u then False
      else if tr \<noteq> [] \<and> fst (hd tr) \<le> ts then fold_at off' tr ts
      else ts - u < off - off')"

text \<open>A local time of the clock on the wall, with the flag that tells the second pass of a repeated hour.\<close>

record local_time =
  lt_wall :: int
  lt_fold :: bool

definition from_utc :: "zone \<Rightarrow> int \<Rightarrow> local_time" where
  "from_utc z t =
     (let ts = t div 1000000
      in \<lparr> lt_wall = t + in_force (zn_base z) (zn_transitions z) ts * 1000000,
           lt_fold = fold_at (zn_base z) (zn_transitions z) ts \<rparr>)"

definition utcoffset :: "zone \<Rightarrow> local_time \<Rightarrow> int" where
  "utcoffset z lt =
     in_force (zn_base z) (wall_transitions (lt_fold lt) (zn_base z) (zn_transitions z)) (lt_wall lt div 1000000)"

definition to_utc :: "zone \<Rightarrow> local_time \<Rightarrow> int" where
  "to_utc z lt = lt_wall lt - utcoffset z lt * 1000000"

text \<open>
  The period that a transition repeats or skips on the clock ends before that of the next begins.
\<close>

fun spaced :: "int \<Rightarrow> (int \<times> int) list \<Rightarrow> bool" where
  "spaced off ((u, off') # (v, off'') # tr) =
     (u + max off off' < v + min off' off'' \<and> spaced off' ((v, off'') # tr))"
| "spaced off tr = True"

definition zone_ok :: "zone \<Rightarrow> bool" where
  "zone_ok z \<longleftrightarrow> spaced (zn_base z) (zn_transitions z)"

section \<open>Facts on dates\<close>

lemma div_less_iff:
  fixes a k u :: int
  assumes "0 < k"
  shows "a div k < u \<longleftrightarrow> a < u * k"
proof -
  have "a div k < u \<longleftrightarrow> \<not> u \<le> a div k" by auto
  also have "u \<le> a div k \<longleftrightarrow> u * k \<le> a"
  proof
    assume "u \<le> a div k"
    then have "u * k \<le> a div k * k" using assms by (simp add: mult_right_mono)
    also have "\<dots> \<le> a" using div_mult_mod_eq [of a k] pos_mod_sign [OF assms, of a] by linarith
    finally show "u * k \<le> a" .
  next
    assume "u * k \<le> a"
    then show "u \<le> a div k" using zdiv_mono1 [of "u * k" a k] assms by simp
  qed
  finally show ?thesis by auto
qed

lemma month_cases:
  assumes "1 \<le> m" and "m \<le> (12 :: int)"
  shows "m \<in> {1, 2, 3, 4, 5, 6, 7, 8, 9, 10, 11, 12}"
  using assms by simp presburger

lemma month_day_table:
  "list_all (\<lambda>n. list_all (\<lambda>leap. case month_day leap n of (m, d) \<Rightarrow>
      1 \<le> m \<and> m \<le> 12 \<and> 1 \<le> d \<and> d \<le> days_in_month leap m \<and> days_before_month leap m + d - 1 = n)
    [True, False]) [0..364]"
  by code_simp

lemma month_day_correct:
  assumes "0 \<le> n" and "n < 365" and "month_day leap n = (m, d)"
  shows "1 \<le> m \<and> m \<le> 12 \<and> 1 \<le> d \<and> d \<le> days_in_month leap m \<and> days_before_month leap m + d - 1 = n"
proof -
  have "n \<in> set [0..364]" using assms by simp
  with month_day_table [unfolded list_all_iff] have "\<forall>leap \<in> set [True, False]. case month_day leap n of (m, d) \<Rightarrow>
      1 \<le> m \<and> m \<le> 12 \<and> 1 \<le> d \<and> d \<le> days_in_month leap m \<and> days_before_month leap m + d - 1 = n"
    by (rule bspec)
  then show ?thesis using assms(3) by (cases leap) simp_all
qed

text \<open>The digits of a year in periods of four hundred, hundred, four and one years.\<close>

lemma modulus_digit:
  fixes q r k :: int
  assumes "0 \<le> r" and "r < k"
  shows "(k * q + r + 1) mod k = 0 \<longleftrightarrow> r + 1 = k"
proof (cases "r + 1 = k")
  case True
  then have "k * q + r + 1 = k * (q + 1)" by (simp add: algebra_simps)
  then show ?thesis using True by simp
next
  case False
  then have "(k * q + r + 1) mod k = r + 1" using assms by (intro int_mod_pos_eq [of _ _ q]) simp_all
  then show ?thesis using False assms by simp
qed

lemma year_digits:
  fixes a b c e :: int
  assumes "0 \<le> b" "b \<le> 3" "0 \<le> c" "c \<le> 24" "0 \<le> e" "e \<le> 3"
  shows "days_before_year (400 * a + 100 * b + 4 * c + e + 1) = 146097 * a + 36524 * b + 1461 * c + 365 * e"
    and "is_leap (400 * a + 100 * b + 4 * c + e + 1) \<longleftrightarrow> e = 3 \<and> (c \<noteq> 24 \<or> b = 3)"
proof -
  let ?y = "400 * a + 100 * b + 4 * c + e"
  have "?y div 4 = 100 * a + 25 * b + c" by (rule int_div_pos_eq [of _ _ _ e]) (use assms in simp_all)
  moreover have "?y div 100 = 4 * a + b"
    by (rule int_div_pos_eq [of _ _ _ "4 * c + e"]) (use assms in simp_all)
  moreover have "?y div 400 = a"
    by (rule int_div_pos_eq [of _ _ _ "100 * b + 4 * c + e"]) (use assms in simp_all)
  ultimately show "days_before_year (?y + 1) = 146097 * a + 36524 * b + 1461 * c + 365 * e"
    by (simp add: days_before_year_def)
  have m: "(?y + 1) mod k = 0 \<longleftrightarrow> r + 1 = k" if "0 \<le> r" "r < k" "?y = k * q + r" for k q r
    using modulus_digit [OF that(1,2), of q] that(3) by simp
  have "(?y + 1) mod 4 = 0 \<longleftrightarrow> e + 1 = 4"
    by (rule m [of _ _ "100 * a + 25 * b + c"]) (use assms in simp_all)
  moreover have "(?y + 1) mod 100 = 0 \<longleftrightarrow> 4 * c + e + 1 = 100"
    by (rule m [of _ _ "4 * a + b"]) (use assms in simp_all)
  moreover have "(?y + 1) mod 400 = 0 \<longleftrightarrow> 100 * b + 4 * c + e + 1 = 400"
    by (rule m [of _ _ a]) (use assms in simp_all)
  moreover have "4 * c + e + 1 = 100 \<longleftrightarrow> c = 24 \<and> e = 3"
    and "100 * b + 4 * c + e + 1 = 400 \<longleftrightarrow> b = 3 \<and> c = 24 \<and> e = 3"
    using assms by arith+
  ultimately show "is_leap (?y + 1) \<longleftrightarrow> e = 3 \<and> (c \<noteq> 24 \<or> b = 3)" unfolding is_leap_def by auto
qed

text \<open>The last day of a leap year is the one that the division by 365 overshoots.\<close>

lemma date_of_correct:
  assumes "0 \<le> n0" and "date_of n0 = (y, m, d)"
  shows "valid_date y m d" and "date_number y m d = n0"
proof -
  define a r1 where "a = n0 div 146097" and "r1 = n0 mod 146097"
  define b r2 where "b = r1 div 36524" and "r2 = r1 mod 36524"
  define c r3 where "c = r2 div 1461" and "r3 = r2 mod 1461"
  define e r4 where "e = r3 div 365" and "r4 = r3 mod 365"
  have eqs: "n0 = 146097 * a + r1" "r1 = 36524 * b + r2" "r2 = 1461 * c + r3" "r3 = 365 * e + r4"
    by (simp_all add: a_def r1_def b_def r2_def c_def r3_def e_def r4_def)
  have r1: "0 \<le> r1" "r1 < 146097" by (simp_all add: r1_def)
  have r2: "0 \<le> r2" "r2 < 36524" by (simp_all add: r2_def)
  have r3: "0 \<le> r3" "r3 < 1461" by (simp_all add: r3_def)
  have r4: "0 \<le> r4" "r4 < 365" by (simp_all add: r4_def)
  have bounds: "0 \<le> b" "b \<le> 4" "0 \<le> c" "c \<le> 24" "0 \<le> e" "e \<le> 4" "0 \<le> a"
    using r1 r2 r3 r4 eqs assms(1) by linarith+
  have date: "(if e = 4 \<or> b = 4 then (a * 400 + 1 + b * 100 + c * 4 + e - 1, 12, 31)
      else (a * 400 + 1 + b * 100 + c * 4 + e, month_day (e = 3 \<and> (c \<noteq> 24 \<or> b = 3)) r4)) = (y, m, d)"
    using assms(2) unfolding date_of_def Let_def a_def b_def c_def e_def r4_def r3_def r2_def r1_def .
  have "valid_date y m d \<and> date_number y m d = n0"
  proof (cases "e = 4 \<or> b = 4")
    case True
    have dec: "days_in_month leap 12 = 31" "days_before_month leap 12 = 334 + of_bool leap" for leap
      by (simp_all add: days_in_month_def days_before_month_def month_lengths_def)
    have over: "b = 4 \<Longrightarrow> c = 0 \<and> e = 0 \<and> r4 = 0" "e = 4 \<Longrightarrow> r4 = 0"
      using eqs r1 r2 r3 r4 bounds by linarith+
    have md: "m = 12" "d = 31" and y: "y = 400 * a + 100 * b + 4 * c + e" using date True by (simp_all split: if_splits)
    obtain b' c' where digits: "b' \<in> {0..3}" "c' \<in> {0..24}" "y = 400 * a + 100 * b' + 4 * c' + 3 + 1"
      "n0 = 146097 * a + 36524 * b' + 1461 * c' + 1460" "c' \<noteq> 24 \<or> b' = 3"
    proof (cases "b = 4")
      case True
      then show thesis using that [of 3 24] over(1) y eqs by simp
    next
      case False
      moreover have "c \<noteq> 24" if "e = 4" using that eqs r2 r4 by linarith
      ultimately show thesis using that [of b c] True over(2) y eqs bounds by simp
    qed
    have "days_before_year y = 146097 * a + 36524 * b' + 1461 * c' + 1095" and "is_leap y"
      using year_digits [of b' c' 3 a] digits by simp_all
    then show ?thesis using digits bounds(7) by (simp add: md dec valid_date_def date_number_def)
  next
    case False
    then have le: "b \<le> 3" "e \<le> 3" using bounds by simp_all
    note digits = year_digits [OF bounds(1) le(1) bounds(3,4,5) le(2), of a]
    have y: "y = 400 * a + 100 * b + 4 * c + e + 1" using date False by (simp split: if_splits)
    moreover from this have "month_day (is_leap y) r4 = (m, d)"
      using date False digits(2) by (simp split: if_splits)
    ultimately have "month_day (is_leap y) r4 = (m, d)" by simp
    then show ?thesis
      using month_day_correct [OF r4, of "is_leap y" m d] digits(1) bounds eqs y
      by (simp add: valid_date_def date_number_def)
  qed
  then show "valid_date y m d" "date_number y m d = n0" by simp_all
qed


text \<open>Years and months follow each other without gap, so a number has one date.\<close>

lemma inclusion_exclusion:
  "(r \<Longrightarrow> q) \<Longrightarrow> (q \<Longrightarrow> p) \<Longrightarrow> of_bool (p \<and> (\<not> q \<or> r)) = of_bool p - of_bool q + (of_bool r :: int)"
  by (cases p; cases q; cases r) simp_all

lemma year_length: "days_before_year (y + 1) = days_before_year y + 365 + of_bool (is_leap y)"
proof -
  have step: "y div k = (y - 1) div k + of_bool (y mod k = 0)" if "1 < k" for k :: int
  proof -
    define q r where "q = (y - 1) div k" and "r = (y - 1) mod k"
    then have "y - 1 = k * q + r" "0 \<le> r" "r < k" using that by simp_all
    then have y: "y = k * q + r + 1" and r: "0 \<le> r" "r < k" by simp_all
    have "(y - 1) div k = q" using y r by (intro int_div_pos_eq [of _ _ _ r]) simp_all
    moreover have "y div k = q + of_bool (r + 1 = k)"
      using y r by (intro int_div_pos_eq [of _ _ _ "if r + 1 = k then 0 else r + 1"]) (auto simp: algebra_simps)
    ultimately show ?thesis using modulus_digit [OF r, of q] y by simp
  qed
  have "100 dvd y" if "400 dvd y" by (rule dvd_trans [OF _ that]) simp
  moreover have "4 dvd y" if "100 dvd y" by (rule dvd_trans [OF _ that]) simp
  ultimately have leap: "of_bool (is_leap y) =
      of_bool (y mod 4 = 0) - of_bool (y mod 100 = 0) + (of_bool (y mod 400 = 0) :: int)"
    unfolding is_leap_def dvd_eq_mod_eq_0 [symmetric] by (rule inclusion_exclusion)
  define p q where "p k = (y - 1) div k" and "q k = (of_bool (y mod k = 0) :: int)" for k
  have "days_before_year (y + 1) = y * 365 + (p 4 + q 4) - (p 100 + q 100) + (p 400 + q 400)"
  proof -
    have pq: "y div k = p k + q k" if "1 < k" for k using step [OF that] by (simp only: p_def q_def)
    have "y div 4 = p 4 + q 4" "y div 100 = p 100 + q 100" "y div 400 = p 400 + q 400" by (rule pq, simp)+
    then show ?thesis by (simp only: days_before_year_def add_diff_cancel_right')
  qed
  moreover have "days_before_year y = (y - 1) * 365 + p 4 - p 100 + p 400"
    by (simp only: days_before_year_def p_def)
  moreover have "of_bool (is_leap y) = q 4 - q 100 + q 400" by (simp only: leap q_def)
  ultimately show ?thesis by (simp only:) (simp add: algebra_simps)
qed

lemma days_before_year_add: "days_before_year y + 365 * int k \<le> days_before_year (y + int k)"
  and days_before_year_add_le: "days_before_year (y + int k) \<le> days_before_year y + 366 * int k"
proof (induction k)
  case (Suc k)
  have "days_before_year (y + int (Suc k)) = days_before_year (y + int k) + 365 + of_bool (is_leap (y + int k))"
    using year_length [of "y + int k"] by (simp add: ac_simps)
  then show "days_before_year y + 365 * int (Suc k) \<le> days_before_year (y + int (Suc k))"
    and "days_before_year (y + int (Suc k)) \<le> days_before_year y + 366 * int (Suc k)"
    using Suc by (simp_all add: of_bool_def split: if_splits)
qed simp_all

lemma month_table:
  "list_all (\<lambda>leap. list_all (\<lambda>m. days_before_month leap m + days_in_month leap m \<le> 365 + of_bool leap
      \<and> 0 \<le> days_before_month leap m \<and> days_in_month leap m \<le> 31
      \<and> list_all (\<lambda>m'. m < m' \<longrightarrow> days_before_month leap m + days_in_month leap m \<le> days_before_month leap m')
        [1..12]) [1..12]) [True, False]"
  by code_simp

lemma month_order:
  assumes "1 \<le> m" and "m < m'" and "m' \<le> 12"
  shows "days_before_month leap m + days_in_month leap m \<le> days_before_month leap m'"
proof -
  have "leap \<in> set [True, False]" "m \<in> set [1..12]" "m' \<in> set [1..12]" using assms by simp_all
  with month_table assms(2) show ?thesis unfolding list_all_iff by blast
qed

lemma month_bounds:
  assumes "1 \<le> m" and "m \<le> 12"
  shows "days_before_month leap m + days_in_month leap m \<le> 365 + of_bool leap"
    and "0 \<le> days_before_month leap m" and "days_in_month leap m \<le> 31"
proof -
  have "leap \<in> set [True, False]" "m \<in> set [1..12]" using assms by simp_all
  then show "days_before_month leap m + days_in_month leap m \<le> 365 + of_bool leap"
    and "0 \<le> days_before_month leap m" and "days_in_month leap m \<le> 31"
    using month_table unfolding list_all_iff by blast+
qed

lemma date_number_in_year:
  assumes "valid_date y m d"
  shows "days_before_year y \<le> date_number y m d" and "date_number y m d < days_before_year (y + 1)"
  using assms month_bounds [of m "is_leap y"]
  by (simp_all add: valid_date_def date_number_def year_length)

lemma days_before_year_mono: "y \<le> y' \<Longrightarrow> days_before_year y \<le> days_before_year y'"
  using days_before_year_add [of y "nat (y' - y)"] by simp

lemma date_number_inject:
  assumes "valid_date y m d" and "valid_date y' m' d'" and eq: "date_number y m d = date_number y' m' d'"
  shows "y = y' \<and> m = m' \<and> d = d'"
proof -
  have same: "\<not> v < v'" if "valid_date v k i" "valid_date v' k' i'" "date_number v k i = date_number v' k' i'"
    for v k i v' k' i'
    using date_number_in_year [OF that(1)] date_number_in_year [OF that(2)] that(3)
      days_before_year_mono [of "v + 1" v'] by linarith
  have y: "y = y'" using same [OF assms] same [OF assms(2,1) eq [symmetric]] by simp
  have "\<not> m < m'" "\<not> m' < m"
    using assms month_order [of m m' "is_leap y"] month_order [of m' m "is_leap y"]
    by (auto simp: valid_date_def date_number_def y)
  then show ?thesis using eq y by (simp add: date_number_def)
qed

lemma date_of_number:
  assumes "valid_date y m d"
  shows "date_of (date_number y m d) = (y, m, d)"
proof -
  obtain y' m' d' where date: "date_of (date_number y m d) = (y', m', d')" by (metis prod_cases3)
  have "days_before_year 1 = 0" by (simp add: days_before_year_def)
  then have "0 \<le> date_number y m d"
    using date_number_in_year(1) [OF assms] days_before_year_mono [of 1 y] assms by (simp add: valid_date_def)
  then show ?thesis using date_of_correct [OF _ date] date_number_inject [OF assms] date by metis
qed


section \<open>Facts on time zones\<close>

lemma spaced_Cons: "spaced off ((u, off') # tr) \<Longrightarrow> spaced off' tr"
  by (cases tr) auto

lemma in_force_first: "ts < u \<Longrightarrow> in_force off ((u, off') # tr) ts = off"
  by simp

lemma transition_passed:
  "spaced off ((u, off') # tr) \<Longrightarrow> u \<le> ts \<Longrightarrow> u + min off off' \<le> ts + in_force off' tr ts"
proof (induction tr arbitrary: off u off')
  case (Cons x tr)
  obtain v off'' where x: "x = (v, off'')" by (cases x)
  show ?case
  proof (cases "v \<le> ts")
    case True
    then have "v + min off' off'' \<le> ts + in_force off'' tr ts" using Cons x spaced_Cons by blast
    then show ?thesis using True Cons.prems(1) x by auto
  qed (use Cons.prems(2) x in auto)
qed simp

text \<open>A local time is read with an offset whose transition it has passed.\<close>

lemma wall_passed:
  "spaced off ((u, off') # tr) \<Longrightarrow> u + off' \<le> ws \<Longrightarrow>
     \<exists>v \<in> insert u (fst ` set tr). u \<le> v \<and> v \<le> ws - in_force off' (wall_transitions False off' tr) ws"
proof (induction tr arbitrary: off u off')
  case (Cons x tr)
  obtain v off'' where x: "x = (v, off'')" by (cases x)
  have "u < v" using Cons.prems(1) x by auto
  show ?case
  proof (cases "v + max off' off'' \<le> ws")
    case True
    then have "v + off'' \<le> ws" by auto
    then obtain v' where "v' \<in> insert v (fst ` set tr)" "v \<le> v'"
      "v' \<le> ws - in_force off'' (wall_transitions False off'' tr) ws"
      using Cons.IH [of off' v off''] Cons.prems(1) x spaced_Cons by blast
    then show ?thesis using True x \<open>u < v\<close> by auto
  qed (use Cons.prems(2) x in auto)
qed simp

lemma wall_lookup:
  assumes "spaced off tr" and "ts + in_force off tr ts \<le> ws"
  defines "found \<equiv> in_force off (wall_transitions False off tr) ws"
  shows "found = in_force off tr ts
    \<or> (\<exists>u \<in> fst ` set tr. ts < u \<and> u \<le> ws - found)
    \<or> fold_at off tr ts \<and> ws - found < last_transition u0 tr ts"
  using assms(1,2) unfolding found_def
proof (induction tr arbitrary: off u0)
  case (Cons x tr)
  obtain u off' where x: "x = (u, off')" by (cases x)
  show ?case
  proof (cases "u \<le> ts")
    case False
    show ?thesis
    proof (cases "u + max off off' \<le> ws")
      case True
      then have "u + off' \<le> ws" by auto
      then show ?thesis using wall_passed Cons.prems(1) True False x by fastforce
    qed (use False x in auto)
  next
    case le: True
    show ?thesis
    proof (cases "u + max off off' \<le> ws")
      case True
      have "\<not> fold_at off' tr ts" if "\<not> (tr \<noteq> [] \<and> fst (hd tr) \<le> ts)"
        using that by (cases tr) auto
      then show ?thesis using Cons.IH [of off' u] Cons.prems spaced_Cons le True x by auto
    next
      case False
      have "\<not> (tr \<noteq> [] \<and> fst (hd tr) \<le> ts)"
      proof (cases tr)
        case (Cons y tr')
        obtain v off'' where y: "y = (v, off'')" by (cases y)
        have "v + min off' off'' \<le> ts + in_force off'' tr' ts" if "v \<le> ts"
          using transition_passed [OF _ that] spaced_Cons Cons.prems(1) x y Cons by blast
        then show ?thesis using Cons.prems x y Cons False le by auto
      qed simp
      moreover from this have "in_force off' tr ts = off'" "last_transition u tr ts = u"
        by (cases tr; auto)+
      ultimately show ?thesis using False le Cons.prems(2) x by auto
    qed
  qed
qed simp

end
