(* ===== verification/Cron.thy ===== *)
theory Cron
  imports Plan_Values Calendar
begin

text \<open>
  The schedules of recurring workflows, \<^verbatim>\<open>moonmind/workflows/recurring/cron.py\<close>: the parser of cron
  expressions, the match of a local time, and the scan for the next occurrence. The time zone
  database is a parameter that gives a zone, does not know the name, or raises another error.
\<close>

section \<open>Data\<close>

record cron_field =
  cf_values :: "int set"
  cf_wildcard :: bool

record cron_spec =
  cs_minute :: cron_field
  cs_hour :: cron_field
  cs_day :: cron_field
  cs_month :: cron_field
  cs_weekday :: cron_field

text \<open>
  What may be raised: the error of the module, the \<open>ValueError\<close> of \<open>int\<close>, an error of the zone
  database other than an unknown name, and the \<open>OverflowError\<close> of dates outside the years 1 to 9999.
\<close>

datatype cron_error = CronExpressionError py_str | IntegerError | ZoneError | DateOverflow

type_synonym 'a parsed = "(cron_error, 'a) result"

datatype zone_lookup = ZoneFound zone | ZoneNotFound | ZoneRaises

text \<open>A \<open>datetime\<close> without \<open>tzinfo\<close>, or the moment that one with \<open>tzinfo\<close> stands for.\<close>

datatype moment = Naive int | Aware int

section \<open>Parsing\<close>

text \<open>\<open>int\<close> reads no superscript digit and no text of more than 4300 digits.\<close>

definition parse_int :: "py_str \<Rightarrow> py_str \<Rightarrow> int parsed" where
  "parse_int value field_name =
     (let txt = py_strip value in
      if txt = [] then Inl (CronExpressionError (field_name @ '' contains an empty value''))
      else if \<not> py_isdigit txt
      then Inl (CronExpressionError (field_name @ '' contains invalid token '' @ quoted txt))
      else if 4300 < length txt then Inl IntegerError
      else case py_int_str txt of None \<Rightarrow> Inl IntegerError | Some i \<Rightarrow> Inr i)"

definition split_once :: "char \<Rightarrow> py_str \<Rightarrow> py_str \<times> py_str" where
  "split_once c s = (takeWhile (\<lambda>x. x \<noteq> c) s, tl (dropWhile (\<lambda>x. x \<noteq> c) s))"

text \<open>The loop over \<open>range(start, end + 1, step)\<close>, with a step of at least one.\<close>

function add_range ::
  "int \<Rightarrow> int \<Rightarrow> py_str \<Rightarrow> bool \<Rightarrow> int \<Rightarrow> int \<Rightarrow> int \<Rightarrow> int set \<Rightarrow> int set parsed" where
  "add_range min_value max_value field_name allow_sunday_7 candidate stop step values =
     (if stop < candidate \<or> step < 1 then Inr values
      else let value = (if allow_sunday_7 \<and> candidate = 7 then 0 else candidate) in
        if value < min_value \<or> max_value < value
        then Inl (CronExpressionError (field_name @ '' value '' @ py_str_int candidate @ '' is out of range''))
        else add_range min_value max_value field_name allow_sunday_7 (candidate + step) stop step
               (insert value values))"
  by pat_completeness auto
termination
  by (relation "measure (\<lambda>(_, _, _, _, candidate, stop, _, _). nat (stop + 1 - candidate))") auto

declare add_range.simps [simp del]

definition parse_step :: "py_str \<Rightarrow> py_str \<Rightarrow> (py_str \<times> int) parsed" where
  "parse_step part field_name =
     (if CHR ''/'' \<in> set part
      then let (base_part, step_part) = split_once (CHR ''/'') part in
        bind_result (parse_int step_part field_name) (\<lambda>step.
          if step < 1 then Inl (CronExpressionError (field_name @ '' step must be >= 1''))
          else Inr (base_part, step))
      else Inr (part, 1))"

definition parse_bounds :: "int \<Rightarrow> int \<Rightarrow> py_str \<Rightarrow> py_str \<Rightarrow> (int \<times> int) parsed" where
  "parse_bounds min_value max_value field_name base =
     (if base = ''*'' then Inr (min_value, max_value)
      else if CHR ''-'' \<in> set base
      then let (start_part, end_part) = split_once (CHR ''-'') base in
        bind_result (parse_int start_part field_name) (\<lambda>start.
        bind_result (parse_int end_part field_name) (\<lambda>stop.
          if stop < start then Inl (CronExpressionError (field_name @ '' range start must be <= end''))
          else Inr (start, stop)))
      else bind_result (parse_int base field_name) (\<lambda>start. Inr (start, start)))"

definition parse_part :: "int \<Rightarrow> int \<Rightarrow> py_str \<Rightarrow> bool \<Rightarrow> py_str \<Rightarrow> int set \<Rightarrow> int set parsed" where
  "parse_part min_value max_value field_name allow_sunday_7 raw_part values =
     (let part = py_strip raw_part in
      if part = [] then Inl (CronExpressionError (field_name @ '' contains an empty list item''))
      else bind_result (parse_step part field_name) (\<lambda>(base_part, step).
        let stripped = py_strip base_part; base = (if stripped = [] then ''*'' else stripped) in
        bind_result (parse_bounds min_value max_value field_name base) (\<lambda>(start, stop).
          add_range min_value max_value field_name allow_sunday_7 start stop step values)))"

fun parse_parts :: "int \<Rightarrow> int \<Rightarrow> py_str \<Rightarrow> bool \<Rightarrow> py_str list \<Rightarrow> int set \<Rightarrow> int set parsed" where
  "parse_parts min_value max_value field_name allow_sunday_7 [] values = Inr values"
| "parse_parts min_value max_value field_name allow_sunday_7 (raw_part # parts) values =
     bind_result (parse_part min_value max_value field_name allow_sunday_7 raw_part values)
       (parse_parts min_value max_value field_name allow_sunday_7 parts)"

definition parse_field :: "int \<Rightarrow> int \<Rightarrow> py_str \<Rightarrow> bool \<Rightarrow> py_str \<Rightarrow> cron_field parsed" where
  "parse_field min_value max_value field_name allow_sunday_7 token =
     (let normalized = py_strip token in
      if normalized = [] then Inl (CronExpressionError (field_name @ '' is required''))
      else if normalized = ''*''
      then Inr \<lparr> cf_values = set [min_value..max_value], cf_wildcard = True \<rparr>
      else bind_result (parse_parts min_value max_value field_name allow_sunday_7
                          (py_split (CHR '','') normalized) {}) (\<lambda>values.
        if values = {} then Inl (CronExpressionError (field_name @ '' does not include any values''))
        else Inr \<lparr> cf_values = values, cf_wildcard = False \<rparr>))"

text \<open>\<open>str.split()\<close>: the texts between runs of white space.\<close>

function py_words :: "py_str \<Rightarrow> py_str list" where
  "py_words s =
     (let t = dropWhile py_isspace s in
      if t = [] then []
      else takeWhile (\<lambda>c. \<not> py_isspace c) t # py_words (dropWhile (\<lambda>c. \<not> py_isspace c) t))"
  by pat_completeness auto
termination
proof (relation "measure length")
  fix s t assume t: "t = dropWhile py_isspace s" "t \<noteq> []"
  then have "\<not> py_isspace (hd t)" using hd_dropWhile by blast
  then have "length (dropWhile (\<lambda>c. \<not> py_isspace c) t) \<le> length (tl t)"
    using t(2) by (cases t) (simp_all add: length_dropWhile_le)
  also have "\<dots> < length t" using t(2) by simp
  also have "\<dots> \<le> length s" by (simp add: t(1) length_dropWhile_le)
  finally show "(dropWhile (\<lambda>c. \<not> py_isspace c) t, s) \<in> measure length" by simp
qed simp

declare py_words.simps [simp del]

definition parse_cron_expression :: "py_str \<Rightarrow> cron_spec parsed" where
  "parse_cron_expression expression =
     (case py_words (py_strip expression) of
        [p0, p1, p2, p3, p4] \<Rightarrow>
          bind_result (parse_field 0 59 ''minute'' False p0) (\<lambda>minute.
          bind_result (parse_field 0 23 ''hour'' False p1) (\<lambda>hour.
          bind_result (parse_field 1 31 ''day'' False p2) (\<lambda>day.
          bind_result (parse_field 1 12 ''month'' False p3) (\<lambda>month.
          bind_result (parse_field 0 6 ''weekday'' True p4) (\<lambda>weekday.
            Inr \<lparr> cs_minute = minute, cs_hour = hour, cs_day = day, cs_month = month,
                  cs_weekday = weekday \<rparr>)))))
      | _ \<Rightarrow> Inl (CronExpressionError ''cron must contain exactly 5 fields''))"

definition validate_timezone_name :: "(py_str \<Rightarrow> zone_lookup) \<Rightarrow> py_str \<Rightarrow> py_str parsed" where
  "validate_timezone_name zones timezone_name =
     (let normalized = py_strip timezone_name in
      if normalized = [] then Inl (CronExpressionError ''timezone is required'')
      else case zones normalized of
        ZoneFound z \<Rightarrow> Inr normalized
      | ZoneNotFound \<Rightarrow> Inl (CronExpressionError (''timezone '' @ quoted normalized @ '' is invalid''))
      | ZoneRaises \<Rightarrow> Inl ZoneError)"

section \<open>Matching\<close>

text \<open>The fields of the local time, of which the day and the month are those of the calendar.\<close>

definition wall_day_number :: "int \<Rightarrow> int" where
  "wall_day_number w = w div 86400000000"

definition wall_minute :: "int \<Rightarrow> int" where
  "wall_minute w = w div 60000000 mod 60"

definition wall_hour :: "int \<Rightarrow> int" where
  "wall_hour w = w div 3600000000 mod 24"

definition wall_month :: "int \<Rightarrow> int" where
  "wall_month w = fst (snd (date_of (wall_day_number w)))"

definition wall_day :: "int \<Rightarrow> int" where
  "wall_day w = snd (snd (date_of (wall_day_number w)))"

text \<open>\<open>weekday()\<close> counts from Monday, the day of 0001-01-01.\<close>

definition wall_weekday :: "int \<Rightarrow> int" where
  "wall_weekday w = wall_day_number w mod 7"

definition matches_day :: "cron_spec \<Rightarrow> int \<Rightarrow> bool" where
  "matches_day spec w =
     (let day_match = wall_day w \<in> cf_values (cs_day spec);
          weekday_value = (wall_weekday w + 1) mod 7;
          weekday_match = weekday_value \<in> cf_values (cs_weekday spec)
      in if cf_wildcard (cs_day spec) \<and> cf_wildcard (cs_weekday spec) then True
         else if cf_wildcard (cs_day spec) then weekday_match
         else if cf_wildcard (cs_weekday spec) then day_match
         else day_match \<or> weekday_match)"

definition matches :: "cron_spec \<Rightarrow> int \<Rightarrow> bool" where
  "matches spec w \<longleftrightarrow> wall_minute w \<in> cf_values (cs_minute spec) \<and> wall_hour w \<in> cf_values (cs_hour spec)
     \<and> wall_month w \<in> cf_values (cs_month spec) \<and> matches_day spec w"

section \<open>The next occurrence\<close>

definition representable :: "int \<Rightarrow> bool" where
  "representable us \<longleftrightarrow> 0 \<le> us \<and> us < 3652059 * 86400000000"

definition in_range :: "'a \<Rightarrow> int \<Rightarrow> 'a parsed" where
  "in_range x us = (if representable us then Inr x else Inl DateOverflow)"

definition astimezone :: "zone \<Rightarrow> int \<Rightarrow> local_time parsed" where
  "astimezone tz t =
     (let lt = from_utc tz t in if representable t then in_range lt (lt_wall lt) else Inl DateOverflow)"

definition astimezone_utc :: "zone \<Rightarrow> local_time \<Rightarrow> int parsed" where
  "astimezone_utc tz lt = (let t = to_utc tz lt in in_range t t)"

text \<open>Adding a \<open>timedelta\<close> gives a \<open>datetime\<close> whose \<open>fold\<close> is zero; \<open>replace\<close> keeps it.\<close>

definition add_minute :: "local_time \<Rightarrow> local_time parsed" where
  "add_minute lt = (let w = lt_wall lt + 60000000 in in_range \<lparr> lt_wall = w, lt_fold = False \<rparr> w)"

definition floor_minute :: "local_time \<Rightarrow> local_time" where
  "floor_minute lt = lt\<lparr>lt_wall := lt_wall lt - lt_wall lt mod 60000000\<rparr>"

function scan_minutes :: "cron_spec \<Rightarrow> zone \<Rightarrow> int \<Rightarrow> local_time \<Rightarrow> int parsed" where
  "scan_minutes spec tz n cursor =
     (if n \<le> 0 then Inl (CronExpressionError ''unable to compute next occurrence for cron schedule'')
      else if matches spec (lt_wall cursor) then astimezone_utc tz cursor
      else bind_result (add_minute cursor) (scan_minutes spec tz (n - 1)))"
  by pat_completeness auto
termination by (relation "measure (\<lambda>(_, _, n, _). nat n)") auto

declare scan_minutes.simps [simp del]

definition default_max_minutes :: int where
  "default_max_minutes = 60 * 24 * 366 * 5"

definition compute_next_occurrence ::
  "(py_str \<Rightarrow> zone_lookup) \<Rightarrow> py_str \<Rightarrow> py_str \<Rightarrow> moment \<Rightarrow> int \<Rightarrow> int parsed" where
  "compute_next_occurrence zones cron timezone_name after max_minutes_to_scan =
     (case after of
        Naive us \<Rightarrow> Inl (CronExpressionError (quoted ''after'' @ '' must include timezone information''))
      | Aware t \<Rightarrow>
          bind_result (validate_timezone_name zones timezone_name) (\<lambda>tz_name.
          bind_result (parse_cron_expression cron) (\<lambda>spec.
            case zones tz_name of
              ZoneFound tz \<Rightarrow>
                bind_result (astimezone tz t) (\<lambda>cursor.
                bind_result (add_minute (floor_minute cursor)) (scan_minutes spec tz (max 1 max_minutes_to_scan)))
            | ZoneNotFound \<Rightarrow> Inl ZoneError
            | ZoneRaises \<Rightarrow> Inl ZoneError)))"


section \<open>Well-formed schedules\<close>

definition field_ok :: "int \<Rightarrow> int \<Rightarrow> cron_field \<Rightarrow> bool" where
  "field_ok lo hi f \<longleftrightarrow> cf_values f \<noteq> {} \<and> cf_values f \<subseteq> {lo..hi}
     \<and> (cf_wildcard f \<longrightarrow> cf_values f = {lo..hi})"

definition spec_ok :: "cron_spec \<Rightarrow> bool" where
  "spec_ok spec \<longleftrightarrow> field_ok 0 59 (cs_minute spec) \<and> field_ok 0 23 (cs_hour spec)
     \<and> field_ok 1 31 (cs_day spec) \<and> field_ok 1 12 (cs_month spec) \<and> field_ok 0 6 (cs_weekday spec)"

lemma add_range_ok:
  "add_range lo hi name sunday candidate stop step vs = Inr vs' \<Longrightarrow> vs \<subseteq> {lo..hi} \<Longrightarrow> vs' \<subseteq> {lo..hi}"
proof (induction lo hi name sunday candidate stop step vs rule: add_range.induct)
  case (1 lo hi name sunday candidate stop step vs)
  show ?case
  proof (cases "stop < candidate \<or> step < 1")
    case True
    then show ?thesis using "1.prems" by (simp add: add_range.simps)
  next
    case False
    define v where "v = (if sunday \<and> candidate = 7 then 0 else candidate)"
    have "lo \<le> v \<and> v \<le> hi"
      and "add_range lo hi name sunday (candidate + step) stop step (insert v vs) = Inr vs'"
      using "1.prems"(1) False unfolding add_range.simps [of lo hi name sunday candidate] v_def [symmetric] Let_def
      by (simp_all split: if_splits)
    then show ?thesis using "1.IH" [OF False v_def] "1.prems"(2) by simp
  qed
qed

lemma parse_part_ok:
  "parse_part lo hi name sunday raw vs = Inr vs' \<Longrightarrow> vs \<subseteq> {lo..hi} \<Longrightarrow> vs' \<subseteq> {lo..hi}"
  by (auto simp: parse_part_def Let_def bind_result_Inr_iff split: if_splits dest!: add_range_ok)

lemma parse_parts_ok:
  "parse_parts lo hi name sunday parts vs = Inr vs' \<Longrightarrow> vs \<subseteq> {lo..hi} \<Longrightarrow> vs' \<subseteq> {lo..hi}"
proof (induction parts arbitrary: vs)
  case (Cons raw parts)
  then show ?case using parse_part_ok by (fastforce simp: bind_result_Inr_iff)
qed simp

lemma parse_field_ok: "parse_field lo hi name sunday token = Inr f \<Longrightarrow> lo \<le> hi \<Longrightarrow> field_ok lo hi f"
  using parse_parts_ok [of lo hi name sunday "py_split (CHR '','') (py_strip token)" "{}"]
  by (auto simp: parse_field_def Let_def bind_result_Inr_iff field_ok_def subset_iff split: if_splits)

lemma parse_cron_ok: "parse_cron_expression expression = Inr spec \<Longrightarrow> spec_ok spec"
  by (auto simp: parse_cron_expression_def bind_result_Inr_iff spec_ok_def split: list.splits intro!: parse_field_ok)

section \<open>The scan\<close>

abbreviation minute_after :: "int \<Rightarrow> nat \<Rightarrow> int" where
  "minute_after w k \<equiv> w + int k * 60000000"

abbreviation first_pass :: "int \<Rightarrow> local_time" where
  "first_pass w \<equiv> \<lparr> lt_wall = w, lt_fold = False \<rparr>"

lemma scan_minutes_match:
  "0 < n \<Longrightarrow> matches spec w \<Longrightarrow> scan_minutes spec tz n (first_pass w) = astimezone_utc tz (first_pass w)"
  by (simp add: scan_minutes.simps)

lemma scan_minutes_step:
  "0 < n \<Longrightarrow> \<not> matches spec w \<Longrightarrow> representable (w + 60000000) \<Longrightarrow>
     scan_minutes spec tz n (first_pass w) = scan_minutes spec tz (n - 1) (first_pass (w + 60000000))"
  by (subst scan_minutes.simps) (simp add: add_minute_def in_range_def Let_def)

lemma scan_minutes_found:
  assumes "scan_minutes spec tz n (first_pass w) = Inr t"
  shows "\<exists>k. matches spec (minute_after w k) \<and> (\<forall>j < k. \<not> matches spec (minute_after w j))
    \<and> t = to_utc tz (first_pass (minute_after w k))"
  using assms
proof (induction "nat n" arbitrary: n w)
  case (Suc m)
  show ?case
  proof (cases "matches spec w")
    case True
    then have "t = to_utc tz (first_pass (minute_after w 0))"
      using Suc by (simp add: scan_minutes_match astimezone_utc_def in_range_def Let_def split: if_splits)
    then show ?thesis using True by (intro exI [of _ 0]) simp
  next
    case False
    then have "scan_minutes spec tz (n - 1) (first_pass (w + 60000000)) = Inr t"
      using Suc.prems by (subst (asm) scan_minutes.simps)
        (simp add: bind_result_Inr_iff add_minute_def in_range_def Let_def split: if_splits)
    then obtain k where k: "matches spec (minute_after (w + 60000000) k)"
        "\<forall>j < k. \<not> matches spec (minute_after (w + 60000000) j)"
        "t = to_utc tz (first_pass (minute_after (w + 60000000) k))"
      using Suc.hyps(1) [of "n - 1"] Suc.hyps(2) by fastforce
    have shift: "minute_after (w + 60000000) j = minute_after w (Suc j)" for j by simp
    have "\<not> matches spec (minute_after w j)" if "j < Suc k" for j
      using that k(2) False by (cases j) (simp_all only: shift, simp_all)
    then show ?thesis using k(1,3) unfolding shift by blast
  qed
qed (simp add: scan_minutes.simps)

lemma scan_minutes_returns:
  assumes "matches spec (minute_after w k)" and "int k < n"
    and "\<forall>j \<le> k. representable (minute_after w j) \<and> representable (to_utc tz (first_pass (minute_after w j)))"
  shows "\<exists>t. scan_minutes spec tz n (first_pass w) = Inr t"
  using assms
proof (induction k arbitrary: n w)
  case 0
  then show ?case by (simp add: scan_minutes_match astimezone_utc_def in_range_def Let_def)
next
  case (Suc k)
  have shift: "minute_after (w + 60000000) j = minute_after w (Suc j)" for j by simp
  have rep: "representable (w + 60000000)" "representable w \<and> representable (to_utc tz (first_pass w))"
    using Suc.prems(3) [rule_format, of 1] Suc.prems(3) [rule_format, of 0] by simp_all
  show ?case
  proof (cases "matches spec w")
    case True
    then show ?thesis
      using Suc.prems(2) rep(2) by (simp add: scan_minutes_match astimezone_utc_def in_range_def Let_def)
  next
    case False
    have "\<exists>t. scan_minutes spec tz (n - 1) (first_pass (w + 60000000)) = Inr t"
      by (rule Suc.IH) (use Suc.prems in \<open>simp_all only: shift, auto\<close>)
    then show ?thesis using scan_minutes_step [OF _ False rep(1)] Suc.prems(2) by simp
  qed
qed

lemma scan_minutes_exhausted:
  assumes "\<forall>j < n. \<not> matches spec (minute_after w j)" and "\<forall>j \<le> n. representable (minute_after w j)"
  shows "scan_minutes spec tz (int n) (first_pass w)
    = Inl (CronExpressionError ''unable to compute next occurrence for cron schedule'')"
  using assms
proof (induction n arbitrary: w)
  case (Suc n)
  have shift: "minute_after (w + 60000000) j = minute_after w (Suc j)" for j by simp
  have "\<not> matches spec w" "representable (w + 60000000)"
    using Suc.prems(1) [rule_format, of 0] Suc.prems(2) [rule_format, of 1] by simp_all
  moreover have "scan_minutes spec tz (int n) (first_pass (w + 60000000))
      = Inl (CronExpressionError ''unable to compute next occurrence for cron schedule'')"
    by (rule Suc.IH) (use Suc.prems in \<open>simp_all only: shift, auto\<close>)
  ultimately show ?case using scan_minutes_step [of "int (Suc n)" spec w tz] by simp
qed (simp add: scan_minutes.simps)

section \<open>Printing a schedule\<close>

text \<open>A well-formed schedule as an expression: a star or the list of the values.\<close>

definition show_field :: "cron_field \<Rightarrow> py_str" where
  "show_field f = (if cf_wildcard f then ''*'' else py_join '','' (map py_str_int (sorted_list_of_set (cf_values f))))"

definition show_cron :: "cron_spec \<Rightarrow> py_str" where
  "show_cron spec = py_join '' '' (map show_field
     [cs_minute spec, cs_hour spec, cs_day spec, cs_month spec, cs_weekday spec])"

lemma decimal_facts:
  "is_decimal c \<Longrightarrow> \<not> py_isspace c \<and> c \<noteq> CHR '','' \<and> c \<noteq> CHR ''/'' \<and> c \<noteq> CHR ''-'' \<and> c \<noteq> CHR ''+'' \<and> c \<noteq> CHR ''_'' \<and> c \<noteq> CHR ''*''"
  by (auto simp: is_decimal_def py_isspace_def Let_def)

lemma py_strip_id: "s \<noteq> [] \<Longrightarrow> \<not> py_isspace (hd s) \<Longrightarrow> \<not> py_isspace (last s) \<Longrightarrow> py_strip s = s"
proof -
  assume s: "s \<noteq> []" "\<not> py_isspace (hd s)" "\<not> py_isspace (last s)"
  then have "dropWhile py_isspace s = s" by (cases s) auto
  moreover have "dropWhile py_isspace (rev s) = rev s" using s by (cases s rule: rev_cases) auto
  ultimately show ?thesis by (simp add: py_strip_def)
qed

lemma py_split_join:
  "ws \<noteq> [] \<Longrightarrow> \<forall>w \<in> set ws. c \<notin> set w \<Longrightarrow> py_split c (py_join [c] ws) = ws"
proof (induction "[c]" ws rule: py_join.induct)
  case (2 x)
  then show ?case by (induction x) auto
next
  case (3 x y ys)
  have "py_split c (x @ c # s) = x # py_split c s" if "c \<notin> set x" for x s
    using that by (induction x) auto
  then show ?case using 3 by simp
qed simp

lemma py_words_single: "w \<noteq> [] \<Longrightarrow> \<forall>c \<in> set w. \<not> py_isspace c \<Longrightarrow> py_words w = [w]"
proof -
  assume w: "w \<noteq> []" "\<forall>c \<in> set w. \<not> py_isspace c"
  then have "dropWhile py_isspace w = w" by (cases w) auto
  moreover have rest: "takeWhile (\<lambda>c. \<not> py_isspace c) w = w" "dropWhile (\<lambda>c. \<not> py_isspace c) w = []"
    using w(2) by (simp_all add: takeWhile_eq_all_conv dropWhile_eq_Nil_conv)
  moreover have "py_words [] = []" by (simp add: py_words.simps)
  ultimately show ?thesis using w(1) by (simp add: py_words.simps [of w] Let_def rest)
qed

lemma py_words_Cons:
  assumes "w \<noteq> []" and "\<forall>c \<in> set w. \<not> py_isspace c"
  shows "py_words (w @ CHR '' '' # s) = w # py_words s"
proof -
  have space: "py_isspace CHR '' ''" by (simp add: py_isspace_def)
  have "dropWhile py_isspace (w @ CHR '' '' # s) = w @ CHR '' '' # s" using assms by (cases w) auto
  moreover have "takeWhile (\<lambda>c. \<not> py_isspace c) (w @ CHR '' '' # s) = w"
    "dropWhile (\<lambda>c. \<not> py_isspace c) (w @ CHR '' '' # s) = CHR '' '' # s"
    using takeWhile_append_sep [of w "\<lambda>c. \<not> py_isspace c" "CHR '' ''" s] assms(2) space by simp_all
  moreover have "py_words (CHR '' '' # s) = py_words s"
    by (subst (1 2) py_words.simps) (simp add: space)
  ultimately show ?thesis using assms(1) by (subst py_words.simps) (simp add: Let_def)
qed

lemma py_words_join:
  "\<forall>w \<in> set ws. w \<noteq> [] \<and> (\<forall>c \<in> set w. \<not> py_isspace c) \<Longrightarrow> py_words (py_join '' '' ws) = ws"
proof (induction "'' ''" ws rule: py_join.induct)
  case 1
  then show ?case by (simp add: py_words.simps)
qed (simp_all add: py_words_single py_words_Cons)

lemma underscored_digits_id: "s \<noteq> [] \<Longrightarrow> \<forall>c \<in> set s. is_decimal c \<Longrightarrow> underscored_digits s = Some s"
proof (induction s rule: underscored_digits.induct)
  case (3 c d cs)
  then have "d \<noteq> CHR ''_''" using decimal_facts [of d] by simp
  then show ?case using 3 by simp
qed simp_all

lemma py_str_nat_short: "n < 100 \<Longrightarrow> length (py_str_nat n) \<le> 2"
proof (cases "n < 10")
  case True
  then show ?thesis by (simp add: py_str_nat.simps [of n])
next
  case False
  moreover assume "n < 100"
  then have "n div 10 < 10" by (simp add: div_less_iff_less_mult)
  ultimately show ?thesis by (simp add: py_str_nat.simps [of n] py_str_nat.simps [of "n div 10"])
qed

lemma parse_int_show: "0 \<le> v \<Longrightarrow> v < 100 \<Longrightarrow> parse_int (py_str_int v) name = Inr v"
proof -
  assume v: "0 \<le> v" "v < 100"
  let ?s = "py_str_nat (nat v)"
  have dec: "?s \<noteq> []" "\<forall>c \<in> set ?s. is_decimal c" using py_str_nat_decimal by auto
  then have strip: "py_strip ?s = ?s" by (intro py_strip_id) (use decimal_facts in auto)
  obtain c cs where c: "?s = c # cs" using dec(1) by (cases ?s) auto
  then have "c \<noteq> CHR ''-''" "c \<noteq> CHR ''+''" using dec(2) decimal_facts by auto
  moreover have "int (decimal_value (c # cs)) = v" using v by (simp flip: c)
  ultimately have "py_int_str ?s = Some v"
    using underscored_digits_id [OF dec] strip by (simp add: py_int_str_def c)
  moreover have "length ?s \<le> 2" using v by (intro py_str_nat_short) simp
  ultimately show ?thesis
    using dec strip v by (simp add: parse_int_def py_isdigit_def py_str_int_def Let_def list_all_iff)
qed


lemma parse_part_show:
  assumes "lo \<le> v" and "v \<le> hi" and "0 \<le> lo" and "hi < 100" and "sunday \<longrightarrow> hi < 7"
  shows "parse_part lo hi name sunday (py_str_int v) vs = Inr (insert v vs)"
proof -
  let ?s = "py_str_int v"
  have s: "?s = py_str_nat (nat v)" using assms by (simp add: py_str_int_def)
  then have dec: "?s \<noteq> []" "\<forall>c \<in> set ?s. is_decimal c" using py_str_nat_decimal by auto
  then have strip: "py_strip ?s = ?s" by (intro py_strip_id) (use decimal_facts in auto)
  have chars: "CHR ''/'' \<notin> set ?s" "CHR ''-'' \<notin> set ?s" "CHR ''*'' \<notin> set ?s" using dec decimal_facts by blast+
  then have "?s \<noteq> ''*''" by force
  moreover have "add_range lo hi name sunday (v + 1) v 1 (insert v vs) = Inr (insert v vs)"
    by (subst add_range.simps) simp
  then have "add_range lo hi name sunday v v 1 vs = Inr (insert v vs)"
    using assms by (subst add_range.simps) (auto simp: Let_def)
  ultimately show ?thesis
    using dec chars strip parse_int_show [of v name] assms
    by (simp add: parse_part_def parse_step_def parse_bounds_def Let_def)
qed

lemma parse_parts_show:
  assumes "0 \<le> lo" and "hi < 100" and "sunday \<longrightarrow> hi < 7" and "set xs \<subseteq> {lo..hi}"
  shows "parse_parts lo hi name sunday (map py_str_int xs) vs = Inr (vs \<union> set xs)"
  using assms(4) by (induction xs arbitrary: vs) (simp_all add: parse_part_show assms(1-3))

text \<open>The text of a field: without white space, not empty, and a star only for the wildcard.\<close>

lemma py_join_set: "set (py_join sep ws) \<subseteq> set sep \<union> \<Union> (set ` set ws)"
  by (induction sep ws rule: py_join.induct) auto

lemma show_field_text:
  assumes "field_ok lo hi f" and "0 \<le> lo"
  shows "show_field f \<noteq> [] \<and> (\<forall>c \<in> set (show_field f). \<not> py_isspace c)
    \<and> (\<not> cf_wildcard f \<longrightarrow> show_field f \<noteq> ''*'')"
proof (cases "cf_wildcard f")
  case True
  then show ?thesis by (simp add: show_field_def py_isspace_def)
next
  case False
  define xs where "xs = sorted_list_of_set (cf_values f)"
  have fin: "finite (cf_values f)" using assms(1) finite_subset by (auto simp: field_ok_def)
  then have xs: "set xs \<subseteq> {lo..hi}" "xs \<noteq> []" using assms(1) by (simp_all add: xs_def field_ok_def)
  have dec: "is_decimal c" if "v \<in> set xs" "c \<in> set (py_str_int v)" for v c
    using that xs(1) assms(2) py_str_nat_decimal by (fastforce simp: py_str_int_def)
  have "c = CHR '','' \<or> is_decimal c" if "c \<in> set (py_join '','' (map py_str_int xs))" for c
    using py_join_set [of "'',''" "map py_str_int xs"] that dec by auto
  moreover have "py_join '','' (map py_str_int xs) \<noteq> []"
    using xs(2) by (cases xs; cases "tl xs") (auto simp: py_str_int_def)
  ultimately show ?thesis using False decimal_facts
    by (fastforce simp: show_field_def xs_def [symmetric] py_isspace_def)
qed

lemma parse_field_show:
  assumes "field_ok lo hi f" and "0 \<le> lo" and "hi < 100" and "sunday \<longrightarrow> hi < 7"
  shows "parse_field lo hi name sunday (show_field f) = Inr f"
proof -
  note shown = show_field_text [OF assms(1,2)]
  have strip: "py_strip (show_field f) = show_field f" using shown by (intro py_strip_id) auto
  show ?thesis
  proof (cases "cf_wildcard f")
    case True
    then show ?thesis
      using assms(1) strip by (cases f) (simp add: parse_field_def show_field_def field_ok_def Let_def)
  next
    case False
    define xs where "xs = sorted_list_of_set (cf_values f)"
    have fin: "finite (cf_values f)" using assms(1) finite_subset by (auto simp: field_ok_def)
    then have xs: "set xs = cf_values f" "set xs \<subseteq> {lo..hi}" "xs \<noteq> []"
      using assms(1) by (simp_all add: xs_def field_ok_def)
    have "CHR '','' \<notin> set (py_str_int v)" if "v \<in> set xs" for v
      using that xs(2) assms(2) py_str_nat_decimal [of "nat v"] decimal_facts by (fastforce simp: py_str_int_def)
    then have "py_split CHR '','' (show_field f) = map py_str_int xs"
      using False xs(3) py_split_join [of "map py_str_int xs" "CHR '',''"] by (simp add: show_field_def xs_def)
    then show ?thesis
      using False shown strip parse_parts_show [OF assms(2-4) xs(2)] xs(1,3)
      by (cases f) (auto simp: parse_field_def Let_def)
  qed
qed

text \<open>
  C29. Every well-formed schedule is the parse of its printed expression, and every accepted expression
  parses to a well-formed schedule: all values are in range, there is at least one in each field, and
  a wildcard stands for all of them.
\<close>

theorem cron_roundtrip:
  "(parse_cron_expression (show_cron spec) = Inr spec) = spec_ok spec
    \<and> (\<exists>expression. parse_cron_expression expression = Inr spec) = spec_ok spec"
proof -
  have "parse_cron_expression (show_cron spec) = Inr spec" if "spec_ok spec"
  proof -
    let ?fs = "[cs_minute spec, cs_hour spec, cs_day spec, cs_month spec, cs_weekday spec]"
    have ok: "field_ok 0 59 (cs_minute spec)" "field_ok 0 23 (cs_hour spec)" "field_ok 1 31 (cs_day spec)"
      "field_ok 1 12 (cs_month spec)" "field_ok 0 6 (cs_weekday spec)" using that by (simp_all add: spec_ok_def)
    note texts = ok [THEN show_field_text]
    have "py_words (show_cron spec) = map show_field ?fs"
      unfolding show_cron_def by (rule py_words_join) (use texts in simp)
    moreover have "py_strip (show_cron spec) = show_cron spec"
      by (rule py_strip_id) (use texts in \<open>simp_all add: show_cron_def\<close>)
    moreover have "parse_field 0 59 ''minute'' False (show_field (cs_minute spec)) = Inr (cs_minute spec)"
      "parse_field 0 23 ''hour'' False (show_field (cs_hour spec)) = Inr (cs_hour spec)"
      "parse_field 1 31 ''day'' False (show_field (cs_day spec)) = Inr (cs_day spec)"
      "parse_field 1 12 ''month'' False (show_field (cs_month spec)) = Inr (cs_month spec)"
      "parse_field 0 6 ''weekday'' True (show_field (cs_weekday spec)) = Inr (cs_weekday spec)"
      by (rule ok [THEN parse_field_show]; simp)+
    ultimately show ?thesis by (simp add: parse_cron_expression_def)
  qed
  then show ?thesis using parse_cron_ok by blast
qed

end
