(* ===== verification/Cron_Occurrences.thy ===== *)
theory Cron_Occurrences
  imports Cron
begin

text \<open>
  What the scan for the next occurrence of a schedule computes: it returns the first matching minute
  of the local clock, when that lies after the given time, and for which schedules it exists.
\<close>

section \<open>The returned time\<close>

lemma compute_unfold:
  assumes "zones (py_strip name) = ZoneFound tz" and "parse_cron_expression cron = Inr spec"
  shows "compute_next_occurrence zones cron name (Aware a) n =
    (if py_strip name = [] then Inl (CronExpressionError ''timezone is required'')
     else bind_result (astimezone tz a) (\<lambda>cursor.
       bind_result (add_minute (floor_minute cursor)) (scan_minutes spec tz (max 1 n))))"
  using assms by (simp add: compute_next_occurrence_def validate_timezone_name_def Let_def)

lemma wall_after_floor: "(w :: int) < w - w mod 60000000 + 60000000"
  by (simp add: pos_mod_bound)

text \<open>A returned time is that of the first matching minute of the local clock.\<close>

lemma compute_found:
  assumes "zones (py_strip name) = ZoneFound tz" and "parse_cron_expression cron = Inr spec"
    and "compute_next_occurrence zones cron name (Aware a) n = Inr t"
  obtains q where "lt_wall (from_utc tz a) < q * 60000000" and "matches spec (q * 60000000)"
    and "t = to_utc tz (first_pass (q * 60000000))"
    and "\<And>p. lt_wall (from_utc tz a) < p * 60000000 \<Longrightarrow> matches spec (p * 60000000) \<Longrightarrow> q \<le> p"
proof -
  define w m where "w = lt_wall (from_utc tz a)" and "m = w div 60000000 + 1"
  have start: "w - w mod 60000000 + 60000000 = m * 60000000"
    by (simp add: m_def minus_mod_eq_div_mult algebra_simps)
  have "scan_minutes spec tz (max 1 n) (first_pass (m * 60000000)) = Inr t"
    using assms(3) start unfolding compute_unfold [of zones, OF assms(1,2)]
    by (simp add: bind_result_Inr_iff astimezone_def add_minute_def floor_minute_def in_range_def Let_def w_def
        split: if_splits)
  then obtain k where k: "matches spec (minute_after (m * 60000000) k)"
      "\<forall>j < k. \<not> matches spec (minute_after (m * 60000000) j)"
      "t = to_utc tz (first_pass (minute_after (m * 60000000) k))"
    using scan_minutes_found by blast
  have shift: "minute_after (m * 60000000) j = (m + int j) * 60000000" for j by (simp add: algebra_simps)
  have later: "w < p * 60000000 \<longleftrightarrow> m \<le> p" for p
    using div_less_iff [of 60000000 w p] by (simp add: m_def) linarith
  show thesis
  proof (rule that [of "m + int k"])
    show "lt_wall (from_utc tz a) < (m + int k) * 60000000"
      unfolding w_def [symmetric] later by simp
    show "matches spec ((m + int k) * 60000000)" "t = to_utc tz (first_pass ((m + int k) * 60000000))"
      using k(1,3) by (simp_all only: shift)
    fix p assume "lt_wall (from_utc tz a) < p * 60000000" "matches spec (p * 60000000)"
    then have "m \<le> p" "matches spec (minute_after (m * 60000000) (nat (p - m)))"
      using later w_def by (simp_all add: shift)
    then have "\<not> nat (p - m) < k" using k(2) by blast
    then show "m + int k \<le> p" using \<open>m \<le> p\<close> by linarith
  qed
qed

text \<open>The second of UTC at which the local clock was last changed.\<close>

definition last_change :: "zone \<Rightarrow> int \<Rightarrow> int" where
  "last_change z t = last_transition 0 (zn_transitions z) (t div 1000000)"

text \<open>What the returned time is, by the way its local time is read.\<close>

lemma occurrence_lookup:
  assumes "zone_ok tz" and "lt_wall (from_utc tz a) < q * 60000000"
  defines "t \<equiv> to_utc tz (first_pass (q * 60000000))"
  shows "t = q * 60000000 - in_force (zn_base tz) (zn_transitions tz) (a div 1000000) * 1000000 \<and> a < t
    \<or> (\<exists>u \<in> fst ` set (zn_transitions tz). a < u * 1000000 \<and> u * 1000000 \<le> t)
    \<or> lt_fold (from_utc tz a) \<and> t < last_change tz a * 1000000"
proof -
  let ?tr = "zn_transitions tz" and ?ts = "a div 1000000" and ?ws = "q * 60"
  let ?off = "in_force (zn_base tz) ?tr ?ts"
  define found where "found = in_force (zn_base tz) (wall_transitions False (zn_base tz) ?tr) ?ws"
  have t: "t = (?ws - found) * 1000000" by (simp add: t_def to_utc_def utcoffset_def found_def algebra_simps)
  have wall: "a + ?off * 1000000 < ?ws * 1000000" using assms(2) by (simp add: from_utc_def Let_def)
  have sec: "a < u * 1000000 \<longleftrightarrow> ?ts < u" for u by (simp add: div_less_iff)
  have "?ts + ?off \<le> ?ws" using wall sec [of "?ws - ?off"] by (simp add: algebra_simps)
  from wall_lookup [OF assms(1) [unfolded zone_ok_def] this, of 0]
  consider "found = ?off" | u where "u \<in> fst ` set ?tr" "?ts < u" "u \<le> ?ws - found"
    | "fold_at (zn_base tz) ?tr ?ts" "?ws - found < last_transition 0 ?tr ?ts"
    unfolding found_def by blast
  then show ?thesis
  proof cases
    case 1
    then show ?thesis using t wall by (simp add: algebra_simps)
  next
    case 2
    then have "a < u * 1000000 \<and> u * 1000000 \<le> t" using sec t by simp
    then show ?thesis using 2(1) by blast
  next
    case 3
    then show ?thesis using t by (simp add: from_utc_def Let_def last_change_def)
  qed
qed

lemma last_transition_le:
  "fold_at off tr ts \<Longrightarrow> last_transition u0 tr ts \<le> ts"
proof (induction tr arbitrary: off u0)
  case (Cons x tr)
  then show ?case by (cases x; cases tr) (auto split: if_splits)
qed simp

text \<open>
  C27. With a zone whose clock changes do not overlap, the returned time lies after the given one
  exactly when it is not read in the first pass of an hour that is being repeated: the scan drops
  the fold of the local time, so within a repeated hour it may return a time that is already over.
\<close>

theorem next_occurrence_advances:
  assumes "zones (py_strip name) = ZoneFound tz" and "zone_ok tz"
    and "compute_next_occurrence zones cron name (Aware a) n = Inr t"
  shows "if lt_fold (from_utc tz a) \<and> t < last_change tz a * 1000000 then t < a else a < t"
proof -
  obtain spec where "parse_cron_expression cron = Inr spec"
    using assms(3) by (auto simp: compute_next_occurrence_def bind_result_Inr_iff)
  from compute_found [of zones, OF assms(1) this assms(3)]
  obtain q where q: "lt_wall (from_utc tz a) < q * 60000000" "t = to_utc tz (first_pass (q * 60000000))"
    by metis
  have "last_change tz a * 1000000 \<le> a" if "lt_fold (from_utc tz a)"
    using last_transition_le [of "zn_base tz" "zn_transitions tz" "a div 1000000" 0] that
      div_less_iff [of 1000000 a "last_change tz a"]
    by (simp add: last_change_def from_utc_def Let_def)
  moreover note occurrence_lookup [OF assms(2) q(1), folded q(2)]
  ultimately show ?thesis by (fastforce split: if_splits)
qed

lemma in_force_constant:
  "ts \<le> ts' \<Longrightarrow> \<forall>u \<in> fst ` set tr. \<not> (ts < u \<and> u \<le> ts') \<Longrightarrow> in_force off tr ts' = in_force off tr ts"
  by (induction tr arbitrary: off) auto

text \<open>A schedule fires at the moments whose local time is a whole minute that matches.\<close>

definition fires :: "cron_spec \<Rightarrow> zone \<Rightarrow> int \<Rightarrow> bool" where
  "fires spec tz t \<longleftrightarrow> lt_wall (from_utc tz t) mod 60000000 = 0 \<and> matches spec (lt_wall (from_utc tz t))"

text \<open>
  C26. Where the local clock is not changed between the given and the returned time, the returned
  time is the first moment after the given one at which the schedule fires.
\<close>

theorem next_occurrence_first:
  assumes "zones (py_strip name) = ZoneFound tz" and "parse_cron_expression cron = Inr spec" and "zone_ok tz"
    and "compute_next_occurrence zones cron name (Aware a) n = Inr t" and "a < t"
    and still: "\<forall>u \<in> fst ` set (zn_transitions tz). \<not> (a < u * 1000000 \<and> u * 1000000 \<le> t)"
  shows "fires spec tz t \<and> \<not> (\<exists>s. a < s \<and> s < t \<and> fires spec tz s)"
proof -
  from compute_found [of zones, OF assms(1,2,4)]
  obtain q where q: "lt_wall (from_utc tz a) < q * 60000000" "matches spec (q * 60000000)"
      "t = to_utc tz (first_pass (q * 60000000))"
    and least: "\<And>p. lt_wall (from_utc tz a) < p * 60000000 \<Longrightarrow> matches spec (p * 60000000) \<Longrightarrow> q \<le> p"
    by metis
  define off where "off = in_force (zn_base tz) (zn_transitions tz) (a div 1000000)"
  have "\<not> t < last_change tz a * 1000000" if "lt_fold (from_utc tz a)"
    using last_transition_le [of "zn_base tz" "zn_transitions tz" "a div 1000000" 0] that assms(5)
      div_less_iff [of 1000000 a "last_change tz a"]
    by (simp add: last_change_def from_utc_def Let_def)
  then have t: "t = q * 60000000 - off * 1000000"
    using occurrence_lookup [OF assms(3) q(1), folded q(3)] still by (auto simp: off_def)
  have wall: "lt_wall (from_utc tz s) = s + off * 1000000" if "a \<le> s" "s \<le> t" for s
  proof -
    have "in_force (zn_base tz) (zn_transitions tz) (s div 1000000) = off"
      unfolding off_def
    proof (rule in_force_constant)
      show "a div 1000000 \<le> s div 1000000" using that(1) by (simp add: zdiv_mono1)
      have "a < u * 1000000 \<and> u * 1000000 \<le> t" if "a div 1000000 < u" "u \<le> s div 1000000" for u
        using that \<open>s \<le> t\<close> div_less_iff [of 1000000 a u] div_less_iff [of 1000000 s u] by (simp add: not_less [symmetric])
      then show "\<forall>u \<in> fst ` set (zn_transitions tz). \<not> (a div 1000000 < u \<and> u \<le> s div 1000000)"
        using still by blast
    qed
    then show ?thesis by (simp add: from_utc_def Let_def)
  qed
  have "fires spec tz t" using wall [of t] assms(5) t q(2) by (simp add: fires_def)
  moreover have "\<not> fires spec tz s" if s: "a < s" "s < t" for s
  proof
    assume fires: "fires spec tz s"
    then obtain p where p: "s + off * 1000000 = p * 60000000"
      using wall [of s] s by (auto simp: fires_def mod_eq_0_iff_dvd elim!: dvdE)
    then have "q \<le> p" using least [of p] fires wall [of s] wall [of a] s by (simp add: fires_def)
    then show False using p t s(2) by simp
  qed
  ultimately show ?thesis by blast
qed

section \<open>Schedules that fire\<close>

text \<open>
  A schedule names a day: by its weekdays, by no restriction, or by a date of a year, which for the
  twenty-ninth of February is a leap year.
\<close>

definition names_day :: "bool \<Rightarrow> cron_spec \<Rightarrow> bool" where
  "names_day leap spec \<longleftrightarrow> cf_wildcard (cs_day spec) \<or> \<not> cf_wildcard (cs_weekday spec)
     \<or> (\<exists>m \<in> cf_values (cs_month spec). \<exists>d \<in> cf_values (cs_day spec). d \<le> days_in_month leap m)"

definition minute_of :: "int \<Rightarrow> int \<Rightarrow> int \<Rightarrow> int" where
  "minute_of day h mi = day * 1440 + h * 60 + mi"

lemma wall_fields:
  assumes "0 \<le> h" "h < 24" "0 \<le> mi" "mi < 60"
  shows "wall_day_number (minute_of day h mi * 60000000) = day"
    and "wall_hour (minute_of day h mi * 60000000) = h"
    and "wall_minute (minute_of day h mi * 60000000) = mi"
proof -
  let ?w = "minute_of day h mi * 60000000"
  show "wall_day_number ?w = day"
    unfolding wall_day_number_def
    by (rule int_div_pos_eq [of _ _ _ "(h * 60 + mi) * 60000000"]) (use assms in \<open>simp_all add: minute_of_def\<close>)
  have "?w div 3600000000 = day * 24 + h"
    by (rule int_div_pos_eq [of _ _ _ "mi * 60000000"]) (use assms in \<open>simp_all add: minute_of_def\<close>)
  moreover have "(day * 24 + h) mod 24 = h" by (rule int_mod_pos_eq [of _ _ day]) (use assms in simp_all)
  ultimately show "wall_hour ?w = h" by (simp add: wall_hour_def)
  have "minute_of day h mi mod 60 = mi"
    by (rule int_mod_pos_eq [of _ _ "day * 24 + h"]) (use assms in \<open>simp_all add: minute_of_def\<close>)
  then show "wall_minute ?w = mi" by (simp add: wall_minute_def)
qed

lemma days_in_month_least: "1 \<le> m \<Longrightarrow> m \<le> 12 \<Longrightarrow> 7 \<le> days_in_month leap m"
  using month_cases [of m] by (auto simp: days_in_month_def month_lengths_def)

lemma days_in_month_mono: "(leap \<longrightarrow> leap') \<Longrightarrow> days_in_month leap m \<le> days_in_month leap' m"
  by (auto simp: days_in_month_def)

text \<open>The day of a month that has a given weekday.\<close>

lemma weekday_in_month:
  assumes "0 \<le> v" "v \<le> 6"
  obtains d where "1 \<le> d" "d \<le> 7" "(date_number y m d mod 7 + 1) mod 7 = v"
proof
  let ?n = "date_number y m 1"
  let ?d = "1 + (v - 1 - ?n) mod 7"
  show "1 \<le> ?d" by simp
  show "?d \<le> 7" using pos_mod_bound [of 7 "v - 1 - ?n"] by linarith
  have "date_number y m ?d = ?n + (v - 1 - ?n) mod 7" by (simp add: date_number_def)
  then have "(date_number y m ?d mod 7 + 1) mod 7 = (?n + 1 + (v - 1 - ?n) mod 7) mod 7"
    by (simp only: mod_add_left_eq) (simp add: algebra_simps)
  also have "\<dots> = v mod 7" by (simp only: mod_add_right_eq) simp
  finally show "(date_number y m ?d mod 7 + 1) mod 7 = v" using assms by simp
qed

lemma field_value: "field_ok lo hi f \<Longrightarrow> \<exists>v \<in> cf_values f. lo \<le> v \<and> v \<le> hi"
  by (fastforce simp: field_ok_def)

text \<open>A schedule that names a day has one in every year, a leap year where the day needs it.\<close>

lemma day_in_year:
  assumes "spec_ok spec" and "names_day leap spec" and "1 \<le> y'" and leap: "leap \<longrightarrow> is_leap y'"
  obtains m d where "valid_date y' m d"
    and "\<And>w. wall_day_number w = date_number y' m d \<Longrightarrow> wall_month w \<in> cf_values (cs_month spec) \<and> matches_day spec w"
proof -
  have ok: "field_ok 1 31 (cs_day spec)" "field_ok 1 12 (cs_month spec)" "field_ok 0 6 (cs_weekday spec)"
    using assms(1) by (simp_all add: spec_ok_def)
  have date: "wall_month w = m \<and> wall_day w = d" if "valid_date v m d" "wall_day_number w = date_number v m d" for w v m d
    using that date_of_number by (simp add: wall_month_def wall_day_def)
  obtain m where m: "m \<in> cf_values (cs_month spec)" "1 \<le> m" "m \<le> 12" using field_value [OF ok(2)] by blast
  show thesis
  proof (cases "cf_wildcard (cs_weekday spec)")
    case False
    obtain v where v: "v \<in> cf_values (cs_weekday spec)" "0 \<le> v" "v \<le> 6" using field_value [OF ok(3)] by blast
    obtain d where d: "1 \<le> d" "d \<le> 7" "(date_number y' m d mod 7 + 1) mod 7 = v"
      using weekday_in_month [OF v(2,3)] .
    have valid: "valid_date y' m d" using d m assms(3) days_in_month_least [of m "is_leap y'"]
      by (simp add: valid_date_def)
    show thesis
      by (rule that [OF valid])
        (use date [OF valid] m v d(3) False in \<open>auto simp: matches_day_def wall_weekday_def Let_def\<close>)
  next
    case True
    obtain k d where md: "k \<in> cf_values (cs_month spec)" "1 \<le> k" "k \<le> 12" "1 \<le> d" "d \<le> days_in_month leap k"
      "cf_wildcard (cs_day spec) \<or> d \<in> cf_values (cs_day spec)"
    proof (cases "cf_wildcard (cs_day spec)")
      case wild: True
      show thesis by (rule that [of m 1]) (use wild m days_in_month_least [of m leap] in auto)
    next
      case False
      then show thesis using that assms(2) True ok by (auto simp: names_day_def field_ok_def subset_iff)
    qed
    have valid: "valid_date y' k d"
      using md assms(3) days_in_month_mono [OF leap, of k] by (simp add: valid_date_def)
    show thesis
      by (rule that [OF valid])
        (use date [OF valid] md True in \<open>auto simp: matches_day_def Let_def\<close>)
  qed
qed

lemma matches_names_day:
  assumes "matches spec w" and "0 \<le> w" and "is_leap (fst (date_of (wall_day_number w))) \<longrightarrow> leap"
  shows "names_day leap spec"
proof -
  obtain y m d where date: "date_of (wall_day_number w) = (y, m, d)" by (metis prod_cases3)
  have "0 \<le> wall_day_number w" using assms(2) by (simp add: wall_day_number_def pos_imp_zdiv_nonneg_iff)
  then have "valid_date y m d" using date_of_correct(1) date by blast
  then have "d \<le> days_in_month leap m"
    using assms(3) days_in_month_mono [of "is_leap y" leap m] date by (simp add: valid_date_def)
  moreover have "wall_month w = m" "wall_day w = d" by (simp_all add: wall_month_def wall_day_def date)
  ultimately show ?thesis using assms(1) by (auto simp: matches_def matches_day_def names_day_def Let_def split: if_splits)
qed

text \<open>
  A moment away from the ends of the calendar, in a zone whose offsets are less than a day, and the
  wall-clock minutes the scan tests for it.
\<close>

definition local_year :: "zone \<Rightarrow> int \<Rightarrow> int" where
  "local_year tz t = fst (date_of (wall_day_number (lt_wall (from_utc tz t))))"

definition ordinary_moment :: "zone \<Rightarrow> int \<Rightarrow> bool" where
  "ordinary_moment tz t \<longleftrightarrow> representable t \<and> 0 \<le> lt_wall (from_utc tz t)
     \<and> list_all (\<lambda>off. \<bar>off\<bar> < 86400) (zn_base tz # map snd (zn_transitions tz))
     \<and> 2 \<le> local_year tz t \<and> local_year tz t \<le> 9990"

definition leap_among :: "zone \<Rightarrow> int \<Rightarrow> int list \<Rightarrow> bool" where
  "leap_among tz t ks = list_ex (\<lambda>k. is_leap (local_year tz t + k)) ks"

definition scanned_minute :: "zone \<Rightarrow> int \<Rightarrow> int \<Rightarrow> int" where
  "scanned_minute tz t k = (lt_wall (from_utc tz t) div 60000000 + 1 + k) * 60000000"

lemma in_force_mem: "in_force off tr ts \<in> set (off # map snd tr)"
proof (induction tr arbitrary: off)
  case (Cons x tr)
  then show ?case using Cons.IH [of "snd x"] by (cases x) auto
qed simp

lemma wall_transitions_offsets: "map snd (wall_transitions second off tr) = map snd tr"
  by (induction tr arbitrary: off) auto

lemma utcoffset_bounded:
  "list_all (\<lambda>off. \<bar>off\<bar> < 86400) (zn_base tz # map snd (zn_transitions tz)) \<Longrightarrow> \<bar>utcoffset tz lt\<bar> < 86400"
  using in_force_mem [of "zn_base tz" "wall_transitions (lt_fold lt) (zn_base tz) (zn_transitions tz)"
      "lt_wall lt div 1000000"]
  unfolding utcoffset_def wall_transitions_offsets list_all_iff by blast

lemma to_utc_representable:
  assumes "\<bar>utcoffset tz (first_pass w)\<bar> < 86400" and "86400000000 \<le> w" and "w < 3652058 * 86400000000"
  shows "representable (to_utc tz (first_pass w))"
  using assms by (auto simp: representable_def to_utc_def abs_less_iff)

text \<open>The scan of five years stays inside the calendar.\<close>

lemma ordinary_window:
  assumes "ordinary_moment tz a"
  defines "w \<equiv> lt_wall (from_utc tz a)" and "y \<equiv> local_year tz a"
  shows "days_before_year y \<le> w div 86400000000" and "w div 86400000000 < days_before_year (y + 1)"
    and "365 \<le> days_before_year y" and "days_before_year (y + 1) \<le> 3648772"
proof -
  obtain m d where date: "date_of (w div 86400000000) = (y, m, d)"
    by (metis w_def y_def local_year_def wall_day_number_def prod.collapse)
  have "0 \<le> w div 86400000000"
    using assms(1) by (simp add: ordinary_moment_def w_def pos_imp_zdiv_nonneg_iff)
  then show "days_before_year y \<le> w div 86400000000" "w div 86400000000 < days_before_year (y + 1)"
    using date_of_correct [OF _ date] date_number_in_year by metis+
  have "days_before_year 2 = 365" "days_before_year 9991 = 3648772" by code_simp+
  then show "365 \<le> days_before_year y" "days_before_year (y + 1) \<le> 3648772"
    using days_before_year_mono [of 2 y] days_before_year_mono [of "y + 1" 9991] assms(1)
    by (simp_all add: ordinary_moment_def y_def)
qed

lemma compute_scan:
  assumes "zones (py_strip name) = ZoneFound tz" and "py_strip name \<noteq> []"
    and "parse_cron_expression cron = Inr spec" and "ordinary_moment tz a"
  defines "m \<equiv> lt_wall (from_utc tz a) div 60000000 + 1"
  shows "compute_next_occurrence zones cron name (Aware a) default_max_minutes
    = scan_minutes spec tz 2635200 (first_pass (m * 60000000))"
proof -
  let ?w = "lt_wall (from_utc tz a)"
  have start: "?w - ?w mod 60000000 + 60000000 = m * 60000000"
    by (simp add: m_def minus_mod_eq_div_mult algebra_simps)
  have "?w < 3648772 * 86400000000"
    using ordinary_window(2,4) [OF assms(4)] div_less_iff [of 86400000000 ?w 3648772] by simp
  moreover have "0 \<le> ?w" "representable a" using assms(4) by (simp_all add: ordinary_moment_def)
  moreover have "m * 60000000 \<le> ?w + 60000000" "?w < m * 60000000"
    using start pos_mod_bound [of 60000000 ?w] pos_mod_sign [of 60000000 ?w] by linarith+
  ultimately have "representable a" "representable ?w" "representable (m * 60000000)"
    by (simp_all add: representable_def)
  then show ?thesis
    unfolding compute_unfold [of zones, OF assms(1,3)]
    using assms(2) start
    by (simp add: astimezone_def add_minute_def floor_minute_def in_range_def Let_def default_max_minutes_def)
qed


lemma ordinary_minutes:
  assumes "ordinary_moment tz a"
  defines "m \<equiv> lt_wall (from_utc tz a) div 60000000 + 1" and "y \<equiv> local_year tz a"
  shows "days_before_year y * 1440 < m" and "m \<le> days_before_year (y + 1) * 1440"
proof -
  let ?w = "lt_wall (from_utc tz a)"
  note window = ordinary_window(1,2) [OF assms(1), folded y_def]
  have "\<not> ?w < days_before_year y * 86400000000" "?w < days_before_year (y + 1) * 86400000000"
    using window div_less_iff [of 86400000000 ?w] by simp_all
  then have "\<not> ?w div 60000000 < days_before_year y * 1440" "?w div 60000000 < days_before_year (y + 1) * 1440"
    using div_less_iff [of 60000000 ?w "days_before_year y * 1440"]
      div_less_iff [of 60000000 ?w "days_before_year (y + 1) * 1440"] by simp_all
  then show "days_before_year y * 1440 < m" "m \<le> days_before_year (y + 1) * 1440" by (simp_all add: m_def)
qed

lemma ordinary_inside:
  assumes "ordinary_moment tz a" and "0 \<le> j" and "j \<le> 2635200"
  defines "w \<equiv> scanned_minute tz a j"
  shows "86400000000 \<le> w" and "representable w" and "representable (to_utc tz (first_pass w))"
proof -
  have "365 * 1440 \<le> lt_wall (from_utc tz a) div 60000000 + 1"
    and "lt_wall (from_utc tz a) div 60000000 + 1 \<le> 3648772 * 1440"
    using ordinary_minutes [OF assms(1)] ordinary_window(3,4) [OF assms(1)] by linarith+
  then have w: "365 * 86400000000 \<le> w" "w \<le> 3650602 * 86400000000"
    using assms(2,3) by (simp_all add: w_def scanned_minute_def)
  have off: "\<bar>utcoffset tz (first_pass w)\<bar> < 86400"
    using assms(1) by (intro utcoffset_bounded) (simp add: ordinary_moment_def)
  show "86400000000 \<le> w" "representable w" using w by (simp_all add: representable_def)
  show "representable (to_utc tz (first_pass w))" using w by (intro to_utc_representable [OF off]) simp_all
qed

text \<open>A day of one of the next four years is tested.\<close>

lemma ordinary_match:
  assumes "ordinary_moment tz a" and "spec_ok spec" and "names_day (leap_among tz a [1, 2, 3, 4]) spec"
  shows "\<exists>k. int k < 2635200 \<and> matches spec (scanned_minute tz a (int k))"
proof -
  define y where "y = local_year tz a"
  define m where "m = lt_wall (from_utc tz a) div 60000000 + 1"
  note minutes = ordinary_minutes [OF assms(1), folded m_def y_def]
  have "1 \<le> y" using assms(1) by (simp add: ordinary_moment_def y_def)
  moreover have "\<exists>v. y < v \<and> v \<le> y + 4 \<and> (leap_among tz a [1, 2, 3, 4] \<longrightarrow> is_leap v)"
  proof (cases "leap_among tz a [1, 2, 3, 4]")
    case True
    then obtain k where "k \<in> {1, 2, 3, 4}" "is_leap (y + k)" by (auto simp: leap_among_def y_def)
    then show ?thesis by (intro exI [of _ "y + k"]) auto
  qed (auto intro: exI [of _ "y + 1"])
  ultimately obtain v where v: "y < v" "v \<le> y + 4" "1 \<le> v" "leap_among tz a [1, 2, 3, 4] \<longrightarrow> is_leap v"
    by (metis less_imp_le order_trans)
  obtain mo d where day: "valid_date v mo d"
    and day_ok: "\<And>w. wall_day_number w = date_number v mo d \<Longrightarrow>
      wall_month w \<in> cf_values (cs_month spec) \<and> matches_day spec w"
    using day_in_year [OF assms(2,3) v(3,4)] by metis
  obtain h mi where time: "h \<in> cf_values (cs_hour spec)" "0 \<le> h" "h \<le> 23"
    "mi \<in> cf_values (cs_minute spec)" "0 \<le> mi" "mi \<le> 59"
    using assms(2) field_value unfolding spec_ok_def by metis
  define q where "q = minute_of (date_number v mo d) h mi"
  have "matches spec (q * 60000000)"
    using wall_fields [of h mi "date_number v mo d"] day_ok time by (simp add: matches_def q_def)
  moreover have "days_before_year (y + 1) \<le> date_number v mo d" "date_number v mo d < days_before_year (y + 5)"
    using date_number_in_year [OF day] days_before_year_mono [of "y + 1" v]
      days_before_year_mono [of "v + 1" "y + 5"] v(1,2) by linarith+
  then have "m \<le> q" "q - m < 2635200"
    using minutes time days_before_year_add_le [of y 5] by (simp_all add: q_def minute_of_def)
  ultimately show ?thesis
    by (intro exI [of _ "nat (q - m)"]) (simp add: scanned_minute_def m_def [symmetric])
qed

text \<open>The days that are tested lie in the current and the next six years.\<close>

lemma scanned_year:
  assumes "ordinary_moment tz a" and "0 \<le> k" and "k < 2635200"
  defines "v \<equiv> fst (date_of (wall_day_number (scanned_minute tz a k)))"
  shows "local_year tz a \<le> v" and "v \<le> local_year tz a + 6"
proof -
  define y where "y = local_year tz a"
  define n where "n = wall_day_number (scanned_minute tz a k)"
  define m where "m = lt_wall (from_utc tz a) div 60000000 + 1 + k"
  note minutes = ordinary_minutes [OF assms(1), folded y_def]
  have m: "days_before_year y * 1440 \<le> m" "m < days_before_year (y + 1) * 1440 + 2635200"
    using minutes assms(2,3) by (simp_all add: m_def)
  have n: "n = m div 1440"
    by (simp add: n_def m_def wall_day_number_def scanned_minute_def)
  have low: "days_before_year y \<le> n"
    using m(1) div_less_iff [of 1440 m "days_before_year y"] by (simp add: n)
  have high: "n < days_before_year (y + 1) + 1830"
    using m(2) div_less_iff [of 1440 m "days_before_year (y + 1) + 1830"] by (simp add: n distrib_right)
  obtain mo d where date: "date_of n = (v, mo, d)" by (metis v_def n_def prod.collapse)
  have "0 \<le> n" using low ordinary_window(3) [OF assms(1), folded y_def] by simp
  then have valid: "valid_date v mo d" "date_number v mo d = n" using date_of_correct date by blast+
  note in_year = date_number_in_year [OF valid(1), unfolded valid(2)]
  show "local_year tz a \<le> v"
    using in_year(2) low days_before_year_mono [of "v + 1" y] unfolding y_def [symmetric] by linarith
  have "days_before_year (y + 1) + 2190 \<le> days_before_year (y + 7)"
    using days_before_year_add [of "y + 1" 6] by (simp add: add.commute add.left_commute)
  then show "v \<le> local_year tz a + 6"
    using in_year(1) high days_before_year_mono [of "y + 7" v] unfolding y_def [symmetric] by linarith
qed

lemma no_day_no_match:
  assumes "ordinary_moment tz a" and "\<not> names_day (leap_among tz a [0, 1, 2, 3, 4, 5, 6]) spec"
    and "0 \<le> k" and "k < 2635200"
  shows "\<not> matches spec (scanned_minute tz a k)"
proof
  assume match: "matches spec (scanned_minute tz a k)"
  let ?v = "fst (date_of (wall_day_number (scanned_minute tz a k)))" and ?y = "local_year tz a"
  have "?v - ?y \<in> {0, 1, 2, 3, 4, 5, 6}" using scanned_year [OF assms(1,3,4)] by auto
  then have "is_leap ?v \<longrightarrow> leap_among tz a [0, 1, 2, 3, 4, 5, 6]"
    unfolding leap_among_def list_ex_iff by (intro impI bexI [of _ "?v - ?y"]) simp_all
  then show False
    using matches_names_day [OF match] assms(2) ordinary_inside(1) [OF assms(1,3)] assms(4) by simp
qed

text \<open>The scan returns exactly when one of its minutes matches.\<close>

lemma scan_exact:
  assumes "zones (py_strip name) = ZoneFound tz" and "py_strip name \<noteq> []"
    and "parse_cron_expression cron = Inr spec" and "ordinary_moment tz a"
  shows "if \<exists>k. 0 \<le> k \<and> k < 2635200 \<and> matches spec (scanned_minute tz a k)
    then \<exists>t. compute_next_occurrence zones cron name (Aware a) default_max_minutes = Inr t
    else compute_next_occurrence zones cron name (Aware a) default_max_minutes
      = Inl (CronExpressionError ''unable to compute next occurrence for cron schedule'')"
proof -
  define m where "m = lt_wall (from_utc tz a) div 60000000 + 1"
  note scan = compute_scan [of zones, OF assms, folded m_def]
  note inside = ordinary_inside [OF assms(4)]
  have shift: "minute_after (m * 60000000) j = scanned_minute tz a (int j)" for j
    by (simp add: scanned_minute_def m_def algebra_simps)
  show ?thesis
  proof (cases "\<exists>k. 0 \<le> k \<and> k < 2635200 \<and> matches spec (scanned_minute tz a k)")
    case True
    then obtain k where k: "int k < 2635200" "matches spec (scanned_minute tz a (int k))"
      by (metis zero_le_imp_eq_int)
    have "\<exists>t. scan_minutes spec tz 2635200 (first_pass (m * 60000000)) = Inr t"
    proof (rule scan_minutes_returns [OF _ k(1)])
      show "matches spec (minute_after (m * 60000000) k)" unfolding shift by (rule k(2))
      show "\<forall>j \<le> k. representable (minute_after (m * 60000000) j)
          \<and> representable (to_utc tz (first_pass (minute_after (m * 60000000) j)))"
        unfolding shift using inside(2,3) k(1) by auto
    qed
    then show ?thesis using True scan by simp
  next
    case False
    have "scan_minutes spec tz (int (nat 2635200)) (first_pass (m * 60000000))
        = Inl (CronExpressionError ''unable to compute next occurrence for cron schedule'')"
    proof (rule scan_minutes_exhausted)
      show "\<forall>j < nat 2635200. \<not> matches spec (minute_after (m * 60000000) j)"
        unfolding shift using False by (metis of_nat_0_le_iff of_nat_less_iff nat_0_le zero_le_numeral)
      show "\<forall>j \<le> nat 2635200. representable (minute_after (m * 60000000) j)"
        unfolding shift using inside(2) by auto
    qed
    then show ?thesis using False scan by simp
  qed
qed

text \<open>
  C20. For a moment away from the ends of the calendar, in a zone with offsets of less than a day, an
  accepted schedule has a next occurrence by the default scan exactly when one of the 2635200
  wall-clock minutes after the moment matches it, and otherwise the computation ends with its error.
  One does when the schedule names a day that the next four years have, where the twenty-ninth of
  February needs a leap year among them; none does when it names no day that the current and the next
  six years have, as with the thirtieth of February, or the twenty-ninth where no leap year is near.
\<close>

theorem next_occurrence_exists:
  assumes "zones (py_strip name) = ZoneFound tz" and "py_strip name \<noteq> []"
    and "parse_cron_expression cron = Inr spec" and "ordinary_moment tz a"
  shows "(if \<exists>k. 0 \<le> k \<and> k < 2635200 \<and> matches spec (scanned_minute tz a k)
      then \<exists>t. compute_next_occurrence zones cron name (Aware a) default_max_minutes = Inr t
      else compute_next_occurrence zones cron name (Aware a) default_max_minutes
        = Inl (CronExpressionError ''unable to compute next occurrence for cron schedule''))
    \<and> (names_day (leap_among tz a [1, 2, 3, 4]) spec \<longrightarrow>
        (\<exists>t. compute_next_occurrence zones cron name (Aware a) default_max_minutes = Inr t))
    \<and> (\<not> names_day (leap_among tz a [0, 1, 2, 3, 4, 5, 6]) spec \<longrightarrow>
        compute_next_occurrence zones cron name (Aware a) default_max_minutes
        = Inl (CronExpressionError ''unable to compute next occurrence for cron schedule''))"
proof (intro conjI impI)
  note exact = scan_exact [of zones, OF assms]
  show "if \<exists>k. 0 \<le> k \<and> k < 2635200 \<and> matches spec (scanned_minute tz a k)
      then \<exists>t. compute_next_occurrence zones cron name (Aware a) default_max_minutes = Inr t
      else compute_next_occurrence zones cron name (Aware a) default_max_minutes
        = Inl (CronExpressionError ''unable to compute next occurrence for cron schedule'')"
    by (rule exact)
  assume "names_day (leap_among tz a [1, 2, 3, 4]) spec"
  then have "\<exists>k. 0 \<le> k \<and> k < 2635200 \<and> matches spec (scanned_minute tz a k)"
    using ordinary_match [OF assms(4) parse_cron_ok [OF assms(3)]] by (metis of_nat_0_le_iff)
  then show "\<exists>t. compute_next_occurrence zones cron name (Aware a) default_max_minutes = Inr t"
    using exact by (simp split: if_splits)
next
  assume "\<not> names_day (leap_among tz a [0, 1, 2, 3, 4, 5, 6]) spec"
  then have "\<not> (\<exists>k. 0 \<le> k \<and> k < 2635200 \<and> matches spec (scanned_minute tz a k))"
    using no_day_no_match [OF assms(4)] by blast
  then show "compute_next_occurrence zones cron name (Aware a) default_max_minutes
      = Inl (CronExpressionError ''unable to compute next occurrence for cron schedule'')"
    using scan_exact [of zones, OF assms] by (simp only: if_False)
qed

section \<open>Examples\<close>

text \<open>New York from the summer of 2025, with the changes of 2025-11-02 and 2026-03-08.\<close>

definition second_of :: "int \<Rightarrow> int \<Rightarrow> int \<Rightarrow> int \<Rightarrow> int \<Rightarrow> int" where
  "second_of y m d h mi = (minute_of (date_number y m d) h mi) * 60"

definition utc_moment :: "int \<Rightarrow> int \<Rightarrow> int \<Rightarrow> int \<Rightarrow> int \<Rightarrow> int" where
  "utc_moment y m d h mi = second_of y m d h mi * 1000000"

definition new_york :: zone where
  "new_york = \<lparr> zn_base = -14400,
     zn_transitions = [(second_of 2025 11 2 6 0, -18000), (second_of 2026 3 8 7 0, -14400)] \<rparr>"

definition example_zones :: "py_str \<Rightarrow> zone_lookup" where
  "example_zones name =
     (if name = ''UTC'' then ZoneFound \<lparr> zn_base = 0, zn_transitions = [] \<rparr>
      else if name = ''America/New_York'' then ZoneFound new_york else ZoneNotFound)"

text \<open>The gap of the repository's test: the skipped time is read with the offset before the change.\<close>

lemma example_gap:
  "compute_next_occurrence example_zones ''30 2 * * *'' ''America/New_York'' (Aware (utc_moment 2026 3 8 6 59)) 2635200
     = Inr (utc_moment 2026 3 8 7 30)"
  by code_simp

text \<open>In the repeated hour of the autumn change the next quarter of an hour lies in the past.\<close>

theorem next_occurrence_advances_witness:
  "compute_next_occurrence example_zones ''*/15 * * * *'' ''America/New_York'' (Aware (utc_moment 2025 11 2 6 5)) 2635200
     = Inr (utc_moment 2025 11 2 5 15) \<and> utc_moment 2025 11 2 5 15 < utc_moment 2025 11 2 6 5"
proof -
  let ?a = "utc_moment 2025 11 2 6 5" and ?t = "utc_moment 2025 11 2 5 15"
  have run: "compute_next_occurrence example_zones ''*/15 * * * *'' ''America/New_York'' (Aware ?a) 2635200 = Inr ?t"
    by code_simp
  have "example_zones (py_strip ''America/New_York'') = ZoneFound new_york" "zone_ok new_york" by code_simp+
  note advances = next_occurrence_advances [of example_zones, OF this run]
  have "lt_fold (from_utc new_york ?a) \<and> ?t < last_change new_york ?a * 1000000" by code_simp
  then show ?thesis using advances run by simp
qed


text \<open>A working day in New York, ten minutes before nine.\<close>

definition example_weekdays :: cron_spec where
  "example_weekdays =
     \<lparr> cs_minute = \<lparr> cf_values = {0}, cf_wildcard = False \<rparr>,
       cs_hour = \<lparr> cf_values = {9}, cf_wildcard = False \<rparr>,
       cs_day = \<lparr> cf_values = set [1..31], cf_wildcard = True \<rparr>,
       cs_month = \<lparr> cf_values = set [1..12], cf_wildcard = True \<rparr>,
       cs_weekday = \<lparr> cf_values = {1, 2, 3, 4, 5}, cf_wildcard = False \<rparr> \<rparr>"

theorem next_occurrence_first_witness:
  "compute_next_occurrence example_zones ''0 9 * * 1-5'' ''America/New_York'' (Aware (utc_moment 2025 12 1 13 50)) 2635200
     = Inr (utc_moment 2025 12 1 14 0)
   \<and> fires example_weekdays new_york (utc_moment 2025 12 1 14 0)
   \<and> \<not> (\<exists>s. utc_moment 2025 12 1 13 50 < s \<and> s < utc_moment 2025 12 1 14 0 \<and> fires example_weekdays new_york s)"
proof -
  let ?a = "utc_moment 2025 12 1 13 50" and ?t = "utc_moment 2025 12 1 14 0"
  have run: "compute_next_occurrence example_zones ''0 9 * * 1-5'' ''America/New_York'' (Aware ?a) 2635200 = Inr ?t"
    by code_simp
  have "example_zones (py_strip ''America/New_York'') = ZoneFound new_york" by code_simp
  moreover have "parse_cron_expression ''0 9 * * 1-5'' = Inr example_weekdays" by code_simp
  moreover have "zone_ok new_york" by code_simp
  moreover have "?a < ?t" by code_simp
  moreover have "\<forall>u \<in> fst ` set (zn_transitions new_york). \<not> (?a < u * 1000000 \<and> u * 1000000 \<le> ?t)" by code_simp
  ultimately show ?thesis
    using next_occurrence_first [of example_zones "''America/New_York''" new_york "''0 9 * * 1-5''" example_weekdays ?a 2635200 ?t]
      run by blast
qed

text \<open>The twenty-ninth and the thirtieth of February.\<close>

definition example_february :: "int \<Rightarrow> cron_spec" where
  "example_february d =
     \<lparr> cs_minute = \<lparr> cf_values = {0}, cf_wildcard = False \<rparr>,
       cs_hour = \<lparr> cf_values = {0}, cf_wildcard = False \<rparr>,
       cs_day = \<lparr> cf_values = {d}, cf_wildcard = False \<rparr>,
       cs_month = \<lparr> cf_values = {2}, cf_wildcard = False \<rparr>,
       cs_weekday = \<lparr> cf_values = set [0..6], cf_wildcard = True \<rparr> \<rparr>"

theorem next_occurrence_exists_witness:
  "(\<exists>t. compute_next_occurrence example_zones ''0 0 29 2 *'' ''UTC'' (Aware (utc_moment 2025 3 1 0 0)) default_max_minutes = Inr t)
   \<and> compute_next_occurrence example_zones ''0 0 30 2 *'' ''UTC'' (Aware (utc_moment 2025 3 1 0 0)) default_max_minutes
       = Inl (CronExpressionError ''unable to compute next occurrence for cron schedule'')
   \<and> compute_next_occurrence example_zones ''0 0 29 2 *'' ''UTC'' (Aware (utc_moment 2097 3 1 0 0)) default_max_minutes
       = Inl (CronExpressionError ''unable to compute next occurrence for cron schedule'')"
proof -
  let ?utc = "\<lparr> zn_base = 0, zn_transitions = [] \<rparr>"
  let ?a = "utc_moment 2025 3 1 0 0" and ?b = "utc_moment 2097 3 1 0 0"
  have zone: "example_zones (py_strip ''UTC'') = ZoneFound ?utc" "py_strip ''UTC'' \<noteq> []" by code_simp+
  have parsed: "parse_cron_expression ''0 0 29 2 *'' = Inr (example_february 29)"
    "parse_cron_expression ''0 0 30 2 *'' = Inr (example_february 30)" by code_simp+
  have moments: "ordinary_moment ?utc ?a" "ordinary_moment ?utc ?b" by code_simp+
  note exists = parsed [THEN next_occurrence_exists [of example_zones, OF zone], OF moments(1)]
    next_occurrence_exists [of example_zones, OF zone parsed(1) moments(2)]
  have "names_day (leap_among ?utc ?a [1, 2, 3, 4]) (example_february 29)"
    "\<not> names_day (leap_among ?utc ?a [0, 1, 2, 3, 4, 5, 6]) (example_february 30)"
    "\<not> names_day (leap_among ?utc ?b [0, 1, 2, 3, 4, 5, 6]) (example_february 29)" by code_simp+
  then show ?thesis using exists by blast
qed

end
