(* ===== verification/Spec2Isabelle.thy ===== *)
theory Spec2Isabelle
  imports Fault_Conversions Fault_Minimizer Fault_Projection Control_Plane_Turn_Commands
    Control_Plane_Stuck_State Plan_Determinism Pr_Resolver_Runs Cron_Occurrences
begin

text \<open>
  \<^bold>\<open>Control plane, plan interpreter, pull-request resolver and schedules of MoonMind.\<close>

  MoonMind runs third-party agent sessions and keeps one durable authority per session; it executes
  plans of tool invocations; it brings pull requests to a merge; and it starts workflows by schedule. This
  library verifies five parts of it, the first two under \<^verbatim>\<open>src/moonmind/omnigent\<close>, the third under
  \<^verbatim>\<open>src/moonmind/workflows/skills\<close>, the fourth in \<^verbatim>\<open>src/pr_resolver_core\<close> and its workflow, the fifth in
  \<^verbatim>\<open>src/moonmind/workflows/recurring\<close>.
  \<^item> The lifecycle reducer (\<^verbatim>\<open>reconciler/\<close>) is a pure function from the intent of a session, its
    durable state and the current observations to one decision. The fault laboratory
    (\<^verbatim>\<open>faultlab/\<close>) executes its decisions against a programmable provider that crashes, duplicates
    and lies, compares the run with a reference model, and checks eleven reliability properties.
  \<^item> The repositories (\<^verbatim>\<open>control_plane/\<close>) hold that durable state in seven tables: sessions, turn
    attempts, observations, commands, decisions, chat-binding aliases and cleanup authority. Every
    writer presents the revision and the fencing generation it read; a superseded supervisor, a
    racing worker or a late janitor must be refused by the tables themselves.
  \<^item> A plan is a graph of tool invocations whose inputs may refer to results of other nodes. The
    validator checks it against a pinned registry of tools, and the interpreter executes it,
    several nodes at a time, under a policy for failures.
  \<^item> The resolver reads snapshots of a pull request, classifies what stands against a merge, waits,
    starts bounded remediations or merges, and publishes one terminal result, within budgets for
    attempts, remediations and time.
  \<^item> A schedule is a cron expression in a time zone, of which the next occurrence is computed.

  The reducer expects exactly the revision and generation it was computed from (theorem about
  \<^const>\<open>reconcile\<close> in \<^verbatim>\<open>Reconciler\<close>), and the repositories apply a write only at the revision and
  generation it expects (theorems in \<^verbatim>\<open>Control_Plane_Safety\<close>); the first two parts meet in that contract.
  The interpreter relies on the validator in the same way: that no reference reads a missing result and
  that the run ends are theorems about validated plans (\<^verbatim>\<open>Plan_Execution\<close>, \<^verbatim>\<open>Plan_Determinism\<close>).

  \<^bold>\<open>Shared theories.\<close> \<^verbatim>\<open>Prelude\<close>: results as sums, ordered dictionaries as association lists,
  the lemmas and collections that carry the component proofs. \<^verbatim>\<open>Py_Runtime\<close>: what the source uses of
  Python (string methods, integers from text, JSON with its canonical dump, UTF-8, SHA-256,
  date arithmetic in microseconds).

  \<^bold>\<open>Reducer and fault laboratory.\<close>
  \<^item> \<^verbatim>\<open>Reconciler_Contracts\<close> (\<^verbatim>\<open>reconciler/contracts.py\<close>): vocabularies and frozen models as
    datatypes and records, with their validation.
  \<^item> \<^verbatim>\<open>Reconciler\<close> (\<^verbatim>\<open>reconciler/reducer.py\<close>): \<^const>\<open>reconcile\<close> with its guards in source order, and
    \<^const>\<open>shadow_compare\<close>. Exact conditions for submitting a turn, recording a terminal and releasing
    leases; fail-closed behaviour; finality of terminals; bounds of the next deadline.
  \<^item> \<^verbatim>\<open>Fault_Scenario\<close>, \<^verbatim>\<open>Fault_Provider\<close>, \<^verbatim>\<open>Reference_Model\<close>, \<^verbatim>\<open>Fault_Harness\<close> (the modules of the
    same names): the scenario vocabulary, the idempotent ledger, the oracle (each with the
    locale of its contract and an interpretation), and \<^const>\<open>run_plan\<close>.
  \<^item> \<^verbatim>\<open>Fault_Refinement\<close>, \<^verbatim>\<open>Fault_Progress\<close>, \<^verbatim>\<open>Fault_Invariants\<close> (\<^verbatim>\<open>invariants.py\<close>): a run of any valid
    plan refines the oracle, violates no property, and converges. The default budget of the code gives
    eighty rounds past the last scheduled fault; the measure of the convergence proof, which every
    honest round lowers, starts at sixteen at most, so the budget is enough.
  \<^item> \<^verbatim>\<open>Fault_Conversions\<close>, \<^verbatim>\<open>Fault_Minimizer\<close>, \<^verbatim>\<open>Fault_Projection\<close> (\<^verbatim>\<open>conversions.py\<close>,
    \<^verbatim>\<open>minimizer.py\<close>, \<^verbatim>\<open>projection.py\<close>): plans and scenarios convert back and forth; the minimizer
    terminates by the size of the plan and its result is locally minimal; the projection of a run
    is sound.

  \<^bold>\<open>Repositories.\<close>
  \<^item> \<^verbatim>\<open>Control_Plane_Records\<close> (\<^verbatim>\<open>records.py\<close>, \<^verbatim>\<open>identities.py\<close>): outcomes, errors, the seven records and
    the deterministic identifiers.
  \<^item> \<^verbatim>\<open>Control_Plane_Store\<close> (\<^verbatim>\<open>repositories.py\<close>, \<^verbatim>\<open>api_service/db/models.py\<close>): the tables as one record
    \<^typ>\<open>control_store\<close>, transactions as functions on it (an error rolls back), the unique indexes and
    foreign keys as tests that a write must pass.
  \<^item> \<^verbatim>\<open>Control_Plane_Sessions\<close>, \<^verbatim>\<open>Control_Plane_Runtime_Authority\<close>, \<^verbatim>\<open>Control_Plane_Turns\<close>,
    \<^verbatim>\<open>Control_Plane_Commands\<close>, \<^verbatim>\<open>Control_Plane_Cleanup\<close>, \<^verbatim>\<open>Control_Plane_Journal\<close>: one definition per
    repository method, the invariant of its table, and what each write may do to a row.
  \<^item> \<^verbatim>\<open>Control_Plane_Histories\<close>: the relation \<^const>\<open>store_step\<close> of all operations in any order, by any
    caller with any arguments. The locales \<open>row_history\<close> and \<open>versioned_rows\<close> state what a table of
    revisioned rows promises along a history and are interpreted on sessions, turns, commands and
    cleanups; a chat handle is settled once no allocation for its session is in flight.
  \<^item> \<^verbatim>\<open>Control_Plane_Safety\<close>: what holds over whole histories (no lost update, fenced supervisors,
    one claimant per command, one owner per cleanup generation, monotone turns) with a concrete
    instance of each.
  \<^item> \<^verbatim>\<open>Control_Plane_Turn_Commands\<close> (\<^verbatim>\<open>turn_commands.py\<close>): claiming and settling an instruction as
    transactions composed of the repository operations; a repeated claim never delivers twice.
  \<^item> \<^verbatim>\<open>Control_Plane_Stuck_State\<close> (\<^verbatim>\<open>stuck_state.py\<close>): the detector, equal to a table of declarative
    conditions, and the fenced response.

  \<^bold>\<open>Plans.\<close>
  \<^item> \<^verbatim>\<open>Plan_Values\<close>: the JSON-like values a plan carries, Python's equality, truth, membership and
    printing of them, the exceptions and the combinators of checks that may raise.
  \<^item> \<^verbatim>\<open>Plan_Contracts\<close> (\<^verbatim>\<open>tool_plan_contracts.py\<close>, \<^verbatim>\<open>tool_registry.py\<close>): the records with the checks of
    their constructors and their payloads, and the registry snapshot.
  \<^item> \<^verbatim>\<open>Plan_Graph\<close>, \<^verbatim>\<open>Plan_Validation\<close> (\<^verbatim>\<open>plan_validation.py\<close>): \<^const>\<open>topological_sort\<close> and
    \<^const>\<open>is_reachable\<close>, correct against acyclicity and the transitive closure; the schema and input
    checks, equal to inductive definitions of well-formed schemas and conforming values; and
    \<^const>\<open>validate_plan\<close>, which accepts exactly the plans of a declarative specification, and the
    exact condition under which a KeyError escapes from it.
  \<^item> \<^verbatim>\<open>Plan_Executor\<close> (\<^verbatim>\<open>plan_executor.py\<close>): the coroutine \<open>run\<close> as the relation \<^const>\<open>run_step\<close>. The
    code between two \<open>await\<close>s is a function on the local state; which tasks an \<open>await\<close> finds done, in
    which order and with which outcome, is chosen by the environment.
  \<^item> \<^verbatim>\<open>Plan_Execution\<close>: locales for machines with an invariant, a measure and a stopping condition,
    interpreted on the interpreter: the nodes stay partitioned, concurrency and dependencies are
    respected, the verdict says what happened, and a run of \<open>n\<close> nodes ends within \<open>3 * n + 2\<close> steps (a
    node is tried, awaited and recorded at most once, and two steps begin and end the run).
  \<^item> \<^verbatim>\<open>Plan_Determinism\<close>: every schedule computes what executing the nodes one by one computes, and
    the only exceptions that leave \<open>run\<close>, with the exact condition of the one a node's inputs cause.

  \<^bold>\<open>Pull requests.\<close>
  \<^item> \<^verbatim>\<open>Pr_Resolver_Core\<close> (\<^verbatim>\<open>pr_resolver_core/\<close>): snapshots of two hosts normalized into one record, the
    classification with its exact condition for a merge, and the reducer that charges the budgets.
  \<^item> \<^verbatim>\<open>Pr_Resolver_Workflow\<close> (\<^verbatim>\<open>workflows/temporal/workflows/pr_resolver.py\<close>): the workflow as steps that
    change its state and give a value or are left by an exception. The service is a parameter: the
    reply to a call and the time are functions of the calls answered before. The loop runs for a
    given number of rounds, and \<open>None\<close> says that it is still going.
  \<^item> \<^verbatim>\<open>Pr_Resolver_Runs\<close>: weakest preconditions of the steps, the invariant of the budgets and of the
    evidence behind every merge and every child (the latest snapshot where the shared core decides, the
    verdict of the gate on that snapshot where it does not), and the bound on the rounds: every round that continues has slept a
    poll interval or charged a remediation, so \<open>3 * r + t / p\<close> rounds (rounded up) are enough for \<open>r\<close>
    remediations of a kind, \<open>t\<close> seconds and an interval of \<open>p\<close>.
  \<^item> \<^verbatim>\<open>Machines\<close>: the contracts of a machine that keeps an invariant, lowers a measure and stops, as
    locales that the plan interpreter and the resolver instantiate.

  \<^bold>\<open>Schedules.\<close>
  \<^item> \<^verbatim>\<open>Calendar\<close>: the dates of \<^verbatim>\<open>datetime\<close>, whose two conversions are inverse, and the zones of
    \<^verbatim>\<open>zoneinfo\<close> with the \<open>fold\<close> of a repeated hour.
  \<^item> \<^verbatim>\<open>Cron\<close> (\<^verbatim>\<open>recurring/cron.py\<close>): the parser, which accepts texts of exactly the well-formed schedules
    and inverts their printing, the match of a local time and the scan minute by minute.
  \<^item> \<^verbatim>\<open>Cron_Occurrences\<close>: the scan returns the first matching minute, after the given time except in a
    repeated hour. Its default length of 1830 days is enough for every schedule that names a day of
    the next four years; the twenty-ninth of February is one only if one of them is a leap year, and
    around 2100 the computation ends with its error.

  \<^bold>\<open>Conventions.\<close> Python strings are lists of characters, unbounded integers are \<^typ>\<open>int\<close>; an
  argument left at the sentinel \<open>_UNSET\<close> is an outer \<open>None\<close>, an explicit null is \<open>Some None\<close>. Each
  exception is a value of an error type, with its message in the plan theories, where the interpreter
  records it, and without it elsewhere. The executor, the artifact store and the clock that are
  injected into the interpreter are parameters: an arbitrary relation from invocations to outcomes,
  the answer to a sequence of writes, the text of the n-th reading. A float is its exact value with
  the text Python prints for it.

  A repository call that writes is one step: the code holds the lock of the row it writes until its
  transaction ends, and the interleaving of calls is the order of the steps of a history. Three
  operations read without a lock. \<open>allocate_chat_binding\<close> decides on a row it has not locked: its
  load and its flush are also steps of their own (\<open>allocation_loaded\<close>, \<open>allocation_flushed\<close>, or
  \<open>allocation_dropped\<close> when the transaction fails), with the allocations in flight in
  \<open>db_allocations\<close>, and a late flush overwrites a handle that was granted meanwhile. \<open>create_turn\<close>
  looks for an equal turn before it inserts: where a concurrent insert wins, the code refuses the
  loser with a conflict, where the model, in which the loser comes after the winner, finds the row;
  neither changes the store. \<open>compare_and_swap_turn\<close> locks the turn and reads the session that
  guards it unlocked; its step is the moment of that read.

  \<^bold>\<open>Not modelled.\<close> Creation and update timestamps and the queries ordered by them; telemetry
  counters and spans; length limits of database columns and the width of integer columns;
  deletion and migration jobs; HTTP, Docker and file access; the random plan generator, since the
  theorems hold for every plan; the parsing of plan and tool payloads and the ISO-8601 form of the
  creation time of a plan; the start input of the resolver built from an agent request, and the
  schema check of that request, which is a parameter; the time zone database, which is a parameter too, and
  a given time that carries the very zone of its schedule and names a skipped hour. The remaining packages are listed in the manifest with the reason.
\<close>

end
